(* ===== verification/Prelude.thy ===== *)
theory Prelude
  imports Complex_Main "HOL-Library.AList" "HOL-Library.Multiset" "HOL-Library.Monad_Syntax"
begin

section \<open>Shared vocabulary: decimals, numeric strings, 64-bit counters, lists\<close>

text \<open>
  The types and lemmas every component uses.

  \<^item> \<open>dec\<close> is the number a \<open>decimal.Decimal\<close> denotes. The program compares decimals by value
    only (\<open>Equal\<close>, \<open>LessThan\<close>, \<open>IsZero\<close>, \<dots>), and the documentation of
    \<open>github.com/shopspring/decimal\<close> states that \<open>Add\<close>, \<open>Sub\<close>, \<open>Mul\<close> and \<open>Neg\<close> lose no
    precision, so these are the operations of the rationals.
  \<^item> \<open>Div\<close>, \<open>Round\<close> and \<open>Pow\<close> do lose precision and are code outside the repository. They are
    the fields of a record \<open>decimal_lib\<close>, a parameter of every definition that calls them.
    \<open>Div\<close> answers \<open>None\<close> where the library panics.
  \<^item> \<open>dstring\<close> is a string that the program builds only as \<open>""\<close> or as \<open>d.String()\<close>.
  \<^item> \<open>add64\<close> is the wrapping addition of the \<open>atomic.Int64\<close> counters.
\<close>

named_theorems calc_defs \<open>definitions of the pure calculations\<close>
named_theorems book_defs \<open>definitions of the order book's operations\<close>
named_theorems cache_defs \<open>definitions of the caches' operations\<close>

type_synonym dec = rat

subsection \<open>The decimal library\<close>

record decimal_lib =
  Div :: "dec \<Rightarrow> dec \<Rightarrow> dec option"
  Round :: "int \<Rightarrow> dec \<Rightarrow> dec"
  Pow :: "dec \<Rightarrow> dec \<Rightarrow> dec"

text \<open>
  What the code relies on: dividing by zero panics; any other quotient has
  \<open>DivisionPrecision\<close> = 16 digits after the point and is less than one unit of the last
  digit away from the exact one. The rounding mode is not assumed.
\<close>

definition ulp :: dec where
  "ulp = 1 / 10 ^ 16"

definition div_law :: "decimal_lib \<Rightarrow> bool" where
  "div_law D \<longleftrightarrow>
     (\<forall>a. Div D a 0 = None) \<and>
     (\<forall>a b. b \<noteq> 0 \<longrightarrow>
        (\<exists>k::int. Div D a b = Some (of_int k * ulp) \<and> \<bar>of_int k * ulp - a / b\<bar> < ulp))"

lemma ulp_pos [simp]: "0 < ulp"
  by (simp add: ulp_def)

lemma ulp_nonneg [simp]: "0 \<le> ulp"
  by (simp add: ulp_def)

lemma one_is_multiple: "(1::dec) = of_int (10 ^ 16) * ulp"
  by (simp add: ulp_def)

locale decimal =
  fixes D :: decimal_lib
  assumes law: "div_law D"
begin

lemma div_zero [simp]: "Div D a 0 = None"
  using law by (simp add: div_law_def)

lemma div_near:
  assumes "Div D a b = Some q" and "b \<noteq> 0"
  obtains k :: int where "q = of_int k * ulp" and "\<bar>q - a / b\<bar> < ulp"
  using law assms unfolding div_law_def by (metis option.inject)

lemma div_defined: "b \<noteq> 0 \<Longrightarrow> \<exists>q. Div D a b = Some q"
  using law unfolding div_law_def by blast

lemma div_panics_iff: "Div D a b = None \<longleftrightarrow> b = 0"
  using div_defined [of b a] by (cases "b = 0") auto

text \<open>
  A rounded quotient stays on its side of every multiple of the last digit; the bounds below
  are all of this shape.
\<close>

lemma div_le_multiple:
  assumes "Div D a b = Some q" and "b \<noteq> 0" and "a / b \<le> of_int n * ulp"
  shows "q \<le> of_int n * ulp"
proof -
  obtain k :: int where q: "q = of_int k * ulp" and near: "\<bar>q - a / b\<bar> < ulp"
    using assms(1,2) by (rule div_near)
  from near assms(3) have "of_int k * ulp < of_int (n + 1) * ulp"
    by (simp add: q abs_less_iff distrib_right)
  then have "k < n + 1" by (simp only: mult_less_cancel_right_pos ulp_pos of_int_less_iff)
  then show ?thesis by (simp add: q)
qed

lemma div_ge_multiple:
  assumes "Div D a b = Some q" and "b \<noteq> 0" and "of_int n * ulp \<le> a / b"
  shows "of_int n * ulp \<le> q"
proof -
  obtain k :: int where q: "q = of_int k * ulp" and near: "\<bar>q - a / b\<bar> < ulp"
    using assms(1,2) by (rule div_near)
  from near assms(3) have "of_int n * ulp < of_int (k + 1) * ulp"
    by (simp add: q abs_less_iff distrib_right)
  then have "n < k + 1" by (simp only: mult_less_cancel_right_pos ulp_pos of_int_less_iff)
  then show ?thesis by (simp add: q)
qed

lemma div_nonneg: "Div D a b = Some q \<Longrightarrow> b \<noteq> 0 \<Longrightarrow> 0 \<le> a / b \<Longrightarrow> 0 \<le> q"
  using div_ge_multiple [of a b q 0] by simp

lemma div_nonpos: "Div D a b = Some q \<Longrightarrow> b \<noteq> 0 \<Longrightarrow> a / b \<le> 0 \<Longrightarrow> q \<le> 0"
  using div_le_multiple [of a b q 0] by simp

lemma div_le_one: "Div D a b = Some q \<Longrightarrow> b \<noteq> 0 \<Longrightarrow> a / b \<le> 1 \<Longrightarrow> q \<le> 1"
  by (metis one_is_multiple div_le_multiple)

lemma div_exact:
  assumes "Div D a b = Some q" and "b \<noteq> 0" and "a / b = of_int n * ulp"
  shows "q = a / b"
  using div_le_multiple [of a b q n] div_ge_multiple [of a b q n] assms by simp

lemma div_exact_int:
  assumes "b \<noteq> 0" and "a = of_int n * b"
  shows "Div D a b = Some (of_int n)"
proof -
  obtain q where q: "Div D a b = Some q" using div_defined [OF assms(1)] by auto
  have "a / b = of_int (n * 10 ^ 16) * ulp" using assms by (simp add: ulp_def)
  from div_exact [OF q assms(1) this] q assms show ?thesis by simp
qed

lemma div_error:
  assumes "Div D a b = Some q" and "b \<noteq> 0"
  shows "\<bar>q - a / b\<bar> < ulp"
  using assms by (auto elim: div_near)

end

text \<open>
  An instance, used by the witnesses only: quotients rounded half away from zero.
\<close>

definition round_away :: "nat \<Rightarrow> dec \<Rightarrow> dec" where
  "round_away n x = sgn x * of_int \<lfloor>\<bar>x\<bar> * 10 ^ n + 1 / 2\<rfloor> / 10 ^ n"

definition dec16 :: decimal_lib where
  "dec16 = \<lparr>Div = (\<lambda>a b. if b = 0 then None else Some (round_away 16 (a / b))),
            Round = (\<lambda>p x. round_away (nat p) x),
            Pow = (\<lambda>x y. x ^ nat \<lfloor>y\<rfloor>)\<rparr>"

lemma round_away_multiple: "\<exists>k::int. round_away n x = of_int k / 10 ^ n"
proof -
  have "sgn x = of_int (if 0 < x then 1 else if x < 0 then - 1 else 0)"
    by (simp add: sgn_if)
  then have "round_away n x =
      of_int ((if 0 < x then 1 else if x < 0 then - 1 else 0) * \<lfloor>\<bar>x\<bar> * 10 ^ n + 1 / 2\<rfloor>) / 10 ^ n"
    by (simp only: round_away_def of_int_mult)
  then show ?thesis by blast
qed

lemma round_away_near: "\<bar>round_away n x - x\<bar> < 1 / 10 ^ n"
proof -
  define m :: dec where "m = 10 ^ n"
  define f :: dec where "f = of_int \<lfloor>\<bar>x\<bar> * m + 1 / 2\<rfloor>"
  have m: "0 < m" by (simp add: m_def)
  have "f \<le> \<bar>x\<bar> * m + 1 / 2" and "\<bar>x\<bar> * m + 1 / 2 < f + 1"
    unfolding f_def by linarith+
  then have "\<bar>f - \<bar>x\<bar> * m\<bar> < 1" by linarith
  then have "\<bar>f / m - \<bar>x\<bar>\<bar> < 1 / m"
    using m by (simp add: field_simps abs_less_iff)
  moreover have "\<bar>sgn x * f / m - x\<bar> \<le> \<bar>f / m - \<bar>x\<bar>\<bar>"
    by (cases "0 < x"; cases "x = 0") (auto simp: sgn_if abs_if)
  ultimately show ?thesis by (simp add: round_away_def f_def m_def)
qed

lemma dec16_law: "div_law dec16"
  unfolding div_law_def
proof (intro conjI allI impI)
  fix a b :: dec
  assume b: "b \<noteq> 0"
  obtain k :: int where "round_away 16 (a / b) = of_int k / 10 ^ 16"
    using round_away_multiple by blast
  then have "round_away 16 (a / b) = of_int k * ulp" by (simp add: ulp_def)
  moreover have "\<bar>round_away 16 (a / b) - a / b\<bar> < ulp"
    using round_away_near [of 16 "a / b"] by (simp add: ulp_def)
  ultimately show "\<exists>k::int. Div dec16 a b = Some (of_int k * ulp) \<and> \<bar>of_int k * ulp - a / b\<bar> < ulp"
    using b by (auto simp: dec16_def)
qed (simp add: dec16_def)

interpretation dec16: decimal dec16
  by unfold_locales (rule dec16_law)

subsection \<open>Numeric strings\<close>

text \<open>
  The positions in the cache keep their numbers as strings. Every one of them is written as
  \<open>""\<close> or as \<open>d.String()\<close> and read by \<open>d, _ := decimal.NewFromString(s)\<close>: the printed number
  is read back, and \<open>""\<close> is an error whose value is zero.
\<close>

datatype dstring = Blank | Shown dec

fun NewFromString :: "dstring \<Rightarrow> dec" where
  "NewFromString Blank = 0"
| "NewFromString (Shown d) = d"

subsection \<open>64-bit counters\<close>

definition wrap64 :: "int \<Rightarrow> int" where
  "wrap64 n = (n + 2 ^ 63) mod 2 ^ 64 - 2 ^ 63"

definition add64 :: "int \<Rightarrow> int \<Rightarrow> int" where
  "add64 m n = wrap64 (m + n)"

lemma add64_exact: "- (2 ^ 63) \<le> m + n \<Longrightarrow> m + n < 2 ^ 63 \<Longrightarrow> add64 m n = m + n"
  by (simp add: add64_def wrap64_def)

lemma add64_range: "- (2 ^ 63) \<le> add64 m n \<and> add64 m n < 2 ^ 63"
  by (simp add: add64_def wrap64_def)

subsection \<open>Association lists, the Go maps of the model\<close>

lemma map_of_alist_update [simp]: "map_of (AList.update k v al) = (map_of al)(k \<mapsto> v)"
  by (rule update_conv')

lemma map_of_alist_delete [simp]: "map_of (AList.delete k al) = (map_of al)(k := None)"
  by (rule delete_conv')

lemma alist_delete_update [simp]: "AList.delete k (AList.update k v al) = AList.delete k al"
  by (induction al) auto

lemma apfst_eq_iff: "apfst f r = (a, b) \<longleftrightarrow> (\<exists>c. r = (c, b) \<and> a = f c)"
  by (cases r) auto

lemma option_ext:
  assumes "\<And>r. x = Some r \<longleftrightarrow> y = Some r"
  shows "x = y"
proof (cases x)
  case None
  then have "y \<noteq> Some r" for r using assms [of r] by simp
  from this [of "the y"] have "y = None" by (cases y) simp_all
  with None show ?thesis by simp
next
  case (Some r)
  then show ?thesis using assms [of r] by simp
qed

lemma alist_distinct_update [intro]: "distinct (map fst al) \<Longrightarrow> distinct (map fst (AList.update k v al))"
  by (rule distinct_update)

lemma alist_distinct_delete [intro]: "distinct (map fst al) \<Longrightarrow> distinct (map fst (AList.delete k al))"
  by (rule distinct_delete)

lemma find_SomeD: "List.find P xs = Some x \<Longrightarrow> x \<in> set xs \<and> P x"
  by (induction xs) (auto split: if_splits)

lemma in_map_filter: "y \<in> set (List.map_filter f xs) \<longleftrightarrow> (\<exists>x \<in> set xs. f x = Some y)"
  by (induction xs) (auto simp: map_filter_simps split: option.split)

lemma map_filter_eq: "(\<And>x. x \<in> set xs \<Longrightarrow> f x = g x) \<Longrightarrow> List.map_filter f xs = List.map_filter g xs"
  by (induction xs) (auto simp: map_filter_simps split: option.split)

text \<open>Stores are reasoned about by lookup, not by membership of pairs.\<close>

declare map_of_eq_Some_iff [simp del] Some_eq_map_of_iff [simp del]

text \<open>The sum of a measure over the values of a store, and how the store's operations change it.\<close>

definition al_sum :: "('v \<Rightarrow> dec) \<Rightarrow> ('k \<times> 'v) list \<Rightarrow> dec" where
  "al_sum f al = sum_list (map (\<lambda>(k, v). f v) al)"

lemma al_sum_simps [simp]: "al_sum f [] = 0" "al_sum f ((k, v) # al) = f v + al_sum f al"
  by (simp_all add: al_sum_def)

lemma al_sum_fresh: "map_of al k = None \<Longrightarrow> al_sum f (AList.update k v al) = al_sum f al + f v"
  by (induction al) (auto split: if_splits)

lemma al_sum_update:
  "map_of al k = Some v \<Longrightarrow> al_sum f (AList.update k v' al) = al_sum f al - f v + f v'"
  by (induction al) (auto split: if_splits)

lemma al_sum_absent: "map_of al k = None \<Longrightarrow> al_sum f (AList.delete k al) = al_sum f al"
  by (induction al) (auto split: if_splits)

lemma al_sum_delete:
  "distinct (map fst al) \<Longrightarrow> map_of al k = Some v \<Longrightarrow> al_sum f (AList.delete k al) = al_sum f al - f v"
proof (induction al)
  case (Cons x al)
  show ?case
  proof (cases "fst x = k")
    case True
    with Cons.prems have "map_of al k = None" by (auto simp: map_of_eq_None_iff)
    then have "AList.delete k al = al" by (simp add: delete_id map_of_eq_None_iff)
    with True Cons.prems show ?thesis by (cases x) simp
  qed (use Cons in \<open>cases x; auto\<close>)
qed simp

lemma al_sum_nonneg: "(\<And>k v. map_of al k = Some v \<Longrightarrow> 0 \<le> f v) \<Longrightarrow> distinct (map fst al) \<Longrightarrow> 0 \<le> al_sum f al"
  unfolding al_sum_def by (rule sum_list_nonneg) (auto simp: map_of_eq_Some_iff)

end
