(* ===== verification/Order_Book.thy ===== *)
theory Order_Book
  imports Prelude
begin

section \<open>The limit order book (\<open>internal/engine/orderbook/orderbook.go\<close>)\<close>

text \<open>
  The book's data and operations. Every method runs under the book's mutex, so it is one state
  transformation \<open>book \<Rightarrow> \<dots> \<times> book\<close>.

  Orders are shared by pointer between a price level and the index of orders by ID. Here both
  hold the order by value, and a fill writes the remaining quantity to both places
  (\<open>store_order\<close>), which is what the shared pointer does as long as no two resting orders
  have the same ID; the IDs the callers use come from \<open>NextOrderID\<close>. The Go map of the index
  is an association list, so that its size is computed. The \<open>Timestamp\<close> fields are written by
  the book and read by nobody, and are left out.
\<close>

subsection \<open>Data\<close>

record order =
  oID :: int
  oUserID :: int
  oSide :: int
  oPrice :: dec
  oQuantity :: dec
  oIsMaker :: bool

record ob_trade =
  tBuyOrderID :: int
  tSellOrderID :: int
  tBuyUserID :: int
  tSellUserID :: int
  tPrice :: dec
  tQuantity :: dec

record level =
  lPrice :: dec
  lOrders :: "order list"
  lTotal :: dec

type_synonym order_index = "(int \<times> order) list"

record book =
  bids :: "level list"
  asks :: "level list"
  orderIndex :: order_index
  nextID :: int

definition NewBook :: book where
  "NewBook = \<lparr>bids = [], asks = [], orderIndex = [], nextID = 1\<rparr>"

definition SetNextID :: "int \<Rightarrow> book \<Rightarrow> book" where
  "SetNextID i b = b\<lparr>nextID := i\<rparr>"

definition NextOrderID :: "book \<Rightarrow> int \<times> book" where
  "NextOrderID b = (let n = add64 (nextID b) 1 in (n, b\<lparr>nextID := n\<rparr>))"

subsection \<open>Matching\<close>

definition mk_trade :: "bool \<Rightarrow> order \<Rightarrow> order \<Rightarrow> dec \<Rightarrow> ob_trade" where
  "mk_trade isBuyer taker maker fillQty =
     (if isBuyer then
        \<lparr>tBuyOrderID = oID taker, tSellOrderID = oID maker,
         tBuyUserID = oUserID taker, tSellUserID = oUserID maker,
         tPrice = oPrice maker, tQuantity = fillQty\<rparr>
      else
        \<lparr>tBuyOrderID = oID maker, tSellOrderID = oID taker,
         tBuyUserID = oUserID maker, tSellUserID = oUserID taker,
         tPrice = oPrice maker, tQuantity = fillQty\<rparr>)"

text \<open>The effect of a write through an order pointer on what the index sees.\<close>

definition store_order :: "order \<Rightarrow> order_index \<Rightarrow> order_index" where
  "store_order ord idx =
     (case map_of idx (oID ord) of None \<Rightarrow> idx | Some _ \<Rightarrow> AList.update (oID ord) ord idx)"

text \<open>
  The inner loop, over the orders of the best level: trades so far, the taker, what is left of
  the level's orders and of its total, and the index.
\<close>

function matchOrders ::
    "bool \<Rightarrow> order \<Rightarrow> order list \<Rightarrow> dec \<Rightarrow> order_index \<Rightarrow>
     ob_trade list \<times> order \<times> order list \<times> dec \<times> order_index" where
  "matchOrders isBuyer taker [] tot idx = ([], taker, [], tot, idx)"
| "matchOrders isBuyer taker (maker # rest) tot idx =
     (if 0 < oQuantity taker then
        let fillQty = min (oQuantity taker) (oQuantity maker);
            trade = mk_trade isBuyer taker maker fillQty;
            taker' = taker\<lparr>oQuantity := oQuantity taker - fillQty\<rparr>;
            maker' = maker\<lparr>oQuantity := oQuantity maker - fillQty\<rparr>;
            tot' = tot - fillQty;
            idx' = store_order maker' idx
        in if oQuantity maker' = 0
           then apfst (Cons trade)
                  (matchOrders isBuyer taker' rest tot' (AList.delete (oID maker) idx'))
           else apfst (Cons trade)
                  (matchOrders isBuyer taker' (maker' # rest) tot' idx')
      else ([], taker, maker # rest, tot, idx))"
  by pat_completeness auto
termination
  by (relation "measures [\<lambda>(_, _, os, _, _). length os, \<lambda>(_, t, _, _, _). if 0 < oQuantity t then 1 else 0]")
     (auto simp: min_def split: if_splits)

declare matchOrders.simps [simp del]

text \<open>
  The three cases of one pass: the taker has nothing left, the maker is filled and removed, or
  the taker is filled by a part of the maker.
\<close>

lemma delete_store_order [simp]: "AList.delete (oID m) (store_order (m\<lparr>oQuantity := q\<rparr>) idx) = AList.delete (oID m) idx"
  by (simp add: store_order_def split: option.splits)

lemma matchOrders_Nil [simp]: "matchOrders b t [] tot ix = ([], t, [], tot, ix)"
  by (simp add: matchOrders.simps)

lemma matchOrders_stop [simp]: "oQuantity t \<le> 0 \<Longrightarrow> matchOrders b t os tot ix = ([], t, os, tot, ix)"
  by (cases os) (simp_all add: matchOrders.simps)

lemma matchOrders_fill:
  assumes "0 < oQuantity t" and "oQuantity m \<le> oQuantity t"
  shows "matchOrders b t (m # os) tot ix =
    apfst (Cons (mk_trade b t m (oQuantity m)))
      (matchOrders b (t\<lparr>oQuantity := oQuantity t - oQuantity m\<rparr>) os (tot - oQuantity m)
         (AList.delete (oID m) ix))"
  using assms by (simp add: matchOrders.simps(2) [of b t m] Let_def min_absorb2)

lemma matchOrders_partial:
  assumes "0 < oQuantity t" and "oQuantity t < oQuantity m"
  shows "matchOrders b t (m # os) tot ix =
    ([mk_trade b t m (oQuantity t)], t\<lparr>oQuantity := 0\<rparr>,
     m\<lparr>oQuantity := oQuantity m - oQuantity t\<rparr> # os, tot - oQuantity t,
     store_order (m\<lparr>oQuantity := oQuantity m - oQuantity t\<rparr>) ix)"
  using assms by (simp add: matchOrders.simps(2) [of b t m] Let_def min_absorb1)

lemma match_cases [case_names stop fill part]:
  assumes "oQuantity t \<le> 0 \<Longrightarrow> P"
    and "0 < oQuantity t \<Longrightarrow> oQuantity m \<le> oQuantity t \<Longrightarrow> P"
    and "0 < oQuantity t \<Longrightarrow> oQuantity t < oQuantity m \<Longrightarrow> P"
  shows P
  using assms by linarith

text \<open>The loop leaves the level empty or the taker filled.\<close>

lemma matchOrders_exit:
  "matchOrders b t os tot ix = (ts, t', os', tot', ix') \<Longrightarrow> os' = [] \<or> oQuantity t' \<le> 0"
proof (induction os arbitrary: t tot ix ts)
  case (Cons m os)
  show ?case
  proof (rule match_cases [where t = t and m = m])
    assume "0 < oQuantity t" "oQuantity m \<le> oQuantity t"
    with Cons.prems Cons.IH show ?thesis
      by (auto simp: matchOrders_fill apfst_def map_prod_def split: prod.splits)
  qed (use Cons.prems in \<open>auto simp: matchOrders_partial\<close>)
qed simp

text \<open>The price test of the outer loop. A taker without a positive price has no limit.\<close>

definition crosses :: "bool \<Rightarrow> order \<Rightarrow> dec \<Rightarrow> bool" where
  "crosses isBuyer taker bestPrice \<longleftrightarrow>
     \<not> (isBuyer \<and> 0 < oPrice taker \<and> oPrice taker < bestPrice) \<and>
     \<not> (\<not> isBuyer \<and> 0 < oPrice taker \<and> bestPrice < oPrice taker)"

function matchAgainst ::
    "bool \<Rightarrow> order \<Rightarrow> level list \<Rightarrow> order_index \<Rightarrow>
     ob_trade list \<times> order \<times> level list \<times> order_index" where
  "matchAgainst isBuyer taker [] idx = ([], taker, [], idx)"
| "matchAgainst isBuyer taker (best # side) idx =
     (if 0 < oQuantity taker \<and> crosses isBuyer taker (lPrice best) then
        case matchOrders isBuyer taker (lOrders best) (lTotal best) idx of
          (ts, taker', os, tot, idx') \<Rightarrow>
            let best' = best\<lparr>lOrders := os, lTotal := tot\<rparr>
            in apfst (append ts)
                 (matchAgainst isBuyer taker' (if os = [] then side else best' # side) idx')
      else ([], taker, best # side, idx))"
  by pat_completeness auto
termination
  by (relation "measures [\<lambda>(_, _, ls, _). length ls, \<lambda>(_, t, _, _). if 0 < oQuantity t then 1 else 0]")
     (auto dest!: sym [of "(_, _, _, _, _)"] dest: matchOrders_exit split: if_splits)

declare matchAgainst.simps [simp del]

subsection \<open>Inserting a resting order\<close>

text \<open>\<open>sort.Search\<close> of the Go library: binary search for the least index with \<open>f\<close>.\<close>

function sort_Search_from :: "(nat \<Rightarrow> bool) \<Rightarrow> nat \<Rightarrow> nat \<Rightarrow> nat" where
  "sort_Search_from f i j =
     (if i < j then
        let h = (i + j) div 2
        in if \<not> f h then sort_Search_from f (h + 1) j else sort_Search_from f i h
      else i)"
  by pat_completeness auto
termination
  by (relation "measure (\<lambda>(f, i, j). j - i)") auto

declare sort_Search_from.simps [simp del]

definition sort_Search :: "nat \<Rightarrow> (nat \<Rightarrow> bool) \<Rightarrow> nat" where
  "sort_Search n f = sort_Search_from f 0 n"

definition insertIntoSide :: "level list \<Rightarrow> order \<Rightarrow> bool \<Rightarrow> level list" where
  "insertIntoSide side ord descending =
     (let idx = sort_Search (length side)
                  (\<lambda>i. if descending then lPrice (side ! i) \<le> oPrice ord
                       else oPrice ord \<le> lPrice (side ! i))
      in if idx < length side \<and> lPrice (side ! idx) = oPrice ord
         then side[idx := (side ! idx)\<lparr>lOrders := lOrders (side ! idx) @ [ord],
                                       lTotal := lTotal (side ! idx) + oQuantity ord\<rparr>]
         else take idx side @ \<lparr>lPrice = oPrice ord, lOrders = [ord], lTotal = oQuantity ord\<rparr>
                # drop idx side)"

definition insertOrder :: "order \<Rightarrow> book \<Rightarrow> book" where
  "insertOrder ord b =
     (let b' = b\<lparr>orderIndex := AList.update (oID ord) ord (orderIndex b)\<rparr>
      in if oSide ord = 1 then b'\<lparr>bids := insertIntoSide (bids b') ord True\<rparr>
         else b'\<lparr>asks := insertIntoSide (asks b') ord False\<rparr>)"

subsection \<open>Removing an order\<close>

text \<open>The inner loop of \<open>removeOrder\<close>: delete the first order with the ID, if there is one.\<close>

fun removeFromLevel :: "int \<Rightarrow> order list \<Rightarrow> order list option" where
  "removeFromLevel i [] = None"
| "removeFromLevel i (ord # os) =
     (if oID ord = i then Some os else map_option (Cons ord) (removeFromLevel i os))"

fun removeFromSide :: "order \<Rightarrow> level list \<Rightarrow> level list" where
  "removeFromSide ord [] = []"
| "removeFromSide ord (l # ls) =
     (if lPrice l = oPrice ord then
        case removeFromLevel (oID ord) (lOrders l) of
          Some os \<Rightarrow>
            (if os = [] then ls
             else l\<lparr>lOrders := os, lTotal := lTotal l - oQuantity ord\<rparr> # ls)
        | None \<Rightarrow> l # removeFromSide ord ls
      else l # removeFromSide ord ls)"

definition removeOrder :: "order \<Rightarrow> book \<Rightarrow> book" where
  "removeOrder ord b =
     (let b' = b\<lparr>orderIndex := AList.delete (oID ord) (orderIndex b)\<rparr>
      in if oSide ord = 1 then b'\<lparr>bids := removeFromSide ord (bids b')\<rparr>
         else b'\<lparr>asks := removeFromSide ord (asks b')\<rparr>)"

subsection \<open>The public operations\<close>

text \<open>\<open>PlaceLimit\<close> returns the trades and the resting remainder, if any.\<close>

definition PlaceLimit :: "order \<Rightarrow> book \<Rightarrow> (ob_trade list \<times> order option) \<times> book" where
  "PlaceLimit ord b =
     (let taker = ord\<lparr>oIsMaker := False\<rparr>;
          (trades, taker', b') =
            (if oSide ord = 1 then
               (case matchAgainst True taker (asks b) (orderIndex b) of
                  (ts, t, side, idx) \<Rightarrow> (ts, t, b\<lparr>asks := side, orderIndex := idx\<rparr>))
             else
               (case matchAgainst False taker (bids b) (orderIndex b) of
                  (ts, t, side, idx) \<Rightarrow> (ts, t, b\<lparr>bids := side, orderIndex := idx\<rparr>)))
      in if 0 < oQuantity taker' then
           let maker = taker'\<lparr>oIsMaker := True\<rparr> in ((trades, Some maker), insertOrder maker b')
         else ((trades, None), b'))"

datatype book_error = MarketOrderWithPrice dec

definition PlaceMarket :: "order \<Rightarrow> book \<Rightarrow> (book_error + ob_trade list) \<times> book" where
  "PlaceMarket ord b =
     (if 0 < oPrice ord then (Inl (MarketOrderWithPrice (oPrice ord)), b)
      else
        let taker = ord\<lparr>oIsMaker := False\<rparr>
        in if oSide ord = 1 then
             (case matchAgainst True taker (asks b) (orderIndex b) of
                (ts, t, side, idx) \<Rightarrow> (Inr ts, b\<lparr>asks := side, orderIndex := idx\<rparr>))
           else
             (case matchAgainst False taker (bids b) (orderIndex b) of
                (ts, t, side, idx) \<Rightarrow> (Inr ts, b\<lparr>bids := side, orderIndex := idx\<rparr>)))"

definition Cancel :: "int \<Rightarrow> book \<Rightarrow> order option \<times> book" where
  "Cancel orderID b =
     (case map_of (orderIndex b) orderID of
        None \<Rightarrow> (None, b)
      | Some ord \<Rightarrow> (Some ord, removeOrder ord b))"

subsection \<open>Queries\<close>

definition BestBid :: "book \<Rightarrow> dec \<times> dec" where
  "BestBid b = (case bids b of [] \<Rightarrow> (0, 0) | l # _ \<Rightarrow> (lPrice l, lTotal l))"

definition BestAsk :: "book \<Rightarrow> dec \<times> dec" where
  "BestAsk b = (case asks b of [] \<Rightarrow> (0, 0) | l # _ \<Rightarrow> (lPrice l, lTotal l))"

definition Spread :: "book \<Rightarrow> dec" where
  "Spread b =
     (let bid = fst (BestBid b); ask = fst (BestAsk b)
      in if bid = 0 \<or> ask = 0 then 0 else ask - bid)"

text \<open>
  A depth snapshot: price and quantity as printed. \<open>make\<close> with a negative capacity panics.
\<close>

type_synonym depth_level = "dstring \<times> dstring"

definition depth_side :: "nat \<Rightarrow> level list \<Rightarrow> depth_level list" where
  "depth_side n side = map (\<lambda>l. (Shown (lPrice l), Shown (lTotal l))) (take n side)"

definition Depth :: "int \<Rightarrow> book \<Rightarrow> (depth_level list \<times> depth_level list) option" where
  "Depth levels b =
     (if levels < 0 then None
      else Some (depth_side (nat levels) (bids b), depth_side (nat levels) (asks b)))"

definition OrderCount :: "book \<Rightarrow> nat" where
  "OrderCount b = length (orderIndex b)"

end
