(* ===== verification/Book_Matching.thy ===== *)
theory Book_Matching
  imports Order_Book
begin

section \<open>What matching does\<close>

text \<open>
  The abstract view of one side of the book is its queue: the resting orders in the order in
  which they are to be filled. \<open>exec_queue\<close> is price-time priority matching over a queue,
  without levels, totals or index. The lemmas show that the two nested loops of
  \<open>matchAgainst\<close> compute it, keep every level's total and the index of orders in step with the
  queue, and stop only when the taker is filled or nothing acceptable is left.
\<close>

subsection \<open>The abstract matcher\<close>

definition queue :: "level list \<Rightarrow> order list" where
  "queue ls = concat (map lOrders ls)"

lemma queue_simps [simp]: "queue [] = []" "queue (l # ls) = lOrders l @ queue ls"
  "queue (ls @ ls') = queue ls @ queue ls'"
  by (simp_all add: queue_def)

fun exec_queue :: "bool \<Rightarrow> order \<Rightarrow> order list \<Rightarrow> ob_trade list \<times> order \<times> order list" where
  "exec_queue b t [] = ([], t, [])"
| "exec_queue b t (m # ms) =
     (if oQuantity t \<le> 0 \<or> \<not> crosses b t (oPrice m) then ([], t, m # ms)
      else if oQuantity m \<le> oQuantity t then
        apfst (Cons (mk_trade b t m (oQuantity m)))
          (exec_queue b (t\<lparr>oQuantity := oQuantity t - oQuantity m\<rparr>) ms)
      else ([mk_trade b t m (oQuantity t)], t\<lparr>oQuantity := 0\<rparr>,
            m\<lparr>oQuantity := oQuantity m - oQuantity t\<rparr> # ms))"

lemma crosses_upd [simp]: "crosses b (t\<lparr>oQuantity := q\<rparr>) p = crosses b t p"
  by (simp add: crosses_def)

lemma exec_queue_stop [simp]: "oQuantity t \<le> 0 \<Longrightarrow> exec_queue b t ms = ([], t, ms)"
  by (cases ms) auto

lemma mk_trade_simps [simp]:
  "tPrice (mk_trade b t m q) = oPrice m" "tQuantity (mk_trade b t m q) = q"
  by (simp_all add: mk_trade_def)

text \<open>A matcher's answer is taken apart by the three cases of a pass.\<close>

subsection \<open>The inner loop\<close>

lemma matchOrders_exec:
  assumes "matchOrders b t os tot ix = (ts, t', os', tot', ix')"
    and "\<forall>m \<in> set os. crosses b t (oPrice m)"
  shows "exec_queue b t (os @ rest) =
    (if os' = [] then apfst (append ts) (exec_queue b t' rest) else (ts, t', os' @ rest))"
  using assms
proof (induction os arbitrary: t tot ix ts)
  case Nil
  then show ?case by (cases "exec_queue b t' rest") auto
next
  case (Cons m os)
  show ?case
  proof (rule match_cases [where t = t and m = m])
    assume "0 < oQuantity t" "oQuantity m \<le> oQuantity t"
    with Cons show ?thesis
      by (cases "exec_queue b t' rest") (fastforce simp: matchOrders_fill apfst_eq_iff)
  qed (use Cons.prems in \<open>auto simp: matchOrders_partial\<close>)
qed

text \<open>Reading an order as itself with its own quantity written back.\<close>

lemma order_self: "\<exists>q. ord = ord\<lparr>oQuantity := q\<rparr>" for ord :: order
  by (rule exI [of _ "oQuantity ord"]) simp

lemma matchOrders_taker:
  "matchOrders b t os tot ix = (ts, t', os', tot', ix') \<Longrightarrow> \<exists>q. t' = t\<lparr>oQuantity := q\<rparr>"
proof (induction os arbitrary: t tot ix ts)
  case (Cons m os)
  show ?case
  proof (rule match_cases [where t = t and m = m])
    assume "0 < oQuantity t" "oQuantity m \<le> oQuantity t"
    with Cons show ?thesis by (fastforce simp: matchOrders_fill apfst_eq_iff)
  qed (use Cons.prems in \<open>auto simp: matchOrders_partial intro: order_self\<close>)
qed (auto intro: order_self)

text \<open>What a resting order of a level must be, and that the inner loop keeps it so.\<close>

definition resting_at :: "dec \<Rightarrow> order \<Rightarrow> bool" where
  "resting_at p ord \<longleftrightarrow> oPrice ord = p \<and> 0 < oQuantity ord \<and> oIsMaker ord"

definition qty_sum :: "order list \<Rightarrow> dec" where
  "qty_sum os = sum_list (map oQuantity os)"

lemma qty_sum_simps [simp]: "qty_sum [] = 0" "qty_sum (ord # os) = oQuantity ord + qty_sum os"
  "qty_sum (os @ os') = qty_sum os + qty_sum os'"
  by (simp_all add: qty_sum_def)

lemma matchOrders_keeps:
  assumes "matchOrders b t os tot ix = (ts, t', os', tot', ix')"
    and "\<forall>ord \<in> set os. resting_at p ord" and "0 \<le> oQuantity t"
  shows "(\<forall>ord \<in> set os'. resting_at p ord) \<and> tot' - qty_sum os' = tot - qty_sum os \<and>
    0 \<le> oQuantity t' \<and>
    (\<forall>ord \<in> set os'. \<exists>ord0 \<in> set os. \<exists>q. ord = ord0\<lparr>oQuantity := q\<rparr>)"
  using assms
proof (induction os arbitrary: t tot ix ts)
  case (Cons m os)
  show ?case
  proof (rule match_cases [where t = t and m = m])
    assume "oQuantity t \<le> 0"
    with Cons.prems show ?thesis by (auto intro: order_self)
  next
    assume "0 < oQuantity t" "oQuantity m \<le> oQuantity t"
    with Cons.prems obtain ts0 where
      "matchOrders b (t\<lparr>oQuantity := oQuantity t - oQuantity m\<rparr>) os (tot - oQuantity m)
         (AList.delete (oID m) ix) = (ts0, t', os', tot', ix')"
      by (auto simp: matchOrders_fill apfst_eq_iff)
    from Cons.IH [OF this] Cons.prems \<open>oQuantity m \<le> oQuantity t\<close> show ?thesis by auto
  next
    assume "0 < oQuantity t" "oQuantity t < oQuantity m"
    with Cons.prems show ?thesis
      by (auto simp: matchOrders_partial resting_at_def intro: order_self)
  qed
qed simp

subsection \<open>The index\<close>

text \<open>\<open>indexes idx os\<close>: the index maps exactly the IDs of the orders \<open>os\<close>, each to its order.\<close>

definition indexes :: "order_index \<Rightarrow> order list \<Rightarrow> bool" where
  "indexes idx os \<longleftrightarrow>
     distinct (map fst idx) \<and> distinct (map oID os) \<and>
     (\<forall>i ord. map_of idx i = Some ord \<longleftrightarrow> ord \<in> set os \<and> oID ord = i)"

lemma indexes_lookup: "indexes idx os \<Longrightarrow> ord \<in> set os \<Longrightarrow> map_of idx (oID ord) = Some ord"
  by (simp add: indexes_def)

lemma indexes_perm: "mset os = mset os' \<Longrightarrow> indexes idx os \<Longrightarrow> indexes idx os'"
  unfolding indexes_def by (metis mset_eq_setD mset_eq_imp_distinct_iff mset_map)

lemma indexes_delete: "indexes idx (m # os) \<Longrightarrow> indexes (AList.delete (oID m) idx) os"
  unfolding indexes_def by (auto simp: alist_distinct_delete) (metis image_eqI)

lemma indexes_insert:
  assumes "indexes idx os" and fresh: "oID ord \<notin> oID ` set os"
  shows "indexes (AList.update (oID ord) ord idx) (ord # os)"
proof -
  have "\<forall>m \<in> set os. oID m \<noteq> oID ord" using fresh by (metis image_eqI)
  then have "map_of (AList.update (oID ord) ord idx) i = Some o' \<longleftrightarrow> o' \<in> set (ord # os) \<and> oID o' = i" for i o'
    using assms by (auto simp: indexes_def split: if_splits)
  with assms show ?thesis by (simp add: indexes_def alist_distinct_update)
qed

lemma indexes_store:
  assumes "indexes idx (m # os)"
  shows "indexes (store_order (m\<lparr>oQuantity := q\<rparr>) idx) (m\<lparr>oQuantity := q\<rparr> # os)"
proof -
  have "map_of idx (oID m) = Some m" using assms by (simp add: indexes_lookup)
  then have "store_order (m\<lparr>oQuantity := q\<rparr>) idx = AList.update (oID m) (m\<lparr>oQuantity := q\<rparr>) idx"
    by (simp add: store_order_def)
  moreover have "\<forall>m' \<in> set os. oID m' \<noteq> oID m" using assms by (force simp: indexes_def)
  ultimately show ?thesis using assms
    by (auto simp: indexes_def alist_distinct_update split: if_splits)
qed

lemma indexes_length:
  assumes "indexes idx os"
  shows "length idx = length os"
proof -
  have "fst ` set idx = oID ` set os"
  proof -
    have "fst ` set idx = dom (map_of idx)" by (simp add: dom_map_of_conv_image_fst)
    also have "\<dots> = oID ` set os" using assms by (auto simp: indexes_def dom_def)
    finally show ?thesis .
  qed
  then have "card (set (map fst idx)) = card (set (map oID os))" by simp
  then show ?thesis using assms unfolding indexes_def by (metis distinct_card length_map)
qed

lemma matchOrders_indexes:
  assumes "matchOrders b t os tot ix = (ts, t', os', tot', ix')" and "indexes ix (os @ rest)"
  shows "indexes ix' (os' @ rest)"
  using assms
proof (induction os arbitrary: t tot ix ts)
  case (Cons m os)
  show ?case
  proof (rule match_cases [where t = t and m = m])
    assume "0 < oQuantity t" "oQuantity m \<le> oQuantity t"
    with Cons show ?thesis
      by (fastforce simp: matchOrders_fill apfst_eq_iff dest: indexes_delete)
  qed (use Cons.prems in \<open>auto simp: matchOrders_partial intro: indexes_store\<close>)
qed simp

subsection \<open>The outer loop\<close>

lemma matchAgainst_Nil [simp]: "matchAgainst b t [] ix = ([], t, [], ix)"
  by (simp add: matchAgainst.simps)

lemma matchAgainst_stop:
  "oQuantity t \<le> 0 \<or> \<not> crosses b t (lPrice l) \<Longrightarrow> matchAgainst b t (l # ls) ix = ([], t, l # ls, ix)"
  by (auto simp: matchAgainst.simps)

lemma matchAgainst_filled: "oQuantity t \<le> 0 \<Longrightarrow> matchAgainst b t ls ix = ([], t, ls, ix)"
  by (cases ls) (auto simp: matchAgainst_stop)

lemma matchAgainst_step:
  assumes "0 < oQuantity t" and "crosses b t (lPrice l)"
    and "matchOrders b t (lOrders l) (lTotal l) ix = (ts, t', os, tot, ix')"
  shows "matchAgainst b t (l # ls) ix =
    (if os = [] then apfst (append ts) (matchAgainst b t' ls ix')
     else (ts, t', l\<lparr>lOrders := os, lTotal := tot\<rparr> # ls, ix'))"
proof (cases "os = []")
  case False
  with assms(3) have "oQuantity t' \<le> 0" using matchOrders_exit by blast
  with assms False show ?thesis by (simp add: matchAgainst.simps(2) [of b t l] matchAgainst_filled Let_def)
qed (use assms in \<open>simp add: matchAgainst.simps(2) [of b t l] Let_def\<close>)

text \<open>
  Every fact about the outer loop has the same induction: the loop stops, empties a level and
  goes on, or stops inside a level.
\<close>

lemma matchAgainst_induct [consumes 1, case_names Nil stop empty part]:
  assumes "matchAgainst b t ls ix = (ts, t', ls', ix')"
    and "\<And>t ix. P t [] ix [] t [] ix"
    and "\<And>t l ls ix. oQuantity t \<le> 0 \<or> \<not> crosses b t (lPrice l) \<Longrightarrow> P t (l # ls) ix [] t (l # ls) ix"
    and "\<And>t l ls ix ts1 t1 tot1 ix1 ts2 t' ls' ix'.
      0 < oQuantity t \<Longrightarrow> crosses b t (lPrice l) \<Longrightarrow>
      matchOrders b t (lOrders l) (lTotal l) ix = (ts1, t1, [], tot1, ix1) \<Longrightarrow>
      matchAgainst b t1 ls ix1 = (ts2, t', ls', ix') \<Longrightarrow>
      P t1 ls ix1 ts2 t' ls' ix' \<Longrightarrow> P t (l # ls) ix (ts1 @ ts2) t' ls' ix'"
    and "\<And>t l ls ix ts t' os tot ix'.
      0 < oQuantity t \<Longrightarrow> crosses b t (lPrice l) \<Longrightarrow> os \<noteq> [] \<Longrightarrow> oQuantity t' \<le> 0 \<Longrightarrow>
      matchOrders b t (lOrders l) (lTotal l) ix = (ts, t', os, tot, ix') \<Longrightarrow>
      P t (l # ls) ix ts t' (l\<lparr>lOrders := os, lTotal := tot\<rparr> # ls) ix'"
  shows "P t ls ix ts t' ls' ix'"
  using assms(1)
proof (induction ls arbitrary: t ix ts)
  case Nil
  then show ?case using assms(2) by simp
next
  case (Cons l ls)
  show ?case
  proof (cases "oQuantity t \<le> 0 \<or> \<not> crosses b t (lPrice l)")
    case True
    with Cons.prems show ?thesis using assms(3) [of t l ls ix] by (auto simp: matchAgainst_stop)
  next
    case False
    then have go: "0 < oQuantity t" "crosses b t (lPrice l)" by auto
    obtain ts1 t1 os tot1 ix1 where m: "matchOrders b t (lOrders l) (lTotal l) ix = (ts1, t1, os, tot1, ix1)"
      by (metis prod_cases5)
    show ?thesis
    proof (cases "os = []")
      case True
      with m Cons.prems obtain ts2 where "matchAgainst b t1 ls ix1 = (ts2, t', ls', ix')" and "ts = ts1 @ ts2"
        by (auto simp: matchAgainst_step [OF go m] apfst_eq_iff)
      then show ?thesis using assms(4) [OF go m [unfolded True]] Cons.IH by blast
    next
      case False
      with m Cons.prems show ?thesis
        using assms(5) [OF go False _ m] matchOrders_exit [OF m]
        by (auto simp: matchAgainst_step [OF go m])
    qed
  qed
qed

text \<open>A level as it should be, and the levels of one side.\<close>

definition level_ok :: "level \<Rightarrow> bool" where
  "level_ok l \<longleftrightarrow>
     lOrders l \<noteq> [] \<and> (\<forall>ord \<in> set (lOrders l). resting_at (lPrice l) ord) \<and>
     lTotal l = qty_sum (lOrders l)"

theorem matchAgainst_exec:
  assumes "matchAgainst b t ls ix = (ts, t', ls', ix')" and "\<forall>l \<in> set ls. level_ok l"
  shows "exec_queue b t (queue ls) = (ts, t', queue ls')"
  using assms
proof (induction rule: matchAgainst_induct)
  case (stop t l ls ix)
  then obtain m os where "lOrders l = m # os" "oPrice m = lPrice l"
    by (cases "lOrders l") (auto simp: level_ok_def resting_at_def)
  with stop show ?case by auto
next
  case (empty t l ls ix ts1 t1 tot1 ix1 ts2 t' ls' ix')
  then show ?case
    using matchOrders_exec [OF empty(3), of "queue ls"]
    by (simp add: level_ok_def resting_at_def)
next
  case (part t l ls ix ts t' os tot ix')
  then show ?case
    using matchOrders_exec [OF part(5), of "queue ls"]
    by (simp add: level_ok_def resting_at_def)
qed simp

lemma matchAgainst_taker:
  "matchAgainst b t ls ix = (ts, t', ls', ix') \<Longrightarrow> \<exists>q. t' = t\<lparr>oQuantity := q\<rparr>"
proof (induction rule: matchAgainst_induct)
  case (empty t l ls ix ts1 t1 tot1 ix1 ts2 t' ls' ix')
  then show ?case using matchOrders_taker [OF empty(3)] by auto
qed (auto dest: matchOrders_taker intro: order_self)

lemma matchAgainst_indexes:
  assumes "matchAgainst b t ls ix = (ts, t', ls', ix')" and "indexes ix (queue ls @ rest)"
  shows "indexes ix' (queue ls' @ rest)"
  using assms
  by (induction rule: matchAgainst_induct) (auto dest: matchOrders_indexes)

text \<open>The levels left are levels of before, the first of them perhaps with less in it.\<close>

lemma matchAgainst_keeps:
  assumes "matchAgainst b t ls ix = (ts, t', ls', ix')"
    and "\<forall>l \<in> set ls. level_ok l" and "0 \<le> oQuantity t"
  shows "(\<forall>l \<in> set ls'. level_ok l) \<and> 0 \<le> oQuantity t' \<and>
    (\<exists>k. map lPrice ls' = drop k (map lPrice ls)) \<and>
    (\<forall>ord \<in> set (queue ls'). \<exists>ord0 \<in> set (queue ls). \<exists>q. ord = ord0\<lparr>oQuantity := q\<rparr>)"
  using assms
proof (induction rule: matchAgainst_induct)
  case (stop t l ls ix)
  then show ?case by (auto intro: exI [of _ 0] order_self)
next
  case (empty t l ls ix ts1 t1 tot1 ix1 ts2 t' ls' ix')
  have "0 \<le> oQuantity t1"
    using matchOrders_keeps [OF empty(3), of "lPrice l"] empty.prems by (auto simp: level_ok_def)
  with empty obtain k where "map lPrice ls' = drop k (map lPrice ls)" by auto
  then have "map lPrice ls' = drop (Suc k) (map lPrice (l # ls))" by simp
  with empty \<open>0 \<le> oQuantity t1\<close> show ?case by (simp del: drop_Suc_Cons) blast
next
  case (part t l ls ix ts t' os tot ix')
  have keeps: "(\<forall>ord \<in> set os. resting_at (lPrice l) ord)" "tot = qty_sum os" "0 \<le> oQuantity t'"
    "\<forall>ord \<in> set os. \<exists>ord0 \<in> set (lOrders l). \<exists>q. ord = ord0\<lparr>oQuantity := q\<rparr>"
    using matchOrders_keeps [OF part(5), of "lPrice l"] part.prems by (auto simp: level_ok_def)
  with part show ?case by (auto simp: level_ok_def bex_Un intro: exI [of _ 0] order_self)
qed auto

text \<open>The loop stops for a reason.\<close>

lemma matchAgainst_stops:
  assumes "matchAgainst b t ls ix = (ts, t', ls', ix')" and "0 < oQuantity t'"
  shows "ls' = [] \<or> \<not> crosses b t (lPrice (hd ls'))"
  using assms
proof (induction rule: matchAgainst_induct)
  case (empty t l ls ix ts1 t1 tot1 ix1 ts2 t' ls' ix')
  then show ?case using matchOrders_taker [OF empty(3)] by auto
qed auto

subsection \<open>Consequences of price-time priority\<close>

definition traded :: "ob_trade list \<Rightarrow> dec" where
  "traded ts = sum_list (map tQuantity ts)"

lemma traded_simps [simp]: "traded [] = 0" "traded (x # ts) = tQuantity x + traded ts"
  "traded (ts @ ts') = traded ts + traded ts'"
  by (simp_all add: traded_def)

lemma exec_queue_conserves:
  "exec_queue b t ms = (ts, t', ms') \<Longrightarrow>
     oQuantity t' + traded ts = oQuantity t \<and> qty_sum ms' + traded ts = qty_sum ms"
  by (induction ms arbitrary: t ts) (fastforce simp: apfst_eq_iff split: if_splits)+

lemma exec_queue_nonneg:
  "exec_queue b t ms = (ts, t', ms') \<Longrightarrow> 0 \<le> oQuantity t \<Longrightarrow> 0 \<le> oQuantity t'"
  by (induction ms arbitrary: t ts) (fastforce simp: apfst_eq_iff split: if_splits)+

lemma exec_queue_no_trade: "exec_queue b t ms = ([], t', ms') \<Longrightarrow> t' = t \<and> ms' = ms"
  by (induction ms arbitrary: t) (auto simp: apfst_eq_iff split: if_splits)

lemma exec_queue_trades:
  assumes "exec_queue b t ms = (ts, t', ms')" and "\<forall>m \<in> set ms. 0 < oQuantity m"
  shows "\<forall>x \<in> set ts. crosses b t (tPrice x) \<and> 0 < tQuantity x \<and>
    (\<exists>m \<in> set ms. tPrice x = oPrice m \<and> tQuantity x \<le> oQuantity m \<and>
       x = mk_trade b t m (tQuantity x))"
  using assms
proof (induction ms arbitrary: t ts)
  case (Cons m ms)
  have upd: "mk_trade b (t\<lparr>oQuantity := q\<rparr>) = mk_trade b t" for q
    by (intro ext) (simp add: mk_trade_def)
  show ?case
  proof (cases "oQuantity t \<le> 0 \<or> \<not> crosses b t (oPrice m)")
    case True
    with Cons.prems show ?thesis by simp
  next
    case go: False
    show ?thesis
    proof (cases "oQuantity m \<le> oQuantity t")
      case True
      with go Cons.prems obtain ts0 where
        "exec_queue b (t\<lparr>oQuantity := oQuantity t - oQuantity m\<rparr>) ms = (ts0, t', ms')"
        and ts: "ts = mk_trade b t m (oQuantity m) # ts0"
        by (auto simp: apfst_eq_iff)
      from Cons.IH [OF this(1)] Cons.prems(2) show ?thesis using go by (auto simp: ts upd)
    next
      case False
      with go Cons.prems show ?thesis by auto
    qed
  qed
qed simp

text \<open>
  The makers are taken from the front of the queue: all but the last trade fill their maker
  completely.
\<close>

lemma exec_queue_prefix:
  assumes "exec_queue b t ms = (ts, t', ms')"
  shows "map tPrice ts = map oPrice (take (length ts) ms) \<and>
    (ms' = drop (length ts) ms \<or>
     (\<exists>n m q. length ts = Suc n \<and> n < length ms \<and> m = ms ! n \<and> oQuantity t' = 0 \<and>
        ms' = m\<lparr>oQuantity := q\<rparr> # drop (Suc n) ms))"
  using assms
proof (induction ms arbitrary: t ts)
  case (Cons m ms)
  show ?case
  proof (cases "oQuantity t \<le> 0 \<or> \<not> crosses b t (oPrice m)")
    case True
    with Cons.prems show ?thesis by simp
  next
    case go: False
    show ?thesis
    proof (cases "oQuantity m \<le> oQuantity t")
      case True
      with go Cons.prems obtain ts0 where
        ex: "exec_queue b (t\<lparr>oQuantity := oQuantity t - oQuantity m\<rparr>) ms = (ts0, t', ms')"
        and ts: "ts = mk_trade b t m (oQuantity m) # ts0"
        by (auto simp: apfst_eq_iff)
      from Cons.IH [OF ex] show ?thesis by (fastforce simp: ts)
    next
      case False
      with go Cons.prems show ?thesis by auto
    qed
  qed
qed simp

text \<open>Who takes part: the taker on one side, owners of resting orders on the other.\<close>

definition trade_users :: "ob_trade list \<Rightarrow> int set" where
  "trade_users ts = tBuyUserID ` set ts \<union> tSellUserID ` set ts"

lemma trade_users_simps [simp]:
  "trade_users [] = {}" "trade_users (x # ts) = {tBuyUserID x, tSellUserID x} \<union> trade_users ts"
  by (auto simp: trade_users_def)

lemma exec_queue_users:
  assumes "exec_queue b t ms = (ts, t', ms')"
  shows "trade_users ts \<subseteq> insert (oUserID t) (oUserID ` set ms) \<and> length ts \<le> length ms \<and>
    oUserID ` set ms' \<subseteq> oUserID ` set ms \<and> length ms' \<le> length ms \<and> oUserID t' = oUserID t"
  using assms
proof (induction ms arbitrary: t ts)
  case (Cons m ms)
  have users: "{tBuyUserID (mk_trade b t m q), tSellUserID (mk_trade b t m q)} = {oUserID t, oUserID m}" for q
    by (auto simp: mk_trade_def)
  show ?case
  proof (cases "oQuantity t \<le> 0 \<or> \<not> crosses b t (oPrice m)")
    case True
    with Cons.prems show ?thesis by auto
  next
    case go: False
    show ?thesis
    proof (cases "oQuantity m \<le> oQuantity t")
      case True
      with go Cons.prems obtain ts0 where
        ex: "exec_queue b (t\<lparr>oQuantity := oQuantity t - oQuantity m\<rparr>) ms = (ts0, t', ms')"
        and ts: "ts = mk_trade b t m (oQuantity m) # ts0"
        by (auto simp: apfst_eq_iff)
      from Cons.IH [OF ex] users [of "oQuantity m"] show ?thesis by (auto simp: ts)
    next
      case False
      with go Cons.prems users [of "oQuantity t"] show ?thesis by auto
    qed
  qed
qed simp

end
