(* ===== verification/Book_Sides.thy ===== *)
theory Book_Sides
  imports Book_Matching
begin

section \<open>The two sides of the book\<close>

text \<open>
  A side is a list of levels, best price first: highest for bids, lowest for asks. Everything
  about insertion and removal is proved once, in the locale \<open>price_priority\<close>, for any strict
  total order \<open>before\<close> on prices, and interpreted for the two sides of the code.
\<close>

subsection \<open>Binary search\<close>

text \<open>
  On a predicate that stays true once it is true, \<open>sort.Search\<close> finds the first index where it
  holds. The search narrows \<open>i..j\<close> with the predicate false before \<open>i\<close> and true from \<open>j\<close> on.
\<close>

lemma sort_Search_from_least:
  assumes "i \<le> j" and "j \<le> n" and "\<forall>m < i. \<not> f m" and "\<forall>m. j \<le> m \<and> m < n \<longrightarrow> f m"
    and "\<forall>a b. a \<le> b \<and> b < n \<and> f a \<longrightarrow> f b"
  shows "sort_Search_from f i j \<le> n \<and> (\<forall>m < sort_Search_from f i j. \<not> f m) \<and>
    (\<forall>m. sort_Search_from f i j \<le> m \<and> m < n \<longrightarrow> f m)"
  using assms
proof (induction f i j rule: sort_Search_from.induct)
  case (1 f i j)
  show ?case
  proof (cases "i < j")
    case True
    let ?h = "(i + j) div 2"
    have h: "i \<le> ?h" "?h < j" using True by auto
    show ?thesis
    proof (cases "f ?h")
      case fh: True
      have eq: "sort_Search_from f i j = sort_Search_from f i ?h"
        by (subst sort_Search_from.simps) (simp add: True fh)
      have "\<forall>m. ?h \<le> m \<and> m < n \<longrightarrow> f m" using "1.prems"(5) fh by blast
      then show ?thesis unfolding eq
        using fh h "1.prems" by (intro "1.IH"(2) [OF True refl]) auto
    next
      case False
      have eq: "sort_Search_from f i j = sort_Search_from f (?h + 1) j"
        by (subst sort_Search_from.simps) (simp add: True False)
      have "?h < n" using h "1.prems"(2) by linarith
      then have "\<forall>m < ?h + 1. \<not> f m"
        using "1.prems"(5) False by (metis Suc_eq_plus1 less_Suc_eq_le)
      then show ?thesis unfolding eq
        using False h "1.prems" by (intro "1.IH"(1) [OF True refl]) auto
    qed
  next
    case False
    then have eq: "sort_Search_from f i j = i" by (subst sort_Search_from.simps) simp
    show ?thesis unfolding eq using False "1.prems" by auto
  qed
qed

lemma sort_Search_least:
  assumes "\<forall>a b. a \<le> b \<and> b < n \<and> f a \<longrightarrow> f b"
  shows "sort_Search n f \<le> n" and "m < sort_Search n f \<Longrightarrow> \<not> f m"
    and "sort_Search n f \<le> m \<Longrightarrow> m < n \<Longrightarrow> f m"
proof -
  have *: "sort_Search n f \<le> n \<and> (\<forall>m < sort_Search n f. \<not> f m) \<and> (\<forall>m. sort_Search n f \<le> m \<and> m < n \<longrightarrow> f m)"
    unfolding sort_Search_def by (rule sort_Search_from_least [OF _ _ _ _ assms]) auto
  show "sort_Search n f \<le> n" using * by (rule conjunct1)
  show "m < sort_Search n f \<Longrightarrow> \<not> f m" using * by blast
  show "sort_Search n f \<le> m \<Longrightarrow> m < n \<Longrightarrow> f m" using * by blast
qed

lemma sort_Search_eqI:
  assumes "\<forall>a b. a \<le> b \<and> b < n \<and> f a \<longrightarrow> f b"
    and "k \<le> n" and "\<forall>m < k. \<not> f m" and "k < n \<Longrightarrow> f k"
  shows "sort_Search n f = k"
proof (rule linorder_cases [of "sort_Search n f" k])
  assume "sort_Search n f < k"
  then show ?thesis using sort_Search_least(3) [OF assms(1), of "sort_Search n f"] assms(2,3) by auto
next
  assume k: "k < sort_Search n f"
  then have "\<not> f k" by (rule sort_Search_least(2) [OF assms(1)])
  moreover have "k < n" using k sort_Search_least(1) [OF assms(1)] by simp
  ultimately show ?thesis using assms(4) by simp
qed

subsection \<open>Insertion by price and time\<close>

text \<open>The reference definition: walk past better prices, then append or open a level.\<close>

definition new_level :: "order \<Rightarrow> level" where
  "new_level ord = \<lparr>lPrice = oPrice ord, lOrders = [ord], lTotal = oQuantity ord\<rparr>"

definition append_order :: "order \<Rightarrow> level \<Rightarrow> level" where
  "append_order ord l = l\<lparr>lOrders := lOrders l @ [ord], lTotal := lTotal l + oQuantity ord\<rparr>"

fun insert_level :: "(dec \<Rightarrow> dec \<Rightarrow> bool) \<Rightarrow> order \<Rightarrow> level list \<Rightarrow> level list" where
  "insert_level before ord [] = [new_level ord]"
| "insert_level before ord (l # ls) =
     (if before (lPrice l) (oPrice ord) then l # insert_level before ord ls
      else if lPrice l = oPrice ord then append_order ord l # ls
      else new_level ord # l # ls)"

text \<open>The state of one side: sorted, strictly, with well-formed levels.\<close>

definition side_sorted :: "(dec \<Rightarrow> dec \<Rightarrow> bool) \<Rightarrow> level list \<Rightarrow> bool" where
  "side_sorted before ls \<longleftrightarrow> sorted_wrt (\<lambda>l l'. before (lPrice l) (lPrice l')) ls"

definition side_ok :: "(dec \<Rightarrow> dec \<Rightarrow> bool) \<Rightarrow> level list \<Rightarrow> bool" where
  "side_ok before ls \<longleftrightarrow> side_sorted before ls \<and> (\<forall>l \<in> set ls. level_ok l)"

lemma side_sorted_iff: "side_sorted before ls \<longleftrightarrow> sorted_wrt before (map lPrice ls)"
  by (simp add: side_sorted_def sorted_wrt_map)

lemma side_ok_Cons [simp]:
  "side_ok before (l # ls) \<longleftrightarrow>
     level_ok l \<and> (\<forall>l' \<in> set ls. before (lPrice l) (lPrice l')) \<and> side_ok before ls"
  by (auto simp: side_ok_def side_sorted_def)

lemma side_ok_Nil [simp]: "side_ok before []"
  by (simp add: side_ok_def side_sorted_def)

lemma level_ok_new [simp]: "level_ok (new_level ord) \<longleftrightarrow> 0 < oQuantity ord \<and> oIsMaker ord"
  by (simp add: level_ok_def new_level_def resting_at_def)

lemma lPrice_simps [simp]:
  "lPrice (new_level ord) = oPrice ord" "lPrice (append_order ord l) = lPrice l"
  "lOrders (new_level ord) = [ord]" "lOrders (append_order ord l) = lOrders l @ [ord]"
  by (simp_all add: new_level_def append_order_def)

lemma level_ok_append:
  "level_ok l \<Longrightarrow> lPrice l = oPrice ord \<Longrightarrow> 0 < oQuantity ord \<Longrightarrow> oIsMaker ord \<Longrightarrow> level_ok (append_order ord l)"
  by (auto simp: level_ok_def append_order_def resting_at_def)

lemma queue_prices: "\<forall>l \<in> set ls. level_ok l \<Longrightarrow> ord \<in> set (queue ls) \<Longrightarrow>
    \<exists>l \<in> set ls. ord \<in> set (lOrders l) \<and> oPrice ord = lPrice l \<and> 0 < oQuantity ord \<and> oIsMaker ord"
  by (fastforce simp: queue_def level_ok_def resting_at_def)

lemma removeFromLevel_Some:
  "ord \<in> set os \<Longrightarrow> distinct (map oID os) \<Longrightarrow> removeFromLevel (oID ord) os = Some (remove1 ord os)"
  by (induction os) auto

lemma qty_sum_remove1: "ord \<in> set os \<Longrightarrow> qty_sum (remove1 ord os) = qty_sum os - oQuantity ord"
  by (induction os) auto

locale price_priority =
  fixes before :: "dec \<Rightarrow> dec \<Rightarrow> bool"
  assumes irrefl: "\<not> before p p"
    and trans: "before p q \<Longrightarrow> before q r \<Longrightarrow> before p r"
    and total: "p \<noteq> q \<Longrightarrow> before p q \<or> before q p"
begin

lemma asym: "before p q \<Longrightarrow> \<not> before q p"
  using irrefl trans by blast

lemma not_before_trans: "\<not> before q p \<Longrightarrow> before q r \<Longrightarrow> before p r"
  using trans total by metis

lemma before_not_trans: "before p q \<Longrightarrow> \<not> before r q \<Longrightarrow> before p r"
  using trans total by metis

text \<open>The insertion point is where the walk stops.\<close>

definition stop_at :: "order \<Rightarrow> level list \<Rightarrow> nat" where
  "stop_at ord ls = length (takeWhile (\<lambda>l. before (lPrice l) (oPrice ord)) ls)"

lemma insert_level_at:
  "insert_level before ord ls =
     (let k = stop_at ord ls
      in if k < length ls \<and> lPrice (ls ! k) = oPrice ord
         then ls[k := append_order ord (ls ! k)]
         else take k ls @ new_level ord # drop k ls)"
  by (induction ls) (auto simp: stop_at_def Let_def irrefl)

lemma sort_Search_side:
  assumes "side_sorted before ls"
  shows "sort_Search (length ls) (\<lambda>i. \<not> before (lPrice (ls ! i)) (oPrice ord)) = stop_at ord ls"
proof (rule sort_Search_eqI)
  show "\<forall>a b. a \<le> b \<and> b < length ls \<and> \<not> before (lPrice (ls ! a)) (oPrice ord) \<longrightarrow>
      \<not> before (lPrice (ls ! b)) (oPrice ord)"
  proof (intro allI impI)
    fix a b
    assume ab: "a \<le> b \<and> b < length ls \<and> \<not> before (lPrice (ls ! a)) (oPrice ord)"
    then have "a = b \<or> before (lPrice (ls ! a)) (lPrice (ls ! b))"
      using assms by (auto simp: side_sorted_def sorted_wrt_iff_nth_less le_eq_less_or_eq)
    with ab show "\<not> before (lPrice (ls ! b)) (oPrice ord)" using trans by blast
  qed
  show "stop_at ord ls \<le> length ls" by (simp add: stop_at_def length_takeWhile_le)
  show "\<forall>m < stop_at ord ls. \<not> \<not> before (lPrice (ls ! m)) (oPrice ord)"
    unfolding stop_at_def by (metis (no_types, lifting) nth_mem set_takeWhileD takeWhile_nth)
  show "stop_at ord ls < length ls \<Longrightarrow> \<not> before (lPrice (ls ! stop_at ord ls)) (oPrice ord)"
    unfolding stop_at_def by (rule nth_length_takeWhile)
qed

lemma insert_level_ok:
  assumes "side_ok before ls" and "0 < oQuantity ord" and "oIsMaker ord"
  shows "side_ok before (insert_level before ord ls) \<and>
    lPrice ` set (insert_level before ord ls) = insert (oPrice ord) (lPrice ` set ls)"
  using assms
proof (induction ls)
  case (Cons l ls)
  show ?case
  proof (cases "before (lPrice l) (oPrice ord)")
    case True
    with Cons have IH: "side_ok before (insert_level before ord ls)"
      and prices: "lPrice ` set (insert_level before ord ls) = insert (oPrice ord) (lPrice ` set ls)"
      by auto
    have "before (lPrice l) q" if "q \<in> lPrice ` set (insert_level before ord ls)" for q
      using that True Cons.prems(1) unfolding prices by auto
    with True IH prices Cons.prems show ?thesis by auto
  next
    case False
    with Cons.prems show ?thesis
      using total [of "lPrice l" "oPrice ord"]
      by (auto simp: level_ok_append intro: not_before_trans)
  qed
qed simp

text \<open>
  Price-time priority of the insertion: the order comes after every order of a better or equal
  price and before every order of a worse one.
\<close>

lemma insert_level_queue:
  assumes "side_ok before ls"
  shows "queue (insert_level before ord ls) =
    filter (\<lambda>r. \<not> before (oPrice ord) (oPrice r)) (queue ls) @ ord #
    filter (\<lambda>r. before (oPrice ord) (oPrice r)) (queue ls)"
  using assms
proof (induction ls)
  case (Cons l ls)
  have l: "\<forall>r \<in> set (lOrders l). oPrice r = lPrice l"
    using Cons.prems by (simp add: level_ok_def resting_at_def)
  have ls: "\<forall>r \<in> set (queue ls). before (lPrice l) (oPrice r)"
    using Cons.prems queue_prices [of ls] by (fastforce simp: side_ok_def side_sorted_def)
  show ?case
  proof (cases "before (lPrice l) (oPrice ord)")
    case True
    then have "\<forall>r \<in> set (lOrders l). \<not> before (oPrice ord) (oPrice r)" using l asym by auto
    with True Cons show ?thesis by (simp add: filter_True filter_False)
  next
    case False
    then have after: "\<forall>r \<in> set (queue ls). before (oPrice ord) (oPrice r)"
      using ls not_before_trans by blast
    show ?thesis
    proof (cases "lPrice l = oPrice ord")
      case True
      with False l after show ?thesis by (simp add: filter_True filter_False irrefl)
    next
      case neq: False
      with False have "before (oPrice ord) (lPrice l)" using total by blast
      with False neq l after show ?thesis by (simp add: filter_True filter_False)
    qed
  qed
qed simp

lemma insert_level_mset:
  "side_ok before ls \<Longrightarrow> mset (queue (insert_level before ord ls)) = add_mset ord (mset (queue ls))"
  by (simp add: insert_level_queue)

text \<open>What matching leaves of a side is again a side.\<close>

lemma matchAgainst_side_ok:
  assumes "matchAgainst b t ls ix = (ts, t', ls', ix')" and "side_ok before ls" and "0 \<le> oQuantity t"
  shows "side_ok before ls'" and "lPrice ` set ls' \<subseteq> lPrice ` set ls"
proof -
  have keeps: "\<forall>l \<in> set ls'. level_ok l" "\<exists>k. map lPrice ls' = drop k (map lPrice ls)"
    using matchAgainst_keeps [OF assms(1)] assms(2,3) by (auto simp: side_ok_def)
  then obtain k where k: "map lPrice ls' = drop k (map lPrice ls)" by blast
  from assms(2) have "sorted_wrt before (map lPrice ls')"
    unfolding k side_ok_def side_sorted_iff by (blast intro: sorted_wrt_drop)
  with keeps show "side_ok before ls'" by (simp add: side_ok_def side_sorted_iff)
  have "set (map lPrice ls') \<subseteq> set (map lPrice ls)" unfolding k by (rule set_drop_subset)
  then show "lPrice ` set ls' \<subseteq> lPrice ` set ls" by simp
qed

text \<open>
  Removal: with distinct IDs the order is found in the one level with its price, and leaves the
  rest of the queue as it was.
\<close>

lemma removeFromSide_ok:
  assumes "side_ok before ls" and "ord \<in> set (queue ls)" and "distinct (map oID (queue ls))"
  shows "side_ok before (removeFromSide ord ls) \<and>
    lPrice ` set (removeFromSide ord ls) \<subseteq> lPrice ` set ls \<and>
    queue (removeFromSide ord ls) = remove1 ord (queue ls)"
  using assms
proof (induction ls)
  case (Cons l ls)
  have l: "lOrders l \<noteq> []" "\<forall>r \<in> set (lOrders l). resting_at (lPrice l) r" "lTotal l = qty_sum (lOrders l)"
    using Cons.prems(1) by (simp_all add: level_ok_def)
  have ls: "\<forall>r \<in> set (queue ls). before (lPrice l) (oPrice r)"
    using Cons.prems queue_prices [of ls] by (fastforce simp: side_ok_def side_sorted_def)
  show ?case
  proof (cases "lPrice l = oPrice ord")
    case True
    then have mem: "ord \<in> set (lOrders l)" using Cons.prems(2) ls irrefl by auto
    have rem: "removeFromLevel (oID ord) (lOrders l) = Some (remove1 ord (lOrders l))"
      using mem Cons.prems(3) by (intro removeFromLevel_Some) auto
    have "level_ok (l\<lparr>lOrders := remove1 ord (lOrders l), lTotal := lTotal l - oQuantity ord\<rparr>)"
      if "remove1 ord (lOrders l) \<noteq> []"
      using that l mem by (auto simp: level_ok_def qty_sum_remove1 dest: notin_set_remove1 [rotated])
    with True mem rem Cons.prems(1) show ?thesis
      by (auto simp: remove1_append)
  next
    case False
    then have "ord \<notin> set (lOrders l)" using l(2) by (auto simp: resting_at_def)
    with False Cons show ?thesis by (auto simp: remove1_append)
  qed
qed simp

text \<open>The queue of a well-formed side is sorted, so taking an inserted order out restores it.\<close>

lemma queue_sorted: "side_ok before ls \<Longrightarrow> sorted_wrt (\<lambda>r s. \<not> before (oPrice s) (oPrice r)) (queue ls)"
proof (induction ls)
  case (Cons l ls)
  have one: "\<forall>r \<in> set (lOrders l). oPrice r = lPrice l"
    using Cons.prems by (simp add: level_ok_def resting_at_def)
  moreover have "\<forall>r \<in> set (queue ls). before (lPrice l) (oPrice r)"
    using Cons.prems queue_prices [of ls] by (fastforce simp: side_ok_def side_sorted_def)
  moreover from one have "sorted_wrt (\<lambda>r s. \<not> before (oPrice s) (oPrice r)) (lOrders l)"
    by (auto simp: sorted_wrt_iff_nth_less irrefl)
  ultimately show ?case using Cons by (auto simp: sorted_wrt_append dest: asym)
qed simp

lemma split_at_price:
  "sorted_wrt (\<lambda>r s. \<not> before (oPrice s) (oPrice r)) os \<Longrightarrow>
   filter (\<lambda>r. \<not> before p (oPrice r)) os @ filter (\<lambda>r. before p (oPrice r)) os = os"
proof (induction os)
  case (Cons x os)
  show ?case
  proof (cases "before p (oPrice x)")
    case True
    have "before p (oPrice r)" if "r \<in> set os" for r
    proof (rule before_not_trans [OF True])
      show "\<not> before (oPrice r) (oPrice x)" using Cons.prems that by simp
    qed
    with True show ?thesis by (simp add: filter_empty_conv)
  qed (use Cons in auto)
qed simp

end

interpretation bid_side: price_priority "(>) :: dec \<Rightarrow> dec \<Rightarrow> bool"
  by unfold_locales auto

interpretation ask_side: price_priority "(<) :: dec \<Rightarrow> dec \<Rightarrow> bool"
  by unfold_locales auto

end
