(* ===== verification/Book_Invariant.thy ===== *)
theory Book_Invariant
  imports Book_Sides
begin

section \<open>The invariant of the book and the behaviour of its operations\<close>

text \<open>
  \<open>book_ok\<close> says that both sides are sorted without empty levels, that totals are the sums of
  the orders' remaining quantities, that every order rests on its own side, that the index maps
  exactly the resting orders, and that the best bid is below the best ask. Each public
  operation keeps it; the lemmas also say what each operation does to the queues.
\<close>

subsection \<open>\<open>insertIntoSide\<close> is insertion by price and time\<close>

lemma insertIntoSide_bids:
  assumes "side_sorted (>) ls"
  shows "insertIntoSide ls ord True = insert_level (>) ord ls"
  using bid_side.sort_Search_side [OF assms, of ord]
  by (simp add: insertIntoSide_def bid_side.insert_level_at not_less new_level_def append_order_def Let_def)

lemma insertIntoSide_asks:
  assumes "side_sorted (<) ls"
  shows "insertIntoSide ls ord False = insert_level (<) ord ls"
  using ask_side.sort_Search_side [OF assms, of ord]
  by (simp add: insertIntoSide_def ask_side.insert_level_at not_less new_level_def append_order_def Let_def)

subsection \<open>The invariant\<close>

definition resting :: "book \<Rightarrow> order list" where
  "resting b = queue (bids b) @ queue (asks b)"

definition uncrossed :: "book \<Rightarrow> bool" where
  "uncrossed b \<longleftrightarrow> (\<forall>l \<in> set (bids b). \<forall>m \<in> set (asks b). lPrice l < lPrice m)"

definition book_ok :: "book \<Rightarrow> bool" where
  "book_ok b \<longleftrightarrow>
     side_ok (>) (bids b) \<and> side_ok (<) (asks b) \<and>
     (\<forall>ord \<in> set (queue (bids b)). oSide ord = 1) \<and>
     (\<forall>ord \<in> set (queue (asks b)). oSide ord \<noteq> 1) \<and>
     indexes (orderIndex b) (resting b) \<and> uncrossed b"

definition order_ids :: "book \<Rightarrow> int set" where
  "order_ids b = oID ` set (resting b)"

lemma NewBook_ok: "book_ok NewBook"
  by (simp add: book_ok_def NewBook_def resting_def indexes_def uncrossed_def)

lemma book_ok_nextID [simp]: "book_ok (b\<lparr>nextID := n\<rparr>) = book_ok b"
  by (simp add: book_ok_def resting_def uncrossed_def)

lemma order_ids_nextID [simp]: "order_ids (b\<lparr>nextID := n\<rparr>) = order_ids b"
  by (simp add: order_ids_def resting_def)

lemma book_ok_swap: "book_ok b \<Longrightarrow> indexes (orderIndex b) (queue (asks b) @ queue (bids b))"
  unfolding book_ok_def resting_def by (auto intro: indexes_perm [rotated])

lemma book_ok_lookup:
  assumes "book_ok b"
  shows "map_of (orderIndex b) i = Some ord \<longleftrightarrow> ord \<in> set (resting b) \<and> oID ord = i"
  using assms by (auto simp: book_ok_def indexes_def)

lemma book_ok_order:
  assumes "book_ok b" and "ord \<in> set (resting b)"
  shows "0 < oQuantity ord" and "oIsMaker ord"
  using assms queue_prices [of "bids b"] queue_prices [of "asks b"]
  by (auto simp: book_ok_def resting_def side_ok_def)

subsection \<open>The matching half of an order\<close>

lemma matchAgainst_order_part:
  assumes "matchAgainst b t ls ix = (ts, t', ls', ix')" and "\<forall>l \<in> set ls. level_ok l"
  shows "\<forall>ord \<in> set (queue ls'). \<exists>ord0 \<in> set (queue ls). \<exists>q. ord = ord0\<lparr>oQuantity := q\<rparr>"
proof (cases "oQuantity t \<le> 0")
  case True
  with assms show ?thesis by (auto simp: matchAgainst_filled intro: order_self)
next
  case False
  with matchAgainst_keeps [OF assms] show ?thesis by simp
qed

lemma match_asks_ok:
  assumes ok: "book_ok b" and m: "matchAgainst True t (asks b) (orderIndex b) = (ts, t', side, idx)"
  shows "book_ok (b\<lparr>asks := side, orderIndex := idx\<rparr>) \<and>
    order_ids (b\<lparr>asks := side, orderIndex := idx\<rparr>) \<subseteq> order_ids b"
proof -
  have side: "side_ok (<) side" "lPrice ` set side \<subseteq> lPrice ` set (asks b)"
    using ask_side.matchAgainst_side_ok [OF m] ok m matchAgainst_filled [of t True "asks b" "orderIndex b"]
    by (cases "0 \<le> oQuantity t"; auto simp: book_ok_def)+
  have part: "\<forall>ord \<in> set (queue side). \<exists>ord0 \<in> set (queue (asks b)). \<exists>q. ord = ord0\<lparr>oQuantity := q\<rparr>"
    using matchAgainst_order_part [OF m] ok by (simp add: book_ok_def side_ok_def)
  have "indexes idx (queue side @ queue (bids b))"
    by (rule matchAgainst_indexes [OF m book_ok_swap [OF ok]])
  then have "indexes idx (queue (bids b) @ queue side)" by (rule indexes_perm [rotated]) simp
  moreover have "\<forall>l \<in> set (bids b). \<forall>p \<in> lPrice ` set side. lPrice l < p"
    using side(2) ok by (auto simp: book_ok_def uncrossed_def)
  ultimately show ?thesis
    using ok side(1) part by (fastforce simp: book_ok_def resting_def uncrossed_def order_ids_def)
qed

lemma match_bids_ok:
  assumes ok: "book_ok b" and m: "matchAgainst False t (bids b) (orderIndex b) = (ts, t', side, idx)"
  shows "book_ok (b\<lparr>bids := side, orderIndex := idx\<rparr>) \<and>
    order_ids (b\<lparr>bids := side, orderIndex := idx\<rparr>) \<subseteq> order_ids b"
proof -
  have side: "side_ok (>) side" "lPrice ` set side \<subseteq> lPrice ` set (bids b)"
    using bid_side.matchAgainst_side_ok [OF m] ok m matchAgainst_filled [of t False "bids b" "orderIndex b"]
    by (cases "0 \<le> oQuantity t"; auto simp: book_ok_def)+
  have part: "\<forall>ord \<in> set (queue side). \<exists>ord0 \<in> set (queue (bids b)). \<exists>q. ord = ord0\<lparr>oQuantity := q\<rparr>"
    using matchAgainst_order_part [OF m] ok by (simp add: book_ok_def side_ok_def)
  have "indexes (orderIndex b) (queue (bids b) @ queue (asks b))"
    using ok by (simp add: book_ok_def resting_def)
  then have "indexes idx (queue side @ queue (asks b))" by (rule matchAgainst_indexes [OF m])
  moreover have "\<forall>p \<in> lPrice ` set side. \<forall>l \<in> set (asks b). p < lPrice l"
    using side(2) ok by (auto simp: book_ok_def uncrossed_def)
  ultimately show ?thesis
    using ok side(1) part by (fastforce simp: book_ok_def resting_def uncrossed_def order_ids_def)
qed

text \<open>An unfilled buyer's limit is below every ask left, an unfilled seller's above every bid.\<close>

lemma match_asks_uncrossed:
  assumes "matchAgainst True t ls ix = (ts, t', ls', ix')" and "0 < oQuantity t'"
    and "side_ok (<) ls" and "l \<in> set ls'"
  shows "oPrice t < lPrice l"
proof -
  have "\<not> oQuantity t \<le> 0" using matchAgainst_filled assms(1,2) by fastforce
  then have sorted: "side_ok (<) ls'" using ask_side.matchAgainst_side_ok(1) [OF assms(1,3)] by simp
  obtain h rest where ls': "ls' = h # rest" using assms(4) by (cases ls') auto
  have "oPrice t < lPrice h"
    using matchAgainst_stops [OF assms(1,2)] by (simp add: ls' crosses_def)
  with sorted assms(4) show ?thesis by (auto simp: ls' intro: less_trans)
qed

lemma match_bids_uncrossed:
  assumes "matchAgainst False t ls ix = (ts, t', ls', ix')" and "0 < oQuantity t'"
    and "side_ok (>) ls" and "l \<in> set ls'"
  shows "lPrice l < oPrice t"
proof -
  have "\<not> oQuantity t \<le> 0" using matchAgainst_filled assms(1,2) by fastforce
  then have sorted: "side_ok (>) ls'" using bid_side.matchAgainst_side_ok(1) [OF assms(1,3)] by simp
  obtain h rest where ls': "ls' = h # rest" using assms(4) by (cases ls') auto
  have "lPrice h < oPrice t"
    using matchAgainst_stops [OF assms(1,2)] by (simp add: ls' crosses_def)
  with sorted assms(4) show ?thesis by (auto simp: ls' intro: less_trans)
qed

subsection \<open>Inserting and removing\<close>

lemma insertOrder_bid_ok:
  assumes "book_ok b" and "oID ord \<notin> order_ids b" and "0 < oQuantity ord" and "oIsMaker ord"
    and "oSide ord = 1" and "\<forall>m \<in> set (asks b). oPrice ord < lPrice m"
  shows "book_ok (insertOrder ord b) \<and> order_ids (insertOrder ord b) = insert (oID ord) (order_ids b)"
proof -
  have ok: "side_ok (>) (bids b)" using assms(1) by (simp add: book_ok_def)
  then have eq: "insertOrder ord b =
      b\<lparr>orderIndex := AList.update (oID ord) ord (orderIndex b), bids := insert_level (>) ord (bids b)\<rparr>"
    using assms(5) by (simp add: insertOrder_def insertIntoSide_bids side_ok_def Let_def)
  have mset: "mset (queue (insert_level (>) ord (bids b))) = add_mset ord (mset (queue (bids b)))"
    using bid_side.insert_level_mset [OF ok] .
  then have set: "set (queue (insert_level (>) ord (bids b))) = insert ord (set (queue (bids b)))"
    by (metis set_mset_add_mset_insert set_mset_mset)
  have "indexes (AList.update (oID ord) ord (orderIndex b)) (ord # resting b)"
    using assms(1,2) by (intro indexes_insert) (auto simp: book_ok_def order_ids_def)
  then have idx: "indexes (AList.update (oID ord) ord (orderIndex b))
      (queue (insert_level (>) ord (bids b)) @ queue (asks b))"
    by (rule indexes_perm [rotated]) (simp add: mset resting_def)
  have side: "side_ok (>) (insert_level (>) ord (bids b))"
    "lPrice ` set (insert_level (>) ord (bids b)) = insert (oPrice ord) (lPrice ` set (bids b))"
    using bid_side.insert_level_ok [OF ok assms(3,4)] by auto
  have "lPrice l < lPrice m" if "l \<in> set (insert_level (>) ord (bids b))" "m \<in> set (asks b)" for l m
  proof -
    have "lPrice l \<in> insert (oPrice ord) (lPrice ` set (bids b))" using that(1) side(2) by blast
    then show ?thesis using that(2) assms(1,6) by (auto simp: book_ok_def uncrossed_def)
  qed
  with assms side(1) idx set show ?thesis
    by (auto simp: eq book_ok_def resting_def uncrossed_def order_ids_def)
qed

lemma insertOrder_ask_ok:
  assumes "book_ok b" and "oID ord \<notin> order_ids b" and "0 < oQuantity ord" and "oIsMaker ord"
    and "oSide ord \<noteq> 1" and "\<forall>l \<in> set (bids b). lPrice l < oPrice ord"
  shows "book_ok (insertOrder ord b) \<and> order_ids (insertOrder ord b) = insert (oID ord) (order_ids b)"
proof -
  have ok: "side_ok (<) (asks b)" using assms(1) by (simp add: book_ok_def)
  then have eq: "insertOrder ord b =
      b\<lparr>orderIndex := AList.update (oID ord) ord (orderIndex b), asks := insert_level (<) ord (asks b)\<rparr>"
    using assms(5) by (simp add: insertOrder_def insertIntoSide_asks side_ok_def Let_def)
  have mset: "mset (queue (insert_level (<) ord (asks b))) = add_mset ord (mset (queue (asks b)))"
    using ask_side.insert_level_mset [OF ok] .
  then have set: "set (queue (insert_level (<) ord (asks b))) = insert ord (set (queue (asks b)))"
    by (metis set_mset_add_mset_insert set_mset_mset)
  have "indexes (AList.update (oID ord) ord (orderIndex b)) (ord # resting b)"
    using assms(1,2) by (intro indexes_insert) (auto simp: book_ok_def order_ids_def)
  then have idx: "indexes (AList.update (oID ord) ord (orderIndex b))
      (queue (bids b) @ queue (insert_level (<) ord (asks b)))"
    by (rule indexes_perm [rotated]) (simp add: mset resting_def)
  have side: "side_ok (<) (insert_level (<) ord (asks b))"
    "lPrice ` set (insert_level (<) ord (asks b)) = insert (oPrice ord) (lPrice ` set (asks b))"
    using ask_side.insert_level_ok [OF ok assms(3,4)] by auto
  have "lPrice l < lPrice m" if "l \<in> set (bids b)" "m \<in> set (insert_level (<) ord (asks b))" for l m
  proof -
    have "lPrice m \<in> insert (oPrice ord) (lPrice ` set (asks b))" using that(2) side(2) by blast
    then show ?thesis using that(1) assms(1,6) by (auto simp: book_ok_def uncrossed_def)
  qed
  with assms side(1) idx set show ?thesis
    by (auto simp: eq book_ok_def resting_def uncrossed_def order_ids_def)
qed

lemma removeOrder_ok:
  assumes ok: "book_ok b" and mem: "ord \<in> set (resting b)"
  shows "book_ok (removeOrder ord b) \<and> resting (removeOrder ord b) = remove1 ord (resting b)"
proof -
  have dist: "distinct (map oID (queue (bids b)))" "distinct (map oID (queue (asks b)))"
    using ok by (auto simp: book_ok_def indexes_def resting_def)
  have "indexes (orderIndex b) (ord # remove1 ord (resting b))"
    using ok mem by (auto simp: book_ok_def intro: indexes_perm [rotated])
  then have idx: "indexes (AList.delete (oID ord) (orderIndex b)) (remove1 ord (resting b))"
    by (rule indexes_delete)
  show ?thesis
  proof (cases "oSide ord = 1")
    case True
    with ok mem have bid: "ord \<in> set (queue (bids b))" by (auto simp: book_ok_def resting_def)
    have "side_ok (>) (bids b)" using ok by (simp add: book_ok_def)
    note rem = bid_side.removeFromSide_ok [OF this bid dist(1)]
    have prices: "lPrice l < lPrice m" if "l \<in> set (removeFromSide ord (bids b))" "m \<in> set (asks b)" for l m
    proof -
      have "lPrice l \<in> lPrice ` set (bids b)" using that(1) rem by blast
      then show ?thesis using that(2) ok by (auto simp: book_ok_def uncrossed_def)
    qed
    have "resting (removeOrder ord b) = remove1 ord (resting b)"
      using True bid rem by (simp add: removeOrder_def resting_def remove1_append)
    with True ok rem idx prices show ?thesis
      by (auto simp: removeOrder_def book_ok_def uncrossed_def dest: notin_set_remove1 [rotated])
  next
    case False
    with ok mem have ask: "ord \<in> set (queue (asks b))" by (auto simp: book_ok_def resting_def)
    with False ok have nbid: "ord \<notin> set (queue (bids b))" by (auto simp: book_ok_def)
    have "side_ok (<) (asks b)" using ok by (simp add: book_ok_def)
    note rem = ask_side.removeFromSide_ok [OF this ask dist(2)]
    have prices: "lPrice l < lPrice m" if "l \<in> set (bids b)" "m \<in> set (removeFromSide ord (asks b))" for l m
    proof -
      have "lPrice m \<in> lPrice ` set (asks b)" using that(2) rem by blast
      then show ?thesis using that(1) ok by (auto simp: book_ok_def uncrossed_def)
    qed
    have "resting (removeOrder ord b) = remove1 ord (resting b)"
      using False nbid rem by (simp add: removeOrder_def resting_def remove1_append)
    with False ok rem idx prices show ?thesis
      by (auto simp: removeOrder_def book_ok_def uncrossed_def dest: notin_set_remove1 [rotated])
  qed
qed

subsection \<open>The public operations keep the invariant\<close>

lemma PlaceLimit_buy:
  assumes "oSide ord = 1"
    and "matchAgainst True (ord\<lparr>oIsMaker := False\<rparr>) (asks b) (orderIndex b) = (ts, t', side, idx)"
  shows "PlaceLimit ord b =
    (let b' = b\<lparr>asks := side, orderIndex := idx\<rparr>; maker = t'\<lparr>oIsMaker := True\<rparr>
     in if 0 < oQuantity t' then ((ts, Some maker), insertOrder maker b') else ((ts, None), b'))"
  using assms by (simp add: PlaceLimit_def Let_def)

lemma PlaceLimit_sell:
  assumes "oSide ord \<noteq> 1"
    and "matchAgainst False (ord\<lparr>oIsMaker := False\<rparr>) (bids b) (orderIndex b) = (ts, t', side, idx)"
  shows "PlaceLimit ord b =
    (let b' = b\<lparr>bids := side, orderIndex := idx\<rparr>; maker = t'\<lparr>oIsMaker := True\<rparr>
     in if 0 < oQuantity t' then ((ts, Some maker), insertOrder maker b') else ((ts, None), b'))"
  using assms by (simp add: PlaceLimit_def Let_def)

lemma PlaceLimit_keeps:
  assumes ok: "book_ok b" and fresh: "oID ord \<notin> order_ids b"
    and place: "PlaceLimit ord b = ((ts, rem), b')"
  shows "book_ok b' \<and> order_ids b' \<subseteq> insert (oID ord) (order_ids b)"
proof (cases "oSide ord = 1")
  case True
  obtain ts' t' side idx where
    m: "matchAgainst True (ord\<lparr>oIsMaker := False\<rparr>) (asks b) (orderIndex b) = (ts', t', side, idx)"
    by (metis prod_cases4)
  obtain q where t': "t' = ord\<lparr>oIsMaker := False, oQuantity := q\<rparr>" using matchAgainst_taker [OF m] by auto
  note half = match_asks_ok [OF ok m]
  show ?thesis
  proof (cases "0 < oQuantity t'")
    case pos: True
    have "side_ok (<) (asks b)" using ok by (simp add: book_ok_def)
    then have "\<forall>l \<in> set side. oPrice ord < lPrice l"
      using match_asks_uncrossed [OF m pos] by auto
    then show ?thesis
      using insertOrder_bid_ok [of "b\<lparr>asks := side, orderIndex := idx\<rparr>" "t'\<lparr>oIsMaker := True\<rparr>"]
        half fresh True pos place by (auto simp: PlaceLimit_buy [OF True m] t' Let_def)
  next
    case False
    with half place show ?thesis by (auto simp: PlaceLimit_buy [OF True m] Let_def)
  qed
next
  case False
  obtain ts' t' side idx where
    m: "matchAgainst False (ord\<lparr>oIsMaker := False\<rparr>) (bids b) (orderIndex b) = (ts', t', side, idx)"
    by (metis prod_cases4)
  obtain q where t': "t' = ord\<lparr>oIsMaker := False, oQuantity := q\<rparr>" using matchAgainst_taker [OF m] by auto
  note half = match_bids_ok [OF ok m]
  show ?thesis
  proof (cases "0 < oQuantity t'")
    case pos: True
    have "side_ok (>) (bids b)" using ok by (simp add: book_ok_def)
    then have "\<forall>l \<in> set side. lPrice l < oPrice ord"
      using match_bids_uncrossed [OF m pos] by auto
    then show ?thesis
      using insertOrder_ask_ok [of "b\<lparr>bids := side, orderIndex := idx\<rparr>" "t'\<lparr>oIsMaker := True\<rparr>"]
        half fresh False pos place by (auto simp: PlaceLimit_sell [OF False m] t' Let_def)
  next
    case nonpos: False
    with half place show ?thesis by (auto simp: PlaceLimit_sell [OF False m] Let_def)
  qed
qed

lemma PlaceMarket_keeps:
  assumes ok: "book_ok b" and place: "PlaceMarket ord b = (r, b')"
  shows "book_ok b' \<and> order_ids b' \<subseteq> order_ids b"
  using place ok
  by (auto simp: PlaceMarket_def Let_def dest!: match_asks_ok [OF ok] match_bids_ok [OF ok]
      split: if_splits prod.splits)

lemma Cancel_keeps:
  assumes ok: "book_ok b" and cancel: "Cancel i b = (r, b')"
  shows "book_ok b' \<and> order_ids b' \<subseteq> order_ids b"
proof (cases "map_of (orderIndex b) i")
  case None
  with assms show ?thesis by (auto simp: Cancel_def)
next
  case (Some ord)
  with ok have "ord \<in> set (resting b)" by (simp add: book_ok_lookup)
  from removeOrder_ok [OF ok this] Some cancel show ?thesis
    using set_remove1_subset [of ord "resting b"] by (auto simp: Cancel_def order_ids_def)
qed

text \<open>The counter is only touched by \<open>NextOrderID\<close> and \<open>SetNextID\<close>.\<close>

lemma nextID_frame:
  "PlaceLimit ord b = ((ts, rem), b') \<Longrightarrow> nextID b' = nextID b"
  "PlaceMarket ord b = (r, b') \<Longrightarrow> nextID b' = nextID b"
  "Cancel i b = (c, b') \<Longrightarrow> nextID b' = nextID b"
  by (auto simp: PlaceLimit_def PlaceMarket_def Cancel_def insertOrder_def removeOrder_def Let_def
      split: if_splits prod.splits option.splits)

subsection \<open>The book as two queues\<close>

type_synonym abs_book = "order list \<times> order list"

definition abs_book :: "book \<Rightarrow> abs_book" where
  "abs_book b = (queue (bids b), queue (asks b))"

definition insert_queue :: "(dec \<Rightarrow> dec \<Rightarrow> bool) \<Rightarrow> order \<Rightarrow> order list \<Rightarrow> order list" where
  "insert_queue before ord os =
     filter (\<lambda>r. \<not> before (oPrice ord) (oPrice r)) os @ ord # filter (\<lambda>r. before (oPrice ord) (oPrice r)) os"

definition spec_limit :: "order \<Rightarrow> abs_book \<Rightarrow> (ob_trade list \<times> order option) \<times> abs_book" where
  "spec_limit ord ab =
     (let (bq, aq) = ab; taker = ord\<lparr>oIsMaker := False\<rparr>
      in if oSide ord = 1 then
           let (ts, t, aq') = exec_queue True taker aq; maker = t\<lparr>oIsMaker := True\<rparr>
           in if 0 < oQuantity t then ((ts, Some maker), (insert_queue (>) maker bq, aq'))
              else ((ts, None), (bq, aq'))
         else
           let (ts, t, bq') = exec_queue False taker bq; maker = t\<lparr>oIsMaker := True\<rparr>
           in if 0 < oQuantity t then ((ts, Some maker), (bq', insert_queue (<) maker aq))
              else ((ts, None), (bq', aq)))"

definition spec_market :: "order \<Rightarrow> abs_book \<Rightarrow> ob_trade list \<times> abs_book" where
  "spec_market ord ab =
     (let (bq, aq) = ab; taker = ord\<lparr>oIsMaker := False\<rparr>
      in if oSide ord = 1 then let (ts, t, aq') = exec_queue True taker aq in (ts, (bq, aq'))
         else let (ts, t, bq') = exec_queue False taker bq in (ts, (bq', aq)))"

definition spec_cancel :: "int \<Rightarrow> abs_book \<Rightarrow> abs_book" where
  "spec_cancel i ab = (filter (\<lambda>r. oID r \<noteq> i) (fst ab), filter (\<lambda>r. oID r \<noteq> i) (snd ab))"

lemma abs_insertOrder:
  assumes "book_ok b"
  shows "abs_book (insertOrder ord b) =
    (if oSide ord = 1 then (insert_queue (>) ord (queue (bids b)), queue (asks b))
     else (queue (bids b), insert_queue (<) ord (queue (asks b))))"
  using assms bid_side.insert_level_queue [of "bids b" ord] ask_side.insert_level_queue [of "asks b" ord]
  by (simp add: abs_book_def insertOrder_def insertIntoSide_bids insertIntoSide_asks insert_queue_def
      book_ok_def side_ok_def Let_def)

lemma PlaceLimit_abs:
  assumes ok: "book_ok b"
  shows "apsnd abs_book (PlaceLimit ord b) = spec_limit ord (abs_book b)"
proof (cases "oSide ord = 1")
  case True
  obtain ts t' side idx where
    m: "matchAgainst True (ord\<lparr>oIsMaker := False\<rparr>) (asks b) (orderIndex b) = (ts, t', side, idx)"
    by (metis prod_cases4)
  obtain q where t': "t' = ord\<lparr>oIsMaker := False, oQuantity := q\<rparr>" using matchAgainst_taker [OF m] by auto
  have "exec_queue True (ord\<lparr>oIsMaker := False\<rparr>) (queue (asks b)) = (ts, t', queue side)"
    by (rule matchAgainst_exec [OF m]) (use ok in \<open>simp add: book_ok_def side_ok_def\<close>)
  with True t' abs_insertOrder [OF conjunct1 [OF match_asks_ok [OF ok m]]] show ?thesis
    by (simp add: PlaceLimit_buy [OF True m] spec_limit_def abs_book_def Let_def)
next
  case False
  obtain ts t' side idx where
    m: "matchAgainst False (ord\<lparr>oIsMaker := False\<rparr>) (bids b) (orderIndex b) = (ts, t', side, idx)"
    by (metis prod_cases4)
  obtain q where t': "t' = ord\<lparr>oIsMaker := False, oQuantity := q\<rparr>" using matchAgainst_taker [OF m] by auto
  have "exec_queue False (ord\<lparr>oIsMaker := False\<rparr>) (queue (bids b)) = (ts, t', queue side)"
    by (rule matchAgainst_exec [OF m]) (use ok in \<open>simp add: book_ok_def side_ok_def\<close>)
  with False t' abs_insertOrder [OF conjunct1 [OF match_bids_ok [OF ok m]]] show ?thesis
    by (simp add: PlaceLimit_sell [OF False m] spec_limit_def abs_book_def Let_def)
qed

lemma PlaceMarket_abs:
  assumes ok: "book_ok b" and "oPrice ord \<le> 0"
  shows "map_prod projr abs_book (PlaceMarket ord b) = spec_market ord (abs_book b)"
    and "\<exists>ts. fst (PlaceMarket ord b) = Inr ts"
proof -
  have *: "exec_queue b' t (queue ls) = (ts, t', queue side)"
    if "matchAgainst b' t ls idx = (ts, t', side, idx')" "ls = asks b \<or> ls = bids b"
    for b' t ls idx ts t' side idx'
    using matchAgainst_exec [OF that(1)] that(2) ok by (auto simp: book_ok_def side_ok_def)
  show "map_prod projr abs_book (PlaceMarket ord b) = spec_market ord (abs_book b)"
    and "\<exists>ts. fst (PlaceMarket ord b) = Inr ts"
    using assms(2) by (auto simp: PlaceMarket_def spec_market_def abs_book_def Let_def dest: * split: prod.splits)
qed

lemma filter_other_ids:
  assumes "distinct (map oID os)" and "ord \<in> set os"
  shows "filter (\<lambda>r. oID r \<noteq> oID ord) os = remove1 ord os"
  using assms
proof (induction os)
  case (Cons x os)
  show ?case
  proof (cases "x = ord")
    case True
    with Cons.prems(1) have "\<forall>r \<in> set os. oID r \<noteq> oID ord" by auto (metis image_eqI)
    with True show ?thesis by (simp add: filter_True)
  qed (use Cons in auto)
qed simp

lemma Cancel_abs:
  assumes ok: "book_ok b"
  shows "abs_book (snd (Cancel i b)) = spec_cancel i (abs_book b)"
    and "fst (Cancel i b) = map_of (map (\<lambda>r. (oID r, r)) (resting b)) i"
proof -
  have ids: "distinct (map oID (queue (bids b)))" "distinct (map oID (queue (asks b)))"
    "oID ` set (queue (bids b)) \<inter> oID ` set (queue (asks b)) = {}"
    using ok by (auto simp: book_ok_def indexes_def resting_def)
  have keep: "filter (\<lambda>r. oID r \<noteq> j) os = os" if "j \<notin> oID ` set os" for j os
    using that by (auto simp: filter_id_conv)
  have sides: "side_ok (>) (bids b)" "side_ok (<) (asks b)" using ok by (simp_all add: book_ok_def)
  show "abs_book (snd (Cancel i b)) = spec_cancel i (abs_book b)"
  proof (cases "map_of (orderIndex b) i")
    case None
    then have "i \<notin> oID ` set (resting b)" using book_ok_lookup [OF ok, of i] by auto
    with None show ?thesis by (simp add: Cancel_def spec_cancel_def abs_book_def resting_def keep image_Un)
  next
    case (Some ord)
    then have mem: "ord \<in> set (resting b)" and i: "oID ord = i" using ok by (auto simp: book_ok_lookup)
    then have found: "map_of (orderIndex b) (oID ord) = Some ord" using Some by simp
    show ?thesis
    proof (cases "oSide ord = 1")
      case True
      with ok mem have bid: "ord \<in> set (queue (bids b))" by (auto simp: book_ok_def resting_def)
      then have "oID ord \<notin> oID ` set (queue (asks b))" using ids(3) by auto
      then have "filter (\<lambda>r. oID r \<noteq> oID ord) (queue (asks b)) = queue (asks b)" by (rule keep)
      with True filter_other_ids [OF ids(1) bid] bid_side.removeFromSide_ok [OF sides(1) bid ids(1)]
      show ?thesis
        by (simp add: Cancel_def removeOrder_def abs_book_def spec_cancel_def found flip: i)
    next
      case False
      with ok mem have ask: "ord \<in> set (queue (asks b))" by (auto simp: book_ok_def resting_def)
      then have "oID ord \<notin> oID ` set (queue (bids b))" using ids(3) by auto
      then have "filter (\<lambda>r. oID r \<noteq> oID ord) (queue (bids b)) = queue (bids b)" by (rule keep)
      with False filter_other_ids [OF ids(2) ask] ask_side.removeFromSide_ok [OF sides(2) ask ids(2)]
      show ?thesis
        by (simp add: Cancel_def removeOrder_def abs_book_def spec_cancel_def found flip: i)
    qed
  qed
  show "fst (Cancel i b) = map_of (map (\<lambda>r. (oID r, r)) (resting b)) i"
  proof -
    let ?al = "map (\<lambda>r. (oID r, r)) (resting b)"
    have "distinct (map fst ?al)" using ok by (simp add: book_ok_def indexes_def o_def)
    then have "map_of ?al i = Some r \<longleftrightarrow> (i, r) \<in> set ?al" for r by (rule map_of_eq_Some_iff)
    moreover have "(i, r) \<in> set ?al \<longleftrightarrow> map_of (orderIndex b) i = Some r" for r
      unfolding book_ok_lookup [OF ok] by auto
    ultimately have "map_of ?al i = Some r \<longleftrightarrow> map_of (orderIndex b) i = Some r" for r
      by (simp only:)
    then have "map_of ?al i = map_of (orderIndex b) i" by (rule option_ext)
    then show ?thesis by (simp add: Cancel_def split: option.split)
  qed
qed

end
