(* ===== verification/Book_Props.thy ===== *)
theory Book_Props
  imports Book_Invariant
begin

section \<open>What the order book promises\<close>

text \<open>
  The properties of the order book, and the concrete book on which their witnesses are
  evaluated: one resting bid of 2 at 100 and two resting asks, 1 at 105 and 3 at 110.
\<close>

definition limit_order :: "int \<Rightarrow> int \<Rightarrow> int \<Rightarrow> dec \<Rightarrow> dec \<Rightarrow> order" where
  "limit_order i u s p q =
     \<lparr>oID = i, oUserID = u, oSide = s, oPrice = p, oQuantity = q, oIsMaker = True\<rparr>"

definition one_level :: "order \<Rightarrow> level" where
  "one_level ord = \<lparr>lPrice = oPrice ord, lOrders = [ord], lTotal = oQuantity ord\<rparr>"

definition sample_book :: book where
  "sample_book =
     (let x = limit_order 2 7 1 100 2; y = limit_order 3 8 (-1) 105 1; z = limit_order 4 9 (-1) 110 3
      in \<lparr>bids = [one_level x], asks = [one_level y, one_level z],
          orderIndex = [(2, x), (3, y), (4, z)], nextID = 4\<rparr>)"

lemmas sample_defs = sample_book_def limit_order_def one_level_def

lemma sample_book_ok: "book_ok sample_book"
  by (auto simp: sample_defs Let_def book_ok_def level_ok_def resting_at_def resting_def indexes_def
      uncrossed_def split: if_splits)

lemma sample_book_ids [simp]: "order_ids sample_book = {2, 3, 4}"
  by (auto simp: sample_defs Let_def order_ids_def resting_def)

subsection \<open>Reachable books\<close>

text \<open>The operations, in any order, each new order with an ID from \<open>NextOrderID\<close>.\<close>

inductive book_reach :: "book \<Rightarrow> bool" where
  reach_new: "book_reach NewBook"
| reach_limit: "book_reach b \<Longrightarrow> nextID b < 2 ^ 63 - 1 \<Longrightarrow> NextOrderID b = (i, b1) \<Longrightarrow>
    PlaceLimit (ord\<lparr>oID := i\<rparr>) b1 = ((ts, rem), b2) \<Longrightarrow> book_reach b2"
| reach_market: "book_reach b \<Longrightarrow> nextID b < 2 ^ 63 - 1 \<Longrightarrow> NextOrderID b = (i, b1) \<Longrightarrow>
    PlaceMarket (ord\<lparr>oID := i\<rparr>) b1 = (r, b2) \<Longrightarrow> book_reach b2"
| reach_cancel: "book_reach b \<Longrightarrow> Cancel i b = (c, b2) \<Longrightarrow> book_reach b2"

definition ids_below :: "book \<Rightarrow> bool" where
  "ids_below b \<longleftrightarrow> - (2 ^ 63) \<le> nextID b \<and> (\<forall>i \<in> order_ids b. i \<le> nextID b)"

lemma NextOrderID_fresh:
  assumes "NextOrderID b = (i, b1)" and "ids_below b" and "nextID b < 2 ^ 63 - 1"
  shows "i = nextID b + 1" and "b1 = b\<lparr>nextID := i\<rparr>" and "i \<notin> order_ids b1" and "ids_below b1"
    and "i \<notin> order_ids b"
proof -
  have i: "i = nextID b + 1" "b1 = b\<lparr>nextID := i\<rparr>"
    using assms add64_exact [of "nextID b" 1] by (auto simp: NextOrderID_def Let_def ids_below_def)
  then show "i = nextID b + 1" and "b1 = b\<lparr>nextID := i\<rparr>" and "i \<notin> order_ids b1" and "ids_below b1"
    and "i \<notin> order_ids b"
    using assms by (force simp: ids_below_def)+
qed

lemma book_reach_inv: "book_reach b \<Longrightarrow> book_ok b \<and> ids_below b"
proof (induction rule: book_reach.induct)
  case reach_new
  show ?case using NewBook_ok by (simp add: ids_below_def order_ids_def resting_def NewBook_def)
next
  case (reach_limit b i b1 ord ts rem b2)
  note id = NextOrderID_fresh [OF reach_limit(3) _ reach_limit(2)]
  have ok: "book_ok b1" "i \<notin> order_ids b1" "ids_below b1" "nextID b1 = i"
    using id reach_limit.IH by (auto simp del: order_ids_nextID)
  have "nextID b2 = i" using nextID_frame(1) [OF reach_limit(4)] ok by simp
  with PlaceLimit_keeps [OF ok(1) _ reach_limit(4)] ok show ?case by (auto simp: ids_below_def)
next
  case (reach_market b i b1 ord r b2)
  note id = NextOrderID_fresh [OF reach_market(3) _ reach_market(2)]
  have ok: "book_ok b1" "ids_below b1"
    using id reach_market.IH by auto
  have "nextID b2 = nextID b1" using nextID_frame(2) [OF reach_market(4)] .
  with PlaceMarket_keeps [OF ok(1) reach_market(4)] ok show ?case by (auto simp: ids_below_def)
next
  case (reach_cancel b i c b2)
  have "nextID b2 = nextID b" using nextID_frame(3) [OF reach_cancel(2)] .
  with Cancel_keeps [OF _ reach_cancel(2)] reach_cancel.IH show ?case by (auto simp: ids_below_def)
qed

text \<open>
  C22. Every book the operations can build from \<open>NewBook\<close> (each order with a fresh ID from the
  counter, no overflow) is well formed: sides sorted without empty levels, level totals equal to
  the sums of the remaining quantities, the index exactly the resting orders with distinct IDs,
  and the best bid below the best ask.
\<close>

theorem book_reach_ok:
  assumes "book_reach b"
  shows "book_ok b"
  using book_reach_inv [OF assms] by simp

theorem book_reach_ok_witness:
  "\<exists>b ts rem. PlaceLimit ((limit_order 0 7 1 100 2)\<lparr>oID := 2\<rparr>) (NewBook\<lparr>nextID := 2\<rparr>) = ((ts, rem), b) \<and>
     book_reach b \<and> book_ok b \<and> length (bids b) = 1"
proof -
  define b where "b = snd (PlaceLimit ((limit_order 0 7 1 100 2)\<lparr>oID := 2\<rparr>) (NewBook\<lparr>nextID := 2\<rparr>))"
  obtain ts rem where place:
    "PlaceLimit ((limit_order 0 7 1 100 2)\<lparr>oID := 2\<rparr>) (NewBook\<lparr>nextID := 2\<rparr>) = ((ts, rem), b)"
    unfolding b_def by (metis prod.collapse)
  have "NextOrderID NewBook = (2, NewBook\<lparr>nextID := 2\<rparr>)"
    by (simp add: NextOrderID_def NewBook_def add64_def wrap64_def)
  from reach_limit [OF reach_new _ this place] have reach: "book_reach b" by (simp add: NewBook_def)
  have "length (bids b) = 1"
    by (simp add: b_def PlaceLimit_def NewBook_def limit_order_def insertOrder_def insertIntoSide_def
        sort_Search_def sort_Search_from.simps Let_def)
  with place reach book_reach_ok [OF reach] show ?thesis by blast
qed

subsection \<open>Refinement\<close>

text \<open>
  C23. On a well-formed book \<open>PlaceLimit\<close> is price-time priority matching on two queues: the
  opposite queue is filled from its front while it crosses the limit, and the remainder is
  queued behind every order of an equal or better price. Trades, remainder and both queues agree
  with the specification.
\<close>

theorem PlaceLimit_refines:
  assumes "book_ok b"
  shows "apsnd abs_book (PlaceLimit ord b) = spec_limit ord (abs_book b)"
  using assms by (rule PlaceLimit_abs)

theorem PlaceLimit_refines_witness:
  "apsnd abs_book (PlaceLimit (limit_order 5 1 1 107 2) sample_book) =
     (([\<lparr>tBuyOrderID = 5, tSellOrderID = 3, tBuyUserID = 1, tSellUserID = 8, tPrice = 105, tQuantity = 1\<rparr>],
       Some (limit_order 5 1 1 107 1)),
      ([limit_order 5 1 1 107 1, limit_order 2 7 1 100 2], [limit_order 4 9 (-1) 110 3]))"
  unfolding PlaceLimit_refines [OF sample_book_ok]
  by (simp add: spec_limit_def abs_book_def sample_defs crosses_def mk_trade_def insert_queue_def Let_def)

text \<open>
  \<open>PlaceMarket\<close> refuses an order with a positive price and leaves the book alone; on any
  other order and a well-formed book it fills the opposite queue from its front, rests nothing
  and returns the trades of the specification.
\<close>

theorem PlaceMarket_refines:
  assumes "book_ok b"
  shows "if 0 < oPrice ord then PlaceMarket ord b = (Inl (MarketOrderWithPrice (oPrice ord)), b)
    else \<exists>ts b'. PlaceMarket ord b = (Inr ts, b') \<and> (ts, abs_book b') = spec_market ord (abs_book b)"
proof (cases "0 < oPrice ord")
  case True
  then show ?thesis by (simp add: PlaceMarket_def)
next
  case False
  obtain r b' where pm: "PlaceMarket ord b = (r, b')" by (metis surj_pair)
  from False PlaceMarket_abs [OF assms, of ord] pm show ?thesis by (cases r) auto
qed

theorem PlaceMarket_refines_witness:
  "\<exists>ts b'. PlaceMarket ((limit_order 5 1 (-1) 0 5)) sample_book = (Inr ts, b') \<and>
     map tQuantity ts = [2] \<and> abs_book b' = ([], [limit_order 3 8 (-1) 105 1, limit_order 4 9 (-1) 110 3])"
  using PlaceMarket_refines [OF sample_book_ok, of "limit_order 5 1 (-1) 0 5"]
  by (auto simp: spec_market_def abs_book_def sample_defs crosses_def mk_trade_def Let_def)

text \<open>
  C24. On a well-formed book \<open>Cancel\<close> returns the resting order with the ID, if there is one, and
  removes exactly that order from its queue.
\<close>

theorem Cancel_refines:
  assumes "book_ok b"
  shows "abs_book (snd (Cancel i b)) = spec_cancel i (abs_book b) \<and>
    fst (Cancel i b) = map_of (map (\<lambda>r. (oID r, r)) (resting b)) i"
  using Cancel_abs [OF assms] by simp

theorem Cancel_refines_witness:
  "abs_book (snd (Cancel 3 sample_book)) = ([limit_order 2 7 1 100 2], [limit_order 4 9 (-1) 110 3]) \<and>
   fst (Cancel 3 sample_book) = Some (limit_order 3 8 (-1) 105 1)"
  using Cancel_refines [OF sample_book_ok, of 3]
  by (simp add: spec_cancel_def abs_book_def resting_def sample_defs Let_def)

subsection \<open>Conservation, limits, priority\<close>

lemma spec_limit_queue:
  "spec_limit ord (bq, aq) = ((ts, rem), ab') \<Longrightarrow>
   \<exists>t' oq'. exec_queue (oSide ord = 1) (ord\<lparr>oIsMaker := False\<rparr>) (if oSide ord = 1 then aq else bq) = (ts, t', oq') \<and>
     rem = (if 0 < oQuantity t' then Some (t'\<lparr>oIsMaker := True\<rparr>) else None) \<and>
     oq' = (if oSide ord = 1 then snd ab' else fst ab')"
  by (auto simp: spec_limit_def Let_def split: if_splits prod.splits)

lemma book_ok_queue_pos:
  "book_ok b \<Longrightarrow> m \<in> set (queue (bids b)) \<union> set (queue (asks b)) \<Longrightarrow> 0 < oQuantity m"
  using book_ok_order(1) [of b m] by (auto simp: resting_def)

lemma PlaceLimit_exec:
  assumes "book_ok b" and "PlaceLimit ord b = ((ts, rem), b')"
  obtains t' oq' where
    "exec_queue (oSide ord = 1) (ord\<lparr>oIsMaker := False\<rparr>) (queue (if oSide ord = 1 then asks b else bids b)) =
       (ts, t', oq')"
    and "rem = (if 0 < oQuantity t' then Some (t'\<lparr>oIsMaker := True\<rparr>) else None)"
    and "oq' = queue (if oSide ord = 1 then asks b' else bids b')"
proof -
  have "spec_limit ord (abs_book b) = ((ts, rem), abs_book b')"
    using PlaceLimit_abs [OF assms(1), of ord] assms(2) by simp
  from spec_limit_queue [OF this [unfolded abs_book_def [of b]]] that show ?thesis
    by (auto simp: abs_book_def if_distrib [of queue])
qed

text \<open>
  Quantity is conserved by \<open>PlaceLimit\<close>: what is traded plus what rests is the order's
  quantity, and the opposite side loses exactly what is traded.
\<close>

theorem PlaceLimit_conserves:
  assumes "book_ok b" and "0 \<le> oQuantity ord" and "PlaceLimit ord b = ((ts, rem), b')"
  shows "traded ts + (case rem of None \<Rightarrow> 0 | Some r \<Rightarrow> oQuantity r) = oQuantity ord \<and>
    qty_sum (queue (if oSide ord = 1 then asks b else bids b)) =
      traded ts + qty_sum (queue (if oSide ord = 1 then asks b' else bids b'))"
proof -
  obtain t' oq' where
    ex: "exec_queue (oSide ord = 1) (ord\<lparr>oIsMaker := False\<rparr>) (queue (if oSide ord = 1 then asks b else bids b)) =
       (ts, t', oq')"
    and rem: "rem = (if 0 < oQuantity t' then Some (t'\<lparr>oIsMaker := True\<rparr>) else None)"
    and oq': "oq' = queue (if oSide ord = 1 then asks b' else bids b')"
    using PlaceLimit_exec [OF assms(1,3)] by blast
  have "0 \<le> oQuantity t'" using exec_queue_nonneg [OF ex] assms(2) book_ok_queue_pos [OF assms(1)] by simp
  with exec_queue_conserves [OF ex] show ?thesis by (auto simp: rem oq')
qed

theorem PlaceLimit_conserves_witness:
  "\<exists>ts rem b'. PlaceLimit (limit_order 5 1 1 107 2) sample_book = ((ts, rem), b') \<and>
     traded ts = 1 \<and> traded ts + (case rem of None \<Rightarrow> 0 | Some r \<Rightarrow> oQuantity r) = 2"
proof -
  obtain ts rem b' where p: "PlaceLimit (limit_order 5 1 1 107 2) sample_book = ((ts, rem), b')"
    by (metis prod.collapse)
  have "spec_limit (limit_order 5 1 1 107 2) (abs_book sample_book) = ((ts, rem), abs_book b')"
    using PlaceLimit_abs [OF sample_book_ok, of "limit_order 5 1 1 107 2"] p by simp
  then have "traded ts = 1"
    by (auto simp: spec_limit_def abs_book_def sample_defs crosses_def mk_trade_def Let_def)
  with p PlaceLimit_conserves [OF sample_book_ok _ p] show ?thesis by (simp add: limit_order_def)
qed

text \<open>
  C25. Price-time priority of \<open>PlaceLimit\<close>: every trade is at the price of its resting order,
  never worse than the taker's limit and of positive size; the makers hit are those at the front
  of the opposite queue, in its order, and all but the last of them are filled completely.
\<close>

theorem PlaceLimit_price_time:
  assumes "book_ok b" and "PlaceLimit ord b = ((ts, rem), b')"
  shows "let q = queue (if oSide ord = 1 then asks b else bids b);
             q' = queue (if oSide ord = 1 then asks b' else bids b')
    in map tPrice ts = map oPrice (take (length ts) q) \<and>
       (\<forall>x \<in> set ts. 0 < tQuantity x \<and> crosses (oSide ord = 1) ord (tPrice x)) \<and>
       (q' = drop (length ts) q \<or>
        (\<exists>n r. length ts = Suc n \<and> n < length q \<and> rem = None \<and>
           q' = (q ! n)\<lparr>oQuantity := r\<rparr> # drop (Suc n) q))"
proof -
  obtain t' oq' where
    ex: "exec_queue (oSide ord = 1) (ord\<lparr>oIsMaker := False\<rparr>) (queue (if oSide ord = 1 then asks b else bids b)) =
       (ts, t', oq')"
    and rem: "rem = (if 0 < oQuantity t' then Some (t'\<lparr>oIsMaker := True\<rparr>) else None)"
    and oq': "oq' = queue (if oSide ord = 1 then asks b' else bids b')"
    using PlaceLimit_exec [OF assms] by blast
  have "crosses c (ord\<lparr>oIsMaker := False\<rparr>) p = crosses c ord p" for c p by (simp add: crosses_def)
  then have "\<forall>x \<in> set ts. 0 < tQuantity x \<and> crosses (oSide ord = 1) ord (tPrice x)"
    using exec_queue_trades [OF ex] book_ok_queue_pos [OF assms(1)] by auto
  with exec_queue_prefix [OF ex] show ?thesis unfolding Let_def oq' [symmetric] by (auto simp: rem)
qed

theorem PlaceLimit_price_time_witness:
  "\<exists>ts rem b'. PlaceLimit (limit_order 5 1 1 110 2) sample_book = ((ts, rem), b') \<and>
     map tPrice ts = [105, 110] \<and> queue (asks b') = [limit_order 4 9 (-1) 110 2]"
proof -
  obtain ts rem b' where p: "PlaceLimit (limit_order 5 1 1 110 2) sample_book = ((ts, rem), b')"
    by (metis prod.collapse)
  have s: "spec_limit (limit_order 5 1 1 110 2) (abs_book sample_book) = ((ts, rem), abs_book b')"
    using PlaceLimit_abs [OF sample_book_ok, of "limit_order 5 1 1 110 2"] p by simp
  then have "length ts = 2" "queue (asks b') = [limit_order 4 9 (-1) 110 2]"
    by (auto simp: spec_limit_def abs_book_def sample_defs crosses_def mk_trade_def Let_def)
  moreover have "map tPrice ts = map oPrice (take (length ts) (queue (asks sample_book)))"
    using PlaceLimit_price_time [OF sample_book_ok p] by (simp add: Let_def limit_order_def)
  ultimately show ?thesis using p by (simp add: sample_defs Let_def)
qed

subsection \<open>Cancelling what was placed, and the quotes\<close>

lemma set_insert_queue [simp]: "set (insert_queue before m os) = insert m (set os)"
  by (auto simp: insert_queue_def)

lemma spec_limit_rests: "spec_limit ord ab = ((ts, Some r), ab') \<Longrightarrow> r \<in> set (fst ab') \<union> set (snd ab')"
  by (auto simp: spec_limit_def Let_def split: if_splits prod.splits)

lemma spec_limit_no_rest: "spec_limit ord ab = (([], None), ab') \<Longrightarrow> ab' = ab"
  by (auto simp: spec_limit_def Let_def dest: exec_queue_no_trade split: if_splits prod.splits)

lemma filter_insert_queue:
  assumes "\<forall>r \<in> set os. oID r \<noteq> oID ord"
  shows "filter (\<lambda>r. oID r \<noteq> oID ord) (insert_queue before ord os) =
    filter (\<lambda>r. \<not> before (oPrice ord) (oPrice r)) os @ filter (\<lambda>r. before (oPrice ord) (oPrice r)) os"
proof -
  have "filter (\<lambda>r. P r \<and> oID r \<noteq> oID ord) os = filter P os" for P :: "order \<Rightarrow> bool"
    using assms by (intro filter_cong) auto
  then show ?thesis by (simp add: insert_queue_def)
qed

lemma spec_cancel_limit:
  assumes ok: "book_ok b" and fresh: "oID ord \<notin> order_ids b"
    and place: "spec_limit ord (abs_book b) = (([], rem), ab')"
  shows "spec_cancel (oID ord) ab' = abs_book b"
proof -
  have sorted: "sorted_wrt (\<lambda>r s. \<not> oPrice r < oPrice s) (queue (bids b))"
    "sorted_wrt (\<lambda>r s. \<not> oPrice s < oPrice r) (queue (asks b))"
    using ok bid_side.queue_sorted ask_side.queue_sorted by (simp_all add: book_ok_def)
  have "\<forall>r \<in> set (resting b). oID r \<noteq> oID ord"
    using fresh unfolding order_ids_def by (metis imageI)
  then have ids: "\<forall>r \<in> set (queue (bids b)). oID r \<noteq> oID ord" "\<forall>r \<in> set (queue (asks b)). oID r \<noteq> oID ord"
    by (simp_all add: resting_def)
  have none: "filter (\<lambda>r. oID r \<noteq> oID ord) os = os" if "\<forall>r \<in> set os. oID r \<noteq> oID ord" for os
    using that by (simp add: filter_id_conv)
  let ?m = "ord\<lparr>oIsMaker := True\<rparr>"
  have ins: "filter (\<lambda>r. oID r \<noteq> oID ord) (insert_queue before ?m os) =
      filter (\<lambda>r. \<not> before (oPrice ord) (oPrice r)) os @ filter (\<lambda>r. before (oPrice ord) (oPrice r)) os"
    if "\<forall>r \<in> set os. oID r \<noteq> oID ord" for os before
    using filter_insert_queue [of os ?m before] that by simp
  show ?thesis
    using place bid_side.split_at_price [OF sorted(1)] ask_side.split_at_price [OF sorted(2)]
    by (auto simp: spec_limit_def spec_cancel_def abs_book_def Let_def none [OF ids(1)] none [OF ids(2)]
        ins [OF ids(1)] ins [OF ids(2)] dest!: exec_queue_no_trade split: if_splits prod.splits)
qed

text \<open>
  C26. Placing a limit order that meets no counterparty and cancelling it again is a round trip:
  the cancellation returns the order that was left resting, and both queues are as before.
\<close>

theorem PlaceLimit_Cancel:
  assumes "book_ok b" and "oID ord \<notin> order_ids b" and "PlaceLimit ord b = (([], rem), b1)"
  shows "abs_book (snd (Cancel (oID ord) b1)) = abs_book b \<and> fst (Cancel (oID ord) b1) = rem"
proof -
  have s: "spec_limit ord (abs_book b) = (([], rem), abs_book b1)"
    using PlaceLimit_abs [OF assms(1), of ord] assms(3) by simp
  have ok: "book_ok b1" using PlaceLimit_keeps [OF assms] by simp
  obtain t' oq' where ex: "exec_queue (oSide ord = 1) (ord\<lparr>oIsMaker := False\<rparr>) (queue (if oSide ord = 1 then asks b else bids b)) =
       ([], t', oq')"
    and rem: "rem = (if 0 < oQuantity t' then Some (t'\<lparr>oIsMaker := True\<rparr>) else None)"
    using PlaceLimit_exec [OF assms(1,3)] by blast
  have t': "t' = ord\<lparr>oIsMaker := False\<rparr>" using exec_queue_no_trade [OF ex] by simp
  have "map_of (orderIndex b1) (oID ord) = rem"
  proof (cases rem)
    case (Some r)
    then have r: "r = ord\<lparr>oIsMaker := True\<rparr>" using rem t' by (auto split: if_splits)
    have "r \<in> set (resting b1)"
      using spec_limit_rests [OF s [unfolded Some]] by (simp add: abs_book_def resting_def)
    then show ?thesis using book_ok_lookup [OF ok, of "oID ord" r] by (simp add: Some r)
  next
    case None
    have "oID ord \<notin> order_ids b1"
      using spec_limit_no_rest [OF s [unfolded None]] assms(2) by (simp add: abs_book_def order_ids_def resting_def)
    then have "map_of (orderIndex b1) (oID ord) \<noteq> Some r" for r
      using book_ok_lookup [OF ok, of "oID ord" r] unfolding order_ids_def by (metis imageI)
    then show ?thesis unfolding None by (meson not_None_eq)
  qed
  then have "fst (Cancel (oID ord) b1) = rem" by (simp add: Cancel_def split: option.split)
  then show ?thesis using Cancel_abs(1) [OF ok] spec_cancel_limit [OF assms(1,2) s] by simp
qed

theorem PlaceLimit_Cancel_witness:
  "\<exists>b1. PlaceLimit (limit_order 5 1 1 104 2) sample_book = (([], Some (limit_order 5 1 1 104 2)), b1) \<and>
     abs_book (snd (Cancel 5 b1)) = abs_book sample_book"
proof -
  obtain ts rem b1 where p: "PlaceLimit (limit_order 5 1 1 104 2) sample_book = ((ts, rem), b1)"
    by (metis prod.collapse)
  have "spec_limit (limit_order 5 1 1 104 2) (abs_book sample_book) = ((ts, rem), abs_book b1)"
    using PlaceLimit_abs [OF sample_book_ok, of "limit_order 5 1 1 104 2"] p by simp
  then have "ts = []" "rem = Some (limit_order 5 1 1 104 2)"
    by (auto simp: spec_limit_def abs_book_def sample_defs crosses_def Let_def)
  with p PlaceLimit_Cancel [OF sample_book_ok, of "limit_order 5 1 1 104 2"] show ?thesis
    by (simp add: limit_order_def)
qed

text \<open>The best level of a sorted side, and the spread of an uncrossed book.\<close>

lemma BestBid_max:
  assumes "book_ok b" and "bids b \<noteq> []"
  shows "fst (BestBid b) = Max (oPrice ` set (queue (bids b)))"
proof -
  obtain l ls where b: "bids b = l # ls" using assms(2) by (cases "bids b") auto
  with assms(1) have l: "level_ok l" "\<forall>l' \<in> set ls. lPrice l' < lPrice l" "\<forall>l \<in> set ls. level_ok l"
    by (auto simp: book_ok_def side_ok_def side_sorted_def)
  have mem: "lOrders l \<noteq> []" using l(1) by (simp add: level_ok_def)
  have "\<forall>r \<in> set (queue ls). oPrice r < lPrice l" using l(2) queue_prices [OF l(3)] by fastforce
  moreover have "\<forall>r \<in> set (lOrders l). oPrice r = lPrice l" using l(1) by (simp add: level_ok_def resting_at_def)
  ultimately have "Max (oPrice ` set (queue (bids b))) = lPrice l"
    unfolding b by (intro Max_eqI) (auto simp: image_Un image_constant_conv mem)
  then show ?thesis by (simp add: BestBid_def b)
qed

lemma BestAsk_min:
  assumes "book_ok b" and "asks b \<noteq> []"
  shows "fst (BestAsk b) = Min (oPrice ` set (queue (asks b)))"
proof -
  obtain l ls where b: "asks b = l # ls" using assms(2) by (cases "asks b") auto
  with assms(1) have l: "level_ok l" "\<forall>l' \<in> set ls. lPrice l < lPrice l'" "\<forall>l \<in> set ls. level_ok l"
    by (auto simp: book_ok_def side_ok_def side_sorted_def)
  have mem: "lOrders l \<noteq> []" using l(1) by (simp add: level_ok_def)
  have "\<forall>r \<in> set (queue ls). lPrice l < oPrice r" using l(2) queue_prices [OF l(3)] by fastforce
  moreover have "\<forall>r \<in> set (lOrders l). oPrice r = lPrice l" using l(1) by (simp add: level_ok_def resting_at_def)
  ultimately have "Min (oPrice ` set (queue (asks b))) = lPrice l"
    unfolding b by (intro Min_eqI) (auto simp: image_Un image_constant_conv mem)
  then show ?thesis by (simp add: BestAsk_def b)
qed

text \<open>
  In a well-formed book with both sides present and positive prices, \<open>BestBid\<close> is the highest
  bid, \<open>BestAsk\<close> the lowest ask, and \<open>Spread\<close> is their difference, which is positive.
\<close>

theorem best_quotes:
  assumes "book_ok b" and "bids b \<noteq> []" and "asks b \<noteq> []" and "\<forall>r \<in> set (resting b). 0 < oPrice r"
  shows "fst (BestBid b) = Max (oPrice ` set (queue (bids b))) \<and>
    fst (BestAsk b) = Min (oPrice ` set (queue (asks b))) \<and>
    Spread b = fst (BestAsk b) - fst (BestBid b) \<and> 0 < Spread b"
proof -
  obtain l ls m ms where b: "bids b = l # ls" "asks b = m # ms"
    using assms(2,3) by (meson neq_Nil_conv)
  then have lm: "lPrice l < lPrice m" "level_ok l" "level_ok m"
    using assms(1) by (auto simp: book_ok_def uncrossed_def)
  have "0 < lPrice l" "0 < lPrice m"
    using lm(2,3) assms(4) b by (cases "lOrders l"; cases "lOrders m"; auto simp: level_ok_def resting_at_def resting_def)+
  with lm have "Spread b = fst (BestAsk b) - fst (BestBid b)" "0 < Spread b"
    by (simp_all add: Spread_def BestBid_def BestAsk_def b)
  with BestBid_max [OF assms(1,2)] BestAsk_min [OF assms(1,3)] show ?thesis by simp
qed

theorem best_quotes_witness: "fst (BestBid sample_book) = 100 \<and> Spread sample_book = 5 \<and> 0 < Spread sample_book"
  using best_quotes [OF sample_book_ok] by (simp add: sample_defs resting_def BestBid_def BestAsk_def Let_def)

subsection \<open>Participants\<close>

text \<open>Who can take part in the trades of an order, and how many trades and orders there can be.\<close>

definition book_users :: "book \<Rightarrow> int set" where
  "book_users b = oUserID ` set (resting b)"

definition book_size :: "book \<Rightarrow> nat" where
  "book_size b = length (resting b)"

lemma abs_users: "book_users b = oUserID ` (set (fst (abs_book b)) \<union> set (snd (abs_book b)))"
  and abs_size: "book_size b = length (fst (abs_book b)) + length (snd (abs_book b))"
  by (auto simp: book_users_def book_size_def abs_book_def resting_def)

lemma length_insert_queue [simp]: "length (insert_queue before m os) = Suc (length os)"
  using sum_length_filter_compl [of "\<lambda>r. before (oPrice m) (oPrice r)" os] by (simp add: insert_queue_def)

definition takes_part :: "book \<Rightarrow> order \<Rightarrow> ob_trade list \<Rightarrow> book \<Rightarrow> bool" where
  "takes_part b ord ts b' \<longleftrightarrow>
     trade_users ts \<subseteq> insert (oUserID ord) (book_users b) \<and> length ts \<le> book_size b \<and>
     book_users b' \<subseteq> insert (oUserID ord) (book_users b) \<and> book_size b' \<le> Suc (book_size b) \<and>
     (\<forall>x \<in> set ts. 0 < tQuantity x)"

lemma exec_queue_takes_part:
  assumes "exec_queue b t ms = (ts, t', ms')" and "\<forall>m \<in> set ms. 0 < oQuantity m"
  shows "trade_users ts \<subseteq> insert (oUserID t) (oUserID ` set ms) \<and> length ts \<le> length ms \<and>
    oUserID ` set ms' \<subseteq> oUserID ` set ms \<and> length ms' \<le> length ms \<and> oUserID t' = oUserID t \<and>
    (\<forall>x \<in> set ts. 0 < tQuantity x)"
  using exec_queue_users [OF assms(1)] exec_queue_trades [OF assms] by auto

lemma PlaceLimit_takes_part:
  assumes "book_ok b" and "PlaceLimit ord b = ((ts, rem), b')"
  shows "takes_part b ord ts b'"
proof -
  have s: "spec_limit ord (queue (bids b), queue (asks b)) = ((ts, rem), abs_book b')"
    using PlaceLimit_abs [OF assms(1), of ord] assms(2) by (simp add: abs_book_def [of b])
  have pos: "\<forall>m \<in> set (queue (bids b)). 0 < oQuantity m" "\<forall>m \<in> set (queue (asks b)). 0 < oQuantity m"
    using book_ok_queue_pos [OF assms(1)] by auto
  have b: "book_users b = oUserID ` (set (queue (bids b)) \<union> set (queue (asks b)))"
    "book_size b = length (queue (bids b)) + length (queue (asks b))"
    by (auto simp: book_users_def book_size_def resting_def)
  show ?thesis
  proof (cases "oSide ord = 1")
    case True
    obtain t' q' where ex: "exec_queue True (ord\<lparr>oIsMaker := False\<rparr>) (queue (asks b)) = (ts, t', q')"
      and ab: "abs_book b' = (if 0 < oQuantity t' then insert_queue (>) (t'\<lparr>oIsMaker := True\<rparr>) (queue (bids b))
         else queue (bids b), q')"
      using s True by (auto simp: spec_limit_def Let_def split: if_splits prod.splits)
    show ?thesis
      using exec_queue_takes_part [OF ex pos(2)] by (auto simp: takes_part_def abs_users [of b'] abs_size [of b'] ab b)
  next
    case False
    obtain t' q' where ex: "exec_queue False (ord\<lparr>oIsMaker := False\<rparr>) (queue (bids b)) = (ts, t', q')"
      and ab: "abs_book b' = (q', if 0 < oQuantity t' then insert_queue (<) (t'\<lparr>oIsMaker := True\<rparr>) (queue (asks b))
         else queue (asks b))"
      using s False by (auto simp: spec_limit_def Let_def split: if_splits prod.splits)
    show ?thesis
      using exec_queue_takes_part [OF ex pos(1)] by (auto simp: takes_part_def abs_users [of b'] abs_size [of b'] ab b)
  qed
qed

lemma PlaceMarket_takes_part:
  assumes "book_ok b" and "oPrice ord \<le> 0" and "PlaceMarket ord b = (r, b')"
  shows "\<exists>ts. r = Inr ts \<and> takes_part b ord ts b'"
proof -
  obtain ts where r: "r = Inr ts" using PlaceMarket_abs(2) [OF assms(1,2)] assms(3) by auto
  have s: "spec_market ord (queue (bids b), queue (asks b)) = (ts, abs_book b')"
    using PlaceMarket_abs(1) [OF assms(1,2)] assms(3) r by (simp add: abs_book_def [of b])
  have pos: "\<forall>m \<in> set (queue (bids b)). 0 < oQuantity m" "\<forall>m \<in> set (queue (asks b)). 0 < oQuantity m"
    using book_ok_queue_pos [OF assms(1)] by auto
  have b: "book_users b = oUserID ` (set (queue (bids b)) \<union> set (queue (asks b)))"
    "book_size b = length (queue (bids b)) + length (queue (asks b))"
    by (auto simp: book_users_def book_size_def resting_def)
  have "takes_part b ord ts b'"
  proof (cases "oSide ord = 1")
    case True
    obtain t' q' where ex: "exec_queue True (ord\<lparr>oIsMaker := False\<rparr>) (queue (asks b)) = (ts, t', q')"
      and ab: "abs_book b' = (queue (bids b), q')"
      using s True by (auto simp: spec_market_def Let_def split: prod.splits)
    show ?thesis
      using exec_queue_takes_part [OF ex pos(2)] by (auto simp: takes_part_def abs_users [of b'] abs_size [of b'] ab b)
  next
    case False
    obtain t' q' where ex: "exec_queue False (ord\<lparr>oIsMaker := False\<rparr>) (queue (bids b)) = (ts, t', q')"
      and ab: "abs_book b' = (q', queue (asks b))"
      using s False by (auto simp: spec_market_def Let_def split: prod.splits)
    show ?thesis
      using exec_queue_takes_part [OF ex pos(1)] by (auto simp: takes_part_def abs_users [of b'] abs_size [of b'] ab b)
  qed
  with r show ?thesis by blast
qed

lemma Cancel_takes_part:
  assumes "book_ok b" and "Cancel i b = (r, b')"
  shows "book_users b' \<subseteq> book_users b \<and> book_size b' \<le> book_size b"
proof -
  have "abs_book b' = spec_cancel i (abs_book b)" using Cancel_abs(1) [OF assms(1), of i] assms(2) by simp
  then show ?thesis by (auto simp: abs_users abs_size spec_cancel_def intro: add_mono length_filter_le)
qed

subsection \<open>Immediate or cancel\<close>

text \<open>Which orders rest, and whose they are.\<close>

definition owned :: "order \<Rightarrow> int \<times> int" where
  "owned r = (oID r, oUserID r)"

definition resting_owned :: "book \<Rightarrow> (int \<times> int) set" where
  "resting_owned b = owned ` set (resting b)"

lemma owned_upd [simp]: "owned (r\<lparr>oQuantity := q\<rparr>) = owned r" "owned (r\<lparr>oIsMaker := m\<rparr>) = owned r"
  by (simp_all add: owned_def)

lemma resting_owned_ids: "order_ids b = fst ` resting_owned b" "book_users b = snd ` resting_owned b"
  by (auto simp: resting_owned_def order_ids_def book_users_def owned_def image_image)

lemma abs_owned: "resting_owned b = owned ` (set (fst (abs_book b)) \<union> set (snd (abs_book b)))"
  by (auto simp: resting_owned_def abs_book_def resting_def)

lemma exec_queue_owned:
  "exec_queue b t ms = (ts, t', ms') \<Longrightarrow>
   owned ` set ms' \<subseteq> owned ` set ms \<and> length ms' \<le> length ms \<and> oID t' = oID t"
proof (induction ms arbitrary: t ts)
  case (Cons m ms)
  show ?case
  proof (cases "\<not> (oQuantity t \<le> 0 \<or> \<not> crosses b t (oPrice m)) \<and> oQuantity m \<le> oQuantity t")
    case True
    with Cons.prems obtain ts0 where
      "exec_queue b (t\<lparr>oQuantity := oQuantity t - oQuantity m\<rparr>) ms = (ts0, t', ms')"
      by (auto simp: apfst_eq_iff)
    from Cons.IH [OF this] show ?thesis by auto
  qed (use Cons.prems in \<open>auto split: if_splits\<close>)
qed simp

text \<open>
  \<open>LiquidationEngine.OnTick\<close> places a limit order and cancels its unfilled rest at once. That leaves
  nothing of its own in the book.
\<close>

definition ioc :: "order \<Rightarrow> book \<Rightarrow> ob_trade list \<times> book" where
  "ioc ord b =
     (let ((ts, remaining), b1) = PlaceLimit ord b
      in (ts, if remaining \<noteq> None then snd (Cancel (oID ord) b1) else b1))"

lemma set_insert_other: "set (filter (\<lambda>r. oID r \<noteq> oID x) (insert_queue before x os)) \<subseteq> set os"
  by (auto simp: insert_queue_def)

lemma length_insert_other: "length (filter (\<lambda>r. oID r \<noteq> oID x) (insert_queue before x os)) \<le> length os"
proof -
  have "length (filter (\<lambda>r. oID r \<noteq> oID x) (insert_queue before x os)) \<le>
      length (filter (\<lambda>r. \<not> before (oPrice x) (oPrice r)) os) + length (filter (\<lambda>r. before (oPrice x) (oPrice r)) os)"
    by (simp add: insert_queue_def del: filter_filter) (rule add_mono; rule length_filter_le)
  also have "\<dots> = length os" using sum_length_filter_compl [of "\<lambda>r. before (oPrice x) (oPrice r)" os] by simp
  finally show ?thesis .
qed

lemma ioc_leaves:
  assumes ok: "book_ok b" and fresh: "oID ord \<notin> order_ids b" and ioc: "ioc ord b = (ts, b')"
  shows "book_ok b'" and "resting_owned b' \<subseteq> resting_owned b" and "book_size b' \<le> book_size b"
    and "nextID b' = nextID b" and "takes_part b ord ts b'"
proof -
  obtain rem b1 where pl: "PlaceLimit ord b = ((ts, rem), b1)"
    and b': "b' = (if rem \<noteq> None then snd (Cancel (oID ord) b1) else b1)"
    using ioc by (auto simp: ioc_def Let_def split: prod.splits)
  have b1: "book_ok b1" using PlaceLimit_keeps [OF ok fresh pl] by simp
  let ?opp = "queue (if oSide ord = 1 then asks b else bids b)" and ?own = "queue (if oSide ord = 1 then bids b else asks b)"
  obtain t' oq' where ex: "exec_queue (oSide ord = 1) (ord\<lparr>oIsMaker := False\<rparr>) ?opp = (ts, t', oq')"
    and rem: "rem = (if 0 < oQuantity t' then Some (t'\<lparr>oIsMaker := True\<rparr>) else None)"
    and own: "(if oSide ord = 1 then abs_book b1 else prod.swap (abs_book b1)) =
       (if 0 < oQuantity t' then insert_queue (if oSide ord = 1 then (>) else (<)) (t'\<lparr>oIsMaker := True\<rparr>) ?own else ?own, oq')"
    using PlaceLimit_abs [OF ok, of ord] pl
    by (auto simp: abs_book_def [of b] spec_limit_def Let_def split: if_splits prod.splits)
  note q = exec_queue_owned [OF ex]
  have t': "oID t' = oID ord" using q by simp
  have parts: "resting_owned b = owned ` set ?own \<union> owned ` set ?opp" "book_size b = length ?own + length ?opp"
    by (auto simp: resting_owned_def book_size_def resting_def)
  show "book_ok b'" using b' b1 Cancel_keeps [OF b1] by (metis prod.collapse)
  show "nextID b' = nextID b"
    using b' nextID_frame(1) [OF pl] nextID_frame(3) [of "oID ord" b1] by (metis prod.collapse)
  obtain own opp where ab: "abs_book b' = (if oSide ord = 1 then (own, opp) else (opp, own))"
    and sub: "set own \<subseteq> set ?own" "set opp \<subseteq> set oq'" "length own \<le> length ?own" "length opp \<le> length oq'"
  proof (cases "0 < oQuantity t'")
    case True
    let ?ins = "insert_queue (if oSide ord = 1 then (>) else (<)) (t'\<lparr>oIsMaker := True\<rparr>) ?own"
    have "abs_book b' = spec_cancel (oID ord) (abs_book b1)" using b' rem True Cancel_abs(1) [OF b1] by simp
    with own True have "abs_book b' = (if oSide ord = 1
        then (filter (\<lambda>r. oID r \<noteq> oID ord) ?ins, filter (\<lambda>r. oID r \<noteq> oID ord) oq')
        else (filter (\<lambda>r. oID r \<noteq> oID ord) oq', filter (\<lambda>r. oID r \<noteq> oID ord) ?ins))"
      by (cases "abs_book b1") (auto simp: spec_cancel_def split: if_splits)
    moreover have "set (filter (\<lambda>r. oID r \<noteq> oID ord) ?ins) \<subseteq> set ?own"
        "length (filter (\<lambda>r. oID r \<noteq> oID ord) ?ins) \<le> length ?own"
      using set_insert_other [of "t'\<lparr>oIsMaker := True\<rparr>"] length_insert_other [of "t'\<lparr>oIsMaker := True\<rparr>"]
      by (simp_all add: t')
    ultimately show thesis by (intro that) auto
  next
    case False
    then have "abs_book b' = (if oSide ord = 1 then (?own, oq') else (oq', ?own))"
      using own b' rem by (cases "abs_book b1") (auto split: if_splits)
    then show thesis by (rule that) auto
  qed
  have res: "resting_owned b' = owned ` set own \<union> owned ` set opp" "book_size b' = length own + length opp"
    by (auto simp: abs_owned abs_size ab)
  show sz: "book_size b' \<le> book_size b" using res parts sub q by simp
  show ro: "resting_owned b' \<subseteq> resting_owned b" unfolding res(1) parts(1)
    by (rule Un_mono [OF image_mono [OF sub(1)] subset_trans [OF image_mono [OF sub(2)] conjunct1 [OF q]]])
  then have "book_users b' \<subseteq> book_users b" by (auto simp: resting_owned_ids)
  with sz PlaceLimit_takes_part [OF ok pl] show "takes_part b ord ts b'" by (auto simp: takes_part_def)
qed

end
