(* ===== verification/Position_Calc.thy ===== *)
theory Position_Calc
  imports Prelude
begin

section \<open>Position arithmetic (\<open>internal/engine/position/manager.go\<close>)\<close>

text \<open>
  The pure formulas of a position: profit, return on margin, margin ratio, bankruptcy,
  liquidation and forced take-profit prices, quantity and funding payment. A formula that
  divides returns \<open>None\<close> exactly where \<open>decimal.Div\<close> panics. Leverage and side are Go
  \<open>int\<close>s, turned into decimals by \<open>decimal.NewFromInt\<close> (\<open>of_int\<close>).
\<close>

subsection \<open>The formulas\<close>

definition Hundred :: dec where
  "Hundred = 100"

definition CalcUnrealizedPnL :: "dec \<Rightarrow> dec \<Rightarrow> dec \<Rightarrow> int \<Rightarrow> dec" where
  [calc_defs]: "CalcUnrealizedPnL entryPrice currentPrice quantity side =
     (currentPrice - entryPrice) * quantity * of_int side"

definition CalcROI :: "decimal_lib \<Rightarrow> dec \<Rightarrow> dec \<Rightarrow> dec option" where
  [calc_defs]: "CalcROI D unrealizedPnl margin =
     (if margin = 0 then Some 0
      else do { q \<leftarrow> Div D unrealizedPnl margin; Some (q * Hundred) })"

definition CalcMarginRatio :: "decimal_lib \<Rightarrow> dec \<Rightarrow> dec \<Rightarrow> dec \<Rightarrow> dec \<Rightarrow> dec option" where
  [calc_defs]: "CalcMarginRatio D margin unrealizedPnl quantity currentPrice =
     (let positionValue = quantity * currentPrice
      in if positionValue = 0 then Some 0 else Div D (margin + unrealizedPnl) positionValue)"

definition CalcBankruptcyPrice :: "decimal_lib \<Rightarrow> dec \<Rightarrow> int \<Rightarrow> int \<Rightarrow> dec option" where
  [calc_defs]: "CalcBankruptcyPrice D entryPrice leverage side =
     (let lev = of_int leverage
      in do {
           invLev \<leftarrow> Div D 1 lev;
           Some (if side = 1 then entryPrice * (1 - invLev) else entryPrice * (1 + invLev))
         })"

definition CalcLiquidationPriceWithFunding ::
    "decimal_lib \<Rightarrow> dec \<Rightarrow> int \<Rightarrow> int \<Rightarrow> dec \<Rightarrow> dec \<Rightarrow> dec \<Rightarrow> dec option" where
  [calc_defs]: "CalcLiquidationPriceWithFunding D entryPrice leverage side maintenanceRate fundingPnl quantity =
     (let lev = of_int leverage
      in do {
           invLev \<leftarrow> Div D 1 lev;
           (if side = 1 then do {
              base \<leftarrow> Div D (entryPrice * (1 - invLev)) (1 - maintenanceRate);
              (if 0 < quantity \<and> fundingPnl \<noteq> 0 then do {
                 adjustment \<leftarrow> Div D fundingPnl (quantity * (1 - maintenanceRate));
                 Some (base - adjustment)
               } else Some base)
            } else do {
              base \<leftarrow> Div D (entryPrice * (1 + invLev)) (1 + maintenanceRate);
              (if 0 < quantity \<and> fundingPnl \<noteq> 0 then do {
                 adjustment \<leftarrow> Div D fundingPnl (quantity * (1 + maintenanceRate));
                 Some (base - adjustment)
               } else Some base)
            })
         })"

definition CalcLiquidationPrice :: "decimal_lib \<Rightarrow> dec \<Rightarrow> int \<Rightarrow> int \<Rightarrow> dec \<Rightarrow> dec option" where
  "CalcLiquidationPrice D entryPrice leverage side maintenanceRate =
     CalcLiquidationPriceWithFunding D entryPrice leverage side maintenanceRate 0 0"

definition CalcForceTpPrice :: "decimal_lib \<Rightarrow> dec \<Rightarrow> int \<Rightarrow> int \<Rightarrow> dec \<Rightarrow> dec option" where
  [calc_defs]: "CalcForceTpPrice D entryPrice leverage side forceTpROI =
     (let lev = of_int leverage
      in do {
           roiOverLev \<leftarrow> Div D forceTpROI lev;
           Some (if side = 1 then entryPrice * (1 + roiOverLev) else entryPrice * (1 - roiOverLev))
         })"

definition CalcQuantity :: "decimal_lib \<Rightarrow> dec \<Rightarrow> int \<Rightarrow> dec \<Rightarrow> dec option" where
  [calc_defs]: "CalcQuantity D margin leverage price =
     (if price = 0 then Some 0
      else let positionValue = margin * of_int leverage in Div D positionValue price)"

definition CalcFundingPayment :: "dec \<Rightarrow> dec \<Rightarrow> dec \<Rightarrow> int \<Rightarrow> dec" where
  [calc_defs]: "CalcFundingPayment quantity currentPrice rate side =
     (let positionValue = quantity * currentPrice in positionValue * rate * of_int (- side))"

subsection \<open>Profit\<close>

lemma CalcUnrealizedPnL_at_entry [simp]: "CalcUnrealizedPnL p p q s = 0"
  by (simp add: calc_defs)

lemma CalcUnrealizedPnL_sides: "CalcUnrealizedPnL e p q (- s) = - CalcUnrealizedPnL e p q s"
  by (simp add: calc_defs)

lemma CalcUnrealizedPnL_split:
  "CalcUnrealizedPnL e p (q + q') s = CalcUnrealizedPnL e p q s + CalcUnrealizedPnL e p q' s"
  by (simp add: calc_defs algebra_simps)

lemma CalcUnrealizedPnL_via:
  "CalcUnrealizedPnL e p q s = CalcUnrealizedPnL e m q s + CalcUnrealizedPnL m p q s"
  by (simp add: calc_defs algebra_simps)

subsection \<open>Where the formulas panic\<close>

context decimal
begin

lemma CalcROI_total: "\<exists>r. CalcROI D p m = Some r"
  using div_defined [of m p] by (auto simp: calc_defs)

lemma CalcMarginRatio_total: "\<exists>r. CalcMarginRatio D m u q p = Some r"
  using div_defined [of "q * p" "m + u"] by (auto simp: calc_defs Let_def)

lemma CalcQuantity_total: "\<exists>r. CalcQuantity D m l p = Some r"
  using div_defined [of p "m * of_int l"] by (auto simp: calc_defs Let_def)

lemma CalcBankruptcyPrice_total: "l \<noteq> 0 \<Longrightarrow> \<exists>p. CalcBankruptcyPrice D e l s = Some p"
  using div_defined [of "of_int l" 1] by (auto simp: calc_defs Let_def)

lemma CalcForceTpPrice_total: "l \<noteq> 0 \<Longrightarrow> \<exists>p. CalcForceTpPrice D e l s r = Some p"
  using div_defined [of "of_int l" r] by (auto simp: calc_defs Let_def)

lemma CalcLiquidationPrice_total:
  assumes "l \<noteq> 0" and "r \<noteq> 1" and "r \<noteq> - 1"
  shows "\<exists>p. CalcLiquidationPrice D e l s r = Some p"
proof -
  obtain v where v: "Div D 1 (of_int l) = Some v"
    using div_defined [of "of_int l" 1] assms(1) by auto
  have "1 - r \<noteq> 0" and "1 + r \<noteq> 0" using assms by auto
  then obtain b c where "Div D (e * (1 - v)) (1 - r) = Some b" "Div D (e * (1 + v)) (1 + r) = Some c"
    using div_defined by blast
  with v show ?thesis
    by (simp add: CalcLiquidationPrice_def CalcLiquidationPriceWithFunding_def Let_def)
qed

subsection \<open>Bounds\<close>

text \<open>The rounded inverse of a leverage of at least one is a fraction between 0 and 1.\<close>

lemma inverse_leverage:
  assumes "Div D 1 (of_int l) = Some v" and "1 \<le> l"
  shows "0 \<le> v" and "v \<le> 1" and "\<bar>v - 1 / of_int l\<bar> < ulp"
  using assms div_nonneg [of 1 "of_int l" v] div_le_one [of 1 "of_int l" v] div_error [of 1 "of_int l" v]
  by (simp_all add: field_simps)

lemma CalcBankruptcyPrice_bounds:
  assumes "CalcBankruptcyPrice D e l s = Some p" and "1 \<le> l" and "0 \<le> e"
  shows "s = 1 \<Longrightarrow> 0 \<le> p \<and> p \<le> e" and "s \<noteq> 1 \<Longrightarrow> e \<le> p \<and> p \<le> 2 * e"
proof -
  obtain v where v: "Div D 1 (of_int l) = Some v"
    and p: "p = (if s = 1 then e * (1 - v) else e * (1 + v))"
    using assms(1) by (auto simp: calc_defs Let_def bind_eq_Some_conv)
  have "0 \<le> v" "v \<le> 1" using inverse_leverage [OF v assms(2)] by auto
  then have "0 \<le> e * v" "e * v \<le> e" using assms(3) by (simp_all add: mult_left_le)
  then show "s = 1 \<Longrightarrow> 0 \<le> p \<and> p \<le> e" and "s \<noteq> 1 \<Longrightarrow> e \<le> p \<and> p \<le> 2 * e"
    by (simp_all add: p algebra_simps)
qed

text \<open>
  At the bankruptcy price the loss is the margin, up to the rounding of the two quotients
  \<open>1 / leverage\<close> and \<open>value / leverage\<close>.
\<close>

lemma loss_at_bankruptcy:
  assumes "CalcBankruptcyPrice D e l s = Some p" and "1 \<le> l" and "s = 1 \<or> s = - 1"
    and "Div D (e * q) (of_int l) = Some m" and "0 \<le> e * q"
  shows "\<bar>CalcUnrealizedPnL e p q s + m\<bar> < ulp * (1 + e * q)"
proof -
  obtain v where v: "Div D 1 (of_int l) = Some v"
    and p: "p = (if s = 1 then e * (1 - v) else e * (1 + v))"
    using assms(1) by (auto simp: calc_defs Let_def bind_eq_Some_conv)
  have l: "(of_int l :: dec) \<noteq> 0" using assms(2) by simp
  have pnl: "CalcUnrealizedPnL e p q s = - (e * q * v)"
    using assms(3) by (auto simp: calc_defs p algebra_simps)
  have "\<bar>v - 1 / of_int l\<bar> < ulp" using inverse_leverage [OF v assms(2)] by simp
  then have "\<bar>e * q\<bar> * \<bar>v - 1 / of_int l\<bar> \<le> e * q * ulp"
    using assms(5) by (simp add: mult_left_mono)
  then have "\<bar>e * q * v - e * q / of_int l\<bar> \<le> e * q * ulp"
    by (simp add: right_diff_distrib flip: abs_mult)
  moreover have "\<bar>m - e * q / of_int l\<bar> < ulp" using div_error [OF assms(4) l] .
  ultimately show ?thesis unfolding pnl by (simp add: distrib_left abs_less_iff abs_le_iff algebra_simps)
qed

text \<open>
  The liquidation price is the bankruptcy price scaled by the maintenance rate.
\<close>

lemma CalcLiquidationPrice_near_bankruptcy:
  assumes "CalcLiquidationPrice D e l s r = Some p" and "CalcBankruptcyPrice D e l s = Some b"
    and "0 \<le> r" and "r < 1"
  shows "s = 1 \<Longrightarrow> \<bar>p - b / (1 - r)\<bar> < ulp" and "s \<noteq> 1 \<Longrightarrow> \<bar>p - b / (1 + r)\<bar> < ulp"
  using assms div_error
  by (auto simp: CalcLiquidationPrice_def CalcLiquidationPriceWithFunding_def CalcBankruptcyPrice_def
      Let_def bind_eq_Some_conv)

lemma CalcLiquidationPrice_before_bankruptcy:
  assumes liq: "CalcLiquidationPrice D e l s r = Some p" and bk: "CalcBankruptcyPrice D e l s = Some b"
    and "1 \<le> l" and "0 \<le> e" and "0 \<le> r" and "r < 1"
  shows "s = 1 \<Longrightarrow> b < p + ulp" and "s \<noteq> 1 \<Longrightarrow> p < b + ulp"
proof -
  assume s: "s = 1"
  have "0 \<le> b" using CalcBankruptcyPrice_bounds(1) [OF bk assms(3,4) s] by simp
  then have "b \<le> b / (1 - r)" using assms(5,6) by (simp add: field_simps)
  with CalcLiquidationPrice_near_bankruptcy(1) [OF liq bk assms(5,6) s] show "b < p + ulp"
    by linarith
next
  assume s: "s \<noteq> 1"
  have "0 \<le> b" using CalcBankruptcyPrice_bounds(2) [OF bk assms(3,4) s] assms(4) by simp
  then have "b / (1 + r) \<le> b" using assms(5) by (simp add: field_simps)
  with CalcLiquidationPrice_near_bankruptcy(2) [OF liq bk assms(5,6) s] show "p < b + ulp"
    by linarith
qed

lemma CalcLiquidationPrice_loss_side:
  assumes liq: "CalcLiquidationPrice D e l s r = Some p"
    and "1 \<le> l" and "0 \<le> e" and "0 \<le> r" and "r < 1" and "r = of_int k * ulp" and "r * of_int l \<le> 1"
  shows "s = 1 \<Longrightarrow> p < e + ulp" and "s \<noteq> 1 \<Longrightarrow> e < p + ulp"
proof -
  obtain b where bk: "CalcBankruptcyPrice D e l s = Some b"
    using CalcBankruptcyPrice_total [of l e s] assms(2) by auto
  obtain v where v: "Div D 1 (of_int l) = Some v"
    and b: "b = (if s = 1 then e * (1 - v) else e * (1 + v))"
    using bk by (auto simp: calc_defs Let_def bind_eq_Some_conv)
  have "of_int k * ulp \<le> 1 / (of_int l :: dec)" using assms(2,6,7) by (simp add: field_simps)
  then have "r \<le> v" using div_ge_multiple [OF v, of k] assms(2,6) by simp
  then have *: "e * (1 - v) \<le> e * (1 - r)" "e * (1 + r) \<le> e * (1 + v)"
    using assms(3) by (simp_all add: mult_left_mono)
  show "p < e + ulp" if s: "s = 1"
  proof -
    have "b / (1 - r) \<le> e" using * s assms(5) by (simp add: b field_simps)
    with CalcLiquidationPrice_near_bankruptcy(1) [OF liq bk assms(4,5) s] show ?thesis by linarith
  qed
  show "e < p + ulp" if s: "s \<noteq> 1"
  proof -
    have "e \<le> b / (1 + r)" using * s assms(4) by (simp add: b field_simps)
    with CalcLiquidationPrice_near_bankruptcy(2) [OF liq bk assms(4,5) s] show ?thesis by linarith
  qed
qed

text \<open>
  At the liquidation price the remaining margin is the maintenance rate times the value of the
  position, up to the rounding of the three quotients involved.
\<close>

lemma margin_at_liquidation:
  assumes liq: "CalcLiquidationPrice D e l s r = Some p" and "1 \<le> l" and "s = 1 \<or> s = - 1"
    and m: "Div D (e * q) (of_int l) = Some m" and "0 \<le> e * q" and "0 \<le> q" and "0 \<le> r" and "r < 1"
  shows "\<bar>m + CalcUnrealizedPnL e p q s - r * (q * p)\<bar> \<le> ulp * (1 + e * q + 2 * q)"
proof -
  obtain b where bk: "CalcBankruptcyPrice D e l s = Some b"
    using CalcBankruptcyPrice_total [of l e s] assms(2) by auto
  define k where "k = (if s = 1 then 1 - r else 1 + r)"
  have k: "0 < k" "k \<le> 2" using assms(7,8) by (auto simp: k_def)
  have "\<bar>p - b / k\<bar> < ulp"
    using CalcLiquidationPrice_near_bankruptcy [OF liq bk assms(7,8)] by (auto simp: k_def)
  then have "\<bar>(p - b / k) * k\<bar> \<le> ulp * 2" using k by (simp add: abs_mult mult_mono)
  then have "\<bar>p * k - b\<bar> \<le> ulp * 2" using k by (simp add: left_diff_distrib)
  then have "\<bar>q\<bar> * \<bar>p * k - b\<bar> \<le> q * (ulp * 2)" using assms(6) by (simp add: mult_left_mono)
  then have price: "\<bar>q * (p * k) - q * b\<bar> \<le> 2 * q * ulp"
    by (simp add: right_diff_distrib mult_ac flip: abs_mult)
  have loss: "\<bar>CalcUnrealizedPnL e b q s + m\<bar> < ulp * (1 + e * q)"
    by (rule loss_at_bankruptcy [OF bk assms(2,3) m assms(5)])
  have "m + CalcUnrealizedPnL e p q s - r * (q * p) =
      (CalcUnrealizedPnL e b q s + m) + of_int s * (q * (p * k) - q * b)"
    using assms(3) by (auto simp: calc_defs k_def algebra_simps)
  also have "\<bar>\<dots>\<bar> \<le> \<bar>CalcUnrealizedPnL e b q s + m\<bar> + \<bar>q * (p * k) - q * b\<bar>"
    using assms(3) abs_triangle_ineq [of "CalcUnrealizedPnL e b q s + m"] by (auto simp: abs_mult)
  also have "\<dots> \<le> ulp * (1 + e * q) + 2 * q * ulp" using loss price by simp
  finally show ?thesis by (simp add: algebra_simps)
qed

text \<open>At the forced take-profit price the profit is \<open>forceTpROI\<close> times \<open>value / leverage\<close>.\<close>

lemma profit_at_force_tp:
  assumes "CalcForceTpPrice D e l s roi = Some p" and "l \<noteq> 0" and "s = 1 \<or> s = - 1" and "0 \<le> e * q"
  shows "\<bar>CalcUnrealizedPnL e p q s - roi * (e * q / of_int l)\<bar> \<le> ulp * (e * q)"
proof -
  obtain w where w: "Div D roi (of_int l) = Some w"
    and p: "p = (if s = 1 then e * (1 + w) else e * (1 - w))"
    using assms(1) by (auto simp: calc_defs Let_def bind_eq_Some_conv)
  have pnl: "CalcUnrealizedPnL e p q s = e * q * w"
    using assms(3) by (auto simp: calc_defs p algebra_simps)
  have "\<bar>w - roi / of_int l\<bar> < ulp" using div_error [OF w] assms(2) by simp
  then have "\<bar>e * q\<bar> * \<bar>w - roi / of_int l\<bar> \<le> e * q * ulp"
    using assms(4) by (simp add: mult_left_mono)
  then show ?thesis unfolding pnl by (simp add: right_diff_distrib algebra_simps flip: abs_mult)
qed

end

text \<open>Funding moves money between the sides: what longs pay, shorts of the same size receive.\<close>

lemma CalcFundingPayment_antisym:
  "CalcFundingPayment q p r 1 + CalcFundingPayment q p r (- 1) = 0"
  by (simp add: calc_defs Let_def)

lemma CalcFundingPayment_sign:
  assumes "0 < q" and "0 < p" and "0 < r"
  shows "CalcFundingPayment q p r 1 < 0" and "0 < CalcFundingPayment q p r (- 1)"
  using assms by (simp_all add: calc_defs Let_def mult_pos_pos)

subsection \<open>What the formulas promise\<close>

text \<open>
  C32. The liquidation price is where the margin ratio meets the maintenance rate: at that price
  the margin plus the unrealized profit equals the rate times the position value, up to
  \<open>ulp * (1 + e * q + 2 * q)\<close>, the rounding of the quotients.
\<close>

theorem CalcLiquidationPrice_meets_rate:
  assumes "div_law D" and "CalcLiquidationPrice D e l s r = Some p" and "1 \<le> l" and "s = 1 \<or> s = - 1"
    and "Div D (e * q) (of_int l) = Some m" and "0 \<le> e * q" and "0 \<le> q" and "0 \<le> r" and "r < 1"
  shows "\<bar>m + CalcUnrealizedPnL e p q s - r * (q * p)\<bar> \<le> ulp * (1 + e * q + 2 * q)"
  using decimal.margin_at_liquidation [OF decimal.intro [OF assms(1)] assms(2-9)] .

theorem CalcLiquidationPrice_meets_rate_witness:
  "\<exists>p. CalcLiquidationPrice dec16 100 10 1 (1 / 100) = Some p \<and>
     \<bar>20 + CalcUnrealizedPnL 100 p 2 1 - 1 / 100 * (2 * p)\<bar> \<le> ulp * 205"
proof -
  obtain p where p: "CalcLiquidationPrice dec16 100 10 1 (1 / 100) = Some p"
    using dec16.CalcLiquidationPrice_total [of 10 "1 / 100" 100 1] by auto
  have "Div dec16 (100 * 2) (of_int 10) = Some 20"
    using dec16.div_exact_int [of 10 200 20] by simp
  from CalcLiquidationPrice_meets_rate [OF dec16_law p _ _ this] p show ?thesis by simp
qed

text \<open>
  Prices are ordered as a liquidation needs them: for a leverage of at least one and a
  maintenance rate of at most \<open>1 / leverage\<close> with 16 digits, a long is liquidated between its
  bankruptcy price and its entry price, a short between its entry and its bankruptcy price, up
  to one unit of the last digit.
\<close>

theorem liquidation_between_entry_and_bankruptcy:
  assumes "div_law D" and "CalcLiquidationPrice D e l s r = Some p" and "CalcBankruptcyPrice D e l s = Some b"
    and "1 \<le> l" and "0 \<le> e" and "0 \<le> r" and "r < 1" and "r = of_int k * ulp" and "r * of_int l \<le> 1"
  shows "if s = 1 then b < p + ulp \<and> p < e + ulp else e < p + ulp \<and> p < b + ulp"
  using decimal.CalcLiquidationPrice_before_bankruptcy [OF decimal.intro [OF assms(1)] assms(2-7)]
    decimal.CalcLiquidationPrice_loss_side [OF decimal.intro [OF assms(1)] assms(2,4-9)] by simp

theorem liquidation_between_entry_and_bankruptcy_witness:
  "\<exists>p b. CalcLiquidationPrice dec16 100 10 1 (1 / 100) = Some p \<and>
     CalcBankruptcyPrice dec16 100 10 1 = Some b \<and> b < p + ulp \<and> p < 100 + ulp"
proof -
  obtain p b where p: "CalcLiquidationPrice dec16 100 10 1 (1 / 100) = Some p"
    and b: "CalcBankruptcyPrice dec16 100 10 1 = Some b"
    using dec16.CalcLiquidationPrice_total [of 10 "1 / 100" 100 1]
      dec16.CalcBankruptcyPrice_total [of 10 100 1] by auto
  have "(1 / 100 :: dec) = of_int (10 ^ 14) * ulp" by (simp add: ulp_def)
  from liquidation_between_entry_and_bankruptcy [OF dec16_law p b _ _ _ _ this] p b show ?thesis by simp
qed

text \<open>
  Bankruptcy means the margin is gone: closing at the bankruptcy price loses the margin
  \<open>value / leverage\<close>, up to \<open>ulp * (1 + e * q)\<close>; and the forced take-profit price earns \<open>roi\<close>
  times that margin, up to \<open>ulp * (e * q)\<close>.
\<close>

theorem bankruptcy_and_force_tp:
  assumes "div_law D" and "CalcBankruptcyPrice D e l s = Some b" and "CalcForceTpPrice D e l s roi = Some f"
    and "1 \<le> l" and "s = 1 \<or> s = - 1" and "Div D (e * q) (of_int l) = Some m" and "0 \<le> e * q"
  shows "\<bar>CalcUnrealizedPnL e b q s + m\<bar> < ulp * (1 + e * q) \<and>
    \<bar>CalcUnrealizedPnL e f q s - roi * (e * q / of_int l)\<bar> \<le> ulp * (e * q)"
  using decimal.loss_at_bankruptcy [OF decimal.intro [OF assms(1)] assms(2,4-7)]
    decimal.profit_at_force_tp [OF decimal.intro [OF assms(1)] assms(3) _ assms(5,7)] assms(4) by simp

theorem bankruptcy_and_force_tp_witness:
  "\<exists>b f. CalcBankruptcyPrice dec16 100 10 (- 1) = Some b \<and> CalcForceTpPrice dec16 100 10 (- 1) 5 = Some f \<and>
     \<bar>CalcUnrealizedPnL 100 b 2 (- 1) + 20\<bar> < ulp * 201 \<and> \<bar>CalcUnrealizedPnL 100 f 2 (- 1) - 100\<bar> \<le> ulp * 200"
proof -
  obtain b f where b: "CalcBankruptcyPrice dec16 100 10 (- 1) = Some b"
    and f: "CalcForceTpPrice dec16 100 10 (- 1) 5 = Some f"
    using dec16.CalcBankruptcyPrice_total [of 10 100 "- 1"] dec16.CalcForceTpPrice_total [of 10 100 "- 1" 5] by auto
  have "Div dec16 (100 * 2) (of_int 10) = Some 20"
    using dec16.div_exact_int [of 10 200 20] by simp
  from bankruptcy_and_force_tp [OF dec16_law b f _ _ this] b f show ?thesis by simp
qed

end
