(* ===== verification/Fee.thy ===== *)
theory Fee
  imports Prelude
begin

section \<open>Maker and taker fees (\<open>internal/engine/fee/calculator.go\<close>)\<close>

text \<open>
  The tier table, the search of the tier for a 30-day volume and the fee of an order. The tier
  names, which only label the rows, are numbered. \<open>GetTier\<close> reads \<open>tiers[0]\<close> when no row
  matches: on an empty table that is the index panic, \<open>None\<close> here; \<open>NewCalculator\<close> never
  builds an empty table.
\<close>

record tier =
  tierName :: nat
  Volume30d :: dec
  MakerRate :: dec
  TakerRate :: dec

record calculator =
  tiers :: "tier list"

definition mk_tier :: "nat \<Rightarrow> dec \<Rightarrow> dec \<Rightarrow> dec \<Rightarrow> tier" where
  "mk_tier n v m t = \<lparr>tierName = n, Volume30d = v, MakerRate = m, TakerRate = t\<rparr>"

definition DefaultTiers :: "tier list" where
  "DefaultTiers =
    [mk_tier 0 0 (2 / 10000) (4 / 10000),
     mk_tier 1 100000 (18 / 100000) (35 / 100000),
     mk_tier 2 500000 (15 / 100000) (3 / 10000),
     mk_tier 3 2000000 (1 / 10000) (25 / 100000),
     mk_tier 4 10000000 (5 / 100000) (2 / 10000),
     mk_tier 5 50000000 (- 5 / 100000) (15 / 100000)]"

definition NewCalculator :: "tier list \<Rightarrow> calculator" where
  "NewCalculator ts = \<lparr>tiers = (if ts = [] then DefaultTiers else ts)\<rparr>"

text \<open>The loop keeps the last row whose threshold the volume reaches.\<close>

fun matchTier :: "dec \<Rightarrow> tier option \<Rightarrow> tier list \<Rightarrow> tier option" where
  "matchTier volume matched [] = matched"
| "matchTier volume matched (t # ts) =
     matchTier volume (if Volume30d t \<le> volume then Some t else matched) ts"

definition GetTier :: "calculator \<Rightarrow> dec \<Rightarrow> tier option" where
  "GetTier c volume30d =
     (case matchTier volume30d None (tiers c) of
        Some t \<Rightarrow> Some t
      | None \<Rightarrow> (case tiers c of [] \<Rightarrow> None | t # _ \<Rightarrow> Some t))"

definition CalcFee :: "calculator \<Rightarrow> dec \<Rightarrow> dec \<Rightarrow> bool \<Rightarrow> (dec \<times> dec) option" where
  "CalcFee c positionValue volume30d isMaker =
     do {
       t \<leftarrow> GetTier c volume30d;
       let rate = (if isMaker then MakerRate t else TakerRate t);
       Some (positionValue * rate, rate)
     }"

definition CalcSimpleFee :: "dec \<Rightarrow> dec \<Rightarrow> dec" where
  "CalcSimpleFee positionValue feeRate = positionValue * feeRate"

lemmas fee_defs = GetTier_def CalcFee_def

subsection \<open>The search\<close>

lemma matchTier_None: "matchTier v None ts = None \<longleftrightarrow> (\<forall>t \<in> set ts. v < Volume30d t)"
proof -
  have "matchTier v m ts = None \<longleftrightarrow> m = None \<and> (\<forall>t \<in> set ts. v < Volume30d t)" for m
    by (induction ts arbitrary: m) auto
  then show ?thesis by simp
qed

lemma matchTier_Some:
  "matchTier v m ts = Some t \<Longrightarrow> (t \<in> set ts \<and> Volume30d t \<le> v) \<or> m = Some t"
  by (induction ts arbitrary: m) (fastforce split: if_splits)+

lemma matchTier_last:
  assumes "Volume30d t \<le> v" and "\<forall>u \<in> set us. v < Volume30d u"
  shows "matchTier v m (ts @ t # us) = Some t"
proof -
  have *: "matchTier v (Some t) us = Some t" using assms(2) by (induction us) auto
  show ?thesis by (induction ts arbitrary: m) (use assms(1) * in auto)
qed

text \<open>
  On a table sorted by threshold the tier found has the greatest threshold the volume reaches.
\<close>

lemma matchTier_greatest:
  assumes "sorted (map Volume30d ts)" and "matchTier v None ts = Some t"
    and "u \<in> set ts" and "Volume30d u \<le> v"
  shows "Volume30d u \<le> Volume30d t"
proof -
  have "sorted (map Volume30d ts) \<Longrightarrow> (\<forall>x. m = Some x \<longrightarrow> (\<forall>u \<in> set ts. Volume30d x \<le> Volume30d u)) \<Longrightarrow>
      matchTier v m ts = Some t \<Longrightarrow> u \<in> set ts \<Longrightarrow> Volume30d u \<le> v \<Longrightarrow> Volume30d u \<le> Volume30d t" for m ts
  proof (induction ts arbitrary: m)
    case (Cons x xs)
    show ?case
    proof (cases "u \<in> set xs")
      case True
      with Cons.prems show ?thesis
        by (intro Cons.IH [of "if Volume30d x \<le> v then Some x else m"]) auto
    next
      case False
      with Cons.prems have "u = x" by simp
      with Cons.prems have "matchTier v (Some x) xs = Some t" by simp
      then have "t \<in> set xs \<or> t = x" using matchTier_Some by fastforce
      with Cons.prems(1) \<open>u = x\<close> show ?thesis by auto
    qed
  qed simp
  from this [of ts None] assms show ?thesis by simp
qed

lemma GetTier_defined: "tiers c \<noteq> [] \<Longrightarrow> \<exists>t. GetTier c v = Some t"
  by (auto simp: GetTier_def neq_Nil_conv split: option.splits)

lemma CalcFee_defined: "tiers c \<noteq> [] \<Longrightarrow> \<exists>f r. CalcFee c p v m = Some (f, r) \<and> f = p * r"
  using GetTier_defined [of c v] by (auto simp: CalcFee_def Let_def)

lemma NewCalculator_nonempty [simp]: "tiers (NewCalculator ts) \<noteq> []"
  by (simp add: NewCalculator_def DefaultTiers_def)

lemma GetTier_mem: "GetTier c v = Some t \<Longrightarrow> t \<in> set (tiers c)"
  by (auto simp: GetTier_def split: option.splits list.splits dest: matchTier_Some)

text \<open>
  On a non-empty table sorted by threshold, \<open>GetTier\<close> answers a row of the table: the one
  with the greatest threshold the volume reaches, or the first row when it reaches none.
\<close>

theorem GetTier_greatest:
  assumes "sorted (map Volume30d (tiers c))" and "tiers c \<noteq> []"
  shows "\<exists>t \<in> set (tiers c). GetTier c v = Some t \<and>
    (if \<exists>u \<in> set (tiers c). Volume30d u \<le> v
     then Volume30d t \<le> v \<and> (\<forall>u \<in> set (tiers c). Volume30d u \<le> v \<longrightarrow> Volume30d u \<le> Volume30d t)
     else t = hd (tiers c))"
proof (cases "matchTier v None (tiers c)")
  case None
  then have "\<forall>u \<in> set (tiers c). v < Volume30d u" by (simp add: matchTier_None)
  with None assms(2) show ?thesis by (cases "tiers c") (auto simp: GetTier_def)
next
  case (Some t)
  then have "t \<in> set (tiers c)" "Volume30d t \<le> v" using matchTier_Some by fastforce+
  with Some matchTier_greatest [OF assms(1) Some] show ?thesis by (auto simp: GetTier_def)
qed

theorem GetTier_greatest_witness:
  "\<exists>t \<in> set DefaultTiers. GetTier (NewCalculator []) 600000 = Some t \<and> Volume30d t = 500000"
proof -
  have "sorted (map Volume30d (tiers (NewCalculator [])))"
    by (simp add: NewCalculator_def DefaultTiers_def mk_tier_def)
  from GetTier_greatest [OF this NewCalculator_nonempty, of 600000] show ?thesis
    by (auto simp: NewCalculator_def DefaultTiers_def mk_tier_def)
qed

end
