(* ===== verification/Insurance.thy ===== *)
theory Insurance
  imports Prelude
begin

section \<open>The insurance fund (\<open>internal/engine/insurance/fund.go\<close>)\<close>

text \<open>
  The fund is one balance under a read-write lock; every method is one critical section, so a
  method is one state transformation.
\<close>

record fund =
  fundBalance :: dec

definition NewFund :: "dec \<Rightarrow> fund" where
  "NewFund initialBalance = \<lparr>fundBalance = initialBalance\<rparr>"

definition GetFundBalance :: "fund \<Rightarrow> dec" where
  "GetFundBalance f = fundBalance f"

definition Contribute :: "dec \<Rightarrow> fund \<Rightarrow> fund" where
  "Contribute amount f =
     (if amount < 0 then f else f\<lparr>fundBalance := fundBalance f + amount\<rparr>)"

text \<open>\<open>Cover\<close> returns the amount covered and whether auto-deleveraging is needed.\<close>

definition Cover :: "dec \<Rightarrow> fund \<Rightarrow> (dec \<times> bool) \<times> fund" where
  "Cover deficit f =
     (if deficit < 0 \<or> deficit = 0 then ((0, False), f)
      else if deficit \<le> fundBalance f then
        ((deficit, False), f\<lparr>fundBalance := fundBalance f - deficit\<rparr>)
      else ((fundBalance f, True), f\<lparr>fundBalance := 0\<rparr>))"

lemmas fund_defs = Contribute_def Cover_def

lemma Contribute_balance [simp]: "fundBalance (Contribute a f) = fundBalance f + max a 0"
  by (simp add: Contribute_def)

lemma Cover_conserves: "Cover d f = ((c, adl), f') \<Longrightarrow> fundBalance f' + c = fundBalance f"
  by (auto simp: Cover_def split: if_splits)

lemma Cover_nonneg:
  "Cover d f = ((c, adl), f') \<Longrightarrow> 0 \<le> fundBalance f \<Longrightarrow> 0 \<le> c \<and> c \<le> max d 0 \<and> 0 \<le> fundBalance f'"
  by (auto simp: Cover_def split: if_splits)

lemma Cover_needs_adl: "Cover d f = ((c, adl), f') \<Longrightarrow> adl \<longleftrightarrow> 0 < d \<and> fundBalance f < d"
  by (auto simp: Cover_def split: if_splits)

lemma Cover_full: "Cover d f = ((c, False), f') \<Longrightarrow> c = max d 0"
  by (auto simp: Cover_def split: if_splits)

text \<open>A run of operations, with the sum of what it paid out.\<close>

datatype fund_op = FContribute dec | FCover dec

fun fund_run :: "fund_op list \<Rightarrow> fund \<Rightarrow> dec \<times> fund" where
  "fund_run [] f = (0, f)"
| "fund_run (FContribute a # ops) f = fund_run ops (Contribute a f)"
| "fund_run (FCover d # ops) f =
     (let ((c, adl), f') = Cover d f in apfst ((+) c) (fund_run ops f'))"

fun contributed :: "fund_op list \<Rightarrow> dec" where
  "contributed [] = 0"
| "contributed (FContribute a # ops) = max a 0 + contributed ops"
| "contributed (FCover d # ops) = contributed ops"

fun deficits :: "fund_op list \<Rightarrow> dec" where
  "deficits [] = 0"
| "deficits (FContribute a # ops) = deficits ops"
| "deficits (FCover d # ops) = max d 0 + deficits ops"

text \<open>
  The fund never goes negative and never creates money: after any sequence of
  contributions and covers of a fund with a non-negative balance, what it paid plus what is left
  is what it had plus the non-negative contributions, and it paid at most the deficits.
\<close>

theorem fund_run_conserves:
  assumes "0 \<le> fundBalance f" and "fund_run ops f = (paid, f')"
  shows "0 \<le> fundBalance f' \<and> paid + fundBalance f' = fundBalance f + contributed ops \<and>
    0 \<le> paid \<and> paid \<le> deficits ops"
  using assms
proof (induction ops f arbitrary: paid rule: fund_run.induct)
  case (3 d ops f)
  obtain c adl f1 where c: "Cover d f = ((c, adl), f1)" by (metis surj_pair)
  then obtain p where p: "fund_run ops f1 = (p, f')" "paid = c + p"
    using "3.prems"(2) by (auto simp: apfst_eq_iff apfst_def map_prod_def split: prod.splits)
  note c' = Cover_nonneg [OF c "3.prems"(1)] Cover_conserves [OF c]
  have "0 \<le> fundBalance f' \<and> p + fundBalance f' = fundBalance f1 + contributed ops \<and> 0 \<le> p \<and> p \<le> deficits ops"
    by (rule "3.IH" [OF c [symmetric] refl refl _ p(1)]) (use c' in simp)
  with c' p(2) show ?case by simp
qed auto

theorem fund_run_conserves_witness:
  "fund_run [FCover 30, FContribute 5, FCover 100] \<lparr>fundBalance = 50\<rparr> = (55, \<lparr>fundBalance = 0\<rparr>) \<and>
   (0::dec) \<le> 55 \<and> (55::dec) \<le> deficits [FCover 30, FContribute 5, FCover 100]"
proof -
  have run: "fund_run [FCover 30, FContribute 5, FCover 100] \<lparr>fundBalance = 50\<rparr> = (55, \<lparr>fundBalance = 0\<rparr>)"
    by (simp add: Cover_def Contribute_def)
  from fund_run_conserves [OF _ run] run show ?thesis by simp
qed

end
