(* ===== verification/Account_Cache.thy ===== *)
theory Account_Cache
  imports Prelude
begin

section \<open>The account cache (\<open>internal/cache/account_cache.go\<close>)\<close>

text \<open>
  The in-memory accounts the engine charges. Every method is one critical section of the
  cache's lock, so it is one transformation of the map from user IDs to accounts, an association
  list here. What an account has available is its balance less what is frozen.
\<close>

subsection \<open>Operations\<close>

record mem_account =
  Balance :: dec
  Frozen :: dec

type_synonym accounts = "(int \<times> mem_account) list"

definition NewAccountCache :: accounts where
  "NewAccountCache = []"

definition LoadAccount :: "int \<Rightarrow> dec \<Rightarrow> dec \<Rightarrow> accounts \<Rightarrow> accounts" where
  [cache_defs]: "LoadAccount userID balance frozen c =
     AList.update userID \<lparr>Balance = balance, Frozen = frozen\<rparr> c"

definition GetOrCreate :: "int \<Rightarrow> accounts \<Rightarrow> mem_account \<times> accounts" where
  [cache_defs]: "GetOrCreate userID c =
     (case map_of c userID of
        Some acc \<Rightarrow> (acc, c)
      | None \<Rightarrow> let acc = \<lparr>Balance = 0, Frozen = 0\<rparr> in (acc, AList.update userID acc c))"

definition GetBalance :: "int \<Rightarrow> accounts \<Rightarrow> dec" where
  [cache_defs]: "GetBalance userID c =
     (case map_of c userID of None \<Rightarrow> 0 | Some acc \<Rightarrow> Balance acc - Frozen acc)"

definition Deduct :: "int \<Rightarrow> dec \<Rightarrow> accounts \<Rightarrow> bool \<times> accounts" where
  [cache_defs]: "Deduct userID amount c =
     (case map_of c userID of
        None \<Rightarrow> (False, c)
      | Some acc \<Rightarrow>
          let available = Balance acc - Frozen acc
          in if available < amount then (False, c)
             else (True, AList.update userID (acc\<lparr>Balance := Balance acc - amount\<rparr>) c))"

definition Freeze :: "int \<Rightarrow> dec \<Rightarrow> accounts \<Rightarrow> bool \<times> accounts" where
  [cache_defs]: "Freeze userID amount c =
     (case map_of c userID of
        None \<Rightarrow> (False, c)
      | Some acc \<Rightarrow>
          let available = Balance acc - Frozen acc
          in if available < amount then (False, c)
             else (True, AList.update userID (acc\<lparr>Frozen := Frozen acc + amount\<rparr>) c))"

definition Unfreeze :: "int \<Rightarrow> dec \<Rightarrow> accounts \<Rightarrow> accounts" where
  [cache_defs]: "Unfreeze userID amount c =
     (case map_of c userID of
        None \<Rightarrow> c
      | Some acc \<Rightarrow>
          let acc' = acc\<lparr>Frozen := Frozen acc - amount\<rparr>;
              acc'' = (if Frozen acc' < 0 then acc'\<lparr>Frozen := 0\<rparr> else acc')
          in AList.update userID acc'' c)"

definition ReturnMarginWithPnl :: "int \<Rightarrow> dec \<Rightarrow> dec \<Rightarrow> accounts \<Rightarrow> accounts" where
  [cache_defs]: "ReturnMarginWithPnl userID margin pnl c =
     (case map_of c userID of
        None \<Rightarrow> c
      | Some acc \<Rightarrow> AList.update userID (acc\<lparr>Balance := Balance acc + margin + pnl\<rparr>) c)"

definition AddPnl :: "int \<Rightarrow> dec \<Rightarrow> accounts \<Rightarrow> accounts" where
  [cache_defs]: "AddPnl userID pnl c =
     (case map_of c userID of
        None \<Rightarrow> c
      | Some acc \<Rightarrow>
          let newBalance = Balance acc + pnl;
              newBalance' = (if newBalance < 0 then 0 else newBalance)
          in AList.update userID (acc\<lparr>Balance := newBalance'\<rparr>) c)"

definition ResetAccount :: "int \<Rightarrow> dec \<Rightarrow> accounts \<Rightarrow> accounts" where
  [cache_defs]: "ResetAccount userID balance c =
     AList.update userID \<lparr>Balance = balance, Frozen = 0\<rparr> c"

subsection \<open>The contract of a margin ledger\<close>

text \<open>
  What the engine relies on when it charges a user: which users have an account, what each has
  available and frozen, and how the five operations change these amounts. The consequences the
  engine uses are proved inside the locale from these laws alone.
\<close>

locale margin_ledger =
  fixes holder :: "int \<Rightarrow> 's \<Rightarrow> bool"
    and available :: "int \<Rightarrow> 's \<Rightarrow> dec"
    and held :: "int \<Rightarrow> 's \<Rightarrow> dec"
    and deduct :: "int \<Rightarrow> dec \<Rightarrow> 's \<Rightarrow> bool \<times> 's"
    and freeze :: "int \<Rightarrow> dec \<Rightarrow> 's \<Rightarrow> bool \<times> 's"
    and unfreeze :: "int \<Rightarrow> dec \<Rightarrow> 's \<Rightarrow> 's"
    and settle :: "int \<Rightarrow> dec \<Rightarrow> dec \<Rightarrow> 's \<Rightarrow> 's"
  assumes deduct_ok: "holder u s \<Longrightarrow> a \<le> available u s \<Longrightarrow>
      \<exists>s'. deduct u a s = (True, s') \<and> available u s' = available u s - a \<and> held u s' = held u s"
    and deduct_fails: "\<not> holder u s \<or> available u s < a \<Longrightarrow> deduct u a s = (False, s)"
    and deduct_frame: "deduct u a s = (r, s') \<Longrightarrow> v \<noteq> u \<Longrightarrow>
      available v s' = available v s \<and> held v s' = held v s"
    and deduct_holder: "deduct u a s = (r, s') \<Longrightarrow> holder v s' = holder v s"
    and freeze_ok: "holder u s \<Longrightarrow> a \<le> available u s \<Longrightarrow>
      \<exists>s'. freeze u a s = (True, s') \<and> available u s' = available u s - a \<and> held u s' = held u s + a"
    and freeze_fails: "\<not> holder u s \<or> available u s < a \<Longrightarrow> freeze u a s = (False, s)"
    and freeze_frame: "freeze u a s = (r, s') \<Longrightarrow> v \<noteq> u \<Longrightarrow>
      available v s' = available v s \<and> held v s' = held v s"
    and freeze_holder: "freeze u a s = (r, s') \<Longrightarrow> holder v s' = holder v s"
    and unfreeze_ok: "holder u s \<Longrightarrow> a \<le> held u s \<Longrightarrow>
      available u (unfreeze u a s) = available u s + a \<and> held u (unfreeze u a s) = held u s - a"
    and unfreeze_frame: "v \<noteq> u \<Longrightarrow>
      available v (unfreeze u a s) = available v s \<and> held v (unfreeze u a s) = held v s"
    and settle_ok: "holder u s \<Longrightarrow>
      available u (settle u m p s) = available u s + m + p \<and> held u (settle u m p s) = held u s"
    and settle_frame: "v \<noteq> u \<Longrightarrow>
      available v (settle u m p s) = available v s \<and> held v (settle u m p s) = held v s"
    and settle_holder: "holder v (settle u m p s) = holder v s"
begin

lemma deduct_True_iff: "fst (deduct u a s) \<longleftrightarrow> holder u s \<and> a \<le> available u s"
  using deduct_ok [of u s a] deduct_fails [of u s a] by fastforce

lemma freeze_True_iff: "fst (freeze u a s) \<longleftrightarrow> holder u s \<and> a \<le> available u s"
  using freeze_ok [of u s a] freeze_fails [of u s a] by fastforce

lemma deductE:
  assumes "deduct u a s = (True, s')"
  shows "holder u s" and "a \<le> available u s" and "available u s' = available u s - a"
    and "held u s' = held u s"
proof -
  show h: "holder u s" and a: "a \<le> available u s"
    using deduct_True_iff [of u a s] assms by simp_all
  show "available u s' = available u s - a" and "held u s' = held u s"
    using deduct_ok [OF h a] assms by auto
qed

lemma deduct_covered: "deduct u a s = (True, s') \<Longrightarrow> 0 \<le> available u s'"
  using deductE [of u a s s'] by simp

lemma deduct_settle:
  assumes "deduct u a s = (True, s')"
  shows "available v (settle u a p s') = available v s + (if v = u then p else 0)"
proof (cases "v = u")
  case True
  have "holder u s'" using deduct_holder [OF assms] deductE(1) [OF assms] by simp
  with True show ?thesis using settle_ok deductE(3) [OF assms] by simp
next
  case False
  with settle_frame deduct_frame [OF assms] show ?thesis by simp
qed

lemma freeze_unfreeze:
  assumes "freeze u a s = (True, s')" and "0 \<le> held u s"
  shows "available v (unfreeze u a s') = available v s" and "held v (unfreeze u a s') = held v s"
proof -
  have u: "holder u s" "a \<le> available u s" using freeze_True_iff [of u a s] assms(1) by simp_all
  then have "available u s' = available u s - a" "held u s' = held u s + a"
    using freeze_ok [OF u] assms(1) by auto
  moreover have "holder u s'" using freeze_holder [OF assms(1)] u(1) by simp
  ultimately show "available v (unfreeze u a s') = available v s" and "held v (unfreeze u a s') = held v s"
    using unfreeze_ok [of u s' a] unfreeze_frame [of v u a s'] freeze_frame [OF assms(1), of v] assms(2)
    by (cases "v = u"; simp)+
qed

end

subsection \<open>The cache is a margin ledger\<close>

definition holds_account :: "int \<Rightarrow> accounts \<Rightarrow> bool" where
  "holds_account u c \<longleftrightarrow> map_of c u \<noteq> None"

definition frozen_of :: "int \<Rightarrow> accounts \<Rightarrow> dec" where
  "frozen_of u c = (case map_of c u of None \<Rightarrow> 0 | Some acc \<Rightarrow> Frozen acc)"

lemmas ledger_defs = cache_defs holds_account_def frozen_of_def

interpretation ledger: margin_ledger holds_account GetBalance frozen_of Deduct Freeze Unfreeze ReturnMarginWithPnl
  by unfold_locales (auto simp: ledger_defs Let_def split: option.splits if_splits)

subsection \<open>What the cache promises\<close>

text \<open>
  \<open>Deduct\<close> takes the amount exactly when the user has an account with at least that much
  available, and then available balance drops by the amount; in every other case, and for every
  other user, nothing changes. So a deduction never overdraws an account.
\<close>

theorem Deduct_exact:
  "(fst (Deduct u a c) \<longleftrightarrow> holds_account u c \<and> a \<le> GetBalance u c) \<and>
   GetBalance v (snd (Deduct u a c)) = GetBalance v c - (if v = u \<and> fst (Deduct u a c) then a else 0) \<and>
   frozen_of v (snd (Deduct u a c)) = frozen_of v c"
proof (cases "fst (Deduct u a c)")
  case True
  then obtain c' where c': "Deduct u a c = (True, c')" by (cases "Deduct u a c") auto
  with ledger.deductE [OF c'] ledger.deduct_frame [OF c', of v] show ?thesis
    by (cases "v = u") auto
next
  case False
  then have "\<not> holds_account u c \<or> GetBalance u c < a" using ledger.deduct_True_iff [of u a c] by auto
  then show ?thesis using ledger.deduct_fails [of u c a] ledger.deduct_True_iff [of u a c] by auto
qed

text \<open>
  A successful \<open>Freeze\<close> followed by \<open>Unfreeze\<close> of the same amount is a round trip: every
  user has the same available and frozen amounts as before, so an order that is placed and
  cancelled costs nothing.
\<close>

theorem Freeze_Unfreeze:
  assumes "Freeze u a c = (True, c')" and "0 \<le> frozen_of u c"
  shows "GetBalance v (Unfreeze u a c') = GetBalance v c \<and> frozen_of v (Unfreeze u a c') = frozen_of v c"
  using ledger.freeze_unfreeze [OF assms] by simp

theorem Freeze_Unfreeze_witness:
  "GetBalance 7 (snd (Freeze 7 40 [(7, \<lparr>Balance = 100, Frozen = 10\<rparr>)])) = 50 \<and>
   GetBalance 7 (Unfreeze 7 40 (snd (Freeze 7 40 [(7, \<lparr>Balance = 100, Frozen = 10\<rparr>)]))) = 90"
proof -
  have fz: "Freeze 7 40 [(7, \<lparr>Balance = 100, Frozen = 10\<rparr>)] = (True, [(7, \<lparr>Balance = 100, Frozen = 50\<rparr>)])"
    by (simp add: Freeze_def Let_def)
  from Freeze_Unfreeze [OF fz, of 7] show ?thesis unfolding fz by (simp add: GetBalance_def frozen_of_def)
qed

subsection \<open>Money in the accounts\<close>

text \<open>The sum of all balances, and how each operation changes it.\<close>

definition total_balance :: "accounts \<Rightarrow> dec" where
  "total_balance c = al_sum Balance c"

lemma total_balance_Deduct [simp]:
  "total_balance (snd (Deduct u a c)) = total_balance c - (if fst (Deduct u a c) then a else 0)"
  by (auto simp: total_balance_def Deduct_def al_sum_update Let_def split: option.split)

lemma total_balance_Freeze [simp]: "total_balance (snd (Freeze u a c)) = total_balance c"
  by (auto simp: total_balance_def Freeze_def al_sum_update Let_def split: option.split)

lemma total_balance_Unfreeze [simp]: "total_balance (Unfreeze u a c) = total_balance c"
  by (auto simp: total_balance_def Unfreeze_def al_sum_update Let_def split: option.split)

lemma total_balance_settle [simp]:
  "total_balance (ReturnMarginWithPnl u m p c) = total_balance c + (if holds_account u c then m + p else 0)"
  by (auto simp: total_balance_def ReturnMarginWithPnl_def al_sum_update holds_account_def split: option.split)

lemma total_balance_AddPnl:
  "total_balance (AddPnl u p c) =
     total_balance c + (case map_of c u of None \<Rightarrow> 0 | Some acc \<Rightarrow> max p (- Balance acc))"
  by (auto simp: total_balance_def AddPnl_def al_sum_update Let_def split: option.split)

lemma holds_account_ops [simp]:
  "holds_account v (snd (Deduct u a c)) = holds_account v c"
  "holds_account v (snd (Freeze u a c)) = holds_account v c"
  "holds_account v (Unfreeze u a c) = holds_account v c"
  "holds_account v (ReturnMarginWithPnl u m p c) = holds_account v c"
  "holds_account v (AddPnl u p c) = holds_account v c"
  by (auto simp: ledger_defs Let_def split: option.split)

end
