(* ===== verification/Position_Cache.thy ===== *)
theory Position_Cache
  imports Prelude
begin

section \<open>The position cache (\<open>internal/cache/position_cache.go\<close>)\<close>

text \<open>
  The open positions, by ID and by user. The cache stores pointers: whoever took a position out
  of it keeps seeing its object after the position was removed. A pointer is the position's ID
  here. \<open>posLive\<close> is the map \<open>positions\<close>, \<open>posGone\<close> holds the objects that have left it and
  may still be pointed at; IDs are never reused. The lists stand for one order in which
  \<open>sync.Map.Range\<close> may visit the keys. \<open>GetByUser\<close> and the two searches answer the objects as
  they are at the call, which is when their callers read them; \<open>GetAll\<close>, whose result is kept
  while the cache changes, answers pointers, and \<open>deref\<close> reads through one.

  The numbers of a position are strings (\<open>dstring\<close>), as in the code.
\<close>

subsection \<open>Data\<close>

datatype pos_state = PosStateActive | PosStateLiquidating | PosStateForceTPing | PosStateClosing

record cached_position =
  pID :: int
  pUserID :: int
  pSide :: int
  pMarginMode :: int
  pLeverage :: int
  pEntryPrice :: dstring
  pQuantity :: dstring
  pMargin :: dstring
  pLiqPrice :: dstring
  pForceTpPrice :: dstring
  pTakeProfit :: dstring
  pStopLoss :: dstring
  pFundingPnl :: dstring
  pState :: pos_state

definition NewCachedPosition ::
    "int \<Rightarrow> int \<Rightarrow> int \<Rightarrow> int \<Rightarrow> int \<Rightarrow> dstring \<Rightarrow> dstring \<Rightarrow> dstring \<Rightarrow> dstring \<Rightarrow> dstring \<Rightarrow> dstring \<Rightarrow>
     dstring \<Rightarrow> dstring \<Rightarrow> cached_position" where
  "NewCachedPosition i userID side marginMode leverage entryPrice quantity margin liqPrice
     forceTpPrice takeProfit stopLoss fundingPnl =
     \<lparr>pID = i, pUserID = userID, pSide = side, pMarginMode = marginMode, pLeverage = leverage,
      pEntryPrice = entryPrice, pQuantity = quantity, pMargin = margin, pLiqPrice = liqPrice,
      pForceTpPrice = forceTpPrice, pTakeProfit = takeProfit, pStopLoss = stopLoss,
      pFundingPnl = fundingPnl, pState = PosStateActive\<rparr>"

record position_cache =
  posLive :: "(int \<times> cached_position) list"
  posGone :: "(int \<times> cached_position) list"
  userIndex :: "(int \<times> int list) list"

subsection \<open>Operations\<close>

definition NewPositionCache :: position_cache where
  "NewPositionCache = \<lparr>posLive = [], posGone = [], userIndex = []\<rparr>"

definition user_ids :: "int \<Rightarrow> position_cache \<Rightarrow> int list" where
  "user_ids userID c = (case map_of (userIndex c) userID of None \<Rightarrow> [] | Some ids \<Rightarrow> ids)"

definition AddPosition :: "cached_position \<Rightarrow> position_cache \<Rightarrow> position_cache" where
  [cache_defs]: "AddPosition pos c =
     (let ids = user_ids (pUserID pos) c
      in c\<lparr>posLive := AList.update (pID pos) pos (posLive c),
           userIndex := AList.update (pUserID pos) (List.insert (pID pos) ids) (userIndex c)\<rparr>)"

definition RemovePosition :: "int \<Rightarrow> position_cache \<Rightarrow> position_cache" where
  [cache_defs]: "RemovePosition positionID c =
     (case map_of (posLive c) positionID of
        None \<Rightarrow> c
      | Some pos \<Rightarrow>
          let c' = c\<lparr>posLive := AList.delete positionID (posLive c),
                     posGone := AList.update positionID pos (posGone c)\<rparr>
          in (case map_of (userIndex c) (pUserID pos) of
                None \<Rightarrow> c'
              | Some ids \<Rightarrow>
                  c'\<lparr>userIndex := AList.update (pUserID pos) (removeAll positionID ids) (userIndex c)\<rparr>))"

definition GetPosition :: "int \<Rightarrow> position_cache \<Rightarrow> cached_position option" where
  [cache_defs]: "GetPosition positionID c = map_of (posLive c) positionID"

definition GetByUser :: "int \<Rightarrow> position_cache \<Rightarrow> cached_position list" where
  [cache_defs]: "GetByUser userID c = List.map_filter (\<lambda>i. map_of (posLive c) i) (user_ids userID c)"

definition FindOpposite :: "int \<Rightarrow> int \<Rightarrow> position_cache \<Rightarrow> cached_position option" where
  [cache_defs]: "FindOpposite userID tradeSide c =
     (let oppositeSide = - tradeSide
      in List.find (\<lambda>p. pSide p = oppositeSide \<and>
           (pState p = PosStateActive \<or> pState p = PosStateClosing \<or> pState p = PosStateForceTPing))
         (GetByUser userID c))"

definition FindSameDir :: "int \<Rightarrow> int \<Rightarrow> position_cache \<Rightarrow> cached_position option" where
  [cache_defs]: "FindSameDir userID side c =
     List.find (\<lambda>p. pSide p = side \<and> pState p = PosStateActive) (GetByUser userID c)"

definition GetAll :: "position_cache \<Rightarrow> int list" where
  [cache_defs]: "GetAll c = map fst (filter (\<lambda>(i, p). pState p = PosStateActive) (posLive c))"

definition deref :: "int \<Rightarrow> position_cache \<Rightarrow> cached_position option" where
  [cache_defs]: "deref i c =
     (case map_of (posLive c) i of Some p \<Rightarrow> Some p | None \<Rightarrow> map_of (posGone c) i)"

definition UpdateCached :: "int \<Rightarrow> (cached_position \<Rightarrow> cached_position) \<Rightarrow> position_cache \<Rightarrow> position_cache" where
  [cache_defs]: "UpdateCached positionID fn c =
     (case map_of (posLive c) positionID of
        None \<Rightarrow> c
      | Some pos \<Rightarrow> c\<lparr>posLive := AList.update positionID (fn pos) (posLive c)\<rparr>)"

definition TrySetState :: "int \<Rightarrow> pos_state \<Rightarrow> position_cache \<Rightarrow> bool \<times> position_cache" where
  [cache_defs]: "TrySetState positionID newState c =
     (case map_of (posLive c) positionID of
        None \<Rightarrow> (False, c)
      | Some pos \<Rightarrow>
          if pState pos = PosStateActive
          then (True, c\<lparr>posLive := AList.update positionID (pos\<lparr>pState := newState\<rparr>) (posLive c)\<rparr>)
          else (False, c))"

subsection \<open>Well-formed caches\<close>

text \<open>Keys are the IDs of their objects, and the index lists exactly each user's live positions.\<close>

definition cache_ok :: "position_cache \<Rightarrow> bool" where
  "cache_ok c \<longleftrightarrow>
     distinct (map fst (posLive c)) \<and>
     (\<forall>i p. map_of (posLive c) i = Some p \<longrightarrow> pID p = i) \<and>
     (\<forall>u. distinct (user_ids u c)) \<and>
     (\<forall>u i. i \<in> set (user_ids u c) \<longleftrightarrow> (\<exists>p. map_of (posLive c) i = Some p \<and> pUserID p = u))"

lemma posLive_new [simp]: "posLive NewPositionCache = []"
  by (simp add: NewPositionCache_def)

lemma posGone_simps [simp]:
  "posGone NewPositionCache = []" "posGone (AddPosition x c) = posGone c" "posGone (UpdateCached i fn c) = posGone c"
  "posGone (snd (TrySetState i st c)) = posGone c"
  by (simp_all add: NewPositionCache_def cache_defs Let_def split: option.split)

lemma posGone_Remove [simp]:
  "map_of (posGone (RemovePosition i c)) j =
     (if j = i \<and> map_of (posLive c) i \<noteq> None then map_of (posLive c) i else map_of (posGone c) j)"
  by (auto simp: RemovePosition_def Let_def split: option.split)

lemma cache_ok_new: "cache_ok NewPositionCache"
  by (simp add: cache_ok_def NewPositionCache_def user_ids_def)

lemma user_ids_Add: "user_ids u (AddPosition pos c) =
    (if u = pUserID pos then List.insert (pID pos) (user_ids u c) else user_ids u c)"
  by (simp add: AddPosition_def user_ids_def Let_def)

lemma posLive_Add [simp]: "posLive (AddPosition pos c) = AList.update (pID pos) pos (posLive c)"
  by (simp add: AddPosition_def Let_def)

lemma cache_ok_Add:
  assumes "cache_ok c" and "map_of (posLive c) (pID pos) = None"
  shows "cache_ok (AddPosition pos c)"
  using assms by (auto simp: cache_ok_def user_ids_Add)

lemma posLive_Remove [simp]: "posLive (RemovePosition i c) = AList.delete i (posLive c)"
  by (auto simp: RemovePosition_def Let_def delete_id map_of_eq_None_iff split: option.splits)

lemma user_ids_Remove:
  assumes "cache_ok c"
  shows "user_ids u (RemovePosition i c) = removeAll i (user_ids u c)"
proof (cases "map_of (posLive c) i")
  case None
  with assms show ?thesis by (auto simp: RemovePosition_def cache_ok_def)
next
  case (Some p)
  then have idx: "i \<in> set (user_ids u c) \<longleftrightarrow> u = pUserID p" using assms by (auto simp: cache_ok_def)
  show ?thesis
  proof (cases "u = pUserID p")
    case True
    with Some show ?thesis by (auto simp: RemovePosition_def user_ids_def Let_def split: option.splits)
  next
    case False
    with idx have "removeAll i (user_ids u c) = user_ids u c" by (simp add: removeAll_id)
    with False Some show ?thesis
      by (auto simp: RemovePosition_def user_ids_def Let_def split: option.splits)
  qed
qed

lemma cache_ok_Remove:
  assumes "cache_ok c"
  shows "cache_ok (RemovePosition i c)"
  using assms by (auto simp: cache_ok_def user_ids_Remove [OF assms] distinct_removeAll)

lemma user_ids_live [simp]: "user_ids u (c\<lparr>posLive := xs\<rparr>) = user_ids u c"
  by (simp add: user_ids_def)

lemma cache_ok_live_update:
  assumes "cache_ok c" and "map_of (posLive c) i = Some p" and "pID p' = i" and "pUserID p' = pUserID p"
  shows "cache_ok (c\<lparr>posLive := AList.update i p' (posLive c)\<rparr>)"
  using assms unfolding cache_ok_def by auto

lemma cache_ok_Update:
  assumes "cache_ok c" and "\<And>p. pID (fn p) = pID p \<and> pUserID (fn p) = pUserID p"
  shows "cache_ok (UpdateCached i fn c)"
  using assms by (auto simp: UpdateCached_def cache_ok_def split: option.split)

lemma cache_ok_TrySetState: "cache_ok c \<Longrightarrow> cache_ok (snd (TrySetState i st c))"
  by (auto simp: TrySetState_def cache_ok_def split: option.split)

text \<open>On a well-formed cache the searches look at exactly the user's live positions.\<close>

lemma in_GetByUser:
  assumes "cache_ok c"
  shows "p \<in> set (GetByUser u c) \<longleftrightarrow> map_of (posLive c) (pID p) = Some p \<and> pUserID p = u"
proof -
  have key: "pID p = i" if "map_of (posLive c) i = Some p" for i
    using assms that by (simp add: cache_ok_def)
  have idx: "i \<in> set (user_ids u c) \<longleftrightarrow> (\<exists>p. map_of (posLive c) i = Some p \<and> pUserID p = u)" for i
    using assms by (simp add: cache_ok_def)
  show ?thesis unfolding GetByUser_def in_map_filter by (auto simp: idx Bex_def dest: key)
qed

lemma FindOpposite_Some:
  assumes "cache_ok c" and "FindOpposite u s c = Some p"
  shows "map_of (posLive c) (pID p) = Some p" and "pUserID p = u" and "pSide p = - s"
    and "pState p \<noteq> PosStateLiquidating"
  using find_SomeD [OF assms(2) [unfolded FindOpposite_def Let_def]] in_GetByUser [OF assms(1)] by auto

lemma FindOpposite_None:
  assumes "cache_ok c" and "FindOpposite u s c = None" and "map_of (posLive c) (pID p) = Some p"
    and "pUserID p = u" and "pSide p = - s"
  shows "pState p = PosStateLiquidating"
  using assms(2-5) in_GetByUser [OF assms(1), of p u]
  by (cases "pState p") (auto simp: FindOpposite_def find_None_iff Let_def)

lemma FindSameDir_Some:
  assumes "cache_ok c" and "FindSameDir u s c = Some p"
  shows "map_of (posLive c) (pID p) = Some p" and "pUserID p = u" and "pSide p = s"
    and "pState p = PosStateActive"
  using find_SomeD [OF assms(2) [unfolded FindSameDir_def]] in_GetByUser [OF assms(1)] by auto

lemma FindSameDir_None:
  assumes "cache_ok c" and "FindSameDir u s c = None" and "map_of (posLive c) (pID p) = Some p"
    and "pUserID p = u" and "pSide p = s"
  shows "pState p \<noteq> PosStateActive"
  using assms(2-5) in_GetByUser [OF assms(1), of p u]
  by (auto simp: FindSameDir_def find_None_iff)

subsection \<open>What the cache promises\<close>

text \<open>
  First caller wins: of any sequence of \<open>TrySetState\<close> calls on the same position, with
  whatever target states other than \<open>Active\<close>, exactly the first one succeeds if the position is
  in the cache and active, and none succeeds otherwise. So a position is never closed twice.
\<close>

fun try_all :: "int \<Rightarrow> pos_state list \<Rightarrow> position_cache \<Rightarrow> bool list \<times> position_cache" where
  "try_all i [] c = ([], c)"
| "try_all i (st # sts) c = (let (r, c') = TrySetState i st c in apfst (Cons r) (try_all i sts c'))"

lemma try_all_lost:
  "(case map_of (posLive c) i of None \<Rightarrow> True | Some p \<Rightarrow> pState p \<noteq> PosStateActive) \<Longrightarrow>
   try_all i sts c = (replicate (length sts) False, c)"
  by (induction sts) (auto simp: TrySetState_def split: option.splits)

theorem TrySetState_first_wins:
  assumes "PosStateActive \<notin> set (st # sts)"
  shows "fst (try_all i (st # sts) c) =
    (case map_of (posLive c) i of
       Some p \<Rightarrow> (pState p = PosStateActive) # replicate (length sts) False
     | None \<Rightarrow> replicate (Suc (length sts)) False)"
proof (cases "map_of (posLive c) i")
  case None
  then show ?thesis by (simp add: TrySetState_def try_all_lost)
next
  case (Some p)
  have "st \<noteq> PosStateActive" using assms by auto
  with Some show ?thesis by (cases "pState p = PosStateActive") (simp_all add: TrySetState_def try_all_lost)
qed

theorem TrySetState_first_wins_witness:
  "fst (try_all 5 [PosStateClosing, PosStateLiquidating, PosStateForceTPing]
     (AddPosition (NewCachedPosition 5 7 1 0 10 Blank Blank Blank Blank Blank Blank Blank Blank) NewPositionCache)) =
   [True, False, False]"
  by (subst TrySetState_first_wins) (simp_all add: NewCachedPosition_def NewPositionCache_def)

subsection \<open>Pointers\<close>

text \<open>
  A pointer the cache handed out stays a pointer to an object, and the object stays the same user's
  position with the same side, leverage and margin mode, whatever happens to the cache.
\<close>

definition same_identity :: "cached_position \<Rightarrow> cached_position \<Rightarrow> bool" where
  "same_identity p p' \<longleftrightarrow> pID p' = pID p \<and> pUserID p' = pUserID p \<and> pSide p' = pSide p \<and>
     pLeverage p' = pLeverage p \<and> pMarginMode p' = pMarginMode p"

definition pointers_kept :: "position_cache \<Rightarrow> position_cache \<Rightarrow> bool" where
  "pointers_kept c c' \<longleftrightarrow> (\<forall>i p. deref i c = Some p \<longrightarrow> (\<exists>p'. deref i c' = Some p' \<and> same_identity p p'))"

lemma same_identity_refl [simp]: "same_identity p p"
  by (simp add: same_identity_def)

lemma pointers_keptD: "pointers_kept c c' \<Longrightarrow> deref i c \<noteq> None \<Longrightarrow> deref i c' \<noteq> None"
  by (auto simp: pointers_kept_def)

lemma pointers_refl [simp]: "pointers_kept c c"
  by (simp add: pointers_kept_def)

lemma pointers_trans: "pointers_kept c c1 \<Longrightarrow> pointers_kept c1 c2 \<Longrightarrow> pointers_kept c c2"
  unfolding pointers_kept_def same_identity_def by metis

lemma pointers_Add: "deref (pID x) c = None \<Longrightarrow> pointers_kept c (AddPosition x c)"
  by (auto simp: pointers_kept_def deref_def split: option.splits)

lemma pointers_Update:
  assumes "\<And>p. same_identity p (fn p)"
  shows "pointers_kept c (UpdateCached i fn c)"
  using assms by (auto simp: pointers_kept_def deref_def UpdateCached_def split: option.splits)

lemma pointers_TrySetState: "TrySetState i st c = (w, c') \<Longrightarrow> pointers_kept c c'"
  by (auto simp: pointers_kept_def deref_def TrySetState_def same_identity_def split: option.splits if_splits)

lemma pointers_Remove [simp]: "pointers_kept c (RemovePosition i c)"
  by (auto simp: pointers_kept_def deref_def split: option.splits if_splits)

lemma GetAll_pointers: "i \<in> set (GetAll c) \<Longrightarrow> deref i c \<noteq> None"
  by (force simp: GetAll_def deref_def split: option.splits dest: weak_map_of_SomeI)

lemma GetByUser_pointers:
  assumes "cache_ok c" and "p \<in> set (GetByUser u c)"
  shows "deref (pID p) c = Some p"
  using in_GetByUser [OF assms(1)] assms(2) by (auto simp: deref_def)

end
