(* ===== verification/Order_Cache.thy ===== *)
theory Order_Cache
  imports Prelude
begin

section \<open>The cache of pending limit orders (\<open>internal/cache/order_cache.go\<close>)\<close>

text \<open>
  Pending orders by ID. \<open>TakeProfit\<close> and \<open>StopLoss\<close> are strings. The objects are never changed
  after they are added, so they are kept by value; the list stands for one order in which
  \<open>range\<close> may visit the map.
\<close>

record cached_order =
  coID :: int
  coUserID :: int
  coSide :: int
  coPrice :: dec
  coQuantity :: dec
  coMarginCost :: dec
  coLeverage :: int
  coTakeProfit :: dstring
  coStopLoss :: dstring

type_synonym order_cache = "(int \<times> cached_order) list"

definition NewOrderCache :: order_cache where
  "NewOrderCache = []"

definition AddOrder :: "cached_order \<Rightarrow> order_cache \<Rightarrow> order_cache" where
  [cache_defs]: "AddOrder ord c = AList.update (coID ord) ord c"

definition RemoveOrder :: "int \<Rightarrow> order_cache \<Rightarrow> cached_order option \<times> order_cache" where
  [cache_defs]: "RemoveOrder orderID c =
     (case map_of c orderID of
        Some ord \<Rightarrow> (Some ord, AList.delete orderID c)
      | None \<Rightarrow> (None, c))"

definition GetOrder :: "int \<Rightarrow> order_cache \<Rightarrow> cached_order option" where
  [cache_defs]: "GetOrder orderID c = map_of c orderID"

definition GetOrdersByUser :: "int \<Rightarrow> order_cache \<Rightarrow> cached_order list" where
  [cache_defs]: "GetOrdersByUser userID c = filter (\<lambda>ord. coUserID ord = userID) (map snd c)"

lemma GetOrder_Add [simp]: "GetOrder i (AddOrder ord c) = (if i = coID ord then Some ord else GetOrder i c)"
  by (simp add: cache_defs)

lemma GetOrder_Remove [simp]: "GetOrder i (snd (RemoveOrder j c)) = (if i = j then None else GetOrder i c)"
  by (simp add: cache_defs split: option.split)

lemma RemoveOrder_result [simp]: "fst (RemoveOrder i c) = GetOrder i c"
  by (simp add: cache_defs split: option.split)

end
