(* ===== verification/Price_Cache.thy ===== *)
theory Price_Cache
  imports Prelude
begin

section \<open>The price cache (\<open>internal/cache/price_cache.go\<close>)\<close>

text \<open>
  The current price and the 24-hour ticker. The atomic \<open>price\<close> always holds a decimal after
  \<open>NewPriceCache\<close>, so \<open>GetPrice\<close>'s test for an empty atomic never fires. The daily change is a
  rounded quotient.
\<close>

record ticker =
  tkPrice :: dec
  tkHigh :: dec
  tkLow :: dec
  tkChange :: dec

record price_cache =
  pcPrice :: dec
  pcTicker :: ticker
  pcOpen24 :: dec

definition NewPriceCache :: price_cache where
  "NewPriceCache = \<lparr>pcPrice = 0, pcTicker = \<lparr>tkPrice = 0, tkHigh = 0, tkLow = 0, tkChange = 0\<rparr>, pcOpen24 = 0\<rparr>"

definition SetPrice :: "decimal_lib \<Rightarrow> dec \<Rightarrow> price_cache \<Rightarrow> price_cache option" where
  "SetPrice D price c =
     (let c1 = c\<lparr>pcPrice := price\<rparr>;
          t1 = pcTicker c1;
          t2 = (if tkHigh t1 = 0 \<or> tkHigh t1 < price then t1\<lparr>tkHigh := price\<rparr> else t1);
          t3 = (if tkLow t2 = 0 \<or> price < tkLow t2 then t2\<lparr>tkLow := price\<rparr> else t2);
          t4 = t3\<lparr>tkPrice := price\<rparr>
      in if pcOpen24 c1 \<noteq> 0 then do {
           change \<leftarrow> Div D (price - pcOpen24 c1) (pcOpen24 c1);
           Some (c1\<lparr>pcTicker := t4\<lparr>tkChange := change * 100\<rparr>\<rparr>)
         } else Some (c1\<lparr>pcTicker := t4\<rparr>))"

definition GetPrice :: "price_cache \<Rightarrow> dec" where
  "GetPrice c = pcPrice c"

definition GetTicker :: "price_cache \<Rightarrow> ticker" where
  "GetTicker c = pcTicker c"

definition SetOpen24 :: "dec \<Rightarrow> price_cache \<Rightarrow> price_cache" where
  "SetOpen24 price c = c\<lparr>pcOpen24 := price\<rparr>"

definition Reset24H :: "dec \<Rightarrow> price_cache \<Rightarrow> price_cache" where
  "Reset24H openPrice c =
     c\<lparr>pcOpen24 := openPrice,
       pcTicker := (pcTicker c)\<lparr>tkHigh := tkPrice (pcTicker c), tkLow := tkPrice (pcTicker c)\<rparr>\<rparr>"

fun SetPrices :: "decimal_lib \<Rightarrow> dec list \<Rightarrow> price_cache \<Rightarrow> price_cache option" where
  "SetPrices D [] c = Some c"
| "SetPrices D (p # ps) c = do { c' \<leftarrow> SetPrice D p c; SetPrices D ps c' }"

lemma SetPrice_Some:
  assumes "SetPrice D p c = Some c'"
  shows "pcPrice c' = p" and "tkPrice (pcTicker c') = p" and "pcOpen24 c' = pcOpen24 c"
    and "tkHigh (pcTicker c') = (if tkHigh (pcTicker c) = 0 then p else max (tkHigh (pcTicker c)) p)"
    and "tkLow (pcTicker c') = (if tkLow (pcTicker c) = 0 then p else min (tkLow (pcTicker c)) p)"
  using assms by (auto simp: SetPrice_def Let_def bind_eq_Some_conv max_def min_def split: if_splits)

context decimal
begin

lemma SetPrice_total: "\<exists>c'. SetPrice D p c = Some c'"
  using div_defined [of "pcOpen24 c" "p - pcOpen24 c"] by (auto simp: SetPrice_def Let_def)

lemma SetPrices_total: "\<exists>c'. SetPrices D ps c = Some c'"
  by (induction ps arbitrary: c) (use SetPrice_total in \<open>auto simp: bind_eq_Some_conv\<close>, metis)

end

lemma SetPrices_ticker:
  assumes "SetPrices D ps c = Some c'" and "\<forall>p \<in> set ps. 0 < p"
    and "pcPrice c = tkPrice (pcTicker c)" and "0 < tkLow (pcTicker c)" and "0 < tkHigh (pcTicker c)"
  shows "tkHigh (pcTicker c') = Max (insert (tkHigh (pcTicker c)) (set ps)) \<and>
    tkLow (pcTicker c') = Min (insert (tkLow (pcTicker c)) (set ps)) \<and>
    pcPrice c' = last (pcPrice c # ps) \<and> tkPrice (pcTicker c') = pcPrice c'"
  using assms
proof (induction ps arbitrary: c)
  case (Cons p ps)
  then obtain c1 where c1: "SetPrice D p c = Some c1" "SetPrices D ps c1 = Some c'"
    by (auto simp: bind_eq_Some_conv)
  note s = SetPrice_Some [OF c1(1)]
  have hl: "tkHigh (pcTicker c1) = max (tkHigh (pcTicker c)) p" "tkLow (pcTicker c1) = min (tkLow (pcTicker c)) p"
    using s(4,5) Cons.prems(4,5) by auto
  have "insert (max a p) (set ps) \<noteq> {}" "finite (insert (max a p) (set ps))" for a by auto
  have "Max (insert (max h p) (set ps)) = Max (insert h (set (p # ps)))" for h
    by (cases "ps = []") (simp_all add: max.assoc)
  moreover have "Min (insert (min l p) (set ps)) = Min (insert l (set (p # ps)))" for l
    by (cases "ps = []") (simp_all add: min.assoc)
  moreover have "0 < tkLow (pcTicker c1)" "0 < tkHigh (pcTicker c1)"
    using hl Cons.prems(2,4,5) by auto
  ultimately show ?case using Cons.IH [OF c1(2)] Cons.prems(2) s(1,2) by (simp add: hl)
qed simp

text \<open>
  Feeding a fresh price cache a non-empty sequence of positive prices never panics, and the
  ticker then shows the last price, the highest and the lowest of them.
\<close>

theorem SetPrices_high_low:
  assumes "div_law D" and "ps \<noteq> []" and "\<forall>p \<in> set ps. 0 < p"
  shows "\<exists>c. SetPrices D ps (SetOpen24 o24 NewPriceCache) = Some c \<and> GetPrice c = last ps \<and>
    tkPrice (GetTicker c) = last ps \<and> tkHigh (GetTicker c) = Max (set ps) \<and> tkLow (GetTicker c) = Min (set ps)"
proof -
  obtain p qs where ps: "ps = p # qs" using assms(2) by (cases ps) auto
  obtain c1 where c1: "SetPrice D p (SetOpen24 o24 NewPriceCache) = Some c1"
    using decimal.SetPrice_total [OF decimal.intro [OF assms(1)]] by blast
  obtain c where c: "SetPrices D qs c1 = Some c"
    using decimal.SetPrices_total [OF decimal.intro [OF assms(1)]] by blast
  have s: "pcPrice c1 = p" "tkPrice (pcTicker c1) = p" "tkHigh (pcTicker c1) = p" "tkLow (pcTicker c1) = p"
    using SetPrice_Some [OF c1] by (simp_all add: SetOpen24_def NewPriceCache_def)
  have "\<forall>q \<in> set qs. 0 < q" "0 < p" using assms(3) ps by auto
  with SetPrices_ticker [OF c] s have "tkHigh (pcTicker c) = Max (insert p (set qs))"
    "tkLow (pcTicker c) = Min (insert p (set qs))" "pcPrice c = last (p # qs)" "tkPrice (pcTicker c) = pcPrice c"
    by auto
  with c1 c show ?thesis unfolding ps by (simp add: GetPrice_def GetTicker_def)
qed

theorem SetPrices_high_low_witness:
  "\<exists>c. SetPrices dec16 [100, 130, 90, 110] (SetOpen24 95 NewPriceCache) = Some c \<and>
     GetPrice c = 110 \<and> tkHigh (GetTicker c) = 130 \<and> tkLow (GetTicker c) = 90"
  using SetPrices_high_low [OF dec16_law, of "[100, 130, 90, 110]" 95] by (auto simp del: SetPrices.simps)

end
