(* ===== verification/Clearance.thy ===== *)
theory Clearance
  imports Order_Book Position_Calc Fee
begin

section \<open>Clearing (\<open>internal/engine/clearing/clearance.go\<close>)\<close>

text \<open>
  The calculations between matching and settlement: what opening, increasing and reducing a
  position costs or pays, and the average price of a batch of trades. Everything is pure; \<open>None\<close>
  is the panic of a division by zero.
\<close>

record clearance =
  feeCalc :: calculator
  feeRate :: dec
  maintRate :: dec
  forceTpROI :: dec

definition NewClearance :: "calculator \<Rightarrow> dec \<Rightarrow> dec \<Rightarrow> dec \<Rightarrow> clearance" where
  "NewClearance fc rate maint roi = \<lparr>feeCalc = fc, feeRate = rate, maintRate = maint, forceTpROI = roi\<rparr>"

definition clFee :: "clearance \<Rightarrow> dec \<Rightarrow> bool \<Rightarrow> (dec \<times> dec) option" where
  "clFee c positionValue isMaker = CalcFee (feeCalc c) positionValue 0 isMaker"

definition CalcMakerFee :: "clearance \<Rightarrow> dec \<Rightarrow> (dec \<times> dec) option" where
  "CalcMakerFee c positionValue = clFee c positionValue True"

definition CalcTakerFee :: "clearance \<Rightarrow> dec \<Rightarrow> (dec \<times> dec) option" where
  "CalcTakerFee c positionValue = clFee c positionValue False"

definition GetMaintRate :: "clearance \<Rightarrow> dec" where
  "GetMaintRate c = maintRate c"

subsection \<open>Opening\<close>

record open_result =
  orMargin :: dec
  orFee :: dec
  orTotalCost :: dec
  orLiqPrice :: dec
  orForceTpPrice :: dec

definition CalcOpen :: "decimal_lib \<Rightarrow> clearance \<Rightarrow> dec \<Rightarrow> dec \<Rightarrow> int \<Rightarrow> int \<Rightarrow> bool \<Rightarrow> open_result option" where
  "CalcOpen D c price qty leverage side isMaker =
     do {
       let positionValue = price * qty;
       margin \<leftarrow> Div D positionValue (of_int leverage);
       (fee, _) \<leftarrow> clFee c positionValue isMaker;
       liq \<leftarrow> CalcLiquidationPrice D price leverage side (maintRate c);
       ftp \<leftarrow> CalcForceTpPrice D price leverage side (forceTpROI c);
       Some \<lparr>orMargin = margin, orFee = fee, orTotalCost = margin + fee, orLiqPrice = liq,
             orForceTpPrice = ftp\<rparr>
     }"

subsection \<open>Increasing\<close>

record increase_result =
  irAddMargin :: dec
  irNewEntry :: dec
  irNewQty :: dec
  irNewMargin :: dec
  irLiqPrice :: dec
  irForceTpPrice :: dec

definition CalcIncrease ::
    "decimal_lib \<Rightarrow> clearance \<Rightarrow> dec \<Rightarrow> dec \<Rightarrow> dec \<Rightarrow> int \<Rightarrow> int \<Rightarrow> dec \<Rightarrow> dec \<Rightarrow> increase_result option" where
  "CalcIncrease D c oldEntry oldQty oldMargin leverage side addQty addPrice =
     do {
       let newQty = oldQty + addQty;
       newEntry \<leftarrow> Div D (oldEntry * oldQty + addPrice * addQty) newQty;
       addMargin \<leftarrow> Div D (addPrice * addQty) (of_int leverage);
       let newMargin = oldMargin + addMargin;
       liq \<leftarrow> CalcLiquidationPrice D newEntry leverage side (maintRate c);
       ftp \<leftarrow> CalcForceTpPrice D newEntry leverage side (forceTpROI c);
       Some \<lparr>irAddMargin = addMargin, irNewEntry = newEntry, irNewQty = newQty,
             irNewMargin = newMargin, irLiqPrice = liq, irForceTpPrice = ftp\<rparr>
     }"

subsection \<open>Reducing\<close>

record reduce_result =
  rrCloseQty :: dec
  rrCloseMargin :: dec
  rrCloseFunding :: dec
  rrFee :: dec
  rrRawPnl :: dec
  rrRealizedPnl :: dec
  rrNetPnl :: dec
  rrIsFullClose :: bool
  rrRemainQty :: dec
  rrRemainMargin :: dec
  rrRemainFunding :: dec
  rrRemainLiqPrice :: dec
  rrRemainFtpPrice :: dec

definition CalcReduce ::
    "decimal_lib \<Rightarrow> clearance \<Rightarrow> dec \<Rightarrow> dec \<Rightarrow> dec \<Rightarrow> dec \<Rightarrow> dec \<Rightarrow> int \<Rightarrow> int \<Rightarrow> dec \<Rightarrow> reduce_result option" where
  "CalcReduce D c entryPrice closePrice existingQty existingMargin fundingPnl leverage side tradeQty =
     do {
       let closeQty = min tradeQty existingQty;
       ratio \<leftarrow> Div D closeQty existingQty;
       let closeMargin = existingMargin * ratio;
       let closeFunding = fundingPnl * ratio;
       let rawPnl = CalcUnrealizedPnL entryPrice closePrice closeQty side;
       let posValue = closeQty * closePrice;
       (closeFee, _) \<leftarrow> clFee c posValue False;
       let realizedPnl = rawPnl - closeFee;
       let netPnl = realizedPnl + closeFunding;
       let isFullClose = (closeQty = existingQty);
       let r = \<lparr>rrCloseQty = closeQty, rrCloseMargin = closeMargin, rrCloseFunding = closeFunding,
                rrFee = closeFee, rrRawPnl = rawPnl, rrRealizedPnl = realizedPnl, rrNetPnl = netPnl,
                rrIsFullClose = isFullClose, rrRemainQty = 0, rrRemainMargin = 0,
                rrRemainFunding = 0, rrRemainLiqPrice = 0, rrRemainFtpPrice = 0\<rparr>;
       (if \<not> isFullClose then do {
          liq \<leftarrow> CalcLiquidationPrice D entryPrice leverage side (maintRate c);
          ftp \<leftarrow> CalcForceTpPrice D entryPrice leverage side (forceTpROI c);
          Some (r\<lparr>rrRemainQty := existingQty - closeQty, rrRemainMargin := existingMargin - closeMargin,
                  rrRemainFunding := fundingPnl - closeFunding, rrRemainLiqPrice := liq,
                  rrRemainFtpPrice := ftp\<rparr>)
        } else Some r)
     }"

subsection \<open>The average price of a batch of trades\<close>

fun sumTrades :: "ob_trade list \<Rightarrow> dec \<Rightarrow> dec \<Rightarrow> dec \<times> dec" where
  "sumTrades [] totalValue totalQty = (totalValue, totalQty)"
| "sumTrades (t # ts) totalValue totalQty =
     sumTrades ts (totalValue + tPrice t * tQuantity t) (totalQty + tQuantity t)"

definition CalcVWAP :: "decimal_lib \<Rightarrow> ob_trade list \<Rightarrow> (dec \<times> dec) option" where
  "CalcVWAP D trades =
     (if trades = [] then Some (0, 0)
      else let (totalValue, totalQty) = sumTrades trades 0 0
           in if totalQty = 0 then Some (0, 0)
              else do { avgPrice \<leftarrow> Div D totalValue totalQty; Some (avgPrice, totalQty) })"

end
