(* ===== verification/Database.thy ===== *)
theory Database
  imports Prelude
begin

section \<open>The tables and their statements (\<open>internal/model\<close>, \<open>scripts/init_db.sql\<close>)\<close>

text \<open>
  The tables the settlement writes, and the statements of \<open>internal/model\<close> on them. PostgreSQL
  is outside the repository; what a statement does to the rows is the meaning of its SQL text,
  and the two things the text does not decide are fields of a parameter \<open>pg\<close>:

  \<^item> \<open>pgCol\<close>: the value a \<open>DECIMAL(20,8)\<close> column stores for a number written to it;
  \<^item> \<open>pgRefuses\<close>: whether a statement ends in an error (a violated foreign key, a lost
    connection), given the statement and the tables.

  A statement is a function \<open>database \<Rightarrow> db_error + database\<close>. Rows keep the columns the program
  reads; surrogate keys nobody reads, symbols (always \<open>BTCUSDT\<close>) and time stamps are left out.
\<close>

subsection \<open>Rows\<close>

record account_row =
  aBalance :: dec
  aFrozen :: dec
  aTotalPnl :: dec
  aResetCount :: int

record position_row =
  prID :: int
  prUserID :: int
  prSide :: int
  prMarginMode :: int
  prLeverage :: int
  prEntryPrice :: dec
  prQuantity :: dec
  prMargin :: dec
  prLiqPrice :: dec
  prForceTpPrice :: dec
  prTakeProfit :: "dec option"
  prStopLoss :: "dec option"
  prFundingPnl :: dec
  prStatus :: int

record order_row =
  omID :: int
  omUserID :: int
  omSide :: int
  omOrderType :: int
  omLeverage :: int
  omPrice :: "dec option"
  omQuantity :: dec
  omFilledPrice :: "dec option"
  omMarginCost :: dec
  omTakeProfit :: "dec option"
  omStopLoss :: "dec option"
  omStatus :: int
  omPositionID :: "int option"

record trade_row =
  trUserID :: int
  trOrderID :: int
  trPositionID :: "int option"
  trSide :: int
  trPrice :: dec
  trQuantity :: dec
  trFee :: dec
  trRealizedPnl :: dec
  trIsClose :: bool
  trCloseReason :: int

record settlement_row =
  fsUserID :: int
  fsPositionID :: int
  fsRate :: dec
  fsPositionValue :: dec
  fsPayment :: dec
  fsSettleTime :: int

record rate_row =
  frRate :: dec
  frSettleTime :: int

text \<open>The integer constants of the package.\<close>

abbreviation (input) OrderStatusPending :: int where "OrderStatusPending \<equiv> 1"
abbreviation (input) OrderStatusFilled :: int where "OrderStatusFilled \<equiv> 2"
abbreviation (input) OrderStatusCanceled :: int where "OrderStatusCanceled \<equiv> 3"
abbreviation (input) OrderTypeMarket :: int where "OrderTypeMarket \<equiv> 1"
abbreviation (input) OrderTypeLimit :: int where "OrderTypeLimit \<equiv> 2"
abbreviation (input) PositionStatusActive :: int where "PositionStatusActive \<equiv> 1"
abbreviation (input) PositionStatusClosed :: int where "PositionStatusClosed \<equiv> 2"
abbreviation (input) PositionStatusLiquidated :: int where "PositionStatusLiquidated \<equiv> 3"
abbreviation (input) PositionStatusForceTp :: int where "PositionStatusForceTp \<equiv> 4"
abbreviation (input) MarginModeIsolated :: int where "MarginModeIsolated \<equiv> 1"
abbreviation (input) MarginModeCross :: int where "MarginModeCross \<equiv> 2"
abbreviation (input) CloseReasonManual :: int where "CloseReasonManual \<equiv> 0"
abbreviation (input) CloseReasonTakeProfit :: int where "CloseReasonTakeProfit \<equiv> 1"
abbreviation (input) CloseReasonStopLoss :: int where "CloseReasonStopLoss \<equiv> 2"
abbreviation (input) CloseReasonLiquidation :: int where "CloseReasonLiquidation \<equiv> 3"
abbreviation (input) CloseReasonForceTp :: int where "CloseReasonForceTp \<equiv> 4"
abbreviation (input) CloseReasonADL :: int where "CloseReasonADL \<equiv> 5"

record database =
  dbAccounts :: "(int \<times> account_row) list"
  dbPositions :: "(int \<times> position_row) list"
  dbOrders :: "(int \<times> order_row) list"
  dbTrades :: "trade_row list"
  dbSettlements :: "settlement_row list"
  dbRates :: "rate_row list"

subsection \<open>Statements\<close>

datatype stmt =
    InsertAccount int dec
  | UpdateAccount int
  | InsertPosition position_row
  | UpdatePositionRow int
  | InsertOrder order_row
  | UpdateOrder int
  | InsertTrade trade_row
  | InsertSettlement settlement_row
  | InsertRate rate_row

datatype db_error = StatementFailed stmt | ErrInsufficientBalance | ErrOrderNotPending

record pg =
  pgCol :: "dec \<Rightarrow> dec"
  pgRefuses :: "stmt \<Rightarrow> database \<Rightarrow> bool"

type_synonym 'a db_result = "db_error + 'a"

definition exec :: "pg \<Rightarrow> stmt \<Rightarrow> (database \<Rightarrow> database) \<Rightarrow> database \<Rightarrow> database db_result" where
  "exec P st f db = (if pgRefuses P st db then Inl (StatementFailed st) else Inr (f db))"

text \<open>An insertion with a key that is taken violates the table's unique key.\<close>

definition exec_new :: "pg \<Rightarrow> stmt \<Rightarrow> (database \<Rightarrow> bool) \<Rightarrow> (database \<Rightarrow> database) \<Rightarrow> database \<Rightarrow> database db_result" where
  "exec_new P st taken f db =
     (if pgRefuses P st db \<or> taken db then Inl (StatementFailed st) else Inr (f db))"

text \<open>\<open>UPDATE ... WHERE\<close> a key: the row with the key, if there is one.\<close>

definition on_row :: "'k \<Rightarrow> ('v \<Rightarrow> 'v) \<Rightarrow> ('k \<times> 'v) list \<Rightarrow> ('k \<times> 'v) list" where
  "on_row k f al = (case map_of al k of None \<Rightarrow> al | Some v \<Rightarrow> AList.update k (f v) al)"

lemma map_of_on_row [simp]: "map_of (on_row k f al) j = (if j = k then map_option f (map_of al k) else map_of al j)"
  by (auto simp: on_row_def split: option.split)

text \<open>One statement after another, stopping at the first error.\<close>

definition andThen ::
    "(database \<Rightarrow> database db_result) \<Rightarrow> (database \<Rightarrow> database db_result) \<Rightarrow> database \<Rightarrow> database db_result" where
  "andThen f g db = (case f db of Inl e \<Rightarrow> Inl e | Inr db' \<Rightarrow> g db')"

definition skip_stmt :: "database \<Rightarrow> database db_result" where
  "skip_stmt db = Inr db"

subsubsection \<open>Accounts (\<open>account_model.go\<close>)\<close>

definition FindByUserID :: "int \<Rightarrow> database \<Rightarrow> account_row option" where
  "FindByUserID userID db = map_of (dbAccounts db) userID"

definition CreateAccount :: "pg \<Rightarrow> int \<Rightarrow> dec \<Rightarrow> database \<Rightarrow> database db_result" where
  "CreateAccount P userID initialBalance =
     exec_new P (InsertAccount userID initialBalance) (\<lambda>db. map_of (dbAccounts db) userID \<noteq> None)
       (\<lambda>db. db\<lparr>dbAccounts := AList.update userID
           \<lparr>aBalance = pgCol P initialBalance, aFrozen = 0, aTotalPnl = 0, aResetCount = 0\<rparr> (dbAccounts db)\<rparr>)"

definition update_account :: "pg \<Rightarrow> int \<Rightarrow> (account_row \<Rightarrow> account_row) \<Rightarrow> database \<Rightarrow> database db_result" where
  "update_account P userID f =
     exec P (UpdateAccount userID) (\<lambda>db. db\<lparr>dbAccounts := on_row userID f (dbAccounts db)\<rparr>)"

definition UpdateBalanceTx :: "pg \<Rightarrow> int \<Rightarrow> dec \<Rightarrow> dec \<Rightarrow> database \<Rightarrow> database db_result" where
  "UpdateBalanceTx P userID balanceDelta frozenDelta =
     update_account P userID
       (\<lambda>a. a\<lparr>aBalance := pgCol P (aBalance a + balanceDelta), aFrozen := pgCol P (aFrozen a + frozenDelta)\<rparr>)"

definition AddPnlTx :: "pg \<Rightarrow> int \<Rightarrow> dec \<Rightarrow> database \<Rightarrow> database db_result" where
  "AddPnlTx P userID pnl =
     update_account P userID
       (\<lambda>a. a\<lparr>aBalance := pgCol P (aBalance a + pnl), aTotalPnl := pgCol P (aTotalPnl a + pnl)\<rparr>)"

definition ResetRow :: "pg \<Rightarrow> int \<Rightarrow> dec \<Rightarrow> database \<Rightarrow> database db_result" where
  "ResetRow P userID initialBalance =
     update_account P userID
       (\<lambda>a. \<lparr>aBalance = pgCol P initialBalance, aFrozen = 0, aTotalPnl = 0, aResetCount = aResetCount a + 1\<rparr>)"

definition DeductMargin :: "pg \<Rightarrow> int \<Rightarrow> dec \<Rightarrow> database \<Rightarrow> database db_result" where
  "DeductMargin P userID amount db =
     (if pgRefuses P (UpdateAccount userID) db then Inl (StatementFailed (UpdateAccount userID))
      else case map_of (dbAccounts db) userID of
          None \<Rightarrow> Inl ErrInsufficientBalance
        | Some a \<Rightarrow>
            if amount \<le> aBalance a
            then Inr (db\<lparr>dbAccounts := AList.update userID (a\<lparr>aBalance := pgCol P (aBalance a - amount)\<rparr>) (dbAccounts db)\<rparr>)
            else Inl ErrInsufficientBalance)"

definition FreezeMargin :: "pg \<Rightarrow> int \<Rightarrow> dec \<Rightarrow> database \<Rightarrow> database db_result" where
  "FreezeMargin P userID amount db =
     (if pgRefuses P (UpdateAccount userID) db then Inl (StatementFailed (UpdateAccount userID))
      else case map_of (dbAccounts db) userID of
          None \<Rightarrow> Inl ErrInsufficientBalance
        | Some a \<Rightarrow>
            if amount \<le> aBalance a
            then Inr (db\<lparr>dbAccounts := AList.update userID
                   (a\<lparr>aBalance := pgCol P (aBalance a - amount), aFrozen := pgCol P (aFrozen a + amount)\<rparr>) (dbAccounts db)\<rparr>)
            else Inl ErrInsufficientBalance)"

definition UnfreezeMargin :: "pg \<Rightarrow> int \<Rightarrow> dec \<Rightarrow> database \<Rightarrow> database db_result" where
  "UnfreezeMargin P userID amount =
     update_account P userID
       (\<lambda>a. a\<lparr>aBalance := pgCol P (aBalance a + amount), aFrozen := pgCol P (aFrozen a - amount)\<rparr>)"

definition ReturnMarginWithPnlTx :: "pg \<Rightarrow> int \<Rightarrow> dec \<Rightarrow> dec \<Rightarrow> database \<Rightarrow> database db_result" where
  "ReturnMarginWithPnlTx P userID margin pnl =
     update_account P userID
       (\<lambda>a. a\<lparr>aBalance := pgCol P (aBalance a + margin + pnl), aTotalPnl := pgCol P (aTotalPnl a + pnl)\<rparr>)"

definition LiquidateMarginTx :: "pg \<Rightarrow> int \<Rightarrow> dec \<Rightarrow> database \<Rightarrow> database db_result" where
  "LiquidateMarginTx P userID margin =
     update_account P userID (\<lambda>a. a\<lparr>aTotalPnl := pgCol P (aTotalPnl a - margin)\<rparr>)"

subsubsection \<open>Positions (\<open>position_model.go\<close>)\<close>

text \<open>
  The engine always assigns the ID, so \<open>CreateTx\<close> runs its first statement; columns it does not
  name take their defaults.
\<close>

definition CreatePositionTx :: "pg \<Rightarrow> position_row \<Rightarrow> database \<Rightarrow> database db_result" where
  "CreatePositionTx P p =
     exec_new P (InsertPosition p) (\<lambda>db. map_of (dbPositions db) (prID p) \<noteq> None)
       (\<lambda>db. db\<lparr>dbPositions := AList.update (prID p)
           (p\<lparr>prEntryPrice := pgCol P (prEntryPrice p), prQuantity := pgCol P (prQuantity p),
              prMargin := pgCol P (prMargin p), prLiqPrice := pgCol P (prLiqPrice p),
              prForceTpPrice := pgCol P (prForceTpPrice p),
              prTakeProfit := map_option (pgCol P) (prTakeProfit p),
              prStopLoss := map_option (pgCol P) (prStopLoss p),
              prFundingPnl := 0, prStatus := PositionStatusActive\<rparr>) (dbPositions db)\<rparr>)"

definition update_position :: "pg \<Rightarrow> int \<Rightarrow> (position_row \<Rightarrow> position_row) \<Rightarrow> database \<Rightarrow> database db_result" where
  "update_position P i f =
     exec P (UpdatePositionRow i) (\<lambda>db. db\<lparr>dbPositions := on_row i f (dbPositions db)\<rparr>)"

definition ClosePositionTx :: "pg \<Rightarrow> int \<Rightarrow> int \<Rightarrow> database \<Rightarrow> database db_result" where
  "ClosePositionTx P i status = update_position P i (\<lambda>p. p\<lparr>prStatus := status\<rparr>)"

definition UpdateTPSL :: "pg \<Rightarrow> int \<Rightarrow> dec option \<Rightarrow> dec option \<Rightarrow> database \<Rightarrow> database db_result" where
  "UpdateTPSL P i tp sl =
     update_position P i
       (\<lambda>p. if prStatus p = PositionStatusActive
            then p\<lparr>prTakeProfit := map_option (pgCol P) tp, prStopLoss := map_option (pgCol P) sl\<rparr> else p)"

definition UpdateFundingPnlTx :: "pg \<Rightarrow> int \<Rightarrow> dec \<Rightarrow> database \<Rightarrow> database db_result" where
  "UpdateFundingPnlTx P i fundingPayment =
     update_position P i (\<lambda>p. p\<lparr>prFundingPnl := pgCol P (prFundingPnl p + fundingPayment)\<rparr>)"

definition UpdateQuantityAndMarginTx :: "pg \<Rightarrow> int \<Rightarrow> dec \<Rightarrow> dec \<Rightarrow> database \<Rightarrow> database db_result" where
  "UpdateQuantityAndMarginTx P i qty margin =
     update_position P i (\<lambda>p. p\<lparr>prQuantity := pgCol P qty, prMargin := pgCol P margin\<rparr>)"

definition UpdateMargin :: "pg \<Rightarrow> int \<Rightarrow> dec \<Rightarrow> dec \<Rightarrow> database \<Rightarrow> database db_result" where
  "UpdateMargin P i newMargin newLiqPrice =
     update_position P i (\<lambda>p. p\<lparr>prMargin := pgCol P newMargin, prLiqPrice := pgCol P newLiqPrice\<rparr>)"

text \<open>The queries do not select \<open>margin_mode\<close>: the field keeps Go's zero value.\<close>

definition scanPosition :: "position_row \<Rightarrow> position_row" where
  "scanPosition p = p\<lparr>prMarginMode := 0\<rparr>"

definition FindAllActive :: "database \<Rightarrow> position_row list" where
  "FindAllActive db = map scanPosition (filter (\<lambda>p. prStatus p = PositionStatusActive) (map snd (dbPositions db)))"

definition FindPositionByID :: "int \<Rightarrow> database \<Rightarrow> position_row option" where
  "FindPositionByID i db = map_option scanPosition (map_of (dbPositions db) i)"

subsubsection \<open>Orders, trades, settlements (\<open>order_model.go\<close>, \<open>trade_model.go\<close>, \<open>funding_model.go\<close>)\<close>

definition CreateOrderTx :: "pg \<Rightarrow> order_row \<Rightarrow> database \<Rightarrow> database db_result" where
  "CreateOrderTx P r =
     exec_new P (InsertOrder r) (\<lambda>db. map_of (dbOrders db) (omID r) \<noteq> None)
       (\<lambda>db. db\<lparr>dbOrders := AList.update (omID r)
           (r\<lparr>omPrice := map_option (pgCol P) (omPrice r), omQuantity := pgCol P (omQuantity r),
              omFilledPrice := map_option (pgCol P) (omFilledPrice r), omMarginCost := pgCol P (omMarginCost r),
              omTakeProfit := map_option (pgCol P) (omTakeProfit r),
              omStopLoss := map_option (pgCol P) (omStopLoss r), omPositionID := None\<rparr>) (dbOrders db)\<rparr>)"

definition FillTx :: "pg \<Rightarrow> int \<Rightarrow> dec \<Rightarrow> int \<Rightarrow> database \<Rightarrow> database db_result" where
  "FillTx P i filledPrice positionID =
     exec P (UpdateOrder i)
       (\<lambda>db. db\<lparr>dbOrders := on_row i (\<lambda>r. r\<lparr>omStatus := OrderStatusFilled,
           omFilledPrice := Some (pgCol P filledPrice), omPositionID := Some positionID\<rparr>) (dbOrders db)\<rparr>)"

definition CancelTx :: "pg \<Rightarrow> int \<Rightarrow> int \<Rightarrow> database \<Rightarrow> database db_result" where
  "CancelTx P i userID db =
     (if pgRefuses P (UpdateOrder i) db then Inl (StatementFailed (UpdateOrder i))
      else case map_of (dbOrders db) i of
          None \<Rightarrow> Inl ErrOrderNotPending
        | Some r \<Rightarrow>
            if omUserID r = userID \<and> omStatus r = OrderStatusPending
            then Inr (db\<lparr>dbOrders := AList.update i (r\<lparr>omStatus := OrderStatusCanceled\<rparr>) (dbOrders db)\<rparr>)
            else Inl ErrOrderNotPending)"

definition FindAllPending :: "database \<Rightarrow> order_row list" where
  "FindAllPending db = filter (\<lambda>r. omStatus r = OrderStatusPending) (map snd (dbOrders db))"

definition CreateTradeTx :: "pg \<Rightarrow> trade_row \<Rightarrow> database \<Rightarrow> database db_result" where
  "CreateTradeTx P t =
     exec P (InsertTrade t)
       (\<lambda>db. db\<lparr>dbTrades := dbTrades db @
           [t\<lparr>trPrice := pgCol P (trPrice t), trQuantity := pgCol P (trQuantity t), trFee := pgCol P (trFee t),
              trRealizedPnl := pgCol P (trRealizedPnl t)\<rparr>]\<rparr>)"

definition CreateSettlementTx :: "pg \<Rightarrow> settlement_row \<Rightarrow> database \<Rightarrow> database db_result" where
  "CreateSettlementTx P s =
     exec P (InsertSettlement s)
       (\<lambda>db. db\<lparr>dbSettlements := dbSettlements db @
           [s\<lparr>fsRate := pgCol P (fsRate s), fsPositionValue := pgCol P (fsPositionValue s),
              fsPayment := pgCol P (fsPayment s)\<rparr>]\<rparr>)"

definition CreateRate :: "pg \<Rightarrow> rate_row \<Rightarrow> database \<Rightarrow> database db_result" where
  "CreateRate P r = exec P (InsertRate r) (\<lambda>db. db\<lparr>dbRates := dbRates db @ [r\<lparr>frRate := pgCol P (frRate r)\<rparr>]\<rparr>)"

definition GetTotalFunding :: "int \<Rightarrow> database \<Rightarrow> dec" where
  "GetTotalFunding userID db = sum_list (map fsPayment (filter (\<lambda>s. fsUserID s = userID) (dbSettlements db)))"

text \<open>The profit summary of a user over the trades table.\<close>

record pnl_summary =
  psTotalPnl :: dec
  psTotalFee :: dec
  psWinCount :: nat
  psLossCount :: nat
  psBestTrade :: dec
  psWorstTrade :: dec
  psLiquidatedCount :: nat
  psForceTpCount :: nat

definition GetPnlSummary :: "int \<Rightarrow> database \<Rightarrow> pnl_summary" where
  "GetPnlSummary userID db =
     (let ts = filter (\<lambda>t. trUserID t = userID) (dbTrades db);
          closed = map trRealizedPnl (filter trIsClose ts)
      in \<lparr>psTotalPnl = sum_list (map trRealizedPnl ts), psTotalFee = sum_list (map trFee ts),
          psWinCount = length (filter (\<lambda>x. 0 < x) closed), psLossCount = length (filter (\<lambda>x. x \<le> 0) closed),
          psBestTrade = (if closed = [] then 0 else foldr max closed (hd closed)),
          psWorstTrade = (if closed = [] then 0 else foldr min closed (hd closed)),
          psLiquidatedCount = length (filter (\<lambda>t. trCloseReason t = CloseReasonLiquidation) ts),
          psForceTpCount = length (filter (\<lambda>t. trCloseReason t = CloseReasonForceTp) ts)\<rparr>)"

lemmas stmt_defs = exec_def exec_new_def andThen_def skip_stmt_def update_account_def update_position_def
  CreateAccount_def UpdateBalanceTx_def AddPnlTx_def ResetRow_def DeductMargin_def FreezeMargin_def
  UnfreezeMargin_def ReturnMarginWithPnlTx_def LiquidateMarginTx_def CreatePositionTx_def
  ClosePositionTx_def UpdateTPSL_def UpdateFundingPnlTx_def UpdateQuantityAndMarginTx_def
  UpdateMargin_def CreateOrderTx_def FillTx_def CancelTx_def CreateTradeTx_def CreateSettlementTx_def CreateRate_def

end
