(* ===== verification/Settler.thy ===== *)
theory Settler
  imports Database
begin

section \<open>Settlement (\<open>internal/engine/clearing/settler.go\<close>)\<close>

text \<open>
  The engine submits events to a channel, and one worker writes each event to the tables in a
  transaction. \<open>Submit\<close> never drops an event (it blocks when the channel is full), so the
  channel is the list of submitted events in order, and the worker takes them from its front.
  \<open>Timestamp\<close> is left out. An event is a record with all fields of the Go struct; \<open>empty_event\<close>
  is its zero value, and composite literals are record updates of it.
\<close>

subsection \<open>Events\<close>

datatype event_type = EventCreateOrder | EventTrade | EventCancelOrder | EventFundingSettle | EventBalanceUpdate

record settle_event =
  evType :: event_type
  evUserID :: int
  evOrder :: "order_row option"
  evTrade :: "trade_row option"
  evPosition :: "position_row option"
  evPositionID :: int
  evCloseReason :: int
  evClosePrice :: dec
  evMargin :: dec
  evRealizedPnl :: dec
  evFee :: dec
  evNetPnl :: dec
  evIsPartialClose :: bool
  evRemainingQty :: dec
  evRemainingMargin :: dec
  evOrderID :: int
  evBalanceDelta :: dec
  evFrozenDelta :: dec
  evPnlDelta :: dec
  evFundingSettlement :: "settlement_row option"
  evFundingPnlDelta :: dec

definition empty_event :: "event_type \<Rightarrow> settle_event" where
  "empty_event ty =
     \<lparr>evType = ty, evUserID = 0, evOrder = None, evTrade = None, evPosition = None, evPositionID = 0,
      evCloseReason = 0, evClosePrice = 0, evMargin = 0, evRealizedPnl = 0, evFee = 0, evNetPnl = 0,
      evIsPartialClose = False, evRemainingQty = 0, evRemainingMargin = 0, evOrderID = 0,
      evBalanceDelta = 0, evFrozenDelta = 0, evPnlDelta = 0, evFundingSettlement = None,
      evFundingPnlDelta = 0\<rparr>"

record settler =
  events :: "settle_event list"

definition Submit :: "settle_event \<Rightarrow> settler \<Rightarrow> settler" where
  "Submit event s = s\<lparr>events := events s @ [event]\<rparr>"

definition QueueLen :: "settler \<Rightarrow> nat" where
  "QueueLen s = length (events s)"

subsection \<open>Transactions\<close>

text \<open>All statements of the function, or none of them.\<close>

definition execTx :: "(database \<Rightarrow> database db_result) \<Rightarrow> database \<Rightarrow> database" where
  "execTx fn db = (case fn db of Inl e \<Rightarrow> db | Inr db' \<Rightarrow> db')"

definition when_stmt :: "bool \<Rightarrow> (database \<Rightarrow> database db_result) \<Rightarrow> database \<Rightarrow> database db_result" where
  "when_stmt c f = (if c then f else skip_stmt)"

subsection \<open>The handlers\<close>

text \<open>A create-order event always carries its order.\<close>

definition txCreateOrder :: "pg \<Rightarrow> settle_event \<Rightarrow> database \<Rightarrow> database db_result" where
  "txCreateOrder P evt =
       (andThen (case evOrder evt of Some r \<Rightarrow> CreateOrderTx P r | None \<Rightarrow> skip_stmt)
         (when_stmt (0 < evUserID evt \<and> (evBalanceDelta evt \<noteq> 0 \<or> evFrozenDelta evt \<noteq> 0))
           (UpdateBalanceTx P (evUserID evt) (evBalanceDelta evt) (evFrozenDelta evt))))"

definition closeStatus :: "int \<Rightarrow> int" where
  "closeStatus reason =
     (if reason = CloseReasonLiquidation then PositionStatusLiquidated
      else if reason = CloseReasonForceTp then PositionStatusForceTp
      else PositionStatusClosed)"

definition txTrade :: "pg \<Rightarrow> settle_event \<Rightarrow> database \<Rightarrow> database db_result" where
  "txTrade P evt =
     (let trade = (case evPosition evt of
                     Some p \<Rightarrow> map_option (\<lambda>t. t\<lparr>trPositionID := Some (prID p)\<rparr>) (evTrade evt)
                   | None \<Rightarrow> evTrade evt);
          isClose = (case trade of Some t \<Rightarrow> trIsClose t | None \<Rightarrow> False)
      in
           (andThen (case evPosition evt of Some p \<Rightarrow> CreatePositionTx P p | None \<Rightarrow> skip_stmt)
           (andThen (case trade of Some t \<Rightarrow> CreateTradeTx P t | None \<Rightarrow> skip_stmt)
           (andThen
             (if 0 < evPositionID evt then
                (if evIsPartialClose evt then
                   UpdateQuantityAndMarginTx P (evPositionID evt) (evRemainingQty evt) (evRemainingMargin evt)
                 else if 0 < evCloseReason evt \<or> isClose then
                   ClosePositionTx P (evPositionID evt) (closeStatus (evCloseReason evt))
                 else skip_stmt)
              else skip_stmt)
             (when_stmt (0 < evUserID evt \<and> evBalanceDelta evt \<noteq> 0)
               (UpdateBalanceTx P (evUserID evt) (evBalanceDelta evt) (evFrozenDelta evt)))))))"

definition txCancelOrder :: "pg \<Rightarrow> settle_event \<Rightarrow> database \<Rightarrow> database db_result" where
  "txCancelOrder P evt =
       (andThen (CancelTx P (evOrderID evt) (evUserID evt))
         (when_stmt (0 < evUserID evt \<and> evBalanceDelta evt \<noteq> 0)
           (UpdateBalanceTx P (evUserID evt) (evBalanceDelta evt) (evFrozenDelta evt))))"

definition txBalanceUpdate :: "pg \<Rightarrow> settle_event \<Rightarrow> database \<Rightarrow> database db_result" where
  "txBalanceUpdate P evt =
       (andThen
         (when_stmt (evBalanceDelta evt \<noteq> 0 \<or> evFrozenDelta evt \<noteq> 0)
           (UpdateBalanceTx P (evUserID evt) (evBalanceDelta evt) (evFrozenDelta evt)))
         (when_stmt (evPnlDelta evt \<noteq> 0) (AddPnlTx P (evUserID evt) (evPnlDelta evt))))"

definition txFunding :: "pg \<Rightarrow> settle_event \<Rightarrow> database \<Rightarrow> database db_result" where
  "txFunding P evt =
       (andThen (case evFundingSettlement evt of Some r \<Rightarrow> CreateSettlementTx P r | None \<Rightarrow> skip_stmt)
       (andThen
         (when_stmt (0 < evPositionID evt \<and> evFundingPnlDelta evt \<noteq> 0)
           (UpdateFundingPnlTx P (evPositionID evt) (evFundingPnlDelta evt)))
         (when_stmt (0 < evUserID evt \<and> evPnlDelta evt \<noteq> 0)
           (AddPnlTx P (evUserID evt) (evPnlDelta evt)))))"

text \<open>Each handler runs its statements in one transaction and only logs an error.\<close>

definition settleCreateOrder :: "pg \<Rightarrow> settle_event \<Rightarrow> database \<Rightarrow> database" where
  "settleCreateOrder P evt = execTx (txCreateOrder P evt)"

definition settleTrade :: "pg \<Rightarrow> settle_event \<Rightarrow> database \<Rightarrow> database" where
  "settleTrade P evt = execTx (txTrade P evt)"

definition settleCancelOrder :: "pg \<Rightarrow> settle_event \<Rightarrow> database \<Rightarrow> database" where
  "settleCancelOrder P evt = execTx (txCancelOrder P evt)"

definition settleBalanceUpdate :: "pg \<Rightarrow> settle_event \<Rightarrow> database \<Rightarrow> database" where
  "settleBalanceUpdate P evt = execTx (txBalanceUpdate P evt)"

definition settleFunding :: "pg \<Rightarrow> settle_event \<Rightarrow> database \<Rightarrow> database" where
  "settleFunding P evt = execTx (txFunding P evt)"

definition processEvent :: "pg \<Rightarrow> settle_event \<Rightarrow> database \<Rightarrow> database" where
  "processEvent P evt =
     (case evType evt of
        EventCreateOrder \<Rightarrow> settleCreateOrder P evt
      | EventTrade \<Rightarrow> settleTrade P evt
      | EventCancelOrder \<Rightarrow> settleCancelOrder P evt
      | EventBalanceUpdate \<Rightarrow> settleBalanceUpdate P evt
      | EventFundingSettle \<Rightarrow> settleFunding P evt)"

text \<open>What a single receiver makes of the events that it takes from the channel.\<close>

fun drain :: "pg \<Rightarrow> settle_event list \<Rightarrow> database \<Rightarrow> database" where
  "drain P [] db = db"
| "drain P (evt # evts) db = drain P evts (processEvent P evt db)"

lemmas settle_defs = settleCreateOrder_def settleTrade_def settleCancelOrder_def
  settleBalanceUpdate_def settleFunding_def

subsection \<open>What reaches the accounts\<close>

text \<open>The statements of an event, and the events of a run whose transaction commits.\<close>

definition event_tx :: "pg \<Rightarrow> settle_event \<Rightarrow> database \<Rightarrow> database db_result" where
  "event_tx P evt =
     (case evType evt of
        EventCreateOrder \<Rightarrow> txCreateOrder P evt
      | EventTrade \<Rightarrow> txTrade P evt
      | EventCancelOrder \<Rightarrow> txCancelOrder P evt
      | EventBalanceUpdate \<Rightarrow> txBalanceUpdate P evt
      | EventFundingSettle \<Rightarrow> txFunding P evt)"

lemma processEvent_tx: "processEvent P evt = execTx (event_tx P evt)"
  by (cases "evType evt") (simp_all add: processEvent_def event_tx_def settle_defs)

fun committed :: "pg \<Rightarrow> settle_event list \<Rightarrow> database \<Rightarrow> settle_event list" where
  "committed P [] db = []"
| "committed P (evt # evts) db =
     (case event_tx P evt db of
        Inl e \<Rightarrow> committed P evts db
      | Inr db' \<Rightarrow> evt # committed P evts db')"

text \<open>What an event is meant to change on a user's balance.\<close>

definition balance_delta :: "int \<Rightarrow> settle_event \<Rightarrow> dec" where
  "balance_delta u evt =
     (if evUserID evt = u then
        (if evType evt = EventFundingSettle then 0 else evBalanceDelta evt) +
        (if evType evt = EventFundingSettle \<or> evType evt = EventBalanceUpdate then evPnlDelta evt else 0)
      else 0)"

text \<open>A column keeps 8 digits after the point: it is at most half of the last one away.\<close>

definition half_digit :: dec where
  "half_digit = 1 / (2 * 10 ^ 8)"

definition col_law :: "pg \<Rightarrow> bool" where
  "col_law P \<longleftrightarrow> (\<forall>x. \<bar>pgCol P x - x\<bar> \<le> half_digit)"

lemma half_digit_nonneg [simp]: "0 \<le> half_digit"
  by (simp add: half_digit_def)

definition db_balance :: "int \<Rightarrow> database \<Rightarrow> dec" where
  "db_balance u db = (case map_of (dbAccounts db) u of None \<Rightarrow> 0 | Some a \<Rightarrow> aBalance a)"

definition has_row :: "int \<Rightarrow> database \<Rightarrow> bool" where
  "has_row u db \<longleftrightarrow> map_of (dbAccounts db) u \<noteq> None"

text \<open>A statement list is within \<open>n\<close> roundings of adding \<open>d\<close> to the balance of \<open>u\<close>.\<close>

definition adds_balance :: "int \<Rightarrow> dec \<Rightarrow> nat \<Rightarrow> (database \<Rightarrow> database db_result) \<Rightarrow> bool" where
  "adds_balance u d n f \<longleftrightarrow>
     (\<forall>db db'. has_row u db \<longrightarrow> f db = Inr db' \<longrightarrow>
        has_row u db' \<and> \<bar>db_balance u db' - (db_balance u db + d)\<bar> \<le> of_nat n * half_digit)"

lemma adds_skip: "adds_balance u 0 0 skip_stmt"
  by (simp add: adds_balance_def skip_stmt_def)

lemma adds_andThen:
  assumes "adds_balance u d m f" and "adds_balance u d' n g"
  shows "adds_balance u (d + d') (m + n) (andThen f g)"
  unfolding adds_balance_def
proof (intro allI impI)
  fix db db'
  assume row: "has_row u db" and run: "andThen f g db = Inr db'"
  obtain db1 where f: "f db = Inr db1" and g: "g db1 = Inr db'"
    using run by (auto simp: andThen_def split: sum.splits)
  have 1: "has_row u db1" "\<bar>db_balance u db1 - (db_balance u db + d)\<bar> \<le> of_nat m * half_digit"
    using assms(1) row f unfolding adds_balance_def by blast+
  have 2: "has_row u db'" "\<bar>db_balance u db' - (db_balance u db1 + d')\<bar> \<le> of_nat n * half_digit"
    using assms(2) 1(1) g unfolding adds_balance_def by blast+
  show "has_row u db' \<and> \<bar>db_balance u db' - (db_balance u db + (d + d'))\<bar> \<le> of_nat (m + n) * half_digit"
    using 1 2 by (simp add: distrib_right)
qed

lemma adds_mono: "adds_balance u d m f \<Longrightarrow> m \<le> n \<Longrightarrow> adds_balance u d n f"
  unfolding adds_balance_def by (meson half_digit_nonneg mult_right_mono of_nat_mono order_trans)

lemma adds_when: "(c \<Longrightarrow> adds_balance u d n f) \<Longrightarrow> (\<not> c \<Longrightarrow> d = 0) \<Longrightarrow> adds_balance u d n (when_stmt c f)"
  using adds_mono [OF adds_skip [of u], of n] by (simp add: when_stmt_def)

lemma adds_account:
  assumes "col_law P"
  shows "adds_balance u (if v = u then d else 0) 1 (UpdateBalanceTx P v d fd)"
    and "adds_balance u (if v = u then d else 0) 1 (AddPnlTx P v d)"
  using assms by (auto simp: adds_balance_def has_row_def db_balance_def stmt_defs col_law_def split: if_splits)

lemma adds_nothing:
  "adds_balance u 0 0 (CreateOrderTx P r)" "adds_balance u 0 0 (CreatePositionTx P p)"
  "adds_balance u 0 0 (CreateTradeTx P t)" "adds_balance u 0 0 (UpdateQuantityAndMarginTx P i q m)"
  "adds_balance u 0 0 (ClosePositionTx P i st)" "adds_balance u 0 0 (CancelTx P i v)"
  "adds_balance u 0 0 (CreateSettlementTx P s)" "adds_balance u 0 0 (UpdateFundingPnlTx P i d)"
  by (auto simp: adds_balance_def has_row_def db_balance_def stmt_defs split: if_splits option.splits)

lemma event_adds:
  assumes "col_law P"
  shows "0 < u \<Longrightarrow> adds_balance u (balance_delta u evt) 2 (event_tx P evt)"
proof -
  assume u: "0 < u"
  note [simp] = balance_delta_def event_tx_def
  have row: "adds_balance u 0 0 (case x of None \<Rightarrow> skip_stmt | Some r \<Rightarrow> f r)"
    if "\<And>r. adds_balance u 0 0 (f r)" for x :: "'a option" and f
    using that adds_skip by (cases x) auto
  let ?v = "evUserID evt"
  have bal: "adds_balance u (if ?v = u then evBalanceDelta evt else 0) 1
      (when_stmt c (UpdateBalanceTx P ?v (evBalanceDelta evt) (evFrozenDelta evt)))"
    if "\<not> c \<Longrightarrow> ?v = u \<Longrightarrow> evBalanceDelta evt = 0" for c
    by (rule adds_when) (use that adds_account [OF assms] in auto)
  have pnl: "adds_balance u (if ?v = u then evPnlDelta evt else 0) 1
      (when_stmt c (AddPnlTx P ?v (evPnlDelta evt)))"
    if "\<not> c \<Longrightarrow> ?v = u \<Longrightarrow> evPnlDelta evt = 0" for c
    by (rule adds_when) (use that adds_account [OF assms] in auto)
  show ?thesis
  proof (cases "evType evt")
    case EventCreateOrder
    have "adds_balance u (0 + (if ?v = u then evBalanceDelta evt else 0)) (0 + 1) (txCreateOrder P evt)"
      unfolding txCreateOrder_def
      by (intro adds_andThen row bal adds_nothing) (use u in auto)
    with EventCreateOrder show ?thesis using adds_mono by fastforce
  next
    case EventTrade
    have "adds_balance u (0 + (0 + (0 + (if ?v = u then evBalanceDelta evt else 0)))) (0 + (0 + (0 + 1))) (txTrade P evt)"
      unfolding txTrade_def Let_def
      by (intro adds_andThen row bal adds_nothing) (use u adds_nothing adds_skip in auto)
    with EventTrade show ?thesis using adds_mono by fastforce
  next
    case EventCancelOrder
    have "adds_balance u (0 + (if ?v = u then evBalanceDelta evt else 0)) (0 + 1) (txCancelOrder P evt)"
      unfolding txCancelOrder_def
      by (intro adds_andThen row bal adds_nothing) (use u in auto)
    with EventCancelOrder show ?thesis using adds_mono by fastforce
  next
    case EventBalanceUpdate
    have "adds_balance u ((if ?v = u then evBalanceDelta evt else 0) + (if ?v = u then evPnlDelta evt else 0)) (1 + 1)
        (txBalanceUpdate P evt)"
      unfolding txBalanceUpdate_def
      by (intro adds_andThen bal pnl) auto
    with EventBalanceUpdate show ?thesis by (cases "?v = u") (simp_all add: numeral_2_eq_2)
  next
    case EventFundingSettle
    have "adds_balance u (0 + (0 + (if ?v = u then evPnlDelta evt else 0))) (0 + (0 + 1)) (txFunding P evt)"
      unfolding txFunding_def
      by (intro adds_andThen row pnl adds_nothing adds_when) (use u in auto)
    with EventFundingSettle show ?thesis using adds_mono by fastforce
  qed
qed

text \<open>The effect of draining, from the effects of the events.\<close>

lemma drain_adds:
  assumes "col_law P" and "0 < u" and "has_row u db"
  shows "has_row u (drain P evts db) \<and>
    \<bar>db_balance u (drain P evts db) -
      (db_balance u db + sum_list (map (balance_delta u) (committed P evts db)))\<bar>
    \<le> of_nat (2 * length (committed P evts db)) * half_digit"
  using assms(3)
proof (induction evts arbitrary: db)
  case (Cons evt evts)
  show ?case
  proof (cases "event_tx P evt db")
    case (Inl e)
    with Cons show ?thesis by (simp add: processEvent_tx execTx_def)
  next
    case (Inr db1)
    have 1: "has_row u db1" "\<bar>db_balance u db1 - (db_balance u db + balance_delta u evt)\<bar> \<le> of_nat 2 * half_digit"
      using event_adds [OF assms(1,2), of evt] Cons.prems Inr unfolding adds_balance_def by blast+
    from Cons.IH [OF 1(1)] 1(2) Inr show ?thesis
      by (auto simp: processEvent_tx execTx_def abs_le_iff distrib_right)
  qed
qed simp

text \<open>
  C33. Settlement adds up. For a user with an account row, after the worker has drained any
  queue, whatever the database refused on the way, the balance in the table is the balance before
  plus the deltas of exactly the events whose transaction committed, to within two column
  roundings per committed event. An event that fails contributes nothing.
\<close>

theorem drain_adds_up:
  assumes "col_law P" and "0 < u" and "has_row u db"
  shows "has_row u (drain P evts db) \<and>
    \<bar>db_balance u (drain P evts db) -
      (db_balance u db + sum_list (map (balance_delta u) (committed P evts db)))\<bar>
    \<le> of_nat (2 * length (committed P evts db)) * half_digit"
  using assms by (rule drain_adds)

definition exact_pg :: pg where
  "exact_pg = \<lparr>pgCol = (\<lambda>x. x), pgRefuses = (\<lambda>st db. st = UpdateOrder 9)\<rparr>"

definition pay_event :: "int \<Rightarrow> dec \<Rightarrow> settle_event" where
  "pay_event u d = (empty_event EventBalanceUpdate)\<lparr>evUserID := u, evBalanceDelta := d\<rparr>"

theorem drain_adds_up_witness:
  "let db = \<lparr>dbAccounts = [(7, \<lparr>aBalance = 100, aFrozen = 0, aTotalPnl = 0, aResetCount = 0\<rparr>)],
             dbPositions = [], dbOrders = [], dbTrades = [], dbSettlements = [], dbRates = []\<rparr>;
       cancel = (empty_event EventCancelOrder)\<lparr>evUserID := 7, evOrderID := 9, evBalanceDelta := 50\<rparr>
   in \<bar>db_balance 7 (drain exact_pg [pay_event 7 (- 30), cancel] db) - 70\<bar> \<le> 2 * half_digit"
proof -
  let ?db = "\<lparr>dbAccounts = [(7, \<lparr>aBalance = 100, aFrozen = 0, aTotalPnl = 0, aResetCount = 0\<rparr>)],
             dbPositions = [], dbOrders = [], dbTrades = [], dbSettlements = [], dbRates = []\<rparr>"
  let ?cancel = "(empty_event EventCancelOrder)\<lparr>evUserID := 7, evOrderID := 9, evBalanceDelta := 50\<rparr>"
  have "committed exact_pg [pay_event 7 (- 30), ?cancel] ?db = [pay_event 7 (- 30)]"
    by (simp add: event_tx_def pay_event_def empty_event_def txBalanceUpdate_def txCancelOrder_def when_stmt_def
        stmt_defs exact_pg_def on_row_def)
  moreover have "col_law exact_pg" "has_row 7 ?db" "db_balance 7 ?db = 100"
    by (simp_all add: col_law_def exact_pg_def has_row_def db_balance_def)
  ultimately show ?thesis
    using drain_adds_up [of exact_pg 7 ?db "[pay_event 7 (- 30), ?cancel]"]
    by (simp add: balance_delta_def pay_event_def empty_event_def Let_def)
qed

end
