(* ===== verification/Engine.thy ===== *)
theory Engine
  imports Book_Invariant Account_Cache Position_Cache Order_Cache Price_Cache Clearance Settler
begin

section \<open>The matching engine: state and position updates\<close>

text \<open>
  \<open>internal/engine/trading/engine.go\<close> (state) and \<open>position_update.go\<close>. The engine owns the
  caches, the book, the accounts and the queue to the settlement. An operation is a function
  \<open>engine \<Rightarrow> (result \<times> engine) option\<close>; \<open>None\<close> is a panic (a division by zero). The maker
  callback is \<open>None\<close> when it is not set and otherwise the list of the calls made to it. Log
  output is left out.
\<close>

subsection \<open>State\<close>

datatype action = ActOpen | ActIncrease | ActReduce | ActClose | ActFailed

record update_result =
  rAction :: action
  rPositionID :: int
  rSide :: int
  rEntryPrice :: dec
  rQuantity :: dec
  rMargin :: dec
  rFee :: dec
  rLiqPrice :: dec
  rForceTpPrice :: dec
  rRawPnl :: dec
  rRealizedPnl :: dec
  rFundingPnl :: dec
  rNetPnl :: dec
  rClosedQty :: dec
  rRemainingQty :: dec
  rIsPartial :: bool

definition empty_result :: "action \<Rightarrow> update_result" where
  "empty_result act =
     \<lparr>rAction = act, rPositionID = 0, rSide = 0, rEntryPrice = 0, rQuantity = 0, rMargin = 0, rFee = 0,
      rLiqPrice = 0, rForceTpPrice = 0, rRawPnl = 0, rRealizedPnl = 0, rFundingPnl = 0, rNetPnl = 0,
      rClosedQty = 0, rRemainingQty = 0, rIsPartial = False\<rparr>"

record engine =
  priceCache :: price_cache
  positionCache :: position_cache
  orderCache :: order_cache
  ebook :: book
  eclearance :: clearance
  esettler :: settler
  maxLeverage :: int
  minMargin :: dec
  maxPositions :: int
  maxPriceDeviation :: dec
  memAccounts :: accounts
  nextPosID :: int
  onMakerFill :: "(int \<times> update_result) list option"

record engine_config =
  cfgMaxLeverage :: int
  cfgMinMargin :: dec
  cfgMaxPositions :: int
  cfgMaxPriceDeviation :: dec

definition NewEngine ::
    "price_cache \<Rightarrow> position_cache \<Rightarrow> order_cache \<Rightarrow> book option \<Rightarrow> clearance \<Rightarrow> settler \<Rightarrow> engine_config \<Rightarrow> engine" where
  "NewEngine pc poc oc bk cl st cfg =
     \<lparr>priceCache = pc, positionCache = poc, orderCache = oc,
      ebook = (case bk of None \<Rightarrow> NewBook | Some b \<Rightarrow> b),
      eclearance = cl, esettler = st,
      maxLeverage = cfgMaxLeverage cfg, minMargin = cfgMinMargin cfg,
      maxPositions = (if cfgMaxPositions cfg = 0 then 20 else cfgMaxPositions cfg),
      maxPriceDeviation = (if cfgMaxPriceDeviation cfg = 0 then 1 / 10 else cfgMaxPriceDeviation cfg),
      memAccounts = NewAccountCache, nextPosID = 100000, onMakerFill = None\<rparr>"

definition SetNextPosID :: "int \<Rightarrow> engine \<Rightarrow> engine" where
  "SetNextPosID i e = e\<lparr>nextPosID := i\<rparr>"

definition submit :: "settle_event \<Rightarrow> engine \<Rightarrow> engine" where
  "submit evt e = e\<lparr>esettler := Submit evt (esettler e)\<rparr>"

subsection \<open>Opening\<close>

definition handleOpen ::
    "decimal_lib \<Rightarrow> int \<Rightarrow> int \<Rightarrow> dec \<Rightarrow> dec \<Rightarrow> int \<Rightarrow> bool \<Rightarrow> int \<Rightarrow> engine \<Rightarrow> (update_result \<times> engine) option" where
  "handleOpen D userID side qty price leverage0 isMaker orderID e =
     do {
       let leverage = (if leverage0 \<le> 0 then 1 else leverage0);
       cr \<leftarrow> CalcOpen D (eclearance e) price qty leverage side isMaker;
       let margin = orMargin cr;
       let fee = orFee cr;
       let totalCost = orTotalCost cr;
       let liqPrice = orLiqPrice cr;
       let ftpPrice = orForceTpPrice cr;
       let (ok, accs) = Deduct userID totalCost (memAccounts e);
       let e1 = e\<lparr>memAccounts := accs\<rparr>;
       (if \<not> ok then Some (empty_result ActFailed, e1)
        else
          let posID = add64 (nextPosID e1) 1;
              e2 = e1\<lparr>nextPosID := posID,
                      positionCache := AddPosition
                        (NewCachedPosition posID userID side MarginModeIsolated leverage
                           (Shown price) (Shown qty) (Shown margin) (Shown liqPrice) (Shown ftpPrice)
                           Blank Blank Blank)
                        (positionCache e1)\<rparr>;
              pos = \<lparr>prID = posID, prUserID = userID, prSide = side, prMarginMode = MarginModeIsolated,
                     prLeverage = leverage, prEntryPrice = price, prQuantity = qty, prMargin = margin,
                     prLiqPrice = liqPrice, prForceTpPrice = ftpPrice, prTakeProfit = None,
                     prStopLoss = None, prFundingPnl = 0, prStatus = PositionStatusActive\<rparr>;
              e3 = (if 0 < userID then
                      let trade = \<lparr>trUserID = userID, trOrderID = orderID, trPositionID = None,
                                   trSide = side, trPrice = price, trQuantity = qty, trFee = fee,
                                   trRealizedPnl = 0, trIsClose = False, trCloseReason = 0\<rparr>
                      in submit ((empty_event EventTrade)\<lparr>evPosition := Some pos, evTrade := Some trade,
                                   evUserID := userID, evBalanceDelta := - totalCost\<rparr>) e2
                    else e2)
          in Some ((empty_result ActOpen)\<lparr>rPositionID := posID, rSide := side, rEntryPrice := price,
                      rQuantity := qty, rMargin := margin, rFee := fee, rLiqPrice := liqPrice,
                      rForceTpPrice := ftpPrice\<rparr>, e3))
     }"

subsection \<open>Increasing\<close>

definition handleIncrease ::
    "decimal_lib \<Rightarrow> int \<Rightarrow> cached_position \<Rightarrow> dec \<Rightarrow> dec \<Rightarrow> int \<Rightarrow> engine \<Rightarrow> (update_result \<times> engine) option" where
  "handleIncrease D userID existing qty price orderID e =
     do {
       let oldQty = NewFromString (pQuantity existing);
       let oldEntry = NewFromString (pEntryPrice existing);
       let oldMargin = NewFromString (pMargin existing);
       cr \<leftarrow> CalcIncrease D (eclearance e) oldEntry oldQty oldMargin (pLeverage existing) (pSide existing) qty price;
       let addMargin = irAddMargin cr;
       let (ok, accs) = Deduct userID addMargin (memAccounts e);
       let e1 = e\<lparr>memAccounts := accs\<rparr>;
       (if \<not> ok then Some (empty_result ActFailed, e1)
        else
          let e2 = e1\<lparr>positionCache := UpdateCached (pID existing)
                     (\<lambda>cp. cp\<lparr>pEntryPrice := Shown (irNewEntry cr), pQuantity := Shown (irNewQty cr),
                            pMargin := Shown (irNewMargin cr), pLiqPrice := Shown (irLiqPrice cr),
                            pForceTpPrice := Shown (irForceTpPrice cr)\<rparr>)
                     (positionCache e1)\<rparr>;
              e3 = (if 0 < userID then
                      let trade = \<lparr>trUserID = userID, trOrderID = orderID, trPositionID = Some (pID existing),
                                   trSide = pSide existing, trPrice = price, trQuantity = qty, trFee = 0,
                                   trRealizedPnl = 0, trIsClose = False, trCloseReason = 0\<rparr>
                      in submit ((empty_event EventTrade)\<lparr>evTrade := Some trade, evUserID := userID,
                                   evBalanceDelta := - addMargin\<rparr>) e2
                    else e2)
          in Some ((empty_result ActIncrease)\<lparr>rPositionID := pID existing, rSide := pSide existing,
                      rEntryPrice := irNewEntry cr, rQuantity := irNewQty cr, rMargin := irNewMargin cr,
                      rLiqPrice := irLiqPrice cr, rForceTpPrice := irForceTpPrice cr\<rparr>, e3))
     }"

subsection \<open>Reducing and closing\<close>

text \<open>The settlement event of a reduction.\<close>

definition reduceEvent :: "int \<Rightarrow> cached_position \<Rightarrow> int \<Rightarrow> dec \<Rightarrow> int \<Rightarrow> int \<Rightarrow> reduce_result \<Rightarrow> settle_event" where
  "reduceEvent userID existing tradeSide price closeReason orderID cr =
     (let closeTrade = \<lparr>trUserID = userID, trOrderID = orderID, trPositionID = Some (pID existing),
                        trSide = tradeSide, trPrice = price, trQuantity = rrCloseQty cr,
                        trFee = rrFee cr, trRealizedPnl = rrRealizedPnl cr, trIsClose = True,
                        trCloseReason = closeReason\<rparr>;
          balanceDelta = (if closeReason = CloseReasonLiquidation then - rrCloseMargin cr
                          else rrCloseMargin cr + rrNetPnl cr)
      in (empty_event EventTrade)\<lparr>evTrade := Some closeTrade, evPositionID := pID existing,
            evUserID := userID, evCloseReason := closeReason, evClosePrice := price,
            evMargin := rrCloseMargin cr, evRealizedPnl := rrRealizedPnl cr, evFee := rrFee cr,
            evNetPnl := rrNetPnl cr, evBalanceDelta := balanceDelta,
            evIsPartialClose := \<not> rrIsFullClose cr, evRemainingQty := rrRemainQty cr,
            evRemainingMargin := rrRemainMargin cr\<rparr>)"

definition handleReduce ::
    "decimal_lib \<Rightarrow> int \<Rightarrow> cached_position \<Rightarrow> int \<Rightarrow> dec \<Rightarrow> dec \<Rightarrow> int \<Rightarrow> int \<Rightarrow> int \<Rightarrow> engine \<Rightarrow>
     (update_result \<times> engine) option" where
  "handleReduce D userID existing tradeSide qty price leverage closeReason0 orderID e =
     do {
       let existingQty = NewFromString (pQuantity existing);
       let existingEntry = NewFromString (pEntryPrice existing);
       let existingMargin = NewFromString (pMargin existing);
       let fundingPnl = NewFromString (pFundingPnl existing);
       cr \<leftarrow> CalcReduce D (eclearance e) existingEntry price existingQty existingMargin fundingPnl
              (pLeverage existing) (pSide existing) qty;
       let e1 = e\<lparr>memAccounts :=
                    (if closeReason0 = CloseReasonLiquidation
                     then AddPnl userID (- rrCloseMargin cr) (memAccounts e)
                     else ReturnMarginWithPnl userID (rrCloseMargin cr) (rrNetPnl cr) (memAccounts e))\<rparr>;
       let e2 = e1\<lparr>positionCache :=
                    (if rrIsFullClose cr then RemovePosition (pID existing) (positionCache e1)
                     else UpdateCached (pID existing)
                       (\<lambda>cp. cp\<lparr>pQuantity := Shown (rrRemainQty cr), pMargin := Shown (rrRemainMargin cr),
                              pFundingPnl := Shown (rrRemainFunding cr),
                              pLiqPrice := Shown (rrRemainLiqPrice cr),
                              pForceTpPrice := Shown (rrRemainFtpPrice cr), pState := PosStateActive\<rparr>)
                       (positionCache e1))\<rparr>;
       let closeReason = (if closeReason0 = 0 then CloseReasonManual else closeReason0);
       let e3 = (if 0 < userID then submit (reduceEvent userID existing tradeSide price closeReason orderID cr) e2
                 else e2);
       let remainingTradeQty = qty - existingQty;
       e4 \<leftarrow> (if 0 < remainingTradeQty then
                map_option snd (handleOpen D userID tradeSide remainingTradeQty price leverage False orderID e3)
              else Some e3);
       Some ((empty_result (if rrIsFullClose cr then ActClose else ActReduce))\<lparr>
               rPositionID := pID existing, rSide := pSide existing, rEntryPrice := existingEntry,
               rFee := rrFee cr, rRawPnl := rrRawPnl cr, rRealizedPnl := rrRealizedPnl cr,
               rFundingPnl := rrCloseFunding cr, rNetPnl := rrNetPnl cr, rClosedQty := rrCloseQty cr,
               rRemainingQty := rrRemainQty cr, rIsPartial := \<not> rrIsFullClose cr\<rparr>, e4)
     }"

subsection \<open>The update\<close>

definition UpdatePosition ::
    "decimal_lib \<Rightarrow> int \<Rightarrow> int \<Rightarrow> dec \<Rightarrow> dec \<Rightarrow> int \<Rightarrow> bool \<Rightarrow> int \<Rightarrow> int \<Rightarrow> engine \<Rightarrow>
     (update_result \<times> engine) option" where
  "UpdatePosition D userID tradeSide qty price leverage isMaker closeReason orderID e =
     (let opposite = FindOpposite userID tradeSide (positionCache e);
          sameDir = FindSameDir userID tradeSide (positionCache e)
      in case opposite of
           Some p \<Rightarrow> handleReduce D userID p tradeSide qty price leverage closeReason orderID e
         | None \<Rightarrow>
             (case sameDir of
                Some p \<Rightarrow> handleIncrease D userID p qty price orderID e
              | None \<Rightarrow> handleOpen D userID tradeSide qty price leverage isMaker orderID e))"

subsection \<open>Both sides of every trade\<close>

text \<open>A leverage and a maker flag: the taker's own, those of a cached order, or 1 and a maker.\<close>

definition resolveLeverage :: "int \<Rightarrow> int \<Rightarrow> int \<Rightarrow> int \<Rightarrow> engine \<Rightarrow> int \<times> bool" where
  "resolveLeverage userID orderID takerUserID takerLeverage e =
     (if userID = takerUserID then (takerLeverage, False)
      else case GetOrder orderID (orderCache e) of
          Some co \<Rightarrow> (coLeverage co, True)
        | None \<Rightarrow> (1, True))"

text \<open>One participant of a trade: the update, and to whom its result goes.\<close>

definition fillSide ::
    "decimal_lib \<Rightarrow> int \<Rightarrow> int \<Rightarrow> int \<Rightarrow> ob_trade \<Rightarrow> int \<Rightarrow> int \<Rightarrow> int \<Rightarrow> engine \<Rightarrow>
     (update_result list \<times> engine) option" where
  "fillSide D user bookOrderID side t takerUserID takerLeverage takerOrderID e =
     do {
       let orderID = (if user = takerUserID then takerOrderID else bookOrderID);
       let (leverage, isMaker) = resolveLeverage user bookOrderID takerUserID takerLeverage e;
       (r, e1) \<leftarrow> UpdatePosition D user side (tQuantity t) (tPrice t) leverage isMaker CloseReasonManual orderID e;
       (if user = takerUserID then Some ([r], e1)
        else case onMakerFill e1 of
            Some calls \<Rightarrow>
              (if 0 < user then Some ([], e1\<lparr>onMakerFill := Some (calls @ [(user, r)])\<rparr>) else Some ([], e1))
          | None \<Rightarrow> Some ([], e1))
     }"

fun ProcessTrades ::
    "decimal_lib \<Rightarrow> ob_trade list \<Rightarrow> int \<Rightarrow> int \<Rightarrow> int \<Rightarrow> int \<Rightarrow> engine \<Rightarrow> (update_result list \<times> engine) option" where
  "ProcessTrades D [] takerUserID takerSide takerLeverage takerOrderID e = Some ([], e)"
| "ProcessTrades D (t # ts) takerUserID takerSide takerLeverage takerOrderID e =
     do {
       (rs1, e1) \<leftarrow> fillSide D (tBuyUserID t) (tBuyOrderID t) 1 t takerUserID takerLeverage takerOrderID e;
       (rs2, e2) \<leftarrow> fillSide D (tSellUserID t) (tSellOrderID t) (- 1) t takerUserID takerLeverage takerOrderID e1;
       (rs3, e3) \<leftarrow> ProcessTrades D ts takerUserID takerSide takerLeverage takerOrderID e2;
       Some (rs1 @ rs2 @ rs3, e3)
     }"

end
