(* ===== verification/Engine_Orders.thy ===== *)
theory Engine_Orders
  imports Engine
begin

section \<open>The matching engine: orders and closes (\<open>internal/engine/trading/engine.go\<close>)\<close>

text \<open>
  What users and the risk engine call: market and limit orders, cancellation, closing. Each
  answers an error or a result beside the new state; the state of a call that answers an error
  is what the code leaves behind (a consumed order ID, a position set back to active).
\<close>

subsection \<open>Results and errors\<close>

datatype engine_error =
    ErrNoPriceAvailable | ErrInvalidSide | ErrInvalidLeverage | ErrMarginTooSmall | ErrInvalidPrice
  | ErrPositionNotFound | ErrPriceDeviationTooLarge | ErrTooManyPositions | ErrPositionClosing
  | ErrInvalidCloseQuantity | ErrNoLiquidity | ErrWrongCloseReason int | ErrNoUpdateResults
  | ModelError db_error

datatype order_status = StatusFilled | StatusPending

text \<open>\<open>Order\<close>, \<open>Trade\<close> and \<open>Slippage\<close> of the Go struct are never set.\<close>

record place_result =
  poPosition :: "position_row option"
  poTrades :: "ob_trade list"
  poStatus :: order_status
  poMerged :: bool
  poAvgPrice :: dec
  poTotalQty :: dec
  poFee :: dec

record close_result =
  crRawPnl :: dec
  crRealizedPnl :: dec
  crFee :: dec
  crFundingPnl :: dec
  crNetPnl :: dec
  crClosePrice :: dec
  crClosedQty :: dec
  crRemainingQty :: dec
  crIsPartial :: bool

subsection \<open>Helpers\<close>

definition validateParams :: "int \<Rightarrow> int \<Rightarrow> dec \<Rightarrow> engine \<Rightarrow> engine_error option" where
  "validateParams side leverage margin e =
     (if side \<noteq> 1 \<and> side \<noteq> - 1 then Some ErrInvalidSide
      else if leverage < 1 \<or> maxLeverage e < leverage then Some ErrInvalidLeverage
      else if margin < minMargin e then Some ErrMarginTooSmall
      else None)"

definition checkPositionLimit :: "int \<Rightarrow> engine \<Rightarrow> engine_error option" where
  "checkPositionLimit userID e =
     (if maxPositions e \<le> int (length (GetByUser userID (positionCache e))) then Some ErrTooManyPositions
      else None)"

definition optionalPrice :: "dstring \<Rightarrow> dec option" where
  "optionalPrice s = (if s \<noteq> Blank then Some (NewFromString s) else None)"

definition cachedToModel :: "cached_position \<Rightarrow> position_row" where
  "cachedToModel cp =
     \<lparr>prID = pID cp, prUserID = pUserID cp, prSide = pSide cp, prMarginMode = pMarginMode cp,
      prLeverage = pLeverage cp, prEntryPrice = NewFromString (pEntryPrice cp),
      prQuantity = NewFromString (pQuantity cp), prMargin = NewFromString (pMargin cp),
      prLiqPrice = NewFromString (pLiqPrice cp), prForceTpPrice = NewFromString (pForceTpPrice cp),
      prTakeProfit = optionalPrice (pTakeProfit cp), prStopLoss = optionalPrice (pStopLoss cp),
      prFundingPnl = NewFromString (pFundingPnl cp), prStatus = PositionStatusActive\<rparr>"

definition decimalPtrToString :: "dec option \<Rightarrow> dstring" where
  "decimalPtrToString d = (case d of None \<Rightarrow> Blank | Some x \<Rightarrow> Shown x)"

definition buildCloseResult :: "update_result list \<Rightarrow> engine_error + close_result" where
  "buildCloseResult results =
     (case results of
        [] \<Rightarrow> Inl ErrNoUpdateResults
      | r # _ \<Rightarrow> Inr \<lparr>crRawPnl = rRawPnl r, crRealizedPnl = rRealizedPnl r, crFee = rFee r,
                    crFundingPnl = rFundingPnl r, crNetPnl = rNetPnl r, crClosePrice = rEntryPrice r,
                    crClosedQty = rClosedQty r, crRemainingQty = rRemainingQty r,
                    crIsPartial = rIsPartial r\<rparr>)"

definition submitOrder ::
    "int \<Rightarrow> int \<Rightarrow> int \<Rightarrow> int \<Rightarrow> int \<Rightarrow> dec option \<Rightarrow> dec \<Rightarrow> dec \<Rightarrow> dec \<Rightarrow> dec option \<Rightarrow> dec option \<Rightarrow> int \<Rightarrow>
     engine \<Rightarrow> engine option" where
  "submitOrder i userID side orderType leverage price qty marginCost filledPrice tp sl status e =
     do {
       let ord = \<lparr>omID = i, omUserID = userID, omSide = side, omOrderType = orderType,
                  omLeverage = leverage, omPrice = price, omQuantity = qty,
                  omFilledPrice = (if filledPrice \<noteq> 0 then Some filledPrice else None),
                  omMarginCost = marginCost, omTakeProfit = tp, omStopLoss = sl, omStatus = status,
                  omPositionID = None\<rparr>;
       let evt = (empty_event EventCreateOrder)\<lparr>evOrder := Some ord, evUserID := userID\<rparr>;
       evt' \<leftarrow> (if status = OrderStatusPending then do {
                  let positionValue = marginCost * of_int leverage;
                  (fee, _) \<leftarrow> CalcMakerFee (eclearance e) positionValue;
                  let frozen = marginCost + fee;
                  Some (evt\<lparr>evBalanceDelta := - frozen, evFrozenDelta := frozen\<rparr>)
                } else Some evt);
       Some (submit evt' e)
     }"

definition setTPSL :: "dec option \<Rightarrow> dec option \<Rightarrow> cached_position \<Rightarrow> cached_position" where
  "setTPSL tp sl cp =
     (let cp1 = (case tp of Some x \<Rightarrow> cp\<lparr>pTakeProfit := Shown x\<rparr> | None \<Rightarrow> cp)
      in (case sl of Some x \<Rightarrow> cp1\<lparr>pStopLoss := Shown x\<rparr> | None \<Rightarrow> cp1))"

definition totalFee :: "update_result list \<Rightarrow> dec" where
  "totalFee rs = sum_list (map rFee rs)"

subsection \<open>Market orders\<close>

definition PlaceMarketOrder ::
    "decimal_lib \<Rightarrow> int \<Rightarrow> int \<Rightarrow> int \<Rightarrow> int \<Rightarrow> dec \<Rightarrow> dec option \<Rightarrow> dec option \<Rightarrow> engine \<Rightarrow>
     ((engine_error + place_result) \<times> engine) option" where
  "PlaceMarketOrder D userID side leverage marginMode0 margin tp sl e =
     (let marginMode = (if marginMode0 = 0 then MarginModeIsolated else marginMode0)
      in case validateParams side leverage margin e of Some err \<Rightarrow> Some (Inl err, e) | None \<Rightarrow>
        (case checkPositionLimit userID e of Some err \<Rightarrow> Some (Inl err, e) | None \<Rightarrow>
        (let refPrice = GetPrice (priceCache e)
         in if refPrice = 0 then Some (Inl ErrNoPriceAvailable, e)
            else do {
              let positionValue = margin * of_int leverage;
              (tradingFee, _) \<leftarrow> CalcTakerFee (eclearance e) positionValue;
              let totalCost = margin + tradingFee;
              (if GetBalance userID (memAccounts e) < totalCost
               then Some (Inl (ModelError ErrInsufficientBalance), e)
               else do {
                 estimatedQty \<leftarrow> CalcQuantity D margin leverage refPrice;
                 let (orderID, b1) = NextOrderID (ebook e);
                 let (res, b2) = PlaceMarket
                       \<lparr>oID = orderID, oUserID = userID, oSide = side, oPrice = 0,
                        oQuantity = estimatedQty, oIsMaker = False\<rparr> b1;
                 let obTrades = (case res of Inl _ \<Rightarrow> [] | Inr ts \<Rightarrow> ts);
                 let e1 = e\<lparr>ebook := b2\<rparr>;
                 (if obTrades = [] then Some (Inl ErrNoLiquidity, e1)
                  else do {
                    (avgPrice, totalQty) \<leftarrow> CalcVWAP D obTrades;
                    e2 \<leftarrow> submitOrder orderID userID side OrderTypeMarket leverage None totalQty margin avgPrice
                            tp sl OrderStatusFilled e1;
                    (takerResults, e3) \<leftarrow> ProcessTrades D obTrades userID side leverage orderID e2;
                    let (pos, e4) =
                      (if takerResults = [] then (None, e3)
                       else
                         let r = last takerResults
                         in (Some \<lparr>prID = rPositionID r, prUserID = userID, prSide = side,
                                   prMarginMode = marginMode, prLeverage = leverage,
                                   prEntryPrice = rEntryPrice r, prQuantity = rQuantity r,
                                   prMargin = rMargin r, prLiqPrice = rLiqPrice r,
                                   prForceTpPrice = rForceTpPrice r, prTakeProfit = tp, prStopLoss = sl,
                                   prFundingPnl = 0, prStatus = PositionStatusActive\<rparr>,
                             if tp \<noteq> None \<or> sl \<noteq> None
                             then e3\<lparr>positionCache := UpdateCached (rPositionID r) (setTPSL tp sl) (positionCache e3)\<rparr>
                             else e3));
                    let merged = (takerResults \<noteq> [] \<and> rAction (last takerResults) = ActIncrease);
                    Some (Inr \<lparr>poPosition = pos, poTrades = obTrades, poStatus = StatusFilled,
                               poMerged = merged, poAvgPrice = avgPrice, poTotalQty = totalQty,
                               poFee = totalFee takerResults\<rparr>, e4)
                  })
               })
            })))"

subsection \<open>Limit orders\<close>

definition PlaceLimitOrder ::
    "decimal_lib \<Rightarrow> int \<Rightarrow> int \<Rightarrow> int \<Rightarrow> dec \<Rightarrow> dec \<Rightarrow> dec option \<Rightarrow> dec option \<Rightarrow> engine \<Rightarrow>
     ((engine_error + place_result) \<times> engine) option" where
  "PlaceLimitOrder D userID side leverage margin limitPrice tp sl e =
     (case validateParams side leverage margin e of Some err \<Rightarrow> Some (Inl err, e) | None \<Rightarrow>
      (if limitPrice = 0 then Some (Inl ErrInvalidPrice, e)
       else case checkPositionLimit userID e of Some err \<Rightarrow> Some (Inl err, e) | None \<Rightarrow>
        (let currentPrice = GetPrice (priceCache e)
         in if currentPrice = 0 then Some (Inl ErrNoPriceAvailable, e)
            else do {
              deviation \<leftarrow> Div D \<bar>limitPrice - currentPrice\<bar> currentPrice;
              (if maxPriceDeviation e < deviation then Some (Inl ErrPriceDeviationTooLarge, e)
               else do {
                 quantity \<leftarrow> CalcQuantity D margin leverage limitPrice;
                 let positionValue = margin * of_int leverage;
                 (makerFee, _) \<leftarrow> CalcMakerFee (eclearance e) positionValue;
                 let totalCost = margin + makerFee;
                 let (ok, accs) = Freeze userID totalCost (memAccounts e);
                 let e1 = e\<lparr>memAccounts := accs\<rparr>;
                 (if \<not> ok then Some (Inl (ModelError ErrInsufficientBalance), e1)
                  else do {
                    let (orderID, b1) = NextOrderID (ebook e1);
                    let ((obTrades, remaining), b2) = PlaceLimit
                          \<lparr>oID = orderID, oUserID = userID, oSide = side, oPrice = limitPrice,
                           oQuantity = quantity, oIsMaker = False\<rparr> b1;
                    let e2 = e1\<lparr>ebook := b2\<rparr>;
                    (if obTrades \<noteq> [] \<and> remaining = None then do {
                       let e3 = e2\<lparr>memAccounts := Unfreeze userID totalCost (memAccounts e2)\<rparr>;
                       (avgPrice, totalQty) \<leftarrow> CalcVWAP D obTrades;
                       e4 \<leftarrow> submitOrder orderID userID side OrderTypeLimit leverage (Some limitPrice) totalQty
                               margin avgPrice tp sl OrderStatusFilled e3;
                       (takerResults, e5) \<leftarrow> ProcessTrades D obTrades userID side leverage orderID e4;
                       Some (Inr \<lparr>poPosition = None, poTrades = obTrades, poStatus = StatusFilled,
                                  poMerged = False, poAvgPrice = avgPrice, poTotalQty = totalQty,
                                  poFee = totalFee takerResults\<rparr>, e5)
                     } else do {
                       e3 \<leftarrow> submitOrder orderID userID side OrderTypeLimit leverage (Some limitPrice) quantity
                               margin 0 tp sl OrderStatusPending e2;
                       let co = \<lparr>coID = orderID, coUserID = userID, coSide = side, coPrice = limitPrice,
                                 coQuantity = quantity, coMarginCost = margin, coLeverage = leverage,
                                 coTakeProfit = decimalPtrToString tp, coStopLoss = decimalPtrToString sl\<rparr>;
                       Some (Inr \<lparr>poPosition = None, poTrades = [], poStatus = StatusPending,
                                  poMerged = False, poAvgPrice = 0, poTotalQty = 0, poFee = 0\<rparr>,
                             e3\<lparr>orderCache := AddOrder co (orderCache e3)\<rparr>)
                     })
                  })
               })
            })))"

subsection \<open>Cancellation\<close>

definition CancelOrder :: "int \<Rightarrow> int \<Rightarrow> engine \<Rightarrow> (engine_error option \<times> engine) option" where
  "CancelOrder orderID userID e =
     (case GetOrder orderID (orderCache e) of
        None \<Rightarrow> Some (Some (ModelError ErrOrderNotPending), e)
      | Some cachedOrder \<Rightarrow>
          if coUserID cachedOrder \<noteq> userID then Some (Some (ModelError ErrOrderNotPending), e)
          else do {
            let e1 = e\<lparr>ebook := snd (Cancel orderID (ebook e))\<rparr>;
            let positionValue = coMarginCost cachedOrder * of_int (coLeverage cachedOrder);
            (fee, _) \<leftarrow> CalcMakerFee (eclearance e1) positionValue;
            let totalFrozen = coMarginCost cachedOrder + fee;
            let e2 = e1\<lparr>memAccounts := Unfreeze userID totalFrozen (memAccounts e1),
                        orderCache := snd (RemoveOrder orderID (orderCache e1))\<rparr>;
            Some (None, submit ((empty_event EventCancelOrder)\<lparr>evOrderID := orderID, evUserID := userID,
                          evBalanceDelta := totalFrozen, evFrozenDelta := - totalFrozen\<rparr>) e2)
          })"

subsection \<open>Closing\<close>

definition setActive :: "cached_position \<Rightarrow> cached_position" where
  "setActive p = p\<lparr>pState := PosStateActive\<rparr>"

definition executeClose ::
    "decimal_lib \<Rightarrow> int \<Rightarrow> position_row \<Rightarrow> dec \<Rightarrow> engine \<Rightarrow> ((engine_error + close_result) \<times> engine) option" where
  "executeClose D positionID pos qty e =
     do {
       let (orderID, b1) = NextOrderID (ebook e);
       let (res, b2) = PlaceMarket
             \<lparr>oID = orderID, oUserID = prUserID pos, oSide = - prSide pos, oPrice = 0, oQuantity = qty,
              oIsMaker = False\<rparr> b1;
       let obTrades = (case res of Inl _ \<Rightarrow> [] | Inr ts \<Rightarrow> ts);
       let e1 = e\<lparr>ebook := b2\<rparr>;
       (if obTrades = [] then
          Some (Inl ErrNoLiquidity, e1\<lparr>positionCache := UpdateCached positionID setActive (positionCache e1)\<rparr>)
        else do {
          (avgPrice, totalQty) \<leftarrow> CalcVWAP D obTrades;
          e2 \<leftarrow> submitOrder orderID (prUserID pos) (- prSide pos) OrderTypeMarket (prLeverage pos) None totalQty 0
                  avgPrice None None OrderStatusFilled e1;
          (takerResults, e3) \<leftarrow> ProcessTrades D obTrades (prUserID pos) (- prSide pos) (prLeverage pos) orderID e2;
          Some (buildCloseResult takerResults, e3)
        })
     }"

definition ClosePosition ::
    "decimal_lib \<Rightarrow> int \<Rightarrow> int \<Rightarrow> int \<Rightarrow> dec \<Rightarrow> engine \<Rightarrow> ((engine_error + close_result) \<times> engine) option" where
  "ClosePosition D positionID userID closeReason closeQty e =
     (case GetPosition positionID (positionCache e) of
        None \<Rightarrow> Some (Inl ErrPositionNotFound, e)
      | Some cp \<Rightarrow>
          if pUserID cp \<noteq> userID then Some (Inl ErrPositionNotFound, e)
          else
            let (ok, pc) = TrySetState positionID PosStateClosing (positionCache e);
                e1 = e\<lparr>positionCache := pc\<rparr>
            in if \<not> ok then Some (Inl ErrPositionClosing, e1)
               else
                 let pos = cachedToModel cp
                 in if closeQty \<noteq> 0 \<and> prQuantity pos < closeQty then
                      Some (Inl ErrInvalidCloseQuantity,
                            e1\<lparr>positionCache := UpdateCached positionID setActive (positionCache e1)\<rparr>)
                    else executeClose D positionID pos (if closeQty \<noteq> 0 then closeQty else prQuantity pos) e1)"

definition ClosePositionInternal ::
    "decimal_lib \<Rightarrow> int \<Rightarrow> dec \<Rightarrow> int \<Rightarrow> engine \<Rightarrow> ((engine_error + close_result) \<times> engine) option" where
  "ClosePositionInternal D positionID closePrice closeReason e =
     (if closeReason = CloseReasonLiquidation \<or> closeReason = CloseReasonADL
      then Some (Inl (ErrWrongCloseReason closeReason), e)
      else
        let targetState = (if closeReason = CloseReasonForceTp then PosStateForceTPing else PosStateClosing);
            (ok, pc) = TrySetState positionID targetState (positionCache e);
            e1 = e\<lparr>positionCache := pc\<rparr>
        in if \<not> ok then Some (Inl ErrPositionClosing, e1)
           else case GetPosition positionID (positionCache e1) of
               None \<Rightarrow> Some (Inl ErrPositionNotFound, e1)
             | Some cp \<Rightarrow>
                 let pos = cachedToModel cp in executeClose D positionID pos (prQuantity pos) e1)"

end
