(* ===== verification/Clearance_Props.thy ===== *)
theory Clearance_Props
  imports Clearance Book_Matching
begin

section \<open>What clearing promises\<close>

text \<open>
  When the calculations panic and what they conserve. \<open>clearance_ok\<close> is the configuration the
  service builds: a non-empty fee table and a maintenance rate in [0, 1).
\<close>

definition clearance_ok :: "clearance \<Rightarrow> bool" where
  "clearance_ok c \<longleftrightarrow> tiers (feeCalc c) \<noteq> [] \<and> 0 \<le> maintRate c \<and> maintRate c < 1"

lemma clFee_total: "clearance_ok c \<Longrightarrow> \<exists>f r. clFee c v m = Some (f, r)"
  using CalcFee_defined [of "feeCalc c" v 0 m] by (auto simp: clearance_ok_def clFee_def)

lemma clFee_linear: "clFee c v m = Some (f, r) \<Longrightarrow> f = v * r"
  by (auto simp: clFee_def CalcFee_def bind_eq_Some_conv Let_def)

context decimal
begin

lemma CalcOpen_total:
  assumes "clearance_ok c" and "l \<noteq> 0"
  shows "\<exists>r. CalcOpen D c p q l s m = Some r"
  using div_defined [of "of_int l" "p * q"] clFee_total [OF assms(1), of "p * q" m]
    CalcLiquidationPrice_total [of l "maintRate c" p s] CalcForceTpPrice_total [of l p s "forceTpROI c"] assms
  by (fastforce simp: CalcOpen_def Let_def clearance_ok_def)

lemma CalcIncrease_total:
  assumes "clearance_ok c" and "l \<noteq> 0" and "oq + q \<noteq> 0"
  shows "\<exists>r. CalcIncrease D c oe oq om l s q p = Some r"
proof -
  obtain ne am where "Div D (oe * oq + p * q) (oq + q) = Some ne" "Div D (p * q) (of_int l) = Some am"
    using div_defined [of "oq + q" "oe * oq + p * q"] div_defined [of "of_int l" "p * q"] assms by auto
  then show ?thesis
    using CalcLiquidationPrice_total [of l "maintRate c" ne s] CalcForceTpPrice_total [of l ne s "forceTpROI c"] assms
    by (auto simp: CalcIncrease_def Let_def clearance_ok_def)
qed

lemma CalcReduce_total:
  assumes "clearance_ok c" and "l \<noteq> 0" and "eq \<noteq> 0"
  shows "\<exists>r. CalcReduce D c e p eq em f l s q = Some r"
proof -
  obtain ra where "Div D (min q eq) eq = Some ra" using div_defined [OF assms(3)] by blast
  moreover obtain fe rt where "clFee c (min q eq * p) False = Some (fe, rt)"
    using clFee_total [OF assms(1)] by blast
  ultimately show ?thesis
    using CalcLiquidationPrice_total [of l "maintRate c" e s] CalcForceTpPrice_total [of l e s "forceTpROI c"] assms
    by (auto simp: CalcReduce_def Let_def clearance_ok_def)
qed

lemma CalcReduceE:
  assumes "CalcReduce D c e p eq em f l s q = Some r" and "0 < eq" and "0 \<le> q"
  obtains k fr where "rrCloseQty r = min q eq" and "0 \<le> k" and "k \<le> 1" and "\<bar>k - min q eq / eq\<bar> < ulp"
    and "rrCloseMargin r = em * k" and "rrCloseFunding r = f * k"
    and "rrRawPnl r = CalcUnrealizedPnL e p (min q eq) s"
    and "clFee c (min q eq * p) False = Some (rrFee r, fr)"
    and "rrRealizedPnl r = rrRawPnl r - rrFee r" and "rrNetPnl r = rrRealizedPnl r + rrCloseFunding r"
    and "rrIsFullClose r \<longleftrightarrow> eq \<le> q" and "rrIsFullClose r \<Longrightarrow> k = 1"
    and "rrRemainQty r = eq - min q eq" and "rrRemainMargin r = em - em * k" and "rrRemainFunding r = f - f * k"
proof -
  obtain k where k: "Div D (min q eq) eq = Some k"
    using assms(1) by (auto simp: CalcReduce_def Let_def bind_eq_Some_conv)
  have "0 \<le> k" "k \<le> 1"
    using div_nonneg [OF k] div_le_one [OF k] assms(2,3) by (simp_all add: field_simps)
  moreover have "\<bar>k - min q eq / eq\<bar> < ulp" using div_error [OF k] assms(2) by simp
  moreover have full: "k = 1" if "eq \<le> q"
    using div_exact_int [of eq "min q eq" 1] assms(2) k that by (simp add: min_absorb2)
  moreover obtain fe rt where fee: "clFee c (min q eq * p) False = Some (fe, rt)"
    using assms(1) by (auto simp: CalcReduce_def Let_def bind_eq_Some_conv)
  ultimately show ?thesis
  proof (cases "eq \<le> q")
    case True
    then have "min q eq = eq" by simp
    with assms(1) k fee True full \<open>0 \<le> k\<close> \<open>k \<le> 1\<close> \<open>\<bar>k - min q eq / eq\<bar> < ulp\<close> show ?thesis
      by (intro that [of k rt]) (simp_all add: CalcReduce_def Let_def, auto)
  next
    case False
    then have min: "min q eq = q" "q \<noteq> eq" by simp_all
    then obtain liq ftp where "CalcLiquidationPrice D e l s (maintRate c) = Some liq"
      "CalcForceTpPrice D e l s (forceTpROI c) = Some ftp"
      using assms(1) k fee by (auto simp: CalcReduce_def Let_def bind_eq_Some_conv)
    with assms(1) k fee False min \<open>0 \<le> k\<close> \<open>k \<le> 1\<close> \<open>\<bar>k - min q eq / eq\<bar> < ulp\<close> show ?thesis
      by (intro that [of k rt]) (simp_all add: CalcReduce_def Let_def, auto)
  qed
qed

lemma CalcIncreaseE:
  assumes "CalcIncrease D c oe oq om l s q p = Some r" and "0 < oq + q" and "l \<noteq> 0"
  obtains "irNewQty r = oq + q" and "irNewMargin r = om + irAddMargin r"
    and "Div D (p * q) (of_int l) = Some (irAddMargin r)"
    and "\<bar>irNewEntry r - (oe * oq + p * q) / (oq + q)\<bar> < ulp"
proof -
  have "\<bar>irNewEntry r - (oe * oq + p * q) / (oq + q)\<bar> < ulp"
    using assms div_error by (auto simp: CalcIncrease_def Let_def bind_eq_Some_conv)
  then show ?thesis
    using assms(1) by (intro that) (auto simp: CalcIncrease_def Let_def bind_eq_Some_conv)
qed

end

text \<open>
  Reducing a position conserves its equity: what is paid back (margin and net profit) plus
  the fee, plus the equity of what remains at the close price (margin, unrealized profit and
  accumulated funding), is the equity before. Quantity, margin and funding split without loss,
  and a full close releases all of them.
\<close>

theorem CalcReduce_conserves:
  assumes "div_law D" and "CalcReduce D c e p eq em f l s q = Some r" and "0 < eq" and "0 \<le> q"
  shows "rrCloseMargin r + rrNetPnl r + rrFee r +
      (rrRemainMargin r + CalcUnrealizedPnL e p (rrRemainQty r) s + rrRemainFunding r) =
      em + CalcUnrealizedPnL e p eq s + f \<and>
    rrCloseQty r + rrRemainQty r = eq \<and> rrCloseMargin r + rrRemainMargin r = em \<and>
    (rrIsFullClose r \<longleftrightarrow> eq \<le> q) \<and> (rrIsFullClose r \<longrightarrow> rrCloseMargin r = em \<and> rrCloseFunding r = f)"
proof -
  obtain k where k: "rrCloseQty r = min q eq" "rrCloseMargin r = em * k" "rrCloseFunding r = f * k"
      "rrRawPnl r = CalcUnrealizedPnL e p (min q eq) s" "rrRealizedPnl r = rrRawPnl r - rrFee r"
      "rrNetPnl r = rrRealizedPnl r + rrCloseFunding r" "rrIsFullClose r \<longleftrightarrow> eq \<le> q"
      "rrIsFullClose r \<Longrightarrow> k = 1" "rrRemainQty r = eq - min q eq" "rrRemainMargin r = em - em * k"
      "rrRemainFunding r = f - f * k"
    using decimal.CalcReduceE [OF decimal.intro [OF assms(1)] assms(2-4)] by metis
  have "CalcUnrealizedPnL e p (min q eq) s + CalcUnrealizedPnL e p (eq - min q eq) s = CalcUnrealizedPnL e p eq s"
    by (simp flip: CalcUnrealizedPnL_split)
  with k show ?thesis by auto
qed

theorem CalcReduce_conserves_witness:
  "\<exists>r. CalcReduce dec16 (NewClearance (NewCalculator []) 0 (1 / 100) 5) 100 110 3 30 (- 2) 10 1 1 = Some r \<and>
     rrCloseMargin r + rrRemainMargin r = 30 \<and> \<not> rrIsFullClose r"
proof -
  have "clearance_ok (NewClearance (NewCalculator []) 0 (1 / 100) 5)"
    by (simp add: clearance_ok_def NewClearance_def)
  then obtain r where
    r: "CalcReduce dec16 (NewClearance (NewCalculator []) 0 (1 / 100) 5) 100 110 3 30 (- 2) 10 1 1 = Some r"
    using dec16.CalcReduce_total [of _ 10 3] by fastforce
  with CalcReduce_conserves [OF dec16_law r] show ?thesis by simp
qed

text \<open>
  Increasing a position conserves its equity up to the rounding of the new entry price: the
  new margin plus the new unrealized profit at any price is the old equity plus the margin added
  plus the profit of the added quantity, to within one unit of the last digit per unit of quantity;
  and the new entry price lies between the old one and the price paid, to within one such unit.
\<close>

theorem CalcIncrease_conserves:
  assumes "div_law D" and "CalcIncrease D c oe oq om l s q p = Some r"
    and "0 < oq" and "0 < q" and "l \<noteq> 0" and "s = 1 \<or> s = - 1"
  shows "irNewQty r = oq + q \<and> irNewMargin r = om + irAddMargin r \<and>
    \<bar>CalcUnrealizedPnL (irNewEntry r) m (irNewQty r) s -
       (CalcUnrealizedPnL oe m oq s + CalcUnrealizedPnL p m q s)\<bar> \<le> ulp * (oq + q) \<and>
    min oe p - ulp < irNewEntry r \<and> irNewEntry r < max oe p + ulp"
proof -
  let ?avg = "(oe * oq + p * q) / (oq + q)"
  have pos: "0 < oq + q" using assms(3,4) by simp
  note E = decimal.CalcIncreaseE [OF decimal.intro [OF assms(1)] assms(2) pos assms(5)]
  have near: "\<bar>irNewEntry r - ?avg\<bar> < ulp" and r: "irNewQty r = oq + q" "irNewMargin r = om + irAddMargin r"
    using E by blast+
  have avg: "?avg * (oq + q) = oe * oq + p * q" using pos by simp
  have "CalcUnrealizedPnL (irNewEntry r) m (oq + q) s -
      (CalcUnrealizedPnL oe m oq s + CalcUnrealizedPnL p m q s) =
      of_int s * (?avg * (oq + q) - irNewEntry r * (oq + q))"
    unfolding avg by (simp add: calc_defs algebra_simps)
  also have "\<dots> = of_int s * ((?avg - irNewEntry r) * (oq + q))" by (simp add: left_diff_distrib)
  finally have "\<bar>CalcUnrealizedPnL (irNewEntry r) m (oq + q) s -
      (CalcUnrealizedPnL oe m oq s + CalcUnrealizedPnL p m q s)\<bar> = \<bar>irNewEntry r - ?avg\<bar> * (oq + q)"
    using assms(6) pos by (auto simp: abs_mult abs_minus_commute)
  also have "\<dots> \<le> ulp * (oq + q)" using near pos by (intro mult_right_mono) simp_all
  finally have pnl: "\<bar>CalcUnrealizedPnL (irNewEntry r) m (oq + q) s -
      (CalcUnrealizedPnL oe m oq s + CalcUnrealizedPnL p m q s)\<bar> \<le> ulp * (oq + q)" .
  have "min oe p * (oq + q) \<le> oe * oq + p * q"
    unfolding distrib_left using assms(3,4) by (intro add_mono mult_right_mono) simp_all
  moreover have "oe * oq + p * q \<le> max oe p * (oq + q)"
    unfolding distrib_left using assms(3,4) by (intro add_mono mult_right_mono) simp_all
  ultimately have "min oe p \<le> ?avg" "?avg \<le> max oe p" using pos by (simp_all add: field_simps)
  with near pnl r show ?thesis by (auto simp: abs_less_iff)
qed

theorem CalcIncrease_conserves_witness:
  "\<exists>r. CalcIncrease dec16 (NewClearance (NewCalculator []) 0 (1 / 100) 5) 100 1 10 10 1 2 130 = Some r \<and>
     irNewQty r = 3 \<and> 100 - ulp < irNewEntry r \<and> irNewEntry r < 130 + ulp"
proof -
  have "clearance_ok (NewClearance (NewCalculator []) 0 (1 / 100) 5)"
    by (simp add: clearance_ok_def NewClearance_def)
  then obtain r where
    r: "CalcIncrease dec16 (NewClearance (NewCalculator []) 0 (1 / 100) 5) 100 1 10 10 1 2 130 = Some r"
    using dec16.CalcIncrease_total [of _ 10 1 2] by fastforce
  with CalcIncrease_conserves [OF dec16_law r] show ?thesis by simp
qed

subsection \<open>The average price\<close>

lemma sumTrades_sum: "sumTrades ts v q = (v + sum_list (map (\<lambda>t. tPrice t * tQuantity t) ts), q + traded ts)"
  by (induction ts arbitrary: v q) (simp_all add: traded_def add.assoc)

lemma traded_pos: "ts \<noteq> [] \<Longrightarrow> \<forall>t \<in> set ts. 0 < tQuantity t \<Longrightarrow> 0 < traded ts"
  by (induction ts rule: induct_list012) (auto simp: traded_def)

lemma value_bounds:
  assumes "\<forall>t \<in> set ts. lo \<le> tPrice t \<and> tPrice t \<le> hi \<and> 0 < tQuantity t"
  shows "lo * traded ts \<le> sum_list (map (\<lambda>t. tPrice t * tQuantity t) ts) \<and>
    sum_list (map (\<lambda>t. tPrice t * tQuantity t) ts) \<le> hi * traded ts"
  using assms
proof (induction ts)
  case (Cons t ts)
  then have a: "lo * tQuantity t \<le> tPrice t * tQuantity t" and b: "tPrice t * tQuantity t \<le> hi * tQuantity t"
    by (simp_all add: mult_right_mono)
  have c: "lo * traded ts \<le> sum_list (map (\<lambda>t. tPrice t * tQuantity t) ts)"
    and d: "sum_list (map (\<lambda>t. tPrice t * tQuantity t) ts) \<le> hi * traded ts"
    using Cons by simp_all
  show ?case using add_mono [OF a c] add_mono [OF b d] by (simp add: distrib_left)
qed simp

text \<open>
  The average price of a non-empty batch of trades of positive sizes is defined, lies
  between the lowest and the highest price traded to within one unit of the last digit, and comes
  with the total quantity traded.
\<close>

theorem CalcVWAP_bounds:
  assumes "div_law D" and "ts \<noteq> []" and "\<forall>t \<in> set ts. lo \<le> tPrice t \<and> tPrice t \<le> hi \<and> 0 < tQuantity t"
  shows "\<exists>avg. CalcVWAP D ts = Some (avg, traded ts) \<and> lo - ulp < avg \<and> avg < hi + ulp"
proof -
  let ?v = "sum_list (map (\<lambda>t. tPrice t * tQuantity t) ts)"
  have pos: "0 < traded ts" using traded_pos assms(2,3) by blast
  then obtain a where a: "Div D ?v (traded ts) = Some a"
    using decimal.div_defined [OF decimal.intro [OF assms(1)]] by (metis less_irrefl)
  have "\<bar>a - ?v / traded ts\<bar> < ulp"
    using decimal.div_error [OF decimal.intro [OF assms(1)] a] pos by simp
  moreover have "lo \<le> ?v / traded ts" "?v / traded ts \<le> hi"
    using value_bounds [OF assms(3)] pos by (simp_all add: field_simps)
  ultimately have "lo - ulp < a" "a < hi + ulp" by (auto simp: abs_less_iff)
  then show ?thesis using a pos assms(2) by (simp add: CalcVWAP_def sumTrades_sum)
qed

theorem CalcVWAP_bounds_witness:
  "\<exists>avg. CalcVWAP dec16
     [\<lparr>tBuyOrderID = 5, tSellOrderID = 3, tBuyUserID = 1, tSellUserID = 8, tPrice = 105, tQuantity = 1\<rparr>,
      \<lparr>tBuyOrderID = 5, tSellOrderID = 4, tBuyUserID = 1, tSellUserID = 9, tPrice = 110, tQuantity = 2\<rparr>] =
     Some (avg, 3) \<and> 105 - ulp < avg \<and> avg < 110 + ulp"
  using CalcVWAP_bounds [OF dec16_law, of
      "[\<lparr>tBuyOrderID = 5, tSellOrderID = 3, tBuyUserID = 1, tSellUserID = 8, tPrice = 105, tQuantity = 1\<rparr>,
        \<lparr>tBuyOrderID = 5, tSellOrderID = 4, tBuyUserID = 1, tSellUserID = 9, tPrice = 110, tQuantity = 2\<rparr>]" 105 110]
  by (simp add: traded_def)

end
