(* ===== verification/Engine_Updates.thy ===== *)
theory Engine_Updates
  imports Engine Clearance_Props
begin

section \<open>Position updates: what each branch does\<close>

text \<open>
  Elimination rules for the three branches of \<open>UpdatePosition\<close>, each stating the change of the
  accounts, the positions and the queue in one place, and the measures the properties are about:
  a user's net position, and a user's equity at a price.
\<close>

subsection \<open>Measures\<close>

definition posQty :: "cached_position \<Rightarrow> dec" where "posQty p = NewFromString (pQuantity p)"
definition posEntry :: "cached_position \<Rightarrow> dec" where "posEntry p = NewFromString (pEntryPrice p)"
definition posMargin :: "cached_position \<Rightarrow> dec" where "posMargin p = NewFromString (pMargin p)"
definition posFunding :: "cached_position \<Rightarrow> dec" where "posFunding p = NewFromString (pFundingPnl p)"

lemmas pos_fields = posQty_def posEntry_def posMargin_def posFunding_def

definition of_user :: "int \<Rightarrow> (cached_position \<Rightarrow> dec) \<Rightarrow> cached_position \<Rightarrow> dec" where
  "of_user u f p = (if pUserID p = u then f p else 0)"

definition signed_qty :: "cached_position \<Rightarrow> dec" where
  "signed_qty p = of_int (pSide p) * posQty p"

definition pos_value :: "dec \<Rightarrow> cached_position \<Rightarrow> dec" where
  "pos_value price p = posMargin p + CalcUnrealizedPnL (posEntry p) price (posQty p) (pSide p) + posFunding p"

definition over_positions :: "(cached_position \<Rightarrow> dec) \<Rightarrow> engine \<Rightarrow> dec" where
  "over_positions f e = al_sum f (posLive (positionCache e))"

definition net_position :: "int \<Rightarrow> engine \<Rightarrow> dec" where
  "net_position u e = over_positions (of_user u signed_qty) e"

definition open_net :: "engine \<Rightarrow> dec" where
  "open_net e = over_positions signed_qty e"

definition equity :: "int \<Rightarrow> dec \<Rightarrow> engine \<Rightarrow> dec" where
  "equity u price e = GetBalance u (memAccounts e) + over_positions (of_user u (pos_value price)) e"

subsection \<open>Well-formed engines\<close>

definition pos_ok :: "cached_position \<Rightarrow> bool" where
  "pos_ok p \<longleftrightarrow> (pSide p = 1 \<or> pSide p = - 1) \<and> 1 \<le> pLeverage p \<and> 0 < posQty p"

definition positions_ok :: "position_cache \<Rightarrow> int \<Rightarrow> bool" where
  "positions_ok pc n \<longleftrightarrow>
     cache_ok pc \<and> (\<forall>i p. map_of (posLive pc) i = Some p \<longrightarrow> pos_ok p \<and> i \<le> n) \<and>
     (\<forall>i p. map_of (posGone pc) i = Some p \<longrightarrow> pos_ok p \<and> i \<le> n)"

definition owners_ok :: "position_cache \<Rightarrow> accounts \<Rightarrow> bool" where
  "owners_ok pc accs \<longleftrightarrow>
     (\<forall>i p. map_of (posLive pc) i = Some p \<longrightarrow> holds_account (pUserID p) accs) \<and>
     (\<forall>i p. map_of (posGone pc) i = Some p \<longrightarrow> holds_account (pUserID p) accs)"

definition engine_ok :: "engine \<Rightarrow> bool" where
  "engine_ok e \<longleftrightarrow>
     clearance_ok (eclearance e) \<and> positions_ok (positionCache e) (nextPosID e) \<and> - (2 ^ 63) \<le> nextPosID e \<and>
     owners_ok (positionCache e) (memAccounts e)"

text \<open>Room for two more position IDs is room for one update of one user.\<close>

definition ids_left :: "nat \<Rightarrow> engine \<Rightarrow> bool" where
  "ids_left n e \<longleftrightarrow> nextPosID e + int n < 2 ^ 63"

lemma next_id: "engine_ok e \<Longrightarrow> ids_left 1 e \<Longrightarrow> add64 (nextPosID e) 1 = nextPosID e + 1"
  by (rule add64_exact) (auto simp: engine_ok_def ids_left_def)

text \<open>Nothing but accounts, positions, the ID counter and the queue is touched by an update.\<close>

definition update_frame :: "engine \<Rightarrow> engine \<Rightarrow> bool" where
  "update_frame e e' \<longleftrightarrow>
     eclearance e' = eclearance e \<and> ebook e' = ebook e \<and> orderCache e' = orderCache e \<and>
     priceCache e' = priceCache e \<and> onMakerFill e' = onMakerFill e \<and> maxLeverage e' = maxLeverage e \<and>
     minMargin e' = minMargin e \<and> maxPositions e' = maxPositions e \<and>
     maxPriceDeviation e' = maxPriceDeviation e"

lemma update_frame_refl [simp]: "update_frame e e"
  by (simp add: update_frame_def)

lemma update_frame_trans: "update_frame e e' \<Longrightarrow> update_frame e' e'' \<Longrightarrow> update_frame e e''"
  by (simp add: update_frame_def)

text \<open>The events an update submits, and what they are meant to do to the balances.\<close>

definition submits :: "engine \<Rightarrow> engine \<Rightarrow> settle_event list \<Rightarrow> bool" where
  "submits e e' evts \<longleftrightarrow> events (esettler e') = events (esettler e) @ evts"

definition event_sum :: "int \<Rightarrow> settle_event list \<Rightarrow> dec" where
  "event_sum v evts = sum_list (map (balance_delta v) evts)"

lemma event_sum_simps [simp]:
  "event_sum v [] = 0" "event_sum v (evt # evts) = balance_delta v evt + event_sum v evts"
  "event_sum v (evts @ evts') = event_sum v evts + event_sum v evts'"
  by (simp_all add: event_sum_def)

lemma submits_trans: "submits e e1 xs \<Longrightarrow> submits e1 e2 ys \<Longrightarrow> submits e e2 (xs @ ys)"
  by (simp add: submits_def)

lemma submit_simps [simp]:
  "memAccounts (submit evt e) = memAccounts e" "positionCache (submit evt e) = positionCache e"
  "nextPosID (submit evt e) = nextPosID e" "update_frame e (submit evt e') = update_frame e e'"
  "submits e (submit evt e) [evt]" "eclearance (submit evt e) = eclearance e"
  by (simp_all add: submit_def update_frame_def submits_def Submit_def)

lemma submits_cong: "esettler e1 = esettler e \<Longrightarrow> submits e1 e' evts = submits e e' evts"
  by (simp add: submits_def)

subsection \<open>The branches\<close>

definition open_leverage :: "int \<Rightarrow> int" where
  "open_leverage l = (if l \<le> 0 then 1 else l)"

definition opened :: "int \<Rightarrow> int \<Rightarrow> int \<Rightarrow> int \<Rightarrow> dec \<Rightarrow> dec \<Rightarrow> open_result \<Rightarrow> cached_position" where
  "opened i u s l q p cr =
     NewCachedPosition i u s MarginModeIsolated l (Shown p) (Shown q) (Shown (orMargin cr))
       (Shown (orLiqPrice cr)) (Shown (orForceTpPrice cr)) Blank Blank Blank"

lemma handleOpen_cases:
  assumes "handleOpen D u s q p l m oid e = Some (r, e')"
  obtains (failed) cr where "CalcOpen D (eclearance e) p q (open_leverage l) s m = Some cr"
      and "\<not> fst (Deduct u (orTotalCost cr) (memAccounts e))" and "r = empty_result ActFailed" and "e' = e"
  | (opened) cr accs evts where "CalcOpen D (eclearance e) p q (open_leverage l) s m = Some cr"
      and "Deduct u (orTotalCost cr) (memAccounts e) = (True, accs)" and "rAction r = ActOpen"
      and "update_frame e e'" and "memAccounts e' = accs" and "nextPosID e' = add64 (nextPosID e) 1"
      and "positionCache e' =
        AddPosition (opened (add64 (nextPosID e) 1) u s (open_leverage l) q p cr) (positionCache e)"
      and "submits e e' evts" and "\<And>v. 0 < v \<Longrightarrow> event_sum v evts = (if v = u then - orTotalCost cr else 0)"
proof -
  obtain cr where cr: "CalcOpen D (eclearance e) p q (open_leverage l) s m = Some cr"
    using assms by (auto simp: handleOpen_def Let_def open_leverage_def bind_eq_Some_conv)
  obtain ok accs where dd: "Deduct u (orTotalCost cr) (memAccounts e) = (ok, accs)" by force
  show thesis
  proof (cases ok)
    case False
    then have "accs = memAccounts e"
      using dd by (auto simp: Deduct_def Let_def split: option.splits if_splits)
    with False show thesis
      using assms cr dd by (intro failed [of cr]) (auto simp: handleOpen_def Let_def open_leverage_def)
  next
    case True
    let ?evt = "(empty_event EventTrade)\<lparr>evPosition := Some \<lparr>prID = add64 (nextPosID e) 1, prUserID = u,
        prSide = s, prMarginMode = MarginModeIsolated, prLeverage = open_leverage l, prEntryPrice = p,
        prQuantity = q, prMargin = orMargin cr, prLiqPrice = orLiqPrice cr,
        prForceTpPrice = orForceTpPrice cr, prTakeProfit = None, prStopLoss = None, prFundingPnl = 0,
        prStatus = PositionStatusActive\<rparr>,
        evTrade := Some \<lparr>trUserID = u, trOrderID = oid, trPositionID = None, trSide = s, trPrice = p,
          trQuantity = q, trFee = orFee cr, trRealizedPnl = 0, trIsClose = False, trCloseReason = 0\<rparr>,
        evUserID := u, evBalanceDelta := - orTotalCost cr\<rparr>"
    show thesis
      using assms cr dd True
      by (intro opened [of cr accs "if 0 < u then [?evt] else []"])
        (auto simp: handleOpen_def Let_def open_leverage_def opened_def update_frame_def submits_def
          submit_def Submit_def empty_result_def empty_event_def balance_delta_def split: if_splits)
  qed
qed

definition increased :: "increase_result \<Rightarrow> cached_position \<Rightarrow> cached_position" where
  "increased cr cp =
     cp\<lparr>pEntryPrice := Shown (irNewEntry cr), pQuantity := Shown (irNewQty cr),
        pMargin := Shown (irNewMargin cr), pLiqPrice := Shown (irLiqPrice cr),
        pForceTpPrice := Shown (irForceTpPrice cr)\<rparr>"

lemma handleIncrease_cases:
  assumes "handleIncrease D u x q p oid e = Some (r, e')"
  obtains (failed) cr where
      "CalcIncrease D (eclearance e) (posEntry x) (posQty x) (posMargin x) (pLeverage x) (pSide x) q p = Some cr"
      and "\<not> fst (Deduct u (irAddMargin cr) (memAccounts e))" and "r = empty_result ActFailed" and "e' = e"
  | (increased) cr accs evts where
      "CalcIncrease D (eclearance e) (posEntry x) (posQty x) (posMargin x) (pLeverage x) (pSide x) q p = Some cr"
      and "Deduct u (irAddMargin cr) (memAccounts e) = (True, accs)" and "rAction r = ActIncrease"
      and "update_frame e e'" and "memAccounts e' = accs" and "nextPosID e' = nextPosID e"
      and "positionCache e' = UpdateCached (pID x) (increased cr) (positionCache e)"
      and "submits e e' evts" and "\<And>v. 0 < v \<Longrightarrow> event_sum v evts = (if v = u then - irAddMargin cr else 0)"
proof -
  obtain cr where cr:
    "CalcIncrease D (eclearance e) (posEntry x) (posQty x) (posMargin x) (pLeverage x) (pSide x) q p = Some cr"
    using assms by (auto simp: handleIncrease_def Let_def pos_fields bind_eq_Some_conv)
  obtain ok accs where dd: "Deduct u (irAddMargin cr) (memAccounts e) = (ok, accs)" by force
  show thesis
  proof (cases ok)
    case False
    then have "accs = memAccounts e"
      using dd by (auto simp: Deduct_def Let_def split: option.splits if_splits)
    with False show thesis
      using assms cr dd by (intro failed [of cr]) (auto simp: handleIncrease_def Let_def pos_fields)
  next
    case True
    let ?evt = "(empty_event EventTrade)\<lparr>evTrade := Some \<lparr>trUserID = u, trOrderID = oid,
        trPositionID = Some (pID x), trSide = pSide x, trPrice = p, trQuantity = q, trFee = 0,
        trRealizedPnl = 0, trIsClose = False, trCloseReason = 0\<rparr>,
        evUserID := u, evBalanceDelta := - irAddMargin cr\<rparr>"
    have fn: "(\<lambda>cp. cp\<lparr>pEntryPrice := Shown (irNewEntry cr), pQuantity := Shown (irNewQty cr),
        pMargin := Shown (irNewMargin cr), pLiqPrice := Shown (irLiqPrice cr),
        pForceTpPrice := Shown (irForceTpPrice cr)\<rparr>) = increased cr"
      by (simp add: increased_def fun_eq_iff)
    show thesis
      using assms cr dd True
      by (intro increased [of cr accs "if 0 < u then [?evt] else []"])
        (auto simp: handleIncrease_def Let_def pos_fields fn update_frame_def submits_def
          submit_def Submit_def empty_result_def empty_event_def balance_delta_def split: if_splits)
  qed
qed

definition reduced :: "reduce_result \<Rightarrow> cached_position \<Rightarrow> cached_position" where
  "reduced cr cp =
     cp\<lparr>pQuantity := Shown (rrRemainQty cr), pMargin := Shown (rrRemainMargin cr),
        pFundingPnl := Shown (rrRemainFunding cr), pLiqPrice := Shown (rrRemainLiqPrice cr),
        pForceTpPrice := Shown (rrRemainFtpPrice cr), pState := PosStateActive\<rparr>"

lemma handleReduce_cases:
  assumes "handleReduce D u x s q p l reason oid e = Some (r, e')" and "reason \<noteq> CloseReasonLiquidation"
  obtains cr e1 evts where
      "CalcReduce D (eclearance e) (posEntry x) p (posQty x) (posMargin x) (posFunding x) (pLeverage x) (pSide x) q =
         Some cr"
      and "rAction r = (if rrIsFullClose cr then ActClose else ActReduce)" and "rClosedQty r = rrCloseQty cr"
      and "update_frame e e1"
      and "memAccounts e1 = ReturnMarginWithPnl u (rrCloseMargin cr) (rrNetPnl cr) (memAccounts e)"
      and "nextPosID e1 = nextPosID e"
      and "positionCache e1 =
         (if rrIsFullClose cr then RemovePosition (pID x) (positionCache e)
          else UpdateCached (pID x) (reduced cr) (positionCache e))"
      and "submits e e1 evts"
      and "\<And>v. 0 < v \<Longrightarrow> event_sum v evts = (if v = u then rrCloseMargin cr + rrNetPnl cr else 0)"
      and "if posQty x < q then \<exists>r1. handleOpen D u s (q - posQty x) p l False oid e1 = Some (r1, e') else e' = e1"
proof -
  obtain cr where cr:
    "CalcReduce D (eclearance e) (posEntry x) p (posQty x) (posMargin x) (posFunding x) (pLeverage x) (pSide x) q =
       Some cr"
    using assms by (auto simp: handleReduce_def Let_def pos_fields bind_eq_Some_conv)
  let ?evt = "reduceEvent u x s p reason oid cr"
  have fn: "(\<lambda>cp. cp\<lparr>pQuantity := Shown (rrRemainQty cr), pMargin := Shown (rrRemainMargin cr),
        pFundingPnl := Shown (rrRemainFunding cr), pLiqPrice := Shown (rrRemainLiqPrice cr),
        pForceTpPrice := Shown (rrRemainFtpPrice cr), pState := PosStateActive\<rparr>) = reduced cr"
    by (simp add: reduced_def fun_eq_iff)
  define e2 where "e2 = e\<lparr>memAccounts := ReturnMarginWithPnl u (rrCloseMargin cr) (rrNetPnl cr) (memAccounts e),
      positionCache := (if rrIsFullClose cr then RemovePosition (pID x) (positionCache e)
          else UpdateCached (pID x) (reduced cr) (positionCache e))\<rparr>"
  define e1 where "e1 = (if 0 < u then submit ?evt e2 else e2)"
  have bal: "balance_delta v ?evt = (if v = u then rrCloseMargin cr + rrNetPnl cr else 0)" for v
    using assms(2) by (simp add: reduceEvent_def empty_event_def balance_delta_def Let_def)
  have run: "handleReduce D u x s q p l reason oid e = do {
      e4 \<leftarrow> (if 0 < q - posQty x then map_option snd (handleOpen D u s (q - posQty x) p l False oid e1) else Some e1);
      Some ((empty_result (if rrIsFullClose cr then ActClose else ActReduce))\<lparr>
               rPositionID := pID x, rSide := pSide x, rEntryPrice := posEntry x,
               rFee := rrFee cr, rRawPnl := rrRawPnl cr, rRealizedPnl := rrRealizedPnl cr,
               rFundingPnl := rrCloseFunding cr, rNetPnl := rrNetPnl cr, rClosedQty := rrCloseQty cr,
               rRemainingQty := rrRemainQty cr, rIsPartial := \<not> rrIsFullClose cr\<rparr>, e4)
    }"
    using cr assms(2) by (simp add: handleReduce_def Let_def pos_fields fn e1_def e2_def cong: if_cong)
  show thesis
  proof (rule that [of cr e1 "if 0 < u then [?evt] else []"])
    show "if posQty x < q then \<exists>r1. handleOpen D u s (q - posQty x) p l False oid e1 = Some (r1, e') else e' = e1"
      using assms(1) unfolding run by (auto simp: bind_eq_Some_conv split: if_splits)
    show "rAction r = (if rrIsFullClose cr then ActClose else ActReduce)" "rClosedQty r = rrCloseQty cr"
      using assms(1) unfolding run by (auto simp: bind_eq_Some_conv empty_result_def)
    show "submits e e1 (if 0 < u then [?evt] else [])"
      by (simp add: e1_def e2_def submits_def submit_def Submit_def)
    show "event_sum v (if 0 < u then [?evt] else []) = (if v = u then rrCloseMargin cr + rrNetPnl cr else 0)"
      if "0 < v" for v
      using that by (simp add: bal)
  qed (simp_all add: cr e1_def e2_def update_frame_def submit_def)
qed

end
