(* ===== verification/Engine_Effects.thy ===== *)
theory Engine_Effects
  imports Engine_Updates
begin

section \<open>Position updates: their effect\<close>

text \<open>
  One predicate states everything an update may change: the user's net position moves by \<open>n\<close>,
  the user's equity at the trade price drops by \<open>fee\<close> up to \<open>slack\<close>, at most \<open>k\<close> position IDs are
  used, other users keep their positions and equity, balances and submitted events agree, and
  the engine stays well formed. The effects of consecutive steps add up, so the effect of
  \<open>UpdatePosition\<close> and of \<open>ProcessTrades\<close> follows from the three branches.
\<close>

definition settles :: "engine \<Rightarrow> engine \<Rightarrow> bool" where
  "settles e e' \<longleftrightarrow>
     (\<forall>v. holds_account v (memAccounts e') = holds_account v (memAccounts e)) \<and>
     (\<forall>v. frozen_of v (memAccounts e') = frozen_of v (memAccounts e)) \<and>
     pointers_kept (positionCache e) (positionCache e') \<and>
     (\<exists>evts. submits e e' evts \<and>
        (\<forall>v > 0. GetBalance v (memAccounts e') = GetBalance v (memAccounts e) + event_sum v evts))"

lemma settles_refl [simp]: "settles e e"
  by (auto simp: settles_def submits_def intro!: exI [of _ "[]"])

lemma settles_trans:
  assumes "settles e e1" and "settles e1 e2"
  shows "settles e e2"
proof -
  obtain xs ys where x: "submits e e1 xs"
      "\<forall>v > 0. GetBalance v (memAccounts e1) = GetBalance v (memAccounts e) + event_sum v xs"
    and y: "submits e1 e2 ys"
      "\<forall>v > 0. GetBalance v (memAccounts e2) = GetBalance v (memAccounts e1) + event_sum v ys"
    using assms unfolding settles_def by blast
  have "submits e e2 (xs @ ys)" using submits_trans [OF x(1) y(1)] .
  moreover have "\<forall>v > 0. GetBalance v (memAccounts e2) = GetBalance v (memAccounts e) + event_sum v (xs @ ys)"
    using x(2) y(2) by simp
  ultimately show ?thesis using assms pointers_trans unfolding settles_def by auto
qed

definition moves :: "int \<Rightarrow> dec \<Rightarrow> dec \<Rightarrow> dec \<Rightarrow> dec \<Rightarrow> nat \<Rightarrow> engine \<Rightarrow> engine \<Rightarrow> bool" where
  "moves u p n fee slack k e e' \<longleftrightarrow>
     engine_ok e' \<and> update_frame e e' \<and> nextPosID e \<le> nextPosID e' \<and> nextPosID e' \<le> nextPosID e + int k \<and>
     settles e e' \<and>
     (\<forall>v. net_position v e' = net_position v e + (if v = u then n else 0)) \<and>
     open_net e' = open_net e + n \<and>
     (\<forall>v price. v \<noteq> u \<longrightarrow> equity v price e' = equity v price e) \<and>
     \<bar>equity u p e' - (equity u p e - fee)\<bar> \<le> slack"

lemma moves_refl: "engine_ok e \<Longrightarrow> moves u p 0 0 0 0 e e"
  by (simp add: moves_def)

lemma moves_trans:
  assumes "moves u p n fee slack k e e1" and "moves u p n' fee' slack' k' e1 e2"
  shows "moves u p (n + n') (fee + fee') (slack + slack') (k + k') e e2"
proof -
  have "update_frame e e2" "settles e e2"
    using assms update_frame_trans settles_trans unfolding moves_def by blast+
  moreover have "\<bar>equity u p e2 - (equity u p e - (fee + fee'))\<bar> \<le> slack + slack'"
    using assms unfolding moves_def by linarith
  ultimately show ?thesis
    using assms unfolding moves_def by (intro conjI) auto
qed

subsection \<open>Sums over the positions\<close>

lemma over_Add:
  assumes "map_of (posLive (positionCache e)) (pID x) = None" and "positionCache e' = AddPosition x (positionCache e)"
  shows "over_positions f e' = over_positions f e + f x"
  using assms by (simp add: over_positions_def al_sum_fresh)

lemma over_Update:
  assumes "map_of (posLive (positionCache e)) i = Some x" and "positionCache e' = UpdateCached i fn (positionCache e)"
  shows "over_positions f e' = over_positions f e - f x + f (fn x)"
  using assms by (simp add: over_positions_def UpdateCached_def al_sum_update)

lemma over_Remove:
  assumes "map_of (posLive (positionCache e)) i = Some x" and "positionCache e' = RemovePosition i (positionCache e)"
    and "cache_ok (positionCache e)"
  shows "over_positions f e' = over_positions f e - f x"
  using assms by (simp add: over_positions_def al_sum_delete cache_ok_def)

lemma engine_ok_fresh:
  assumes "engine_ok e" and "nextPosID e < i"
  shows "map_of (posLive (positionCache e)) i = None"
proof (rule ccontr)
  assume "map_of (posLive (positionCache e)) i \<noteq> None"
  then obtain p where "map_of (posLive (positionCache e)) i = Some p" by blast
  with assms show False unfolding engine_ok_def positions_ok_def by fastforce
qed

lemma engine_ok_unused:
  assumes "engine_ok e" and "nextPosID e < i"
  shows "deref i (positionCache e) = None"
proof (rule ccontr)
  assume "deref i (positionCache e) \<noteq> None"
  then obtain p where "map_of (posLive (positionCache e)) i = Some p \<or> map_of (posGone (positionCache e)) i = Some p"
    by (auto simp: deref_def split: option.splits)
  with assms show False unfolding engine_ok_def positions_ok_def by fastforce
qed

lemma same_identity_updates [simp]: "same_identity x (increased cr x)" "same_identity x (reduced cr' x)"
  by (simp_all add: same_identity_def increased_def reduced_def)

lemma engine_ok_live: "engine_ok e \<Longrightarrow> map_of (posLive (positionCache e)) i = Some p \<Longrightarrow> pos_ok p"
  by (simp add: engine_ok_def positions_ok_def)

lemma engine_ok_cache: "engine_ok e \<Longrightarrow> cache_ok (positionCache e)"
  by (simp add: engine_ok_def positions_ok_def)

subsection \<open>Opening\<close>

lemma opened_fields [simp]:
  "pID (opened i u s l q p cr) = i" "pUserID (opened i u s l q p cr) = u" "pSide (opened i u s l q p cr) = s"
  "pLeverage (opened i u s l q p cr) = l" "posQty (opened i u s l q p cr) = q"
  "posEntry (opened i u s l q p cr) = p" "posMargin (opened i u s l q p cr) = orMargin cr"
  "posFunding (opened i u s l q p cr) = 0"
  by (simp_all add: opened_def NewCachedPosition_def pos_fields)

lemma CalcOpen_cost: "CalcOpen D c p q l s m = Some cr \<Longrightarrow> orTotalCost cr = orMargin cr + orFee cr"
  by (auto simp: CalcOpen_def Let_def bind_eq_Some_conv)

lemma positions_ok_Add:
  assumes "positions_ok pc n" and "pID x = n + 1" and "pos_ok x"
  shows "positions_ok (AddPosition x pc) (n + 1)"
proof -
  have fresh: "map_of (posLive pc) (n + 1) = None"
  proof (rule ccontr)
    assume "map_of (posLive pc) (n + 1) \<noteq> None"
    then obtain p where "map_of (posLive pc) (n + 1) = Some p" by blast
    with assms(1) show False unfolding positions_ok_def by fastforce
  qed
  have "pos_ok p \<and> i \<le> n + 1" if "map_of (posLive pc) i = Some p \<or> map_of (posGone pc) i = Some p" for i p
    using assms(1) that unfolding positions_ok_def by fastforce
  then have "\<forall>i p. map_of (posLive (AddPosition x pc)) i = Some p \<longrightarrow> pos_ok p \<and> i \<le> n + 1"
    and "\<forall>i p. map_of (posGone (AddPosition x pc)) i = Some p \<longrightarrow> pos_ok p \<and> i \<le> n + 1"
    using assms(2,3) by auto
  moreover have "cache_ok (AddPosition x pc)"
    using assms(1,2) fresh cache_ok_Add [of pc x] by (simp add: positions_ok_def)
  ultimately show ?thesis unfolding positions_ok_def by blast
qed

lemma handleOpen_moves:
  assumes "handleOpen D u s q p l m oid e = Some (r, e')"
    and ok: "engine_ok e" and ids: "ids_left 1 e" and "0 < q" and "s = 1 \<or> s = - 1"
  shows "(\<exists>cr. CalcOpen D (eclearance e) p q (open_leverage l) s m = Some cr \<and>
      ((rAction r = ActFailed \<and> e' = e \<and> \<not> fst (Deduct u (orTotalCost cr) (memAccounts e))) \<or>
       (rAction r = ActOpen \<and> moves u p (of_int s * q) (orFee cr) 0 1 e e')))"
  using assms(1)
proof (cases rule: handleOpen_cases)
  case (failed cr)
  then show ?thesis by (simp add: empty_result_def)
next
  case (opened cr accs evts)
  let ?x = "opened (nextPosID e + 1) u s (open_leverage l) q p cr"
  note id = next_id [OF ok ids]
  have fresh: "map_of (posLive (positionCache e)) (pID ?x) = None" by (simp add: engine_ok_fresh [OF ok])
  have pc: "positionCache e' = AddPosition ?x (positionCache e)" using opened id by simp
  have ptr: "pointers_kept (positionCache e) (positionCache e')"
    unfolding pc by (rule pointers_Add) (simp add: engine_ok_unused [OF ok])
  note bal = ledger.deductE [OF opened(2)] ledger.deduct_frame [OF opened(2)]
  have cost: "orTotalCost cr = orMargin cr + orFee cr" using CalcOpen_cost [OF opened(1)] .
  have "pos_ok ?x" using assms(4,5) by (simp add: pos_ok_def open_leverage_def)
  moreover have "owners_ok (positionCache e') (memAccounts e')"
    using ok ledger.deduct_holder [OF opened(2)] bal(1) opened(5)
    by (auto simp: engine_ok_def owners_ok_def pc split: if_splits)
  ultimately have "engine_ok e'"
    using ok opened(4,6) id pc positions_ok_Add [of "positionCache e" "nextPosID e" ?x]
    by (simp add: engine_ok_def update_frame_def)
  moreover have "net_position v e' = net_position v e + (if v = u then of_int s * q else 0)" for v
    unfolding net_position_def over_Add [OF fresh pc] by (simp add: of_user_def signed_qty_def)
  moreover have "open_net e' = open_net e + of_int s * q"
    unfolding open_net_def over_Add [OF fresh pc] by (simp add: signed_qty_def)
  moreover have "over_positions (of_user v (pos_value price)) e' = over_positions (of_user v (pos_value price)) e +
      (if v = u then orMargin cr + CalcUnrealizedPnL p price q s else 0)" for v price
    unfolding over_Add [OF fresh pc] by (simp add: of_user_def pos_value_def)
  moreover have "GetBalance v (memAccounts e') = GetBalance v (memAccounts e) - (if v = u then orTotalCost cr else 0)" for v
    using bal(3,5) opened(5) by (cases "v = u") auto
  moreover have "holds_account v (memAccounts e') = holds_account v (memAccounts e)" for v
    using ledger.deduct_holder [OF opened(2)] opened(5) by simp
  moreover have "frozen_of v (memAccounts e') = frozen_of v (memAccounts e)" for v
    using bal(4,5) opened(5) by (cases "v = u") auto
  ultimately have "moves u p (of_int s * q) (orFee cr) 0 1 e e'"
    using opened(4,6,8,9) id cost ptr by (auto simp: moves_def settles_def equity_def intro!: exI [of _ evts] pointers_Update)
  then show ?thesis using opened(1,3) by blast
qed

subsection \<open>Increasing\<close>

lemma increased_fields [simp]:
  "pID (increased cr x) = pID x" "pUserID (increased cr x) = pUserID x" "pSide (increased cr x) = pSide x"
  "pLeverage (increased cr x) = pLeverage x" "posQty (increased cr x) = irNewQty cr"
  "posEntry (increased cr x) = irNewEntry cr" "posMargin (increased cr x) = irNewMargin cr"
  "posFunding (increased cr x) = posFunding x"
  by (simp_all add: increased_def pos_fields)

lemma positions_ok_Update:
  assumes "positions_ok pc n" and "map_of (posLive pc) i = Some x" and "pID (fn x) = pID x"
    and "pUserID (fn x) = pUserID x" and "pos_ok (fn x)"
  shows "positions_ok (UpdateCached i fn pc) n"
proof -
  have "pID x = i" using assms(1,2) by (simp add: positions_ok_def cache_ok_def)
  then have "cache_ok (UpdateCached i fn pc)"
    using cache_ok_live_update [of pc i x "fn x"] assms by (simp add: UpdateCached_def positions_ok_def)
  then show ?thesis using assms by (auto simp: positions_ok_def UpdateCached_def)
qed

lemma handleIncrease_moves:
  assumes "handleIncrease D u x q p oid e = Some (r, e')"
    and law: "div_law D" and ok: "engine_ok e" and "0 < q"
    and x: "map_of (posLive (positionCache e)) (pID x) = Some x" "pUserID x = u" "pSide x = s"
  shows "\<exists>cr. CalcIncrease D (eclearance e) (posEntry x) (posQty x) (posMargin x) (pLeverage x) (pSide x) q p = Some cr \<and>
      ((rAction r = ActFailed \<and> e' = e \<and> \<not> fst (Deduct u (irAddMargin cr) (memAccounts e))) \<or>
       (rAction r = ActIncrease \<and> moves u p (of_int s * q) 0 (ulp * (posQty x + q)) 0 e e'))"
  using assms(1)
proof (cases rule: handleIncrease_cases)
  case (failed cr)
  then show ?thesis by (simp add: empty_result_def)
next
  case (increased cr accs evts)
  have xok: "pos_ok x" using engine_ok_live [OF ok x(1)] .
  then have lev: "pLeverage x \<noteq> 0" and side: "pSide x = 1 \<or> pSide x = - 1" and qty: "0 < posQty x"
    by (auto simp: pos_ok_def)
  note cons = CalcIncrease_conserves [OF law increased(1) qty assms(4) lev side, of p]
  note bal = ledger.deductE [OF increased(2)] ledger.deduct_frame [OF increased(2)]
  have "pos_ok (increased cr x)" using xok cons assms(4) by (simp add: pos_ok_def)
  moreover have "owners_ok (positionCache e') (memAccounts e')"
    using ok x ledger.deduct_holder [OF increased(2)] increased(5)
    by (auto simp: engine_ok_def owners_ok_def increased(7) UpdateCached_def split: if_splits)
  ultimately have "engine_ok e'"
    using ok increased(4,6,7) positions_ok_Update [OF _ x(1), of "nextPosID e" "increased cr"]
    by (simp add: engine_ok_def update_frame_def)
  moreover have "net_position v e' = net_position v e + (if v = u then of_int s * q else 0)" for v
    unfolding net_position_def over_Update [OF x(1) increased(7)]
    using cons x(2,3) by (simp add: of_user_def signed_qty_def distrib_left)
  moreover have "open_net e' = open_net e + of_int s * q"
    unfolding open_net_def over_Update [OF x(1) increased(7)]
    using cons x(3) by (simp add: signed_qty_def distrib_left)
  moreover have diff: "over_positions (of_user v (pos_value price)) e' = over_positions (of_user v (pos_value price)) e +
      (if v = u then irAddMargin cr + (CalcUnrealizedPnL (irNewEntry cr) price (irNewQty cr) s -
         CalcUnrealizedPnL (posEntry x) price (posQty x) s) else 0)" for v price
    unfolding over_Update [OF x(1) increased(7)] using cons x(2,3) by (simp add: of_user_def pos_value_def)
  moreover have "GetBalance v (memAccounts e') = GetBalance v (memAccounts e) - (if v = u then irAddMargin cr else 0)" for v
    using bal(3,5) increased(5) by (cases "v = u") auto
  moreover have "holds_account v (memAccounts e') = holds_account v (memAccounts e)" for v
    using ledger.deduct_holder [OF increased(2)] increased(5) by simp
  moreover have "frozen_of v (memAccounts e') = frozen_of v (memAccounts e)" for v
    using bal(4,5) increased(5) by (cases "v = u") auto
  moreover have "\<bar>CalcUnrealizedPnL (irNewEntry cr) p (irNewQty cr) s - CalcUnrealizedPnL (posEntry x) p (posQty x) s\<bar>
      \<le> ulp * (posQty x + q)"
    using conjunct1 [OF conjunct2 [OF conjunct2 [OF cons]]] x(3) by simp
  ultimately have "moves u p (of_int s * q) 0 (ulp * (posQty x + q)) 0 e e'"
    using increased(4,6,7,8,9) by (auto simp: moves_def settles_def equity_def intro!: exI [of _ evts] pointers_Update)
  then show ?thesis using increased(1,3) by blast
qed

subsection \<open>Reducing and closing\<close>

lemma reduced_fields [simp]:
  "pID (reduced cr x) = pID x" "pUserID (reduced cr x) = pUserID x" "pSide (reduced cr x) = pSide x"
  "pLeverage (reduced cr x) = pLeverage x" "posQty (reduced cr x) = rrRemainQty cr"
  "posEntry (reduced cr x) = posEntry x" "posMargin (reduced cr x) = rrRemainMargin cr"
  "posFunding (reduced cr x) = rrRemainFunding cr"
  by (simp_all add: reduced_def pos_fields)

lemma positions_ok_Remove:
  assumes "positions_ok pc n"
  shows "positions_ok (RemovePosition i pc) n"
  using assms cache_ok_Remove [of pc i] by (auto simp: positions_ok_def split: if_splits)

text \<open>The reduction itself, before a remainder is opened.\<close>

lemma reduction_moves:
  assumes law: "div_law D" and ok: "engine_ok e" and "0 \<le> q" and acc: "holds_account u (memAccounts e)"
    and x: "map_of (posLive (positionCache e)) (pID x) = Some x" "pUserID x = u" "pSide x = - s"
    and cr: "CalcReduce D (eclearance e) (posEntry x) p (posQty x) (posMargin x) (posFunding x) (pLeverage x) (pSide x) q =
         Some cr"
    and frame: "update_frame e e1" "nextPosID e1 = nextPosID e"
    and accs: "memAccounts e1 = ReturnMarginWithPnl u (rrCloseMargin cr) (rrNetPnl cr) (memAccounts e)"
    and pc: "positionCache e1 =
         (if rrIsFullClose cr then RemovePosition (pID x) (positionCache e)
          else UpdateCached (pID x) (reduced cr) (positionCache e))"
    and sub: "submits e e1 evts"
      "\<And>v. 0 < v \<Longrightarrow> event_sum v evts = (if v = u then rrCloseMargin cr + rrNetPnl cr else 0)"
  shows "moves u p (of_int s * min q (posQty x)) (rrFee cr) 0 0 e e1"
proof -
  have xok: "pos_ok x" using engine_ok_live [OF ok x(1)] .
  then have qty: "0 < posQty x" by (simp add: pos_ok_def)
  obtain k where k: "rrCloseQty cr = min q (posQty x)" "rrIsFullClose cr \<longleftrightarrow> posQty x \<le> q"
      "rrIsFullClose cr \<Longrightarrow> k = 1" "rrRemainQty cr = posQty x - min q (posQty x)"
      "rrRemainMargin cr = posMargin x - posMargin x * k" "rrRemainFunding cr = posFunding x - posFunding x * k"
    using decimal.CalcReduceE [OF decimal.intro [OF law] cr qty] assms(3) by metis
  note cons = CalcReduce_conserves [OF law cr qty assms(3)]
  have change: "over_positions f e1 = over_positions f e - f x + (if rrIsFullClose cr then 0 else f (reduced cr x))" for f
    using over_Update [OF x(1), of e1 "reduced cr" f] over_Remove [OF x(1), of e1 f] engine_ok_cache [OF ok] pc
    by (cases "rrIsFullClose cr") simp_all
  have "positions_ok (positionCache e1) (nextPosID e1)"
  proof (cases "rrIsFullClose cr")
    case True
    then show ?thesis using pc frame(2) ok positions_ok_Remove by (simp add: engine_ok_def)
  next
    case False
    then have "pos_ok (reduced cr x)" using xok k(2,4) by (simp add: pos_ok_def)
    then show ?thesis
      using False pc frame(2) ok positions_ok_Update [OF _ x(1), of "nextPosID e" "reduced cr"]
      by (simp add: engine_ok_def)
  qed
  moreover have "owners_ok (positionCache e1) (memAccounts e1)"
    using ok x acc accs
    by (auto simp: engine_ok_def owners_ok_def pc UpdateCached_def split: if_splits)
  ultimately have "engine_ok e1" using ok frame by (simp add: engine_ok_def update_frame_def)
  moreover have "net_position v e1 = net_position v e + (if v = u then of_int s * min q (posQty x) else 0)" for v
    unfolding net_position_def change
    using k(2,4) x(2,3) by (auto simp: of_user_def signed_qty_def right_diff_distrib min_def)
  moreover have "open_net e1 = open_net e + of_int s * min q (posQty x)"
    unfolding open_net_def change
    using k(2,4) x(3) by (auto simp: signed_qty_def right_diff_distrib min_def)
  moreover have val: "over_positions (of_user v (pos_value price)) e1 = over_positions (of_user v (pos_value price)) e -
      (if v = u then pos_value price x - (if rrIsFullClose cr then 0 else pos_value price (reduced cr x)) else 0)" for v price
    unfolding change using x(2) by (auto simp: of_user_def)
  moreover have "pos_value p x - (if rrIsFullClose cr then 0 else pos_value p (reduced cr x)) =
      rrCloseMargin cr + rrNetPnl cr + rrFee cr"
    using cons k by (auto simp: pos_value_def calc_defs)
  moreover have "GetBalance v (memAccounts e1) = GetBalance v (memAccounts e) +
      (if v = u then rrCloseMargin cr + rrNetPnl cr else 0)" for v
    using ledger.settle_ok [OF acc, of "rrCloseMargin cr" "rrNetPnl cr"]
      ledger.settle_frame [of v u "rrCloseMargin cr" "rrNetPnl cr" "memAccounts e"] accs
    by (cases "v = u") auto
  moreover have "holds_account v (memAccounts e1) = holds_account v (memAccounts e)" for v
    using accs by simp
  moreover have "frozen_of v (memAccounts e1) = frozen_of v (memAccounts e)" for v
    using ledger.settle_ok [OF acc, of "rrCloseMargin cr" "rrNetPnl cr"]
      ledger.settle_frame [of v u "rrCloseMargin cr" "rrNetPnl cr" "memAccounts e"] accs
    by (cases "v = u") auto
  ultimately show ?thesis
    using frame sub pc by (auto simp: moves_def settles_def equity_def intro!: exI [of _ evts] pointers_Update)
qed

subsection \<open>The whole update\<close>

text \<open>
  The part of a trade that is not applied because the user cannot pay for it: all of it for a
  new or increased position, the remainder beyond the closed position otherwise.
\<close>

definition open_short :: "decimal_lib \<Rightarrow> clearance \<Rightarrow> dec \<Rightarrow> dec \<Rightarrow> int \<Rightarrow> int \<Rightarrow> bool \<Rightarrow> dec \<Rightarrow> dec" where
  "open_short D c p q l s m funds =
     (case CalcOpen D c p q (open_leverage l) s m of
        Some cr \<Rightarrow> if orTotalCost cr \<le> funds then 0 else q
      | None \<Rightarrow> q)"

definition shortfall :: "decimal_lib \<Rightarrow> int \<Rightarrow> int \<Rightarrow> dec \<Rightarrow> dec \<Rightarrow> int \<Rightarrow> bool \<Rightarrow> engine \<Rightarrow> dec" where
  "shortfall D u s q p l m e =
     (let avail = GetBalance u (memAccounts e)
      in case FindOpposite u s (positionCache e) of
           Some x \<Rightarrow>
             (if q \<le> posQty x then 0
              else case CalcReduce D (eclearance e) (posEntry x) p (posQty x) (posMargin x) (posFunding x)
                          (pLeverage x) (pSide x) q of
                  Some cr \<Rightarrow> open_short D (eclearance e) p (q - posQty x) l s False
                                (avail + rrCloseMargin cr + rrNetPnl cr)
                | None \<Rightarrow> q - posQty x)
         | None \<Rightarrow>
             (case FindSameDir u s (positionCache e) of
                Some x \<Rightarrow> (case CalcIncrease D (eclearance e) (posEntry x) (posQty x) (posMargin x) (pLeverage x)
                                   (pSide x) q p of
                    Some cr \<Rightarrow> if irAddMargin cr \<le> avail then 0 else q
                  | None \<Rightarrow> q)
              | None \<Rightarrow> open_short D (eclearance e) p q l s m avail))"

lemma open_leverage_nz [simp]: "open_leverage l \<noteq> 0"
  by (simp add: open_leverage_def)

lemma handleOpen_total:
  assumes "div_law D" and "clearance_ok (eclearance e)"
  shows "\<exists>r e'. handleOpen D u s q p l m oid e = Some (r, e')"
proof -
  obtain cr where "CalcOpen D (eclearance e) p q (open_leverage l) s m = Some cr"
    using decimal.CalcOpen_total [OF decimal.intro [OF assms(1)] assms(2) open_leverage_nz] by blast
  then show ?thesis by (auto simp: handleOpen_def open_leverage_def Let_def split: prod.splits)
qed

lemma handleReduce_total:
  assumes law: "div_law D" and ok: "engine_ok e" and x: "map_of (posLive (positionCache e)) (pID x) = Some x"
  shows "handleReduce D u x s q p l reason oid e \<noteq> None"
proof -
  have cl: "clearance_ok (eclearance e)" using ok by (simp add: engine_ok_def)
  have "pos_ok x" using engine_ok_live [OF ok x] .
  then obtain cr where cr: "CalcReduce D (eclearance e) (posEntry x) p (posQty x) (posMargin x) (posFunding x)
      (pLeverage x) (pSide x) q = Some cr"
    using decimal.CalcReduce_total [OF decimal.intro [OF law] cl, of "pLeverage x" "posQty x"]
    by (metis pos_ok_def less_irrefl not_one_le_zero)
  have ho: "handleOpen D u s q' p l False oid e1 = None \<longleftrightarrow> False" if "eclearance e1 = eclearance e" for q' e1
    using handleOpen_total [OF law, of e1 u s q' p l False oid] cl that by auto
  show ?thesis
    using cr by (auto simp: handleReduce_def Let_def pos_fields submit_def ho bind_eq_None_conv
        simp del: not_None_eq split: if_splits)
qed

lemma UpdatePosition_total:
  assumes law: "div_law D" and ok: "engine_ok e" and "0 < q" and "s = 1 \<or> s = - 1"
  shows "\<exists>r e'. UpdatePosition D u s q p l m reason oid e = Some (r, e')"
proof -
  have cl: "clearance_ok (eclearance e)" using ok by (simp add: engine_ok_def)
  note pos = engine_ok_live [OF ok]
  consider (red) x where "FindOpposite u s (positionCache e) = Some x"
    | (inc) x where "FindOpposite u s (positionCache e) = None" "FindSameDir u s (positionCache e) = Some x"
    | (new) "FindOpposite u s (positionCache e) = None" "FindSameDir u s (positionCache e) = None"
    by (metis not_Some_eq)
  then show ?thesis
  proof cases
    case red
    have "map_of (posLive (positionCache e)) (pID x) = Some x" using FindOpposite_Some(1) [OF engine_ok_cache [OF ok] red] .
    then have "handleReduce D u x s q p l reason oid e \<noteq> None" using handleReduce_total [OF law ok] by blast
    then show ?thesis by (auto simp: UpdatePosition_def red)
  next
    case inc
    have "pos_ok x" using pos FindSameDir_Some(1) [OF engine_ok_cache [OF ok] inc(2)] .
    then obtain cr where "CalcIncrease D (eclearance e) (posEntry x) (posQty x) (posMargin x) (pLeverage x)
        (pSide x) q p = Some cr"
      using decimal.CalcIncrease_total [OF decimal.intro [OF law] cl, of "pLeverage x" "posQty x" q] assms(3)
      by (metis pos_ok_def add_pos_pos less_irrefl not_one_le_zero)
    then show ?thesis by (auto simp: UpdatePosition_def inc handleIncrease_def Let_def pos_fields split: prod.splits)
  next
    case new
    then show ?thesis using handleOpen_total [OF law cl] by (simp add: UpdatePosition_def)
  qed
qed

lemma Deduct_iff: "fst (Deduct u a c) \<longleftrightarrow> holds_account u c \<and> a \<le> GetBalance u c"
  by (rule ledger.deduct_True_iff)

lemma moves_weaken: "moves u p n fee sl k e e' \<Longrightarrow> sl \<le> sl' \<Longrightarrow> k \<le> k' \<Longrightarrow> moves u p n fee sl' k' e e'"
  unfolding moves_def by (auto intro: order_trans)

text \<open>Fee rates in [0, \<open>rate\<close>], for the volume 0 that clearing passes.\<close>

definition fee_rates :: "clearance \<Rightarrow> dec \<Rightarrow> bool" where
  "fee_rates c rate \<longleftrightarrow> 0 \<le> rate \<and>
     (\<forall>t. GetTier (feeCalc c) 0 = Some t \<longrightarrow>
        0 \<le> MakerRate t \<and> MakerRate t \<le> rate \<and> 0 \<le> TakerRate t \<and> TakerRate t \<le> rate)"

definition fee_bound :: "clearance \<Rightarrow> dec \<Rightarrow> dec \<Rightarrow> dec \<Rightarrow> bool" where
  "fee_bound c p q fee \<longleftrightarrow> (\<forall>rate. fee_rates c rate \<and> 0 \<le> p \<longrightarrow> 0 \<le> fee \<and> fee \<le> rate * (p * q))"

lemma clFee_bound:
  assumes "clFee c v m = Some (f, x)" and "fee_rates c rate" and "0 \<le> v"
  shows "0 \<le> f \<and> f \<le> rate * v"
proof -
  have "f = v * x" "0 \<le> x" "x \<le> rate"
    using assms by (auto simp: clFee_def CalcFee_def fee_rates_def Let_def bind_eq_Some_conv split: if_splits)
  with assms(3) show ?thesis by (simp add: mult.commute [of v] mult_right_mono)
qed

lemma open_fee_bound:
  assumes "CalcOpen D c p q l s m = Some cr" and "0 \<le> q"
  shows "fee_bound c p q (orFee cr)"
proof -
  obtain x where "clFee c (p * q) m = Some (orFee cr, x)"
    using assms(1) by (auto simp: CalcOpen_def Let_def bind_eq_Some_conv)
  from clFee_bound [OF this] assms(2) show ?thesis by (auto simp: fee_bound_def)
qed

lemma reduce_fee_bound:
  assumes "div_law D" and "CalcReduce D c e p eq em f l s q = Some cr" and "0 < eq" and "0 \<le> q"
  shows "fee_bound c p (min q eq) (rrFee cr)"
proof -
  obtain x where "clFee c (min q eq * p) False = Some (rrFee cr, x)"
    using decimal.CalcReduceE [OF decimal.intro [OF assms(1)] assms(2-4)] by metis
  from clFee_bound [OF this] assms(3,4) show ?thesis by (auto simp: fee_bound_def mult.commute)
qed

lemma fee_bound_add: "fee_bound c p q f \<Longrightarrow> fee_bound c p q' f' \<Longrightarrow> fee_bound c p (q + q') (f + f')"
  by (fastforce simp: fee_bound_def distrib_left)

lemma fee_bound_mono:
  assumes "fee_bound c p q f" and "0 \<le> q" and "q \<le> q'"
  shows "fee_bound c p q' f"
  unfolding fee_bound_def
proof (intro allI impI)
  fix rate
  assume r: "fee_rates c rate \<and> 0 \<le> p"
  then have "0 \<le> f" "f \<le> rate * (p * q)" using assms(1) by (auto simp: fee_bound_def)
  moreover have "rate * (p * q) \<le> rate * (p * q')"
    using r assms(3) by (simp add: fee_rates_def mult_left_mono)
  ultimately show "0 \<le> f \<and> f \<le> rate * (p * q')" by simp
qed

text \<open>What an update does: the part that is paid for moves, for at most its fee.\<close>

definition applies ::
    "clearance \<Rightarrow> int \<Rightarrow> int \<Rightarrow> dec \<Rightarrow> dec \<Rightarrow> dec \<Rightarrow> engine \<Rightarrow> engine \<Rightarrow> bool" where
  "applies c u s p q short e e' \<longleftrightarrow>
     0 \<le> short \<and> short \<le> q \<and>
     (\<exists>fee. fee_bound c p (q - short) fee \<and>
        moves u p (of_int s * (q - short)) fee (ulp * (over_positions (of_user u posQty) e + q)) 1 e e')"

lemma over_posQty:
  assumes "engine_ok e"
  shows "0 \<le> over_positions (of_user u posQty) e"
    and "map_of (posLive (positionCache e)) i = Some x \<Longrightarrow> pUserID x = u \<Longrightarrow> posQty x \<le> over_positions (of_user u posQty) e"
proof -
  let ?al = "posLive (positionCache e)"
  have d: "distinct (map fst ?al)" using engine_ok_cache [OF assms(1)] by (simp add: cache_ok_def)
  have nn: "0 \<le> of_user u posQty p" if "map_of ?al j = Some p" for j p
    using engine_ok_live [OF assms(1) that] by (simp add: of_user_def pos_ok_def)
  show "0 \<le> over_positions (of_user u posQty) e"
    unfolding over_positions_def by (rule al_sum_nonneg [OF nn d])
  assume x: "map_of ?al i = Some x" "pUserID x = u"
  have "0 \<le> al_sum (of_user u posQty) (AList.delete i ?al)"
    by (rule al_sum_nonneg) (use d nn in \<open>auto split: if_splits\<close>)
  then show "posQty x \<le> over_positions (of_user u posQty) e"
    using al_sum_delete [OF d x(1), of "of_user u posQty"] x(2)
    by (simp add: over_positions_def of_user_def)
qed

lemma handleOpen_applies:
  assumes run: "handleOpen D u s q p l m oid e = Some (r, e')" and ok: "engine_ok e" and ids: "ids_left 1 e"
    and q: "0 < q" and s: "s = 1 \<or> s = - 1" and acc: "holds_account u (memAccounts e)"
  shows "\<exists>fee. fee_bound (eclearance e) p (q - open_short D (eclearance e) p q l s m (GetBalance u (memAccounts e))) fee \<and>
      moves u p (of_int s * (q - open_short D (eclearance e) p q l s m (GetBalance u (memAccounts e)))) fee 0 1 e e'"
    and "0 \<le> open_short D (eclearance e) p q l s m (GetBalance u (memAccounts e))"
    and "open_short D (eclearance e) p q l s m (GetBalance u (memAccounts e)) \<le> q"
proof -
  obtain cr where cr: "CalcOpen D (eclearance e) p q (open_leverage l) s m = Some cr"
    and alt: "(rAction r = ActFailed \<and> e' = e \<and> \<not> fst (Deduct u (orTotalCost cr) (memAccounts e))) \<or>
       (rAction r = ActOpen \<and> moves u p (of_int s * q) (orFee cr) 0 1 e e')"
    using handleOpen_moves [OF run ok ids q s] by blast
  let ?sf = "open_short D (eclearance e) p q l s m (GetBalance u (memAccounts e))"
  have sf: "?sf = (if fst (Deduct u (orTotalCost cr) (memAccounts e)) then 0 else q)"
    using acc by (simp add: open_short_def cr Deduct_iff)
  then show "0 \<le> ?sf" "?sf \<le> q" using q by simp_all
  have "rAction r = ActOpen \<Longrightarrow> fst (Deduct u (orTotalCost cr) (memAccounts e))"
    using run cr by (cases rule: handleOpen_cases) (auto simp: empty_result_def)
  with alt sf show "\<exists>fee. fee_bound (eclearance e) p (q - ?sf) fee \<and> moves u p (of_int s * (q - ?sf)) fee 0 1 e e'"
    using moves_weaken [OF moves_refl [OF ok], of 0 1 u p] open_fee_bound [OF cr] q
    by (auto simp: fee_bound_def fee_rates_def)
qed

lemma handleIncrease_applies:
  assumes run: "handleIncrease D u x q p oid e = Some (r, e')" and law: "div_law D" and ok: "engine_ok e"
    and q: "0 < q" and acc: "holds_account u (memAccounts e)"
    and x: "map_of (posLive (positionCache e)) (pID x) = Some x" "pUserID x = u" "pSide x = s"
  shows "\<exists>cr. CalcIncrease D (eclearance e) (posEntry x) (posQty x) (posMargin x) (pLeverage x) (pSide x) q p = Some cr \<and>
    applies (eclearance e) u s p q (if irAddMargin cr \<le> GetBalance u (memAccounts e) then 0 else q) e e'"
proof -
  obtain cr where cr:
    "CalcIncrease D (eclearance e) (posEntry x) (posQty x) (posMargin x) (pLeverage x) (pSide x) q p = Some cr"
    and alt: "(rAction r = ActFailed \<and> e' = e \<and> \<not> fst (Deduct u (irAddMargin cr) (memAccounts e))) \<or>
       (rAction r = ActIncrease \<and> moves u p (of_int s * q) 0 (ulp * (posQty x + q)) 0 e e')"
    using handleIncrease_moves [OF run law ok q x] by blast
  have funds: "rAction r = ActIncrease \<Longrightarrow> fst (Deduct u (irAddMargin cr) (memAccounts e))"
    using run cr by (cases rule: handleIncrease_cases) (auto simp: empty_result_def)
  let ?slack = "ulp * (over_positions (of_user u posQty) e + q)"
  have sl: "ulp * (posQty x + q) \<le> ?slack" "0 \<le> ?slack"
    using over_posQty [OF ok] x(1,2) q by (simp_all add: mult_left_mono)
  have fee0: "fee_bound c p y 0" if "0 \<le> y" for c y
    using that by (simp add: fee_bound_def fee_rates_def)
  show ?thesis
  proof (cases "fst (Deduct u (irAddMargin cr) (memAccounts e))")
    case True
    with alt have "moves u p (of_int s * q) 0 ?slack 1 e e'" using moves_weaken sl(1) by blast
    with True cr acc q fee0 [of q] show ?thesis by (auto simp: Deduct_iff applies_def intro!: exI [of _ 0])
  next
    case False
    with alt funds have "e' = e" by blast
    then have "moves u p 0 0 ?slack 1 e e'" using moves_weaken [OF moves_refl [OF ok]] sl(2) by blast
    with False cr acc q fee0 [of 0] show ?thesis by (auto simp: Deduct_iff applies_def intro!: exI [of _ 0])
  qed
qed

lemma handleReduce_applies:
  assumes run: "handleReduce D u x s q p l reason oid e = Some (r, e')" and law: "div_law D" and ok: "engine_ok e"
    and ids: "ids_left 1 e" and q: "0 \<le> q" and s: "s = 1 \<or> s = - 1" and acc: "holds_account u (memAccounts e)"
    and x: "map_of (posLive (positionCache e)) (pID x) = Some x" "pUserID x = u" "pSide x = - s"
    and reason: "reason \<noteq> CloseReasonLiquidation"
  shows "\<exists>cr. CalcReduce D (eclearance e) (posEntry x) p (posQty x) (posMargin x) (posFunding x) (pLeverage x)
        (pSide x) q = Some cr \<and>
    applies (eclearance e) u s p q
      (if q \<le> posQty x then 0 else open_short D (eclearance e) p (q - posQty x) l s False
         (GetBalance u (memAccounts e) + rrCloseMargin cr + rrNetPnl cr)) e e'"
  using run reason
proof (cases rule: handleReduce_cases)
  case (1 cr e1 evts)
  have qty: "0 < posQty x" using engine_ok_live [OF ok x(1)] by (simp add: pos_ok_def)
  note step = reduction_moves [OF law ok q acc x 1(1,4,6,5,7,8,9)]
  note fee1 = reduce_fee_bound [OF law 1(1) qty q]
  let ?slack = "ulp * (over_positions (of_user u posQty) e + q)"
  have sl: "0 \<le> ?slack" using over_posQty [OF ok] q by simp
  show ?thesis
  proof (cases "q \<le> posQty x")
    case True
    with 1(10) have "e' = e1" by simp
    with step True have "moves u p (of_int s * q) (rrFee cr) ?slack 1 e e'"
      using moves_weaken [OF step sl, of 1] by simp
    with True 1(1) fee1 q show ?thesis by (auto simp: applies_def)
  next
    case False
    then obtain r1 where ho: "handleOpen D u s (q - posQty x) p l False oid e1 = Some (r1, e')" using 1(10) by auto
    have cl: "eclearance e1 = eclearance e" using 1(4) by (simp add: update_frame_def)
    have e1: "engine_ok e1" "ids_left 1 e1" "holds_account u (memAccounts e1)"
      using step ids acc 1(6) by (auto simp: moves_def settles_def ids_left_def)
    have bal: "GetBalance u (memAccounts e1) = GetBalance u (memAccounts e) + rrCloseMargin cr + rrNetPnl cr"
      using ledger.settle_ok [OF acc] 1(5) by simp
    let ?sf = "open_short D (eclearance e) p (q - posQty x) l s False
        (GetBalance u (memAccounts e) + rrCloseMargin cr + rrNetPnl cr)"
    have pos: "0 < q - posQty x" using False by simp
    note op = handleOpen_applies [OF ho e1(1,2) pos s e1(3), unfolded bal cl]
    obtain fee where fee2: "fee_bound (eclearance e) p (q - posQty x - ?sf) fee"
      and mv: "moves u p (of_int s * (q - posQty x - ?sf)) fee 0 1 e1 e'"
      using op(1) by blast
    have "moves u p (of_int s * min q (posQty x) + of_int s * (q - posQty x - ?sf)) (rrFee cr + fee) (0 + 0) (0 + 1) e e'"
      by (rule moves_trans [OF step mv])
    moreover have "of_int s * min q (posQty x) + of_int s * (q - posQty x - ?sf) = of_int s * (q - ?sf)"
      using False by (simp add: right_diff_distrib)
    ultimately have "moves u p (of_int s * (q - ?sf)) (rrFee cr + fee) ?slack 1 e e'"
      using moves_weaken [OF _ sl, of u p _ _ 1 e e' 1] by simp
    moreover have "fee_bound (eclearance e) p (q - ?sf) (rrFee cr + fee)"
      using fee_bound_add [OF fee1 fee2] False by simp
    ultimately show ?thesis using False 1(1) op(2,3) qty by (auto simp: applies_def)
  qed
qed

lemma UpdatePosition_applies:
  assumes run: "UpdatePosition D u s q p l m reason oid e = Some (r, e')" and law: "div_law D"
    and ok: "engine_ok e" and ids: "ids_left 1 e" and q: "0 < q" and s: "s = 1 \<or> s = - 1"
    and acc: "holds_account u (memAccounts e)" and reason: "reason \<noteq> CloseReasonLiquidation"
  shows "applies (eclearance e) u s p q (shortfall D u s q p l m e) e e'"
proof -
  note cache = engine_ok_cache [OF ok]
  consider (red) x where "FindOpposite u s (positionCache e) = Some x"
    | (inc) x where "FindOpposite u s (positionCache e) = None" "FindSameDir u s (positionCache e) = Some x"
    | (new) "FindOpposite u s (positionCache e) = None" "FindSameDir u s (positionCache e) = None"
    by (metis not_Some_eq)
  then show ?thesis
  proof cases
    case red
    with run have "handleReduce D u x s q p l reason oid e = Some (r, e')" by (simp add: UpdatePosition_def)
    from handleReduce_applies [OF this law ok ids less_imp_le [OF q] s acc FindOpposite_Some(1,2,3) [OF cache red] reason]
    show ?thesis by (auto simp: shortfall_def red Let_def)
  next
    case inc
    with run have "handleIncrease D u x q p oid e = Some (r, e')" by (simp add: UpdatePosition_def)
    from handleIncrease_applies [OF this law ok q acc FindSameDir_Some(1,2,3) [OF cache inc(2)]]
    show ?thesis by (auto simp: shortfall_def inc Let_def)
  next
    case new
    with run have "handleOpen D u s q p l m oid e = Some (r, e')" by (simp add: UpdatePosition_def)
    note op = handleOpen_applies [OF this ok ids q s acc]
    have "0 \<le> ulp * (over_positions (of_user u posQty) e + q)" using over_posQty [OF ok] q by simp
    with op show ?thesis
      by (auto simp: applies_def shortfall_def new Let_def intro: moves_weaken)
  qed
qed

end
