(* ===== verification/Engine_Props.thy ===== *)
theory Engine_Props
  imports Engine_Effects
begin

section \<open>What position updates promise\<close>

text \<open>
  The properties of \<open>UpdatePosition\<close> and \<open>ProcessTrades\<close>, and the engine on which their
  witnesses are evaluated: users 7 and 8 with 1000 each, no position, price 100.
\<close>

definition sample_clearance :: clearance where
  "sample_clearance = NewClearance (NewCalculator []) (4 / 10000) (1 / 100) 5"

definition sample_engine :: engine where
  "sample_engine =
     (NewEngine (NewPriceCache\<lparr>pcPrice := 100\<rparr>) NewPositionCache NewOrderCache None sample_clearance
       \<lparr>events = []\<rparr> \<lparr>cfgMaxLeverage = 100, cfgMinMargin = 1, cfgMaxPositions = 0, cfgMaxPriceDeviation = 0\<rparr>)
     \<lparr>memAccounts := LoadAccount 7 1000 0 (LoadAccount 8 1000 0 NewAccountCache)\<rparr>"

lemma sample_clearance_ok: "clearance_ok sample_clearance"
  by (simp add: sample_clearance_def clearance_ok_def NewClearance_def)

lemma sample_engine_fields [simp]:
  "eclearance sample_engine = sample_clearance" "nextPosID sample_engine = 100000"
  "positionCache sample_engine = NewPositionCache"
  "GetBalance 7 (memAccounts sample_engine) = 1000" "GetBalance 8 (memAccounts sample_engine) = 1000"
  "holds_account 7 (memAccounts sample_engine)" "holds_account 8 (memAccounts sample_engine)"
  "net_position u sample_engine = 0" "open_net sample_engine = 0"
  "over_positions f sample_engine = 0" "orderCache sample_engine = []" "onMakerFill sample_engine = None"
  by (simp_all add: sample_engine_def NewEngine_def NewPositionCache_def NewAccountCache_def NewOrderCache_def
      ledger_defs net_position_def open_net_def over_positions_def)

lemma sample_engine_ok: "engine_ok sample_engine"
  using sample_clearance_ok cache_ok_new
  by (simp add: engine_ok_def positions_ok_def owners_ok_def)

lemma sample_ids [simp]: "ids_left n sample_engine \<longleftrightarrow> 100000 + int n < 2 ^ 63"
  by (simp add: ids_left_def)

lemma sample_fee: "clFee sample_clearance v m = Some (v * (if m then 2 / 10000 else 4 / 10000), if m then 2 / 10000 else 4 / 10000)"
  by (simp add: sample_clearance_def NewClearance_def clFee_def CalcFee_def GetTier_def NewCalculator_def
      DefaultTiers_def mk_tier_def Let_def)

text \<open>Opening 2 at 100 with leverage 10 costs 20 and the fee.\<close>

lemma sample_open:
  "\<exists>cr. CalcOpen dec16 sample_clearance 100 2 10 s m = Some cr \<and> orMargin cr = 20 \<and>
     orTotalCost cr = 20 + 200 * (if m then 2 / 10000 else 4 / 10000)"
proof -
  obtain cr where cr: "CalcOpen dec16 sample_clearance 100 2 10 s m = Some cr"
    using dec16.CalcOpen_total [OF sample_clearance_ok, of 10 100 2 s m] by auto
  have "Div dec16 200 10 = Some 20" using dec16.div_exact_int [of 10 200 20] by simp
  with cr have "orMargin cr = 20 \<and> orTotalCost cr = 20 + 200 * (if m then 2 / 10000 else 4 / 10000)"
    by (auto simp: CalcOpen_def Let_def bind_eq_Some_conv sample_fee)
  with cr show ?thesis by blast
qed

lemma FindOpposite_new [simp]: "FindOpposite u s NewPositionCache = None"
  and FindSameDir_new [simp]: "FindSameDir u s NewPositionCache = None"
  by (simp_all add: cache_defs NewPositionCache_def user_ids_def map_filter_simps)

lemma sample_shortfall [simp]: "u = 7 \<or> u = 8 \<Longrightarrow> shortfall dec16 u s 2 100 10 m sample_engine = 0"
  using sample_open [of s m] by (auto simp: shortfall_def open_short_def open_leverage_def Let_def)

subsection \<open>One update\<close>

text \<open>
  C7. An update of a user with an account, for a positive quantity, never panics; it moves the
  user's net position by side times quantity, less the part the user cannot pay for, moves no
  other user's position, keeps the engine well formed and touches neither the book nor the
  pending orders.
\<close>

theorem UpdatePosition_net:
  assumes "div_law D" and "engine_ok e" and "ids_left 1 e" and "0 < q" and "s = 1 \<or> s = - 1"
    and "holds_account u (memAccounts e)" and "reason \<noteq> CloseReasonLiquidation"
  shows "\<exists>r e'. UpdatePosition D u s q p l m reason oid e = Some (r, e') \<and> engine_ok e' \<and>
    (let short = shortfall D u s q p l m e
     in 0 \<le> short \<and> short \<le> q \<and>
        (\<forall>v. net_position v e' = net_position v e + (if v = u then of_int s * (q - short) else 0))) \<and>
    ebook e' = ebook e \<and> orderCache e' = orderCache e"
proof -
  obtain r e' where run: "UpdatePosition D u s q p l m reason oid e = Some (r, e')"
    using UpdatePosition_total [OF assms(1,2,4,5)] by blast
  with UpdatePosition_applies [OF run assms(1-7)] show ?thesis
    by (auto simp: applies_def moves_def update_frame_def Let_def)
qed

theorem UpdatePosition_net_witness:
  "\<exists>r e'. UpdatePosition dec16 7 (- 1) 2 100 10 False CloseReasonManual 5 sample_engine = Some (r, e') \<and>
     engine_ok e' \<and> net_position 7 e' = - 2 \<and> net_position 8 e' = 0"
  using UpdatePosition_net [OF dec16_law sample_engine_ok, of 2 "- 1" 7 CloseReasonManual 100 10 False 5]
  by (auto simp: Let_def)

text \<open>
  C8. An update is a fair exchange: at the trade price the user's equity (available balance,
  margins, unrealized profit, accumulated funding) changes by nothing but the fee, which is at
  most the fee rate times the traded value, up to the rounding of one entry price; every other
  user's equity is untouched at every price.
\<close>

theorem UpdatePosition_equity:
  assumes "UpdatePosition D u s q p l m reason oid e = Some (r, e')" and "div_law D" and "engine_ok e"
    and "ids_left 1 e" and "0 < q" and "s = 1 \<or> s = - 1" and "holds_account u (memAccounts e)"
    and "reason \<noteq> CloseReasonLiquidation" and "fee_rates (eclearance e) rate" and "0 \<le> p"
  shows "(\<exists>fee. 0 \<le> fee \<and> fee \<le> rate * (p * q) \<and>
      \<bar>equity u p e' - (equity u p e - fee)\<bar> \<le> ulp * (over_positions (of_user u posQty) e + q)) \<and>
    (\<forall>v price. v \<noteq> u \<longrightarrow> equity v price e' = equity v price e)"
proof -
  let ?sf = "shortfall D u s q p l m e"
  obtain fee where fee: "fee_bound (eclearance e) p (q - ?sf) fee" and sf: "0 \<le> ?sf" "?sf \<le> q"
    and mv: "moves u p (of_int s * (q - ?sf)) fee (ulp * (over_positions (of_user u posQty) e + q)) 1 e e'"
    using UpdatePosition_applies [OF assms(1-8)] unfolding applies_def by blast
  have "fee_bound (eclearance e) p q fee" using fee_bound_mono [OF fee] sf by simp
  then have "0 \<le> fee" "fee \<le> rate * (p * q)" using assms(9,10) by (auto simp: fee_bound_def)
  with mv show ?thesis by (auto simp: moves_def)
qed

theorem UpdatePosition_equity_witness:
  "\<exists>r e' fee. UpdatePosition dec16 7 1 2 100 10 False CloseReasonManual 5 sample_engine = Some (r, e') \<and>
     0 \<le> fee \<and> fee \<le> 8 / 100 \<and> \<bar>equity 7 100 e' - (1000 - fee)\<bar> \<le> ulp * 2"
proof -
  obtain r e' where run: "UpdatePosition dec16 7 1 2 100 10 False CloseReasonManual 5 sample_engine = Some (r, e')"
    using UpdatePosition_total [OF dec16_law sample_engine_ok, of 2 1 7 100 10 False CloseReasonManual 5] by auto
  have "fee_rates sample_clearance (4 / 10000)"
    by (auto simp: fee_rates_def sample_clearance_def NewClearance_def GetTier_def NewCalculator_def
        DefaultTiers_def mk_tier_def)
  with UpdatePosition_equity [OF run dec16_law sample_engine_ok, of "4 / 10000"] run
  show ?thesis by (auto simp: equity_def)
qed

text \<open>
  Memory and settlement agree: whatever an update does to the available balances of real
  users is what the events it submits tell the settlement to do to their balances.
\<close>

theorem UpdatePosition_settles:
  assumes "UpdatePosition D u s q p l m reason oid e = Some (r, e')" and "div_law D" and "engine_ok e"
    and "ids_left 1 e" and "0 < q" and "s = 1 \<or> s = - 1" and "holds_account u (memAccounts e)"
    and "reason \<noteq> CloseReasonLiquidation"
  shows "\<exists>evts. events (esettler e') = events (esettler e) @ evts \<and>
    (\<forall>v > 0. GetBalance v (memAccounts e') =
       GetBalance v (memAccounts e) + sum_list (map (balance_delta v) evts))"
  using UpdatePosition_applies [OF assms(1-8)]
  by (auto simp: applies_def moves_def settles_def submits_def event_sum_def)

theorem UpdatePosition_settles_witness:
  "\<exists>r e' evts. UpdatePosition dec16 7 1 2 100 10 False CloseReasonManual 5 sample_engine = Some (r, e') \<and>
     events (esettler e') = events (esettler sample_engine) @ evts \<and>
     GetBalance 7 (memAccounts e') = 1000 + sum_list (map (balance_delta 7) evts)"
proof -
  obtain r e' where run: "UpdatePosition dec16 7 1 2 100 10 False CloseReasonManual 5 sample_engine = Some (r, e')"
    using UpdatePosition_total [OF dec16_law sample_engine_ok, of 2 1 7 100 10 False CloseReasonManual 5] by auto
  from UpdatePosition_settles [OF run dec16_law sample_engine_ok] run show ?thesis by fastforce
qed

subsection \<open>Both sides of a batch of trades\<close>

lemma onMakerFill_frame [simp]:
  "engine_ok (e\<lparr>onMakerFill := x\<rparr>) = engine_ok e" "net_position u (e\<lparr>onMakerFill := x\<rparr>) = net_position u e"
  "open_net (e\<lparr>onMakerFill := x\<rparr>) = open_net e" "ids_left n (e\<lparr>onMakerFill := x\<rparr>) = ids_left n e"
  "shortfall D u s q p l m (e\<lparr>onMakerFill := x\<rparr>) = shortfall D u s q p l m e"
  by (simp_all add: engine_ok_def net_position_def open_net_def over_positions_def ids_left_def shortfall_def
      Let_def cong: option.case_cong if_cong)

lemma fillSide_run:
  assumes "fillSide D u boid s t tu lv toid e = Some (rs, e')"
  obtains r e1 x where "UpdatePosition D u s (tQuantity t) (tPrice t) (fst (resolveLeverage u boid tu lv e))
      (snd (resolveLeverage u boid tu lv e)) CloseReasonManual (if u = tu then toid else boid) e = Some (r, e1)"
    and "e' = e1\<lparr>onMakerFill := x\<rparr>"
proof -
  obtain r e1 where run: "UpdatePosition D u s (tQuantity t) (tPrice t) (fst (resolveLeverage u boid tu lv e))
      (snd (resolveLeverage u boid tu lv e)) CloseReasonManual (if u = tu then toid else boid) e = Some (r, e1)"
    using assms by (auto simp: fillSide_def Let_def bind_eq_Some_conv split: prod.splits)
  have same: "\<exists>x. e1 = e1\<lparr>onMakerFill := x\<rparr>" by (rule exI [of _ "onMakerFill e1"]) simp
  have "e' = e1 \<or> (\<exists>x. e' = e1\<lparr>onMakerFill := x\<rparr>)"
    using assms run unfolding fillSide_def Let_def
    by (auto split: prod.splits if_splits option.splits)
  with same have "\<exists>x. e' = e1\<lparr>onMakerFill := x\<rparr>" by blast
  with run that show thesis by blast
qed

text \<open>The part of a trade's quantity that a participant falls short of, in the state it is reached.\<close>

definition side_short :: "decimal_lib \<Rightarrow> int \<Rightarrow> int \<Rightarrow> int \<Rightarrow> ob_trade \<Rightarrow> int \<Rightarrow> int \<Rightarrow> engine \<Rightarrow> dec" where
  "side_short D u boid s t tu lv e =
     shortfall D u s (tQuantity t) (tPrice t) (fst (resolveLeverage u boid tu lv e))
       (snd (resolveLeverage u boid tu lv e)) e"

fun funded :: "decimal_lib \<Rightarrow> ob_trade list \<Rightarrow> int \<Rightarrow> int \<Rightarrow> int \<Rightarrow> engine \<Rightarrow> bool" where
  "funded D [] tu lv toid e \<longleftrightarrow> True"
| "funded D (t # ts) tu lv toid e \<longleftrightarrow>
     side_short D (tBuyUserID t) (tBuyOrderID t) 1 t tu lv e = 0 \<and>
     (case fillSide D (tBuyUserID t) (tBuyOrderID t) 1 t tu lv toid e of
        None \<Rightarrow> False
      | Some (rs1, e1) \<Rightarrow>
          side_short D (tSellUserID t) (tSellOrderID t) (- 1) t tu lv e1 = 0 \<and>
          (case fillSide D (tSellUserID t) (tSellOrderID t) (- 1) t tu lv toid e1 of
             None \<Rightarrow> False
           | Some (rs2, e2) \<Rightarrow> funded D ts tu lv toid e2))"

definition accounts_for :: "ob_trade list \<Rightarrow> engine \<Rightarrow> bool" where
  "accounts_for ts e \<longleftrightarrow>
     (\<forall>t \<in> set ts. holds_account (tBuyUserID t) (memAccounts e) \<and> holds_account (tSellUserID t) (memAccounts e))"

text \<open>What a user bought less what the user sold.\<close>

definition bought :: "int \<Rightarrow> ob_trade list \<Rightarrow> dec" where
  "bought v ts = sum_list (map (\<lambda>t. (if tBuyUserID t = v then tQuantity t else 0) -
     (if tSellUserID t = v then tQuantity t else 0)) ts)"

text \<open>What processing trades leaves alone, and the step of one participant.\<close>

definition keeps :: "engine \<Rightarrow> engine \<Rightarrow> bool" where
  "keeps e e' \<longleftrightarrow> update_frame e (e'\<lparr>onMakerFill := onMakerFill e\<rparr>) \<and> settles e e'"

lemma keeps_refl [simp]: "keeps e e"
  by (simp add: keeps_def)

lemma keeps_trans: "keeps e e1 \<Longrightarrow> keeps e1 e2 \<Longrightarrow> keeps e e2"
  using settles_trans by (auto simp: keeps_def update_frame_def)

lemma fillSide_step:
  assumes law: "div_law D" and ok: "engine_ok e" and ids: "ids_left (Suc n) e" and "0 < tQuantity t"
    and "s = 1 \<or> s = - 1" and "holds_account u (memAccounts e)"
  shows "\<exists>rs e'. fillSide D u boid s t tu lv toid e = Some (rs, e') \<and> engine_ok e' \<and> ids_left n e' \<and> keeps e e' \<and>
    nextPosID e' \<le> nextPosID e + 1 \<and>
    (\<forall>v. net_position v e' = net_position v e +
       (if v = u then of_int s * (tQuantity t - side_short D u boid s t tu lv e) else 0)) \<and>
    open_net e' = open_net e + of_int s * (tQuantity t - side_short D u boid s t tu lv e)"
proof -
  let ?l = "fst (resolveLeverage u boid tu lv e)" and ?m = "snd (resolveLeverage u boid tu lv e)"
  let ?oid = "if u = tu then toid else boid"
  obtain r e1 where run: "UpdatePosition D u s (tQuantity t) (tPrice t) ?l ?m CloseReasonManual ?oid e = Some (r, e1)"
    using UpdatePosition_total [OF law ok assms(4,5)] by blast
  then have "fillSide D u boid s t tu lv toid e \<noteq> None"
    by (auto simp: fillSide_def Let_def split: prod.splits option.splits)
  then obtain rs e' where fs: "fillSide D u boid s t tu lv toid e = Some (rs, e')" by auto
  then obtain x where e': "e' = e1\<lparr>onMakerFill := x\<rparr>" using run by (auto elim: fillSide_run)
  have "ids_left 1 e" using ids by (simp add: ids_left_def)
  note ap = UpdatePosition_applies [OF run law ok this assms(4,5,6)]
  with fs e' ids show ?thesis
    by (auto simp: applies_def moves_def side_short_def ids_left_def keeps_def settles_def submits_def update_frame_def)
qed

lemma bought_simps [simp]:
  "bought v [] = 0"
  "bought v (t # ts) = (if tBuyUserID t = v then tQuantity t else 0) - (if tSellUserID t = v then tQuantity t else 0) +
     bought v ts"
  by (simp_all add: bought_def)

lemma ProcessTrades_run:
  assumes "div_law D"
  shows "engine_ok e \<Longrightarrow> ids_left (2 * length ts) e \<Longrightarrow> \<forall>t \<in> set ts. 0 < tQuantity t \<Longrightarrow> accounts_for ts e \<Longrightarrow>
    \<exists>rs e'. ProcessTrades D ts tu side lv toid e = Some (rs, e') \<and> engine_ok e' \<and> keeps e e' \<and>
      nextPosID e' \<le> nextPosID e + 2 * int (length ts) \<and>
      (funded D ts tu lv toid e \<longrightarrow>
         (\<forall>v. net_position v e' = net_position v e + bought v ts) \<and> open_net e' = open_net e)"
proof (induction ts arbitrary: e)
  case (Cons t ts)
  let ?B = "tBuyUserID t" and ?S = "tSellUserID t"
  have q: "0 < tQuantity t" using Cons.prems(3) by simp
  have acc: "holds_account ?B (memAccounts e)" "holds_account ?S (memAccounts e)"
    using Cons.prems(4) by (simp_all add: accounts_for_def)
  have ids: "ids_left (Suc (Suc (2 * length ts))) e" using Cons.prems(2) by simp
  obtain rs1 e1 where 1: "fillSide D ?B (tBuyOrderID t) 1 t tu lv toid e = Some (rs1, e1)"
    "engine_ok e1" "ids_left (Suc (2 * length ts)) e1" "keeps e e1" "nextPosID e1 \<le> nextPosID e + 1"
    "\<forall>v. net_position v e1 = net_position v e + (if v = ?B
       then of_int 1 * (tQuantity t - side_short D ?B (tBuyOrderID t) 1 t tu lv e) else 0)"
    "open_net e1 = open_net e + of_int 1 * (tQuantity t - side_short D ?B (tBuyOrderID t) 1 t tu lv e)"
    using fillSide_step [OF assms Cons.prems(1) ids q _ acc(1), of 1 "tBuyOrderID t" tu lv toid] by blast
  have acc1: "holds_account ?S (memAccounts e1)" using acc(2) 1(4) by (simp add: keeps_def settles_def)
  obtain rs2 e2 where 2: "fillSide D ?S (tSellOrderID t) (- 1) t tu lv toid e1 = Some (rs2, e2)"
    "engine_ok e2" "ids_left (2 * length ts) e2" "keeps e1 e2" "nextPosID e2 \<le> nextPosID e1 + 1"
    "\<forall>v. net_position v e2 = net_position v e1 + (if v = ?S
       then of_int (- 1) * (tQuantity t - side_short D ?S (tSellOrderID t) (- 1) t tu lv e1) else 0)"
    "open_net e2 = open_net e1 + of_int (- 1) * (tQuantity t - side_short D ?S (tSellOrderID t) (- 1) t tu lv e1)"
    using fillSide_step [OF assms 1(2,3) q _ acc1, of "- 1" "tSellOrderID t" tu lv toid] by blast
  have k: "keeps e e2" by (rule keeps_trans [OF 1(4) 2(4)])
  then have "accounts_for ts e2" using Cons.prems(4) by (simp add: accounts_for_def keeps_def settles_def)
  then obtain rs3 e' where 3: "ProcessTrades D ts tu side lv toid e2 = Some (rs3, e')" "engine_ok e'" "keeps e2 e'"
    "nextPosID e' \<le> nextPosID e2 + 2 * int (length ts)" "funded D ts tu lv toid e2 \<longrightarrow>
       (\<forall>v. net_position v e' = net_position v e2 + bought v ts) \<and> open_net e' = open_net e2"
    using Cons.IH [OF 2(2,3)] Cons.prems(3) by auto
  have "funded D (t # ts) tu lv toid e \<longrightarrow>
     (\<forall>v. net_position v e' = net_position v e + bought v (t # ts)) \<and> open_net e' = open_net e"
    using 1(1,6,7) 2(1,6,7) 3(5) by auto
  with 1(1,5) 2(1,5) 3(1,2,4) keeps_trans [OF k 3(3)] show ?case by simp
qed simp

text \<open>
  C21. A batch of trades between users with accounts is processed without a panic, whatever the
  order of the participants: the engine stays well formed, the book and the pending orders are
  untouched, the balances of real users change as the submitted events say, and if every
  participant can pay, every user's net position changes by what the user bought less what the
  user sold and longs still equal shorts.
\<close>

theorem ProcessTrades_effect:
  assumes "div_law D" and "engine_ok e" and "ids_left (2 * length ts) e" and "\<forall>t \<in> set ts. 0 < tQuantity t"
    and "accounts_for ts e"
  shows "\<exists>rs e'. ProcessTrades D ts tu side lv toid e = Some (rs, e') \<and> engine_ok e' \<and>
    ebook e' = ebook e \<and> orderCache e' = orderCache e \<and>
    (\<exists>evts. events (esettler e') = events (esettler e) @ evts \<and>
       (\<forall>v > 0. GetBalance v (memAccounts e') = GetBalance v (memAccounts e) + sum_list (map (balance_delta v) evts))) \<and>
    (funded D ts tu lv toid e \<longrightarrow>
       (\<forall>v. net_position v e' = net_position v e + bought v ts) \<and> open_net e' = open_net e)"
  using ProcessTrades_run [OF assms, of tu side lv toid]
  by (auto simp: keeps_def settles_def submits_def event_sum_def update_frame_def)

definition sample_trade :: ob_trade where
  "sample_trade =
     \<lparr>tBuyOrderID = 5, tSellOrderID = 4, tBuyUserID = 7, tSellUserID = 8, tPrice = 100, tQuantity = 2\<rparr>"

lemma sample_open_1: "\<exists>cr. CalcOpen dec16 sample_clearance 100 2 1 s m = Some cr \<and> orTotalCost cr \<le> 1000"
proof -
  obtain cr where cr: "CalcOpen dec16 sample_clearance 100 2 1 s m = Some cr"
    using dec16.CalcOpen_total [OF sample_clearance_ok, of 1 100 2 s m] by auto
  have "Div dec16 200 1 = Some 200" using dec16.div_exact_int [of 1 200 200] by simp
  with cr have "orTotalCost cr \<le> 1000"
    by (auto simp: CalcOpen_def Let_def bind_eq_Some_conv sample_fee)
  with cr show ?thesis by blast
qed

lemma sample_buyer:
  "\<exists>rs e1. fillSide dec16 7 5 1 sample_trade 7 10 5 sample_engine = Some (rs, e1) \<and>
     FindOpposite 8 (- 1) (positionCache e1) = None \<and> FindSameDir 8 (- 1) (positionCache e1) = None \<and>
     GetBalance 8 (memAccounts e1) = 1000 \<and> eclearance e1 = sample_clearance \<and> orderCache e1 = []"
proof -
  obtain r e1 where run: "handleOpen dec16 7 1 2 100 10 False 5 sample_engine = Some (r, e1)"
    using handleOpen_total [OF dec16_law, of sample_engine] sample_clearance_ok by fastforce
  then have fs: "fillSide dec16 7 5 1 sample_trade 7 10 5 sample_engine = Some ([r], e1)"
    by (simp add: fillSide_def resolveLeverage_def sample_trade_def UpdatePosition_def Let_def)
  have "FindOpposite 8 (- 1) (positionCache e1) = None \<and> FindSameDir 8 (- 1) (positionCache e1) = None \<and>
     GetBalance 8 (memAccounts e1) = 1000 \<and> eclearance e1 = sample_clearance \<and> orderCache e1 = []"
    using run
  proof (cases rule: handleOpen_cases)
    case (opened cr accs evts)
    have "user_ids 8 (positionCache e1) = []"
      unfolding opened(7) user_ids_Add by (simp add: user_ids_def NewPositionCache_def)
    with opened(4,5) ledger.deduct_frame [OF opened(2), of 8] show ?thesis
      by (simp add: FindOpposite_def FindSameDir_def GetByUser_def map_filter_simps update_frame_def Let_def)
  qed simp
  with fs show ?thesis by blast
qed

theorem ProcessTrades_effect_witness:
  "\<exists>rs e'. ProcessTrades dec16 [sample_trade] 7 1 10 5 sample_engine = Some (rs, e') \<and> engine_ok e' \<and>
     net_position 7 e' = 2 \<and> net_position 8 e' = - 2 \<and> open_net e' = 0"
proof -
  obtain rs e1 where b: "fillSide dec16 7 5 1 sample_trade 7 10 5 sample_engine = Some (rs, e1)"
    "FindOpposite 8 (- 1) (positionCache e1) = None" "FindSameDir 8 (- 1) (positionCache e1) = None"
    "GetBalance 8 (memAccounts e1) = 1000" "eclearance e1 = sample_clearance" "orderCache e1 = []"
    using sample_buyer by blast
  note st = sample_trade_def
  have 1: "side_short dec16 7 5 1 sample_trade 7 10 sample_engine = 0"
    by (simp add: side_short_def resolveLeverage_def st)
  have 2: "side_short dec16 8 4 (- 1) sample_trade 7 10 e1 = 0"
    using sample_open_1 [of "- 1" True] b
    by (auto simp: side_short_def resolveLeverage_def st shortfall_def open_short_def open_leverage_def
        GetOrder_def Let_def)
  have "fillSide dec16 8 4 (- 1) sample_trade 7 10 5 e1 \<noteq> None"
    using handleOpen_total [OF dec16_law, of e1 8 "- 1" 2 100 1 True 4] sample_clearance_ok b
    by (auto simp: fillSide_def resolveLeverage_def st UpdatePosition_def GetOrder_def Let_def split: option.splits)
  with 1 2 b(1) have "funded dec16 [sample_trade] 7 10 5 sample_engine" by (auto simp: st)
  moreover have "accounts_for [sample_trade] sample_engine" by (simp add: accounts_for_def st)
  moreover have "\<forall>t \<in> set [sample_trade]. 0 < tQuantity t" by (simp add: st)
  ultimately show ?thesis
    using ProcessTrades_effect [OF dec16_law sample_engine_ok, of "[sample_trade]" 7 1 10 5]
    by (auto simp: st simp del: ProcessTrades.simps funded.simps)
qed

end
