(* ===== verification/Exchange.thy ===== *)
theory Exchange
  imports Book_Props Engine_Orders Engine_Props
begin

section \<open>The exchange: the engine's operations together\<close>

text \<open>
  The invariant that ties the engine's parts together, kept by every operation users and the risk
  engine call: the engine and its book are well formed, everybody who can trade has an account,
  and what is frozen on an account is what the user's pending orders cost. Every operation ends
  (no panic) and what it does to the available balances is what it tells the settlement.
\<close>

subsection \<open>The invariant\<close>

definition order_cost :: "clearance \<Rightarrow> cached_order \<Rightarrow> dec" where
  "order_cost c co = coMarginCost co + fst (the (CalcMakerFee c (coMarginCost co * of_int (coLeverage co))))"

definition frozen_for :: "clearance \<Rightarrow> int \<Rightarrow> order_cache \<Rightarrow> dec" where
  "frozen_for c u oc = al_sum (\<lambda>co. if coUserID co = u then order_cost c co else 0) oc"

definition orders_ok :: "clearance \<Rightarrow> order_cache \<Rightarrow> int \<Rightarrow> accounts \<Rightarrow> bool" where
  "orders_ok c oc n accs \<longleftrightarrow>
     distinct (map fst oc) \<and>
     (\<forall>i co. map_of oc i = Some co \<longrightarrow>
        coID co = i \<and> i \<le> n \<and> 0 \<le> order_cost c co \<and> holds_account (coUserID co) accs) \<and>
     (\<forall>u. frozen_of u accs = frozen_for c u oc)"

definition exchange_ok :: "engine \<Rightarrow> bool" where
  "exchange_ok e \<longleftrightarrow>
     engine_ok e \<and> book_ok (ebook e) \<and> ids_below (ebook e) \<and>
     (\<forall>u \<in> book_users (ebook e). holds_account u (memAccounts e)) \<and>
     orders_ok (eclearance e) (orderCache e) (nextID (ebook e)) (memAccounts e) \<and>
     0 < minMargin e \<and> (\<exists>rate. fee_rates (eclearance e) rate)"

text \<open>IDs left for so many more operations, and what one operation may use.\<close>

definition room :: "nat \<Rightarrow> engine \<Rightarrow> bool" where
  "room k e \<longleftrightarrow> nextPosID e + 2 * int k * int (book_size (ebook e) + k) < 2 ^ 63 \<and> nextID (ebook e) + int k < 2 ^ 63"

definition uses :: "engine \<Rightarrow> engine \<Rightarrow> bool" where
  "uses e e' \<longleftrightarrow>
     nextPosID e' \<le> nextPosID e + 2 * int (Suc (book_size (ebook e))) \<and>
     book_size (ebook e') \<le> Suc (book_size (ebook e)) \<and> nextID (ebook e') \<le> nextID (ebook e) + 1"

lemma uses_refl [simp]: "uses e e"
  by (simp add: uses_def)

lemma uses_same:
  "ebook e1 = ebook e \<Longrightarrow> nextPosID e1 = nextPosID e \<Longrightarrow> uses e1 e' \<Longrightarrow> uses e e'"
  "ebook e1 = ebook e' \<Longrightarrow> nextPosID e1 = nextPosID e' \<Longrightarrow> uses e e1 \<Longrightarrow> uses e e'"
  by (simp_all add: uses_def)

lemma room_Suc:
  "2 * int (Suc k) * int (n + Suc k) = 2 * int k * int (Suc n + k) + 2 * int (Suc n) + 2 * int k"
  by (simp add: algebra_simps)

lemma room_uses:
  assumes "room (Suc k) e" and "uses e e'"
  shows "room k e'"
proof -
  have "int (book_size (ebook e') + k) \<le> int (Suc (book_size (ebook e)) + k)" using assms(2) by (simp add: uses_def)
  from mult_left_mono [OF this, of "2 * int k"]
  have "2 * int k * int (book_size (ebook e') + k) \<le> 2 * int k * int (Suc (book_size (ebook e)) + k)" by simp
  then show ?thesis
    using assms room_Suc [of k "book_size (ebook e)"] unfolding room_def uses_def by linarith
qed

lemma room_ids:
  assumes "room (Suc k) e"
  shows "nextID (ebook e) < 2 ^ 63 - 1" and "n \<le> Suc (book_size (ebook e)) \<Longrightarrow> ids_left (2 * n) e"
proof -
  have "0 \<le> 2 * int k * int (Suc (book_size (ebook e)) + k)" by simp
  then have "nextPosID e + 2 * int (Suc (book_size (ebook e))) < 2 ^ 63"
    using assms room_Suc [of k "book_size (ebook e)"] unfolding room_def by linarith
  then show "n \<le> Suc (book_size (ebook e)) \<Longrightarrow> ids_left (2 * n) e" by (simp add: ids_left_def)
  show "nextID (ebook e) < 2 ^ 63 - 1" using assms by (simp add: room_def)
qed

lemma room_0: "room (Suc k) e \<Longrightarrow> room k e"
  using room_uses [OF _ uses_refl] .

definition accounted :: "engine \<Rightarrow> engine \<Rightarrow> bool" where
  "accounted e e' \<longleftrightarrow>
     (\<forall>v. holds_account v (memAccounts e') = holds_account v (memAccounts e)) \<and>
     pointers_kept (positionCache e) (positionCache e') \<and>
     (\<exists>evts. submits e e' evts \<and>
        (\<forall>v > 0. GetBalance v (memAccounts e') = GetBalance v (memAccounts e) + event_sum v evts))"

lemma accounted_refl [simp]: "accounted e e"
  by (auto simp: accounted_def submits_def intro!: exI [of _ "[]"])

lemma accounted_trans: "accounted e e1 \<Longrightarrow> accounted e1 e2 \<Longrightarrow> accounted e e2"
proof -
  assume "accounted e e1" "accounted e1 e2"
  then obtain xs ys where x: "submits e e1 xs"
      "\<forall>v > 0. GetBalance v (memAccounts e1) = GetBalance v (memAccounts e) + event_sum v xs"
    and y: "submits e1 e2 ys"
      "\<forall>v > 0. GetBalance v (memAccounts e2) = GetBalance v (memAccounts e1) + event_sum v ys"
    unfolding accounted_def by blast
  have "submits e e2 (xs @ ys)" using submits_trans [OF x(1) y(1)] .
  moreover have "\<forall>v > 0. GetBalance v (memAccounts e2) = GetBalance v (memAccounts e) + event_sum v (xs @ ys)"
    using x(2) y(2) by simp
  moreover have "pointers_kept (positionCache e) (positionCache e2)"
    using \<open>accounted e e1\<close> \<open>accounted e1 e2\<close> pointers_trans unfolding accounted_def by blast
  ultimately show ?thesis using \<open>accounted e e1\<close> \<open>accounted e1 e2\<close> unfolding accounted_def by auto
qed

lemma accounted_pointers:
  "accounted e e' \<Longrightarrow> deref i (positionCache e) \<noteq> None \<Longrightarrow> deref i (positionCache e') \<noteq> None"
  unfolding accounted_def using pointers_keptD by blast

lemma accounted_holds: "accounted e e' \<Longrightarrow> holds_account v (memAccounts e') = holds_account v (memAccounts e)"
  by (simp add: accounted_def)

lemma accounted_same:
  "esettler e' = esettler e \<Longrightarrow> memAccounts e' = memAccounts e \<Longrightarrow>
   pointers_kept (positionCache e) (positionCache e') \<Longrightarrow> accounted e e'"
  by (auto simp: accounted_def submits_def intro!: exI [of _ "[]"])

lemma settles_accounted: "settles e e' \<Longrightarrow> accounted e e'"
  by (auto simp: settles_def accounted_def)

subsection \<open>Steps that keep the invariant\<close>

lemma exchange_keeps: "exchange_ok e \<Longrightarrow> keeps e e' \<Longrightarrow> engine_ok e' \<Longrightarrow> exchange_ok e'"
  by (simp add: exchange_ok_def keeps_def settles_def update_frame_def orders_ok_def)

lemma engine_ok_frame [simp]:
  "engine_ok (submit evt e) = engine_ok e" "engine_ok (e\<lparr>ebook := b\<rparr>) = engine_ok e"
  "engine_ok (e\<lparr>orderCache := oc\<rparr>) = engine_ok e"
  by (simp_all add: engine_ok_def submit_def)

lemma exchange_submit [simp]: "exchange_ok (submit evt e) = exchange_ok e"
  by (simp add: exchange_ok_def submit_def engine_ok_def)

lemma exchange_book:
  assumes "exchange_ok e" and "book_ok b" and "ids_below b" and "nextID (ebook e) \<le> nextID b"
    and "book_users b \<subseteq> insert u (book_users (ebook e))" and "holds_account u (memAccounts e)"
  shows "exchange_ok (e\<lparr>ebook := b\<rparr>)"
  using assms by (fastforce simp: exchange_ok_def orders_ok_def)

lemma exchange_positions:
  assumes "exchange_ok e" and "positions_ok pc (nextPosID e)" and "owners_ok pc (memAccounts e)"
  shows "exchange_ok (e\<lparr>positionCache := pc\<rparr>)"
  using assms by (simp add: exchange_ok_def engine_ok_def)

text \<open>Writes to a position that leave its ID, user, side, leverage and quantity alone.\<close>

lemma exchange_update:
  assumes "exchange_ok e" and "\<And>p. pID (fn p) = pID p \<and> pUserID (fn p) = pUserID p \<and> pSide (fn p) = pSide p \<and>
      pLeverage (fn p) = pLeverage p \<and> pQuantity (fn p) = pQuantity p"
  shows "exchange_ok (e\<lparr>positionCache := UpdateCached i fn (positionCache e)\<rparr>)"
proof (cases "map_of (posLive (positionCache e)) i")
  case None
  then have "UpdateCached i fn (positionCache e) = positionCache e" by (simp add: UpdateCached_def)
  with assms(1) show ?thesis by simp
next
  case (Some x)
  have ok: "positions_ok (positionCache e) (nextPosID e)" "owners_ok (positionCache e) (memAccounts e)"
    using assms(1) by (simp_all add: exchange_ok_def engine_ok_def)
  have "pos_ok (fn x)" using ok(1) Some assms(2) by (simp add: positions_ok_def pos_ok_def posQty_def)
  then have "positions_ok (UpdateCached i fn (positionCache e)) (nextPosID e)"
    using positions_ok_Update [OF ok(1) Some] assms(2) by simp
  moreover have "owners_ok (UpdateCached i fn (positionCache e)) (memAccounts e)"
    using ok(2) Some assms(2) by (auto simp: owners_ok_def UpdateCached_def)
  ultimately show ?thesis using exchange_positions [OF assms(1)] by blast
qed

lemma exchange_TrySetState:
  assumes "exchange_ok e"
  shows "exchange_ok (e\<lparr>positionCache := snd (TrySetState i st (positionCache e))\<rparr>)"
proof -
  have "snd (TrySetState i st (positionCache e)) = positionCache e \<or>
      snd (TrySetState i st (positionCache e)) = UpdateCached i (\<lambda>p. p\<lparr>pState := st\<rparr>) (positionCache e)"
    by (auto simp: TrySetState_def UpdateCached_def split: option.split)
  then show ?thesis using exchange_update [OF assms, of "\<lambda>p. p\<lparr>pState := st\<rparr>" i] assms by auto
qed

lemma maker_fee_total:
  assumes "exchange_ok e"
  shows "\<exists>f r. CalcMakerFee (eclearance e) v = Some (f, r) \<and> (0 \<le> v \<longrightarrow> 0 \<le> f)"
    and "\<exists>f r. CalcTakerFee (eclearance e) v = Some (f, r) \<and> (0 \<le> v \<longrightarrow> 0 \<le> f)"
proof -
  obtain rate where rate: "fee_rates (eclearance e) rate" and cl: "clearance_ok (eclearance e)"
    using assms by (auto simp: exchange_ok_def engine_ok_def)
  have "\<exists>f r. clFee (eclearance e) v m = Some (f, r) \<and> (0 \<le> v \<longrightarrow> 0 \<le> f)" for m
    using clFee_total [OF cl, of v m] clFee_bound [OF _ rate] by blast
  then show "\<exists>f r. CalcMakerFee (eclearance e) v = Some (f, r) \<and> (0 \<le> v \<longrightarrow> 0 \<le> f)"
    and "\<exists>f r. CalcTakerFee (eclearance e) v = Some (f, r) \<and> (0 \<le> v \<longrightarrow> 0 \<le> f)"
    unfolding CalcMakerFee_def CalcTakerFee_def by blast+
qed

lemma CalcVWAP_total:
  assumes "div_law D"
  shows "\<exists>a q. CalcVWAP D ts = Some (a, q)"
proof -
  obtain v q where vq: "sumTrades ts 0 0 = (v, q)" by force
  show ?thesis
  proof (cases "q = 0")
    case False
    then obtain a where "Div D v q = Some a" using decimal.div_defined [OF decimal.intro [OF assms]] by blast
    with vq False show ?thesis by (simp add: CalcVWAP_def)
  qed (simp add: CalcVWAP_def vq)
qed

lemma submitOrder_total:
  assumes f: "CalcMakerFee (eclearance e) (m * of_int lv) = Some (f, r)"
  shows "\<exists>evt. submitOrder i u s ty lv p q m fp tp sl st e = Some (submit evt e) \<and>
    (\<forall>v. balance_delta v evt = (if v = u \<and> st = OrderStatusPending then - (m + f) else 0))"
proof -
  let ?ord = "\<lparr>omID = i, omUserID = u, omSide = s, omOrderType = ty, omLeverage = lv, omPrice = p,
      omQuantity = q, omFilledPrice = (if fp \<noteq> 0 then Some fp else None), omMarginCost = m,
      omTakeProfit = tp, omStopLoss = sl, omStatus = st, omPositionID = None\<rparr>"
  let ?evt = "(empty_event EventCreateOrder)\<lparr>evOrder := Some ?ord, evUserID := u\<rparr>"
  show ?thesis
  proof (cases "st = OrderStatusPending")
    case True
    with f show ?thesis
      by (intro exI [of _ "?evt\<lparr>evBalanceDelta := - (m + f), evFrozenDelta := m + f\<rparr>"])
        (simp add: submitOrder_def Let_def balance_delta_def empty_event_def)
  next
    case False
    then show ?thesis
      by (intro exI [of _ ?evt]) (simp add: submitOrder_def Let_def balance_delta_def empty_event_def)
  qed
qed

lemma accounted_submit:
  assumes "\<forall>v. balance_delta v evt = 0"
  shows "accounted e (submit evt e)"
  unfolding accounted_def by (intro conjI exI [of _ "[evt]"]) (simp_all add: assms submits_def submit_def Submit_def)

text \<open>Filled orders: the order event and the trades.\<close>

lemma process_after:
  assumes "div_law D" and ok: "exchange_ok e" and "ids_left (2 * length ts) e" and "\<forall>t \<in> set ts. 0 < tQuantity t"
    and "accounts_for ts e" and none: "\<forall>v. balance_delta v evt = 0"
  shows "\<exists>rs e2. ProcessTrades D ts u s lv i (submit evt e) = Some (rs, e2) \<and> exchange_ok e2 \<and> accounted e e2 \<and>
    orderCache e2 = orderCache e \<and> ebook e2 = ebook e \<and> nextPosID e2 \<le> nextPosID e + 2 * int (length ts) \<and>
    (funded D ts u lv i (submit evt e) \<longrightarrow>
       (\<forall>v. net_position v e2 = net_position v e + bought v ts) \<and> open_net e2 = open_net e)"
proof -
  let ?e1 = "submit evt e"
  have e1: "exchange_ok ?e1" using ok by simp
  have "engine_ok ?e1" "ids_left (2 * length ts) ?e1" "accounts_for ts ?e1"
    using e1 assms(3,5) by (simp_all add: exchange_ok_def ids_left_def accounts_for_def)
  then obtain rs e2 where run: "ProcessTrades D ts u s lv i ?e1 = Some (rs, e2)" "engine_ok e2" "keeps ?e1 e2"
    "nextPosID e2 \<le> nextPosID ?e1 + 2 * int (length ts)"
    "funded D ts u lv i ?e1 \<longrightarrow> (\<forall>v. net_position v e2 = net_position v ?e1 + bought v ts) \<and> open_net e2 = open_net ?e1"
    using ProcessTrades_run [OF assms(1), of ?e1 ts u s lv i] assms(4) by blast
  have "net_position v ?e1 = net_position v e" "open_net ?e1 = open_net e" for v
    by (simp_all add: net_position_def open_net_def over_positions_def submit_def)
  moreover have "accounted e e2"
    by (rule accounted_trans [OF accounted_submit [OF none] settles_accounted]) (use run(3) in \<open>simp add: keeps_def\<close>)
  ultimately show ?thesis
    using run(1,3-5) exchange_keeps [OF e1 run(3,2)] by (auto simp: keeps_def update_frame_def submit_def)
qed

lemma process_filled:
  assumes "div_law D" and ok: "exchange_ok e" and "ids_left (2 * length ts) e" and "\<forall>t \<in> set ts. 0 < tQuantity t"
    and "accounts_for ts e"
  shows "\<exists>e1 rs e2. submitOrder i u s ty lv p q m fp tp sl OrderStatusFilled e = Some e1 \<and>
    ProcessTrades D ts u s' lv i e1 = Some (rs, e2) \<and> exchange_ok e2 \<and> accounted e e2 \<and>
    orderCache e2 = orderCache e \<and> ebook e2 = ebook e \<and> nextPosID e2 \<le> nextPosID e + 2 * int (length ts)"
proof -
  obtain f r where "CalcMakerFee (eclearance e) (m * of_int lv) = Some (f, r)"
    using maker_fee_total(1) [OF ok] by blast
  from submitOrder_total [OF this, of i u s ty p q fp tp sl OrderStatusFilled]
  obtain evt where so: "submitOrder i u s ty lv p q m fp tp sl OrderStatusFilled e = Some (submit evt e)"
    and none: "\<forall>v. balance_delta v evt = 0" by auto
  show ?thesis using so process_after [OF assms none, of u s' lv i] by blast
qed

text \<open>A market order on the book of an exchange with room.\<close>

lemma market_fill:
  assumes ok: "exchange_ok e" and rm: "room (Suc k) e" and acc: "holds_account u (memAccounts e)"
    and id: "NextOrderID (ebook e) = (i, b1)"
    and pm: "PlaceMarket \<lparr>oID = i, oUserID = u, oSide = s, oPrice = 0, oQuantity = q, oIsMaker = False\<rparr> b1 = (res, b2)"
  obtains ts where "res = Inr ts" and "exchange_ok (e\<lparr>ebook := b2\<rparr>)" and "accounts_for ts (e\<lparr>ebook := b2\<rparr>)"
    and "\<forall>t \<in> set ts. 0 < tQuantity t" and "ids_left (2 * length ts) (e\<lparr>ebook := b2\<rparr>)"
    and "length ts \<le> book_size (ebook e)" and "book_size b2 \<le> Suc (book_size (ebook e))" and "nextID b2 = nextID (ebook e) + 1"
proof -
  have bk: "book_ok (ebook e)" "ids_below (ebook e)" and users: "\<forall>u \<in> book_users (ebook e). holds_account u (memAccounts e)"
    using ok by (simp_all add: exchange_ok_def)
  note fresh = NextOrderID_fresh [OF id bk(2)]
  note next_ok = room_ids(1) [OF rm]
  have b1: "book_ok b1" "ids_below b1" "book_users b1 = book_users (ebook e)" "book_size b1 = book_size (ebook e)"
    "nextID (ebook e) \<le> nextID b1"
    using fresh(1,2,4) [OF next_ok] bk(1) by (simp_all add: book_users_def book_size_def resting_def)
  obtain ts where ts: "res = Inr ts"
    and tp: "takes_part b1 \<lparr>oID = i, oUserID = u, oSide = s, oPrice = 0, oQuantity = q, oIsMaker = False\<rparr> ts b2"
    using PlaceMarket_takes_part [OF b1(1) _ pm] by auto
  have b2: "book_ok b2" "order_ids b2 \<subseteq> order_ids b1" using PlaceMarket_keeps [OF b1(1) pm] by auto
  have nid: "nextID b2 = nextID b1" using nextID_frame(2) [OF pm] .
  have below: "ids_below b2" using b2(2) b1(2) nid by (auto simp: ids_below_def)
  have "exchange_ok (e\<lparr>ebook := b2\<rparr>)"
    using tp b1 nid by (intro exchange_book [OF ok b2(1) below _ _ acc]) (auto simp: takes_part_def)
  moreover have "accounts_for ts (e\<lparr>ebook := b2\<rparr>)"
    using tp users acc b1(3) by (fastforce simp: takes_part_def accounts_for_def trade_users_def)
  moreover have "ids_left (2 * length ts) (e\<lparr>ebook := b2\<rparr>)"
    using tp room_ids(2) [OF rm, of "length ts"] b1(4) by (simp add: takes_part_def ids_left_def)
  ultimately show thesis using that [OF ts] tp b1(4) nid fresh(1) [OF next_ok] fresh(2) [OF next_ok]
    by (simp add: takes_part_def)
qed

lemma same_identity_setters [simp]: "same_identity p (setActive p)" "same_identity p (setTPSL tp sl p)"
  by (auto simp: same_identity_def setActive_def setTPSL_def Let_def split: option.splits)

subsection \<open>Closing\<close>

lemma executeClose_ok:
  assumes law: "div_law D" and ok: "exchange_ok e" and rm: "room (Suc k) e" and acc: "holds_account (prUserID pos) (memAccounts e)"
  shows "\<exists>res e'. executeClose D i pos q e = Some (res, e') \<and> exchange_ok e' \<and> accounted e e' \<and> uses e e'"
proof -
  obtain oid b1 where id: "NextOrderID (ebook e) = (oid, b1)" by force
  obtain res b2 where pm: "PlaceMarket \<lparr>oID = oid, oUserID = prUserID pos, oSide = - prSide pos, oPrice = 0,
      oQuantity = q, oIsMaker = False\<rparr> b1 = (res, b2)" by force
  obtain ts where res: "res = Inr ts" and e1: "exchange_ok (e\<lparr>ebook := b2\<rparr>)" "accounts_for ts (e\<lparr>ebook := b2\<rparr>)"
    "\<forall>t \<in> set ts. 0 < tQuantity t" "ids_left (2 * length ts) (e\<lparr>ebook := b2\<rparr>)"
    and use: "length ts \<le> book_size (ebook e)" "book_size b2 \<le> Suc (book_size (ebook e))" "nextID b2 = nextID (ebook e) + 1"
    using market_fill [OF ok rm acc id pm] by blast
  let ?e1 = "e\<lparr>ebook := b2\<rparr>"
  show ?thesis
  proof (cases "ts = []")
    case True
    have "exchange_ok (?e1\<lparr>positionCache := UpdateCached i setActive (positionCache ?e1)\<rparr>)"
      by (rule exchange_update [OF e1(1)]) (simp add: setActive_def)
    moreover have "uses e (?e1\<lparr>positionCache := UpdateCached i setActive (positionCache ?e1)\<rparr>)"
      using use by (simp add: uses_def)
    ultimately show ?thesis using True id pm res
      by (auto simp: executeClose_def Let_def intro!: accounted_same pointers_Update)
  next
    case False
    obtain a tq where vw: "CalcVWAP D ts = Some (a, tq)" using CalcVWAP_total [OF law] by blast
    obtain e2 rs e3 where run: "submitOrder oid (prUserID pos) (- prSide pos) OrderTypeMarket (prLeverage pos) None tq 0 a
        None None OrderStatusFilled ?e1 = Some e2"
      "ProcessTrades D ts (prUserID pos) (- prSide pos) (prLeverage pos) oid e2 = Some (rs, e3)"
      "exchange_ok e3" "accounted ?e1 e3" "ebook e3 = b2" "nextPosID e3 \<le> nextPosID e + 2 * int (length ts)"
      using process_filled [OF law e1(1,4,3,2), of oid "prUserID pos" "- prSide pos" OrderTypeMarket
          "prLeverage pos" None tq 0 a None None "- prSide pos"] by auto
    have "uses e e3" using run(5,6) use by (simp add: uses_def)
    moreover have "accounted e e3" using accounted_trans [OF accounted_same run(4), of e] by simp
    ultimately show ?thesis using False id pm res vw run(1-3) by (auto simp: executeClose_def Let_def)
  qed
qed

lemma room_positions [simp]:
  "room k (e\<lparr>positionCache := pc\<rparr>) = room k e" "uses (e\<lparr>positionCache := pc\<rparr>) e' = uses e e'"
  "uses e (e'\<lparr>positionCache := pc\<rparr>) = uses e e'"
  by (simp_all add: room_def uses_def)

lemma exchange_owner:
  "exchange_ok e \<Longrightarrow> GetPosition i (positionCache e) = Some p \<Longrightarrow> holds_account (pUserID p) (memAccounts e)"
  by (simp add: exchange_ok_def engine_ok_def owners_ok_def GetPosition_def)

lemma ClosePosition_ok:
  assumes law: "div_law D" and ok: "exchange_ok e" and rm: "room (Suc k) e"
  shows "\<exists>res e'. ClosePosition D i u reason q e = Some (res, e') \<and> exchange_ok e' \<and> accounted e e' \<and> uses e e'"
proof (cases "GetPosition i (positionCache e)")
  case None
  with ok show ?thesis by (simp add: ClosePosition_def)
next
  case (Some cp)
  obtain won pc where tr: "TrySetState i PosStateClosing (positionCache e) = (won, pc)" by force
  let ?e1 = "e\<lparr>positionCache := pc\<rparr>"
  have e1: "exchange_ok ?e1" using exchange_TrySetState [OF ok, of i PosStateClosing] tr by simp
  have restored: "exchange_ok (?e1\<lparr>positionCache := UpdateCached i setActive pc\<rparr>)"
    using exchange_update [OF e1, of setActive i] by (simp add: setActive_def)
  have acc: "holds_account (prUserID (cachedToModel cp)) (memAccounts ?e1)"
    using exchange_owner [OF ok Some] by (simp add: cachedToModel_def)
  have ptr: "pointers_kept (positionCache e) pc" by (rule pointers_TrySetState [OF tr])
  have "accounted e ?e1" by (rule accounted_same) (simp_all add: ptr)
  then obtain res e' where ex: "executeClose D i (cachedToModel cp) (if q \<noteq> 0 then q else prQuantity (cachedToModel cp)) ?e1
      = Some (res, e')" "exchange_ok e'" "accounted e e'" "uses e e'"
    using executeClose_ok [OF law e1 _ acc, of k i] rm accounted_trans by fastforce
  have acc2: "accounted e (e\<lparr>positionCache := pc\<rparr>)" "accounted e (e\<lparr>positionCache := UpdateCached i setActive pc\<rparr>)"
    by (rule accounted_same; simp add: ptr pointers_trans [OF ptr pointers_Update])+
  show ?thesis
    using ok Some tr e1 restored ex acc2 by (auto simp: ClosePosition_def Let_def)
qed

lemma ClosePositionInternal_ok:
  assumes law: "div_law D" and ok: "exchange_ok e" and rm: "room (Suc k) e"
  shows "\<exists>res e'. ClosePositionInternal D i p reason e = Some (res, e') \<and> exchange_ok e' \<and> accounted e e' \<and> uses e e'"
proof -
  define st where "st = (if reason = CloseReasonForceTp then PosStateForceTPing else PosStateClosing)"
  obtain won pc where tr: "TrySetState i st (positionCache e) = (won, pc)" by force
  let ?e1 = "e\<lparr>positionCache := pc\<rparr>"
  have e1: "exchange_ok ?e1" using exchange_TrySetState [OF ok, of i st] tr by simp
  have acc1: "accounted e ?e1" by (rule accounted_same) (simp_all add: pointers_TrySetState [OF tr])
  have "\<exists>res e'. executeClose D i (cachedToModel cp) (prQuantity (cachedToModel cp)) ?e1 = Some (res, e') \<and>
      exchange_ok e' \<and> accounted e e' \<and> uses e e'" if "GetPosition i pc = Some cp" for cp
  proof -
    have "holds_account (prUserID (cachedToModel cp)) (memAccounts ?e1)"
      using exchange_owner [OF e1, of i cp] that by (simp add: cachedToModel_def)
    from executeClose_ok [OF law e1 _ this, of k i "prQuantity (cachedToModel cp)"] rm show ?thesis
      using accounted_trans [OF acc1] by auto
  qed
  with ok tr e1 acc1 show ?thesis
    by (auto simp: ClosePositionInternal_def Let_def simp flip: st_def split: option.split)
qed

subsection \<open>Market orders\<close>

lemma can_pay_holds:
  assumes "exchange_ok e" and "a \<le> GetBalance u (memAccounts e)" and "0 < a"
  shows "holds_account u (memAccounts e)"
  using assms by (auto simp: holds_account_def GetBalance_def split: option.splits)

lemma setTPSL_keeps: "pID (setTPSL tp sl p) = pID p \<and> pUserID (setTPSL tp sl p) = pUserID p \<and>
    pSide (setTPSL tp sl p) = pSide p \<and> pLeverage (setTPSL tp sl p) = pLeverage p \<and>
    pQuantity (setTPSL tp sl p) = pQuantity p"
  by (auto simp: setTPSL_def Let_def split: option.splits)

lemma PlaceMarketOrder_ok:
  assumes law: "div_law D" and ok: "exchange_ok e" and rm: "room (Suc k) e"
  shows "\<exists>res e'. PlaceMarketOrder D u s lv mm m tp sl e = Some (res, e') \<and> exchange_ok e' \<and> accounted e e' \<and> uses e e'"
proof -
  have rejected: ?thesis if "PlaceMarketOrder D u s lv mm m tp sl e = Some (Inl err, e)" for err
    using that ok by simp
  obtain fee r where fee: "CalcTakerFee (eclearance e) (m * of_int lv) = Some (fee, r)"
    "0 \<le> m * of_int lv \<longrightarrow> 0 \<le> fee" using maker_fee_total(2) [OF ok] by blast
  let ?price = "GetPrice (priceCache e)"
  consider (params) err where "validateParams s lv m e = Some err"
    | (limit) err where "validateParams s lv m e = None" "checkPositionLimit u e = Some err"
    | (price) "validateParams s lv m e = None" "checkPositionLimit u e = None" "?price = 0"
    | (poor) "validateParams s lv m e = None" "checkPositionLimit u e = None" "?price \<noteq> 0"
        "GetBalance u (memAccounts e) < m + fee"
    | (go) "validateParams s lv m e = None" "checkPositionLimit u e = None" "?price \<noteq> 0"
        "m + fee \<le> GetBalance u (memAccounts e)"
    by (cases "validateParams s lv m e"; cases "checkPositionLimit u e"; cases "?price = 0") force+
  then show ?thesis
  proof cases
    case go
    have "0 < m" "1 \<le> lv" using go(1) ok by (auto simp: validateParams_def exchange_ok_def split: if_splits)
    then have "0 < m + fee" using fee(2) by (simp add: add_pos_nonneg)
    then have acc: "holds_account u (memAccounts e)" using can_pay_holds [OF ok go(4)] by simp
    obtain q where q: "CalcQuantity D m lv ?price = Some q"
      using decimal.CalcQuantity_total [OF decimal.intro [OF law]] by blast
    obtain oid b1 where id: "NextOrderID (ebook e) = (oid, b1)" by force
    obtain res b2 where pm: "PlaceMarket \<lparr>oID = oid, oUserID = u, oSide = s, oPrice = 0,
        oQuantity = q, oIsMaker = False\<rparr> b1 = (res, b2)" by force
    let ?e1 = "e\<lparr>ebook := b2\<rparr>"
    obtain ts where res: "res = Inr ts" and e1: "exchange_ok ?e1" "accounts_for ts ?e1"
      "\<forall>t \<in> set ts. 0 < tQuantity t" "ids_left (2 * length ts) ?e1"
      and use: "length ts \<le> book_size (ebook e)" "book_size b2 \<le> Suc (book_size (ebook e))" "nextID b2 = nextID (ebook e) + 1"
      using market_fill [OF ok rm acc id pm] by blast
    have a1: "accounted e ?e1" by (rule accounted_same) simp_all
    show ?thesis
    proof (cases "ts = []")
      case True
      with go fee q id pm res e1 a1 use show ?thesis by (simp add: PlaceMarketOrder_def Let_def uses_def)
    next
      case False
      obtain a tq where vw: "CalcVWAP D ts = Some (a, tq)" using CalcVWAP_total [OF law] by blast
      obtain e2 rs e3 where run: "submitOrder oid u s OrderTypeMarket lv None tq m a tp sl OrderStatusFilled ?e1 = Some e2"
        "ProcessTrades D ts u s lv oid e2 = Some (rs, e3)" "exchange_ok e3" "accounted ?e1 e3"
        "ebook e3 = b2" "nextPosID e3 \<le> nextPosID e + 2 * int (length ts)"
        using process_filled [OF law e1(1,4,3,2), of oid u s OrderTypeMarket lv None tq m a tp sl s] by auto
      have u3: "uses e e3" using run(5,6) use by (simp add: uses_def)
      have a3: "accounted e e3" by (rule accounted_trans [OF a1 run(4)])
      let ?e4 = "\<lambda>i. e3\<lparr>positionCache := UpdateCached i (setTPSL tp sl) (positionCache e3)\<rparr>"
      have e4: "exchange_ok (?e4 i)" "accounted e (?e4 i)" for i
        using exchange_update [OF run(3) setTPSL_keeps]
          accounted_trans [OF a3 accounted_same, of "?e4 i"] by (simp_all add: pointers_Update)
      from go fee(1) q id pm res vw False run(1-3) a3 u3 e4 show ?thesis
        by (auto simp: PlaceMarketOrder_def Let_def)
    qed
  qed (use rejected fee in \<open>simp add: PlaceMarketOrder_def Let_def\<close>)+
qed

subsection \<open>Cancellation\<close>

lemma frozen_for_covers:
  assumes "orders_ok c oc n accs" and "map_of oc i = Some co"
  shows "order_cost c co \<le> frozen_of (coUserID co) accs" and "0 \<le> frozen_of u accs"
proof -
  let ?f = "\<lambda>u co. if coUserID co = u then order_cost c co else 0"
  have d: "distinct (map fst oc)" and fr: "\<And>u. frozen_of u accs = al_sum (?f u) oc"
    and cost: "\<And>j co. map_of oc j = Some co \<Longrightarrow> 0 \<le> order_cost c co"
    using assms(1) by (simp_all add: orders_ok_def frozen_for_def)
  show "0 \<le> frozen_of u accs" unfolding fr by (rule al_sum_nonneg [OF _ d]) (use cost in simp)
  have "0 \<le> al_sum (?f (coUserID co)) (AList.delete i oc)"
    by (rule al_sum_nonneg) (use cost d in \<open>auto split: if_splits\<close>)
  then show "order_cost c co \<le> frozen_of (coUserID co) accs"
    unfolding fr using al_sum_delete [OF d assms(2), of "?f (coUserID co)"] by simp
qed

lemma frozen_nonneg: "orders_ok c oc n accs \<Longrightarrow> 0 \<le> frozen_of u accs"
  by (simp add: orders_ok_def frozen_for_def) (rule al_sum_nonneg; auto)

lemma orders_ok_remove:
  assumes "orders_ok c oc n accs" and "map_of oc i = Some co"
  shows "orders_ok c (AList.delete i oc) n (Unfreeze (coUserID co) (order_cost c co) accs)"
    and "GetBalance v (Unfreeze (coUserID co) (order_cost c co) accs) =
      GetBalance v accs + (if v = coUserID co then order_cost c co else 0)"
proof -
  let ?u = "coUserID co"
  have acc: "holds_account ?u accs" using assms by (simp add: orders_ok_def)
  note un = ledger.unfreeze_ok [OF acc frozen_for_covers(1) [OF assms]] ledger.unfreeze_frame [of _ ?u]
  show "GetBalance v (Unfreeze ?u (order_cost c co) accs) = GetBalance v accs + (if v = ?u then order_cost c co else 0)"
    using un by (cases "v = ?u") auto
  have "frozen_of v (Unfreeze ?u (order_cost c co) accs) = frozen_for c v (AList.delete i oc)" for v
  proof -
    have "distinct (map fst oc)" "frozen_of v accs = frozen_for c v oc" using assms(1) by (simp_all add: orders_ok_def)
    with un al_sum_delete [OF _ assms(2), of "\<lambda>co. if coUserID co = v then order_cost c co else 0"] show ?thesis
      by (cases "v = ?u") (auto simp: frozen_for_def)
  qed
  then show "orders_ok c (AList.delete i oc) n (Unfreeze ?u (order_cost c co) accs)"
    using assms(1) by (auto simp: orders_ok_def split: if_splits)
qed

lemma CancelOrder_ok:
  assumes ok: "exchange_ok e"
  shows "\<exists>res e'. CancelOrder i u e = Some (res, e') \<and> exchange_ok e' \<and> accounted e e' \<and> uses e e'"
proof (cases "\<exists>co. GetOrder i (orderCache e) = Some co \<and> coUserID co = u")
  case False
  with ok show ?thesis by (auto simp: CancelOrder_def split: option.split)
next
  case True
  then obtain co where co: "map_of (orderCache e) i = Some co" and u: "coUserID co = u"
    by (auto simp: GetOrder_def)
  let ?cost = "order_cost (eclearance e) co"
  obtain f r where fee: "CalcMakerFee (eclearance e) (coMarginCost co * of_int (coLeverage co)) = Some (f, r)"
    using maker_fee_total(1) [OF ok] by blast
  then have cost: "coMarginCost co + f = ?cost" by (simp add: order_cost_def)
  obtain c b where cb: "Cancel i (ebook e) = (c, b)" by force
  have oo: "orders_ok (eclearance e) (orderCache e) (nextID (ebook e)) (memAccounts e)"
    and bk: "book_ok (ebook e)" "ids_below (ebook e)" using ok by (simp_all add: exchange_ok_def)
  note rem = orders_ok_remove [OF oo co, unfolded u]
  have b: "book_ok b" "ids_below b" "nextID b = nextID (ebook e)" "book_users b \<subseteq> book_users (ebook e)"
    using Cancel_keeps [OF bk(1) cb] Cancel_takes_part [OF bk(1) cb] nextID_frame(3) [OF cb] bk(2)
    by (auto simp: ids_below_def)
  let ?evt = "(empty_event EventCancelOrder)\<lparr>evOrderID := i, evUserID := u, evBalanceDelta := ?cost,
      evFrozenDelta := - ?cost\<rparr>"
  let ?e2 = "e\<lparr>ebook := b, memAccounts := Unfreeze u ?cost (memAccounts e),
      orderCache := AList.delete i (orderCache e)\<rparr>"
  have run: "CancelOrder i u e = Some (None, submit ?evt ?e2)"
    using co u fee cb by (simp add: CancelOrder_def GetOrder_def RemoveOrder_def Let_def submit_def flip: cost)
  have "engine_ok ?e2" using ok by (simp add: exchange_ok_def engine_ok_def owners_ok_def)
  then have "exchange_ok ?e2" using ok b rem(1) by (auto simp: exchange_ok_def)
  moreover have "accounted e (submit ?evt ?e2)"
    unfolding accounted_def
    by (intro conjI exI [of _ "[?evt]"]) (simp_all add: submits_def submit_def Submit_def rem(2) balance_delta_def empty_event_def)
  moreover have "uses e (submit ?evt ?e2)"
    using Cancel_takes_part [OF bk(1) cb] b(3) by (simp add: uses_def submit_def)
  ultimately show ?thesis using run by simp
qed

subsection \<open>Limit orders\<close>

lemma exchange_accounts:
  assumes "exchange_ok e" and "\<And>v. holds_account v accs = holds_account v (memAccounts e)"
    and "\<And>v. frozen_of v accs = frozen_of v (memAccounts e)"
  shows "exchange_ok (e\<lparr>memAccounts := accs\<rparr>)"
  using assms by (simp add: exchange_ok_def engine_ok_def owners_ok_def orders_ok_def)

lemma limit_fill:
  assumes ok: "exchange_ok e" and rm: "room (Suc k) e" and acc: "holds_account u (memAccounts e)"
    and id: "NextOrderID (ebook e) = (i, b1)"
    and pl: "PlaceLimit \<lparr>oID = i, oUserID = u, oSide = s, oPrice = p, oQuantity = q, oIsMaker = False\<rparr> b1 = ((ts, rem), b2)"
  shows "exchange_ok (e\<lparr>ebook := b2\<rparr>)" and "accounts_for ts e" and "\<forall>t \<in> set ts. 0 < tQuantity t"
    and "ids_left (2 * length ts) e" and "i = nextID (ebook e) + 1" and "nextID b2 = i"
    and "length ts \<le> book_size (ebook e)" and "book_size b2 \<le> Suc (book_size (ebook e))"
proof -
  have bk: "book_ok (ebook e)" "ids_below (ebook e)" and users: "\<forall>u \<in> book_users (ebook e). holds_account u (memAccounts e)"
    using ok by (simp_all add: exchange_ok_def)
  note next_ok = room_ids(1) [OF rm]
  note fresh = NextOrderID_fresh [OF id bk(2) next_ok]
  have b1: "book_ok b1" "book_users b1 = book_users (ebook e)" "book_size b1 = book_size (ebook e)" "nextID b1 = i"
    using fresh(2) bk(1) by (simp_all add: book_users_def book_size_def resting_def)
  have tp: "takes_part b1 \<lparr>oID = i, oUserID = u, oSide = s, oPrice = p, oQuantity = q, oIsMaker = False\<rparr> ts b2"
    by (rule PlaceLimit_takes_part [OF b1(1) pl])
  have b2: "book_ok b2" "order_ids b2 \<subseteq> insert i (order_ids b1)"
    using PlaceLimit_keeps [OF b1(1) _ pl] fresh(3) by auto
  show nid: "nextID b2 = i" using nextID_frame(1) [OF pl] b1(4) by simp
  show i: "i = nextID (ebook e) + 1" using fresh(1) .
  have below: "ids_below b2" using b2(2) fresh(4) nid b1(4) by (auto simp: ids_below_def)
  show "exchange_ok (e\<lparr>ebook := b2\<rparr>)"
    using tp b1 nid i by (intro exchange_book [OF ok b2(1) below _ _ acc]) (auto simp: takes_part_def)
  show "accounts_for ts e"
    using tp users acc b1(2) by (fastforce simp: takes_part_def accounts_for_def trade_users_def)
  show "\<forall>t \<in> set ts. 0 < tQuantity t" using tp by (simp add: takes_part_def)
  show "length ts \<le> book_size (ebook e)" and "book_size b2 \<le> Suc (book_size (ebook e))"
    using tp b1(3) by (simp_all add: takes_part_def)
  then show "ids_left (2 * length ts) e" using room_ids(2) [OF rm, of "length ts"] by simp
qed

text \<open>A new pending order joins the orders when its cost is frozen.\<close>

lemma orders_ok_add:
  assumes oo: "orders_ok c oc n accs" and new: "n < coID co" and cost: "0 \<le> order_cost c co"
    and fz: "Freeze (coUserID co) (order_cost c co) accs = (True, accs')"
  shows "orders_ok c (AddOrder co oc) (coID co) accs'"
proof -
  let ?u = "coUserID co"
  have u: "holds_account ?u accs" "order_cost c co \<le> GetBalance ?u accs"
    using ledger.freeze_True_iff [of ?u "order_cost c co" accs] fz by simp_all
  have "\<And>x. map_of oc (coID co) = Some x \<Longrightarrow> coID co \<le> n" using oo by (simp add: orders_ok_def)
  then have fresh: "map_of oc (coID co) = None" using new by (cases "map_of oc (coID co)") auto
  have fr: "frozen_of v accs' = frozen_of v accs + (if ?u = v then order_cost c co else 0)" for v
    using ledger.freeze_ok [OF u] ledger.freeze_frame [OF fz, of v] fz by (cases "v = ?u") auto
  have "frozen_of v accs' = frozen_for c v (AddOrder co oc)" for v
    using oo fresh by (simp add: orders_ok_def frozen_for_def AddOrder_def al_sum_fresh fr)
  then have a: "\<forall>v. frozen_of v accs' = frozen_for c v (AddOrder co oc)" by blast
  have "coID x = j \<and> j \<le> coID co \<and> 0 \<le> order_cost c x \<and> holds_account (coUserID x) accs'"
    if "map_of (AddOrder co oc) j = Some x" for j x
  proof (cases "j = coID co")
    case True
    with that cost u(1) ledger.freeze_holder [OF fz] show ?thesis by (simp add: AddOrder_def)
  next
    case False
    then have "map_of oc j = Some x" using that by (simp add: AddOrder_def)
    then have "coID x = j \<and> j \<le> n \<and> 0 \<le> order_cost c x \<and> holds_account (coUserID x) accs"
      using oo by (simp add: orders_ok_def)
    with new ledger.freeze_holder [OF fz] show ?thesis by simp
  qed
  then have b: "\<forall>j x. map_of (AddOrder co oc) j = Some x \<longrightarrow>
      coID x = j \<and> j \<le> coID co \<and> 0 \<le> order_cost c x \<and> holds_account (coUserID x) accs'" by blast
  have "distinct (map fst (AddOrder co oc))" using oo by (simp add: orders_ok_def AddOrder_def distinct_update)
  with a b show ?thesis unfolding orders_ok_def by blast
qed

text \<open>The order a limit order leaves in the cache, and the exchange with it.\<close>

definition resting_order ::
    "int \<Rightarrow> int \<Rightarrow> int \<Rightarrow> dec \<Rightarrow> dec \<Rightarrow> dec \<Rightarrow> int \<Rightarrow> dec option \<Rightarrow> dec option \<Rightarrow> cached_order" where
  "resting_order oid u s p q m lv tp sl =
     \<lparr>coID = oid, coUserID = u, coSide = s, coPrice = p, coQuantity = q, coMarginCost = m,
      coLeverage = lv, coTakeProfit = decimalPtrToString tp, coStopLoss = decimalPtrToString sl\<rparr>"

lemma submit_orderCache: "submit evt e\<lparr>orderCache := oc\<rparr> = submit evt (e\<lparr>orderCache := oc\<rparr>)"
  by (simp add: submit_def)

lemma limit_resting:
  fixes oid u s p q m lv tp sl
  defines "co \<equiv> resting_order oid u s p q m lv tp sl"
  assumes ok: "exchange_ok e" and fz: "Freeze u (m + fee) (memAccounts e) = (True, accs)"
    and fee: "CalcMakerFee (eclearance e) (m * of_int lv) = Some (fee, r)" and cost: "0 < m + fee"
    and book: "exchange_ok (e\<lparr>ebook := b2\<rparr>)" "nextID b2 = oid" "oid = nextID (ebook e) + 1"
  shows "\<exists>evt. submitOrder oid u s OrderTypeLimit lv (Some p) q m 0 tp sl OrderStatusPending
        (e\<lparr>memAccounts := accs, ebook := b2\<rparr>) = Some (submit evt (e\<lparr>memAccounts := accs, ebook := b2\<rparr>)) \<and>
      exchange_ok (submit evt (e\<lparr>memAccounts := accs, ebook := b2\<rparr>)\<lparr>orderCache := AddOrder co (orderCache e)\<rparr>) \<and>
      accounted e (submit evt (e\<lparr>memAccounts := accs, ebook := b2\<rparr>)\<lparr>orderCache := AddOrder co (orderCache e)\<rparr>)"
proof -
  let ?c = "eclearance e" and ?e2 = "e\<lparr>memAccounts := accs, ebook := b2\<rparr>"
  have co: "order_cost ?c co = m + fee" "coID co = oid" "coUserID co = u"
    using fee by (simp_all add: order_cost_def co_def resting_order_def)
  have "orders_ok ?c (orderCache e) (nextID (ebook e)) (memAccounts e)" using ok by (simp add: exchange_ok_def)
  then have "orders_ok ?c (AddOrder co (orderCache e)) oid accs"
    using orders_ok_add [of ?c _ _ _ co accs] book(3) cost fz co by simp
  with book(1,2) ledger.freeze_holder [OF fz]
  have e3: "exchange_ok (?e2\<lparr>orderCache := AddOrder co (orderCache e)\<rparr>)"
    by (simp add: exchange_ok_def engine_ok_def owners_ok_def)
  have bal: "GetBalance v accs = GetBalance v (memAccounts e) - (if v = u then m + fee else 0)" for v
    using ledger.freeze_ok [of u "memAccounts e" "m + fee"] ledger.freeze_frame [OF fz, of v]
      ledger.freeze_True_iff [of u "m + fee" "memAccounts e"] fz by (cases "v = u") auto
  obtain evt where so: "submitOrder oid u s OrderTypeLimit lv (Some p) q m 0 tp sl OrderStatusPending ?e2
      = Some (submit evt ?e2)" and ev: "\<forall>v. balance_delta v evt = (if v = u then - (m + fee) else 0)"
    using submitOrder_total [of ?e2 m lv fee r oid u s OrderTypeLimit "Some p" q 0 tp sl OrderStatusPending] fee by auto
  have "accounted e (submit evt ?e2\<lparr>orderCache := AddOrder co (orderCache e)\<rparr>)" unfolding accounted_def
    by (intro conjI exI [of _ "[evt]"])
      (simp_all add: submits_def submit_def Submit_def bal ev ledger.freeze_holder [OF fz])
  moreover have "exchange_ok (submit evt ?e2\<lparr>orderCache := AddOrder co (orderCache e)\<rparr>)"
    using e3 by (simp add: submit_orderCache)
  ultimately show ?thesis using so by blast
qed

lemma PlaceLimitOrder_ok:
  assumes law: "div_law D" and ok: "exchange_ok e" and rm: "room (Suc k) e"
  shows "\<exists>res e'. PlaceLimitOrder D u s lv m p tp sl e = Some (res, e') \<and> exchange_ok e' \<and> accounted e e' \<and> uses e e'"
proof -
  have rejected: ?thesis if "PlaceLimitOrder D u s lv m p tp sl e = Some (Inl err, e)" for err
    using that ok by simp
  let ?price = "GetPrice (priceCache e)" and ?c = "eclearance e"
  obtain fee r where fee: "CalcMakerFee ?c (m * of_int lv) = Some (fee, r)"
    "0 \<le> m * of_int lv \<longrightarrow> 0 \<le> fee" using maker_fee_total(1) [OF ok] by blast
  obtain q where q: "CalcQuantity D m lv p = Some q"
    using decimal.CalcQuantity_total [OF decimal.intro [OF law]] by blast
  have dv: "\<exists>x. Div D y ?price = Some x" if "?price \<noteq> 0" for y
    using decimal.div_defined [OF decimal.intro [OF law] that] by blast
  obtain fz accs where fz: "Freeze u (m + fee) (memAccounts e) = (fz, accs)" by force
  show ?thesis
  proof (cases "validateParams s lv m e = None \<and> p \<noteq> 0 \<and> checkPositionLimit u e = None \<and> ?price \<noteq> 0")
    case False
    with rejected show ?thesis
      by (auto simp: PlaceLimitOrder_def split: option.split)
  next
    case True
    then obtain x where x: "Div D \<bar>p - ?price\<bar> ?price = Some x" using dv by blast
    show ?thesis
    proof (cases "maxPriceDeviation e < x \<or> \<not> fz")
      case early: True
      have "accs = memAccounts e" if "\<not> fz"
        using ledger.freeze_fails [of u "memAccounts e" "m + fee"] ledger.freeze_True_iff [of u "m + fee" "memAccounts e"]
          fz that by (cases "holds_account u (memAccounts e) \<and> m + fee \<le> GetBalance u (memAccounts e)") auto
      with early rejected True x q fee fz show ?thesis by (auto simp: PlaceLimitOrder_def Let_def)
    next
      case go: False
      then have fz: "Freeze u (m + fee) (memAccounts e) = (True, accs)" using fz by simp
      have "0 < m" "1 \<le> lv" using True ok by (auto simp: validateParams_def exchange_ok_def split: if_splits)
      then have cost: "0 < m + fee" using fee(2) by (simp add: add_pos_nonneg)
      have oo: "orders_ok ?c (orderCache e) (nextID (ebook e)) (memAccounts e)" using ok by (simp add: exchange_ok_def)
      have acc: "holds_account u (memAccounts e)"
        using ledger.freeze_True_iff [of u "m + fee" "memAccounts e"] fz by simp
      obtain oid b1 where id: "NextOrderID (ebook e) = (oid, b1)" by force
      obtain ts rem b2 where pl: "PlaceLimit \<lparr>oID = oid, oUserID = u, oSide = s, oPrice = p, oQuantity = q,
          oIsMaker = False\<rparr> b1 = ((ts, rem), b2)" by (metis surj_pair)
      note fill = limit_fill [OF ok rm acc id pl]
      show ?thesis
      proof (cases "ts \<noteq> [] \<and> rem = None")
        case filled: True
        let ?e3 = "e\<lparr>ebook := b2, memAccounts := Unfreeze u (m + fee) accs\<rparr>"
        note rt = ledger.freeze_unfreeze [OF fz frozen_nonneg [OF oo]] ledger.freeze_holder [OF fz]
        have e3: "exchange_ok ?e3" by (rule exchange_accounts [OF fill(1)]) (simp_all add: rt)
        have a3: "accounted e ?e3" by (auto simp: accounted_def submits_def rt intro!: exI [of _ "[]"])
        have p3: "ids_left (2 * length ts) ?e3" "accounts_for ts ?e3"
          using fill(2,4) by (simp_all add: ids_left_def accounts_for_def rt)
        obtain a tq where vw: "CalcVWAP D ts = Some (a, tq)" using CalcVWAP_total [OF law] by blast
        obtain e4 rs e5 where run: "submitOrder oid u s OrderTypeLimit lv (Some p) tq m a tp sl OrderStatusFilled ?e3 = Some e4"
          "ProcessTrades D ts u s lv oid e4 = Some (rs, e5)" "exchange_ok e5" "accounted ?e3 e5"
          "ebook e5 = b2" "nextPosID e5 \<le> nextPosID e + 2 * int (length ts)"
          using process_filled [OF law e3 p3(1) fill(3) p3(2), of oid u s OrderTypeLimit lv "Some p" tq m a tp sl s] by auto
        have "uses e e5" using run(5,6) fill(5-8) by (simp add: uses_def)
        with True go fee(1) q x fz id pl filled vw run(1-3) accounted_trans [OF a3 run(4)]
        show ?thesis by (simp add: PlaceLimitOrder_def Let_def)
      next
        case resting: False
        obtain evt where rest: "submitOrder oid u s OrderTypeLimit lv (Some p) q m 0 tp sl OrderStatusPending
            (e\<lparr>memAccounts := accs, ebook := b2\<rparr>) = Some (submit evt (e\<lparr>memAccounts := accs, ebook := b2\<rparr>))"
          "exchange_ok (submit evt (e\<lparr>memAccounts := accs, ebook := b2\<rparr>)
             \<lparr>orderCache := AddOrder (resting_order oid u s p q m lv tp sl) (orderCache e)\<rparr>)"
          "accounted e (submit evt (e\<lparr>memAccounts := accs, ebook := b2\<rparr>)
             \<lparr>orderCache := AddOrder (resting_order oid u s p q m lv tp sl) (orderCache e)\<rparr>)"
          using limit_resting [OF ok fz fee(1) cost fill(1,6,5)] by blast
        moreover have "uses e (submit evt (e\<lparr>memAccounts := accs, ebook := b2\<rparr>)
             \<lparr>orderCache := AddOrder (resting_order oid u s p q m lv tp sl) (orderCache e)\<rparr>)"
          using fill(5-8) by (simp add: uses_def submit_def)
        ultimately show ?thesis using rest True go fee(1) q x fz id pl resting
          by (auto simp: PlaceLimitOrder_def Let_def submit_def resting_order_def)
      qed
    qed
  qed
qed

end
