(* ===== verification/Exchange_Props.thy ===== *)
theory Exchange_Props
  imports Exchange
begin

section \<open>Every sequence of requests\<close>

text \<open>
  The requests the handlers and the risk monitor send to the engine, the engine's answer to one of
  them, and the exchanges a sequence of them leads to. Progress: no request panics. Preservation:
  the invariant of the exchange and the agreement of memory with the settlement hold in every
  reachable exchange.
\<close>

subsection \<open>Requests\<close>

datatype request =
    Market int int int int dec "dec option" "dec option"
  | Limit int int int dec dec "dec option" "dec option"
  | Withdraw int int
  | CloseBy int int int dec
  | ForceClose int dec int
  | Quote dec

fun perform :: "decimal_lib \<Rightarrow> request \<Rightarrow> engine \<Rightarrow> engine option" where
  "perform D (Market u s lv mm m tp sl) e = map_option snd (PlaceMarketOrder D u s lv mm m tp sl e)"
| "perform D (Limit u s lv m p tp sl) e = map_option snd (PlaceLimitOrder D u s lv m p tp sl e)"
| "perform D (Withdraw i u) e = map_option snd (CancelOrder i u e)"
| "perform D (CloseBy i u reason q) e = map_option snd (ClosePosition D i u reason q e)"
| "perform D (ForceClose i p reason) e = map_option snd (ClosePositionInternal D i p reason e)"
| "perform D (Quote p) e = map_option (\<lambda>pc. e\<lparr>priceCache := pc\<rparr>) (SetPrice D p (priceCache e))"

lemma perform_ok:
  assumes law: "div_law D" and ok: "exchange_ok e" and rm: "room (Suc k) e"
  shows "\<exists>e'. perform D r e = Some e' \<and> exchange_ok e' \<and> accounted e e' \<and> uses e e'"
proof (cases r)
  case (Quote p)
  obtain pc where "SetPrice D p (priceCache e) = Some pc" using decimal.SetPrice_total [OF decimal.intro [OF law]] by blast
  with Quote ok show ?thesis by (auto simp: exchange_ok_def engine_ok_def intro: accounted_same simp: uses_def)
next
  case (Market u s lv mm m tp sl)
  then show ?thesis using PlaceMarketOrder_ok [OF law ok rm, of u s lv mm m tp sl] by auto
next
  case (Limit u s lv m p tp sl)
  then show ?thesis using PlaceLimitOrder_ok [OF law ok rm, of u s lv m p tp sl] by auto
next
  case (Withdraw i u)
  then show ?thesis using CancelOrder_ok [OF ok, of i u] by auto
next
  case (CloseBy i u reason q)
  then show ?thesis using ClosePosition_ok [OF law ok rm, of i u reason q] by auto
next
  case (ForceClose i p reason)
  then show ?thesis using ClosePositionInternal_ok [OF law ok rm, of i p reason] by auto
qed

inductive serves :: "decimal_lib \<Rightarrow> engine \<Rightarrow> request list \<Rightarrow> engine \<Rightarrow> bool" for D where
  serves_none: "serves D e [] e"
| serves_one: "perform D r e = Some e1 \<Longrightarrow> serves D e1 rs e2 \<Longrightarrow> serves D e (r # rs) e2"

inductive_cases serves_ConsE: "serves D e (r # rs) e'"
inductive_simps serves_Nil [simp]: "serves D e [] e'"

lemma serves_progress:
  assumes law: "div_law D"
  shows "exchange_ok e \<Longrightarrow> room (length rs) e \<Longrightarrow> \<exists>e'. serves D e rs e'"
proof (induction rs arbitrary: e)
  case (Cons r rs)
  then obtain e1 where "perform D r e = Some e1" "exchange_ok e1" "uses e e1"
    using perform_ok [OF law, of e "length rs" r] by auto
  moreover then obtain e2 where "serves D e1 rs e2"
    using Cons.IH [of e1] Cons.prems(2) room_uses [of "length rs" e e1] by auto
  ultimately show ?case using serves_one by blast
qed (auto intro: serves_none)

lemma serves_invariant:
  "serves D e rs e' \<Longrightarrow> div_law D \<Longrightarrow> exchange_ok e \<Longrightarrow> room (length rs) e \<Longrightarrow> exchange_ok e' \<and> accounted e e'"
proof (induction rule: serves.induct)
  case (serves_one r e e1 rs e2)
  then have "exchange_ok e1" "accounted e e1" "uses e e1"
    using perform_ok [of D e "length rs" r] by auto
  with serves_one room_uses [of "length rs" e e1] show ?case using accounted_trans by auto
qed simp

subsection \<open>A sample exchange\<close>

lemma sample_exchange_ok: "exchange_ok sample_engine"
proof -
  have "book_reach NewBook" by (rule reach_new)
  then have "book_ok NewBook" "ids_below NewBook" using book_reach_inv by blast+
  moreover have "fee_rates sample_clearance (4 / 10000)"
    by (auto simp: fee_rates_def sample_clearance_def NewClearance_def GetTier_def NewCalculator_def
        DefaultTiers_def mk_tier_def)
  ultimately show ?thesis
    using sample_engine_ok
    by (auto simp: exchange_ok_def orders_ok_def frozen_for_def sample_engine_def NewEngine_def NewOrderCache_def
        book_users_def resting_def NewBook_def ledger_defs NewAccountCache_def)
qed

lemma sample_room: "n \<le> 9 \<Longrightarrow> room n sample_engine"
proof -
  assume "n \<le> 9"
  then have "int n * int n \<le> 9 * 9" by (intro mult_mono) auto
  then show ?thesis
    using \<open>n \<le> 9\<close> by (simp add: room_def book_size_def resting_def sample_engine_def NewEngine_def NewBook_def)
qed

subsection \<open>Progress and preservation\<close>

text \<open>
  C3. Progress: a well-formed exchange with IDs left serves every sequence of requests to the end.
  Market and limit orders, cancellations, closings by the user or by the risk monitor and
  price updates never panic, and the exchange they leave is well formed again.
\<close>

theorem serves_all:
  assumes "div_law D" and "exchange_ok e" and "room (length rs) e"
  shows "\<exists>e'. serves D e rs e' \<and> exchange_ok e'"
proof -
  obtain e' where "serves D e rs e'" using serves_progress [OF assms] by blast
  with serves_invariant [OF this assms] show ?thesis by blast
qed

theorem serves_all_witness:
  "\<exists>e'. serves dec16 sample_engine [Limit 7 1 10 20 100 None (Some 90), CloseBy 1 7 0 0] e' \<and> exchange_ok e'"
  using serves_all [OF dec16_law sample_exchange_ok, of "[Limit 7 1 10 20 100 None (Some 90), CloseBy 1 7 0 0]"]
  by (simp add: sample_room)

text \<open>
  C2. In every exchange reached from a well-formed one by any sequence of requests, the amount
  frozen on each account is the cost (margin and maker fee) of the user's pending orders, the
  owner of every position and of every resting order has an account, and every real user's
  available balance has changed by exactly what the submitted events tell the settlement.
\<close>

theorem serves_safe:
  assumes "serves D e rs e'" and "div_law D" and "exchange_ok e" and "room (length rs) e"
  shows "(\<forall>u. frozen_of u (memAccounts e') = frozen_for (eclearance e') u (orderCache e')) \<and>
    (\<forall>i p. map_of (posLive (positionCache e')) i = Some p \<longrightarrow> holds_account (pUserID p) (memAccounts e')) \<and>
    (\<forall>u \<in> book_users (ebook e'). holds_account u (memAccounts e')) \<and>
    (\<exists>evts. events (esettler e') = events (esettler e) @ evts \<and>
       (\<forall>v > 0. GetBalance v (memAccounts e') =
          GetBalance v (memAccounts e) + sum_list (map (balance_delta v) evts)))"
proof -
  have inv: "exchange_ok e'" "accounted e e'" using serves_invariant [OF assms] by blast+
  then show ?thesis
    by (auto simp: exchange_ok_def orders_ok_def engine_ok_def owners_ok_def accounted_def submits_def event_sum_def)
qed

theorem serves_safe_witness:
  "\<exists>e'. serves dec16 sample_engine [Limit 7 1 10 20 100 None None] e' \<and>
     frozen_of 7 (memAccounts e') = frozen_for (eclearance e') 7 (orderCache e')"
proof -
  obtain e' where "serves dec16 sample_engine [Limit 7 1 10 20 100 None None] e'"
    using serves_progress [OF dec16_law sample_exchange_ok, of "[Limit 7 1 10 20 100 None None]"] sample_room by auto
  then show ?thesis using serves_safe [OF _ dec16_law sample_exchange_ok, of "[Limit 7 1 10 20 100 None None]" e'] sample_room
    by auto
qed

end
