(* ===== verification/ADL.thy ===== *)
theory ADL
  imports Position_Cache Position_Calc
begin

section \<open>Auto-deleveraging (\<open>internal/engine/adl/engine.go\<close>)\<close>

text \<open>
  The ranking of the opposing profitable positions and the reduction of the ranked positions until
  a deficit is covered. Both functions only read the positions, at one moment, so positions are
  values here. \<open>sort.Slice\<close> is an argument: its documentation promises a permutation in which no
  element is less than an earlier one, and no order among equal elements.
\<close>

subsection \<open>Sorting a slice\<close>

type_synonym 'a slice_sort = "('a \<Rightarrow> 'a \<Rightarrow> bool) \<Rightarrow> 'a list \<Rightarrow> 'a list"

definition sort_law :: "'a slice_sort \<Rightarrow> bool" where
  "sort_law S \<longleftrightarrow> (\<forall>(key :: 'a \<Rightarrow> dec) xs.
     mset (S (\<lambda>x y. key y < key x) xs) = mset xs \<and>
     sorted_wrt (\<lambda>x y. key y \<le> key x) (S (\<lambda>x y. key y < key x) xs))"

locale slice_sorter =
  fixes S :: "'a slice_sort"
  assumes law: "sort_law S"
begin

lemma sorts_permutes: "mset (S (\<lambda>x y. key y < (key x :: dec)) xs) = mset xs"
  using law unfolding sort_law_def by blast

lemma sorts_descending: "sorted_wrt (\<lambda>x y. key y \<le> (key x :: dec)) (S (\<lambda>x y. key y < key x) xs)"
  using law unfolding sort_law_def by blast

lemma sorts_same_set: "set (S (\<lambda>x y. key y < (key x :: dec)) xs) = set xs"
  using sorts_permutes [of key xs] by (metis set_mset_mset)

end

text \<open>An insertion sort keeps the law; the witnesses use it.\<close>

fun insert_by :: "('a \<Rightarrow> 'a \<Rightarrow> bool) \<Rightarrow> 'a \<Rightarrow> 'a list \<Rightarrow> 'a list" where
  "insert_by lt x [] = [x]"
| "insert_by lt x (y # ys) = (if lt y x then y # insert_by lt x ys else x # y # ys)"

definition insertion :: "'a slice_sort" where
  "insertion lt xs = foldr (insert_by lt) xs []"

lemma mset_insert_by [simp]: "mset (insert_by lt x xs) = add_mset x (mset xs)"
  by (induction xs) auto

lemma set_insert_by [simp]: "set (insert_by lt x xs) = insert x (set xs)"
  by (induction xs) auto

lemma sorted_insert_by:
  "sorted_wrt (\<lambda>x y. key y \<le> (key x :: dec)) xs \<Longrightarrow>
   sorted_wrt (\<lambda>x y. key y \<le> key x) (insert_by (\<lambda>x y. key y < key x) x xs)"
  by (induction xs) (auto simp: not_less)

interpretation insertion: slice_sorter insertion
proof
  have "mset (foldr (insert_by (\<lambda>x y. key y < key x)) xs []) = mset xs \<and>
      sorted_wrt (\<lambda>x y. key y \<le> key x) (foldr (insert_by (\<lambda>x y. key y < key x)) xs [])"
    for key :: "'a \<Rightarrow> dec" and xs
    by (induction xs) (simp_all add: sorted_insert_by)
  then show "sort_law (insertion :: 'a slice_sort)" by (simp add: sort_law_def insertion_def)
qed

subsection \<open>Ranking\<close>

record ranked_position =
  rpPosition :: cached_position
  rpPnlRatio :: dec
  rpScore :: dec

text \<open>One position: skipped, or ranked; the outer option is a panic.\<close>

definition rankOne ::
    "decimal_lib \<Rightarrow> int \<Rightarrow> dec \<Rightarrow> dec \<Rightarrow> cached_position \<Rightarrow> ranked_position option option" where
  "rankOne D targetSide currentPrice bankruptcyPrice pos =
     (if pSide pos \<noteq> targetSide then Some None
      else if pState pos \<noteq> PosStateActive then Some None
      else
        let entryPrice = NewFromString (pEntryPrice pos);
            quantity = NewFromString (pQuantity pos);
            margin = NewFromString (pMargin pos);
            upnl = CalcUnrealizedPnL entryPrice currentPrice quantity (pSide pos)
        in if \<not> 0 < upnl then Some None
           else
             let upnlAtBankruptcy = CalcUnrealizedPnL entryPrice bankruptcyPrice quantity (pSide pos)
             in if \<not> 0 < upnlAtBankruptcy then Some None
                else do {
                  pnlRatio \<leftarrow> CalcROI D upnl margin;
                  let leverageFactor = of_int (pLeverage pos);
                  let score = pnlRatio * leverageFactor;
                  Some (Some \<lparr>rpPosition = pos, rpPnlRatio = pnlRatio, rpScore = score\<rparr>)
                })"

fun rankAll ::
    "decimal_lib \<Rightarrow> cached_position list \<Rightarrow> int \<Rightarrow> dec \<Rightarrow> dec \<Rightarrow> ranked_position list option" where
  "rankAll D [] targetSide currentPrice bankruptcyPrice = Some []"
| "rankAll D (pos # positions) targetSide currentPrice bankruptcyPrice =
     do {
       r \<leftarrow> rankOne D targetSide currentPrice bankruptcyPrice pos;
       ranked \<leftarrow> rankAll D positions targetSide currentPrice bankruptcyPrice;
       Some (case r of None \<Rightarrow> ranked | Some rp \<Rightarrow> rp # ranked)
     }"

definition RankPositions ::
    "decimal_lib \<Rightarrow> ranked_position slice_sort \<Rightarrow> cached_position list \<Rightarrow> int \<Rightarrow> dec \<Rightarrow> dec \<Rightarrow>
     ranked_position list option" where
  "RankPositions D sortSlice positions targetSide currentPrice bankruptcyPrice =
     do {
       ranked \<leftarrow> rankAll D positions targetSide currentPrice bankruptcyPrice;
       Some (sortSlice (\<lambda>ri rj. rpScore rj < rpScore ri) ranked)
     }"

subsection \<open>Execution\<close>

record adl_result =
  arPositionID :: int
  arUserID :: int
  arReducedQty :: dec
  arReducedMargin :: dec
  arRealizedPnl :: dec
  arSettlementPrice :: dec
  arRemainingQty :: dec
  arFullyClosed :: bool

definition settlement_price :: "cached_position \<Rightarrow> dec \<Rightarrow> dec" where
  "settlement_price pos bankruptcyPrice =
     (let entryPrice = NewFromString (pEntryPrice pos)
      in if pSide pos = 1 \<and> bankruptcyPrice < entryPrice then entryPrice
         else if pSide pos = - 1 \<and> entryPrice < bankruptcyPrice then entryPrice
         else bankruptcyPrice)"

text \<open>The quantity to reduce, the amount it covers, and whether it is the whole position.\<close>

definition reduceBy :: "decimal_lib \<Rightarrow> dec \<Rightarrow> dec \<Rightarrow> dec \<Rightarrow> (dec \<times> dec \<times> bool) option" where
  "reduceBy D remainingDeficit profitGivenUpPerUnit quantity =
     do {
       neededQty \<leftarrow> Div D remainingDeficit profitGivenUpPerUnit;
       let fullyClosed = (quantity \<le> neededQty);
       let reducedQty = (if fullyClosed then quantity else neededQty);
       let coveredAmount = reducedQty * profitGivenUpPerUnit;
       (if remainingDeficit < coveredAmount then do {
          q \<leftarrow> Div D remainingDeficit profitGivenUpPerUnit;
          Some (q, remainingDeficit, False)
        } else Some (reducedQty, coveredAmount, fullyClosed))
     }"

fun ExecuteADL ::
    "decimal_lib \<Rightarrow> ranked_position list \<Rightarrow> dec \<Rightarrow> dec \<Rightarrow> dec \<Rightarrow> (adl_result list \<times> dec) option" where
  "ExecuteADL D [] remainingDeficit bankruptcyPrice currentPrice = Some ([], remainingDeficit)"
| "ExecuteADL D (rp # ranked) remainingDeficit bankruptcyPrice currentPrice =
     (if remainingDeficit = 0 \<or> remainingDeficit < 0 then Some ([], remainingDeficit)
      else
        let pos = rpPosition rp;
            entryPrice = NewFromString (pEntryPrice pos);
            quantity = NewFromString (pQuantity pos);
            margin = NewFromString (pMargin pos);
            settlementPrice = settlement_price pos bankruptcyPrice;
            marketPnlPerUnit = (currentPrice - entryPrice) * of_int (pSide pos);
            settlePnlPerUnit = (settlementPrice - entryPrice) * of_int (pSide pos);
            profitGivenUpPerUnit = marketPnlPerUnit - settlePnlPerUnit
        in if \<not> 0 < profitGivenUpPerUnit then ExecuteADL D ranked remainingDeficit bankruptcyPrice currentPrice
           else do {
             (reducedQty, coveredAmount, fullyClosed) \<leftarrow> reduceBy D remainingDeficit profitGivenUpPerUnit quantity;
             ratio \<leftarrow> Div D reducedQty quantity;
             let reducedMargin = margin * ratio;
             let realizedPnl = CalcUnrealizedPnL entryPrice settlementPrice reducedQty (pSide pos);
             (results, remaining) \<leftarrow> ExecuteADL D ranked (remainingDeficit - coveredAmount) bankruptcyPrice currentPrice;
             Some (\<lparr>arPositionID = pID pos, arUserID = pUserID pos, arReducedQty = reducedQty,
                    arReducedMargin = reducedMargin, arRealizedPnl = realizedPnl,
                    arSettlementPrice = settlementPrice, arRemainingQty = quantity - reducedQty,
                    arFullyClosed = fullyClosed\<rparr> # results, remaining)
           })"

definition GetADLIndicator :: "dec \<Rightarrow> int \<Rightarrow> int" where
  "GetADLIndicator pnlRatio totalPositions =
     (if totalPositions = 0 then 1
      else let hundred = 100 in
        if hundred * 4 < pnlRatio then 5
        else if hundred * 3 < pnlRatio then 4
        else if hundred * 2 < pnlRatio then 3
        else if hundred < pnlRatio then 2
        else 1)"

subsection \<open>What is ranked\<close>

definition eligible :: "int \<Rightarrow> dec \<Rightarrow> dec \<Rightarrow> cached_position \<Rightarrow> bool" where
  "eligible s cur bank p \<longleftrightarrow>
     pSide p = s \<and> pState p = PosStateActive \<and>
     0 < CalcUnrealizedPnL (NewFromString (pEntryPrice p)) cur (NewFromString (pQuantity p)) s \<and>
     0 < CalcUnrealizedPnL (NewFromString (pEntryPrice p)) bank (NewFromString (pQuantity p)) s"

context decimal
begin

lemma rankOne_total:
  "\<exists>r. rankOne D s cur bank p = Some r \<and> (case r of None \<Rightarrow> \<not> eligible s cur bank p
     | Some rp \<Rightarrow> eligible s cur bank p \<and> rpPosition rp = p)"
proof -
  obtain x where "CalcROI D (CalcUnrealizedPnL (NewFromString (pEntryPrice p)) cur (NewFromString (pQuantity p)) (pSide p))
      (NewFromString (pMargin p)) = Some x" using CalcROI_total by blast
  then show ?thesis by (auto simp: rankOne_def eligible_def Let_def)
qed

lemma rankAll_total:
  "\<exists>rs. rankAll D ps s cur bank = Some rs \<and> map rpPosition rs = filter (eligible s cur bank) ps"
proof (induction ps)
  case (Cons p ps)
  with rankOne_total [of s cur bank p] show ?case by (fastforce split: option.splits)
qed simp

end

text \<open>
  Ranking never panics. It lists exactly the active positions of the target side that are in
  profit both at the market price and at the bankruptcy price, each as often as it was given, and
  no position stands behind one with a lower score.
\<close>

theorem RankPositions_ranks:
  assumes "div_law D" and "sort_law sortSlice"
  shows "\<exists>ranked. RankPositions D sortSlice ps s cur bank = Some ranked \<and>
    mset (map rpPosition ranked) = mset (filter (eligible s cur bank) ps) \<and>
    sorted_wrt (\<lambda>x y. rpScore y \<le> rpScore x) ranked"
proof -
  obtain rs where rs: "rankAll D ps s cur bank = Some rs" "map rpPosition rs = filter (eligible s cur bank) ps"
    using decimal.rankAll_total [OF decimal.intro [OF assms(1)]] by blast
  note srt = slice_sorter.sorts_permutes [OF slice_sorter.intro [OF assms(2)], of rpScore rs]
    slice_sorter.sorts_descending [OF slice_sorter.intro [OF assms(2)], of rpScore rs]
  have "mset (map rpPosition (sortSlice (\<lambda>x y. rpScore y < rpScore x) rs)) = mset (map rpPosition rs)"
    using srt(1) by (simp only: mset_map)
  with rs srt(2) show ?thesis by (simp add: RankPositions_def)
qed

subsection \<open>What is reduced\<close>

text \<open>Positions the ranking lists, with the quantity of an open position.\<close>

definition adl_ready :: "int \<Rightarrow> dec \<Rightarrow> dec \<Rightarrow> ranked_position list \<Rightarrow> bool" where
  "adl_ready s cur bank ranked \<longleftrightarrow>
     (\<forall>rp \<in> set ranked. eligible s cur bank (rpPosition rp) \<and> 0 < NewFromString (pQuantity (rpPosition rp)))"

definition reduced :: "adl_result list \<Rightarrow> dec" where
  "reduced rs = sum_list (map arReducedQty rs)"

text \<open>The counterparty settles at the bankruptcy price and is in profit there.\<close>

lemma eligible_gain:
  assumes "eligible s cur bank p" and "0 < NewFromString (pQuantity p)"
  shows "0 < (bank - NewFromString (pEntryPrice p)) * of_int s"
  using assms by (simp add: eligible_def CalcUnrealizedPnL_def mult.assoc mult.left_commute zero_less_mult_iff)

lemma eligible_settlement:
  assumes "eligible s cur bank p" and "0 < NewFromString (pQuantity p)"
  shows "settlement_price p bank = bank"
  using eligible_gain [OF assms] assms(1) by (auto simp: settlement_price_def eligible_def Let_def)

context decimal
begin

lemma reduceBy_bounds:
  assumes "0 < d" and "0 < u" and "0 < q"
  obtains red cov fc where "reduceBy D d u q = Some (red, cov, fc)" and "0 \<le> red" and "0 \<le> cov" and "cov \<le> d"
    and "cov \<le> u * red" and "u * red \<le> cov + u * ulp" and "cov < d \<Longrightarrow> u * red = cov"
    and "\<not> fc \<Longrightarrow> d - cov < u * ulp" and "fc \<Longrightarrow> red = q"
proof -
  obtain n where n: "Div D d u = Some n" using div_defined assms(2) by fastforce
  have "\<bar>n - d / u\<bar> < ulp" using div_error [OF n] assms(2) by simp
  then have near: "d < u * n + u * ulp" "u * n < d + u * ulp"
    using assms(2) by (simp_all add: abs_less_iff field_simps)
  have n0: "0 \<le> n" using div_nonneg [OF n] assms(1,2) by simp
  show thesis
  proof (cases "d < (if q \<le> n then q else n) * u")
    case True
    then have run: "reduceBy D d u q = Some (n, d, False)" by (simp add: reduceBy_def n Let_def)
    have le: "d \<le> u * n"
    proof (cases "q \<le> n")
      case qn: True
      have "u * q \<le> u * n" by (rule mult_left_mono [OF qn]) (use assms(2) in simp)
      with True qn show ?thesis by (simp add: mult.commute [of q])
    qed (use True in \<open>simp add: mult.commute\<close>)
    show thesis by (rule that [OF run]) (use le near n0 assms in simp_all)
  next
    case False
    then have "reduceBy D d u q = Some (if q \<le> n then q else n, (if q \<le> n then q else n) * u, q \<le> n)"
      by (simp add: reduceBy_def n Let_def)
    then show thesis by (rule that) (use near n0 assms False in \<open>auto simp: mult.commute\<close>)
  qed
qed

lemma ExecuteADL_covers:
  assumes "s = 1 \<or> s = - 1" and u: "u = of_int s * (cur - bank)" "0 < u" and "adl_ready s cur bank ranked" and "0 \<le> d"
  shows "\<exists>rs rem. ExecuteADL D ranked d bank cur = Some (rs, rem) \<and> 0 \<le> rem \<and> rem \<le> d \<and> (d = 0 \<longrightarrow> rs = []) \<and>
    d - rem \<le> u * reduced rs \<and> u * reduced rs \<le> d - rem + u * ulp \<and>
    (\<forall>r \<in> set rs. arSettlementPrice r = bank \<and> 0 \<le> arReducedQty r \<and> 0 \<le> arRealizedPnl r) \<and>
    (u * ulp \<le> rem \<longrightarrow> map arPositionID rs = map (pID \<circ> rpPosition) ranked \<and> (\<forall>r \<in> set rs. arRemainingQty r = 0))"
  using assms(4,5)
proof (induction ranked arbitrary: d)
  case Nil
  then show ?case using u(2) by (simp add: reduced_def)
next
  case (Cons rp ranked)
  show ?case
  proof (cases "d = 0")
    case True
    moreover have "\<not> u * ulp \<le> 0" using mult_pos_pos [OF u(2) ulp_pos] by simp
    ultimately show ?thesis using u(2) by (simp add: reduced_def)
  next
    case False
    let ?p = "rpPosition rp"
    let ?q = "NewFromString (pQuantity ?p)"
    have el: "eligible s cur bank ?p" "0 < ?q" "adl_ready s cur bank ranked" using Cons.prems(1) by (simp_all add: adl_ready_def)
    have side: "pSide ?p = s" using el(1) by (simp add: eligible_def)
    have d: "0 < d" using False Cons.prems(2) by simp
    have per: "(cur - e) * of_int s - (bank - e) * of_int s = u" for e by (simp add: u(1) algebra_simps)
    then have gain: "(bank - e) * of_int s < (cur - e) * of_int s" for e using u(2) by (metis diff_gt_0_iff_gt)
    obtain red cov fc where r: "reduceBy D d u ?q = Some (red, cov, fc)" and b: "0 \<le> red" "0 \<le> cov" "cov \<le> d"
      "cov \<le> u * red" "u * red \<le> cov + u * ulp" "cov < d \<Longrightarrow> u * red = cov"
      "\<not> fc \<Longrightarrow> d - cov < u * ulp" "fc \<Longrightarrow> red = ?q"
      using reduceBy_bounds [OF d u(2) el(2)] by metis
    obtain ratio where ratio: "Div D red ?q = Some ratio" using div_defined el(2) by fastforce
    obtain rs rem where ih: "ExecuteADL D ranked (d - cov) bank cur = Some (rs, rem)" "0 \<le> rem" "rem \<le> d - cov"
      "d - cov = 0 \<longrightarrow> rs = []" "d - cov - rem \<le> u * reduced rs" "u * reduced rs \<le> d - cov - rem + u * ulp"
      "\<forall>r \<in> set rs. arSettlementPrice r = bank \<and> 0 \<le> arReducedQty r \<and> 0 \<le> arRealizedPnl r"
      "u * ulp \<le> rem \<longrightarrow> map arPositionID rs = map (pID \<circ> rpPosition) ranked \<and> (\<forall>r \<in> set rs. arRemainingQty r = 0)"
      using Cons.IH [OF el(3), of "d - cov"] b(3) by auto
    define ar where "ar = \<lparr>arPositionID = pID ?p, arUserID = pUserID ?p, arReducedQty = red,
        arReducedMargin = NewFromString (pMargin ?p) * ratio,
        arRealizedPnl = CalcUnrealizedPnL (NewFromString (pEntryPrice ?p)) bank red s,
        arSettlementPrice = bank, arRemainingQty = ?q - red, arFullyClosed = fc\<rparr>"
    have run: "ExecuteADL D (rp # ranked) d bank cur = Some (ar # rs, rem)"
      using d u(2) by (simp add: Let_def eligible_settlement [OF el(1,2)] side per gain r ratio ih(1) ar_def)
    have "0 \<le> arRealizedPnl ar" using eligible_gain [OF el(1,2)] b(1)
      by (simp add: ar_def CalcUnrealizedPnL_def mult.assoc mult.left_commute)
    moreover have "d - rem \<le> u * reduced (ar # rs)" using b(4) ih(5) by (simp add: reduced_def ar_def distrib_left)
    moreover have "u * reduced (ar # rs) \<le> d - rem + u * ulp"
      using b(3,5,6) ih(2,3,4,6) by (cases "cov = d") (simp_all add: reduced_def ar_def distrib_left)
    moreover have "u * ulp \<le> rem \<longrightarrow> fc" using b(7) ih(3) by linarith
    ultimately show ?thesis
      using run ih(2,3,7,8) b(1,2,8) d by (intro exI [of _ "ar # rs"] exI [of _ rem]) (auto simp: ar_def)
  qed
qed

end

text \<open>
  C36. Executing the reductions never panics and never makes a counterparty lose: every ranked
  position settles at the bankruptcy price with a realized profit that is not negative. The profit
  the counterparties give up (the reduced quantities times the distance from market to bankruptcy
  price) covers what the deficit shrinks by, and exceeds it by at most the rounding of one quotient;
  a deficit left over, beyond that rounding, means that every ranked position was closed in full.
\<close>

theorem ExecuteADL_fair:
  assumes "div_law D" and "s = 1 \<or> s = - 1" and "u = of_int s * (cur - bank)" and "0 < u"
    and "adl_ready s cur bank ranked" and "0 \<le> d"
  shows "\<exists>rs rem. ExecuteADL D ranked d bank cur = Some (rs, rem) \<and> 0 \<le> rem \<and> rem \<le> d \<and>
    d - rem \<le> u * sum_list (map arReducedQty rs) \<and> u * sum_list (map arReducedQty rs) \<le> d - rem + u * ulp \<and>
    (\<forall>r \<in> set rs. arSettlementPrice r = bank \<and> 0 \<le> arReducedQty r \<and> 0 \<le> arRealizedPnl r) \<and>
    (u * ulp \<le> rem \<longrightarrow>
       map arPositionID rs = map (pID \<circ> rpPosition) ranked \<and> (\<forall>r \<in> set rs. arRemainingQty r = 0))"
  using decimal.ExecuteADL_covers [OF decimal.intro [OF assms(1)] assms(2-6)] unfolding reduced_def by blast

text \<open>A profitable short: entered at 100, market at 80, the bankrupt long at 90.\<close>

definition sample_short :: cached_position where
  "sample_short = NewCachedPosition 3 8 (- 1) 1 10 (Shown 100) (Shown 2) (Shown 20) Blank Blank Blank Blank Blank"

lemma sample_short_eligible: "eligible (- 1) 80 90 sample_short"
  by (simp add: eligible_def sample_short_def NewCachedPosition_def CalcUnrealizedPnL_def)

theorem RankPositions_ranks_witness:
  "\<exists>ranked. RankPositions dec16 insertion [sample_short] (- 1) 80 90 = Some ranked \<and>
     mset (map rpPosition ranked) = {#sample_short#}"
  using RankPositions_ranks [OF dec16_law insertion.law, of "[sample_short]" "- 1" 80 90] sample_short_eligible
  by auto

theorem ExecuteADL_fair_witness:
  "\<exists>rs rem. ExecuteADL dec16 [\<lparr>rpPosition = sample_short, rpPnlRatio = 200, rpScore = 2000\<rparr>] 30 90 80 = Some (rs, rem) \<and>
     30 - rem \<le> 10 * sum_list (map arReducedQty rs) \<and> (\<forall>r \<in> set rs. 0 \<le> arRealizedPnl r)"
proof -
  have "adl_ready (- 1) 80 90 [\<lparr>rpPosition = sample_short, rpPnlRatio = 200, rpScore = 2000\<rparr>]"
    using sample_short_eligible by (simp add: adl_ready_def sample_short_def NewCachedPosition_def)
  from ExecuteADL_fair [OF dec16_law _ _ _ this, of 10 30] show ?thesis by fastforce
qed

text \<open>The indicator is one of five levels and grows with the return.\<close>

lemma GetADLIndicator_range: "1 \<le> GetADLIndicator r n \<and> GetADLIndicator r n \<le> 5"
  by (simp add: GetADLIndicator_def Let_def)

lemma GetADLIndicator_mono: "r \<le> r' \<Longrightarrow> GetADLIndicator r n \<le> GetADLIndicator r' n"
  by (simp add: GetADLIndicator_def Let_def)

end
