(* ===== verification/Engine_Frame.thy ===== *)
theory Engine_Frame
  imports Engine_Props
begin

section \<open>Isolation of users\<close>

text \<open>
  An update of one user touches that user's positions and account only. What the engine will do
  for another user, and whether that user can pay, is the same before and after.
\<close>

subsection \<open>The caches\<close>

lemma GetByUser_Add:
  assumes "cache_ok c" and "map_of (posLive c) (pID x) = None" and "pUserID x \<noteq> v"
  shows "GetByUser v (AddPosition x c) = GetByUser v c"
proof -
  have "i \<noteq> pID x" if "i \<in> set (user_ids v c)" for i using assms(1,2) that by (auto simp: cache_ok_def)
  then have "List.map_filter (\<lambda>i. map_of (posLive (AddPosition x c)) i) (user_ids v c) =
      List.map_filter (\<lambda>i. map_of (posLive c) i) (user_ids v c)"
    by (intro map_filter_eq) auto
  with assms(3) show ?thesis by (simp add: GetByUser_def user_ids_Add)
qed

lemma GetByUser_Update:
  assumes "cache_ok c" and "map_of (posLive c) i = Some x" and "pUserID x \<noteq> v"
  shows "GetByUser v (UpdateCached i fn c) = GetByUser v c"
proof -
  have "j \<noteq> i" if "j \<in> set (user_ids v c)" for j using assms that by (auto simp: cache_ok_def)
  then have "List.map_filter (\<lambda>j. map_of (posLive (UpdateCached i fn c)) j) (user_ids v c) =
      List.map_filter (\<lambda>j. map_of (posLive c) j) (user_ids v c)"
    using assms(2) by (intro map_filter_eq) (auto simp: UpdateCached_def)
  with assms(2) show ?thesis by (simp add: GetByUser_def UpdateCached_def)
qed

lemma GetByUser_Remove:
  assumes "cache_ok c" and "map_of (posLive c) i = Some x" and "pUserID x \<noteq> v"
  shows "GetByUser v (RemovePosition i c) = GetByUser v c"
proof -
  have i: "i \<notin> set (user_ids v c)" using assms by (auto simp: cache_ok_def)
  then have "List.map_filter (\<lambda>j. map_of (posLive (RemovePosition i c)) j) (user_ids v c) =
      List.map_filter (\<lambda>j. map_of (posLive c) j) (user_ids v c)"
    by (intro map_filter_eq) auto
  with i show ?thesis by (simp add: GetByUser_def user_ids_Remove [OF assms(1)])
qed

lemma account_frame:
  "u \<noteq> v \<Longrightarrow> map_of (snd (Deduct u a c)) v = map_of c v"
  "u \<noteq> v \<Longrightarrow> map_of (ReturnMarginWithPnl u a p c) v = map_of c v"
  by (auto simp: Deduct_def ReturnMarginWithPnl_def Let_def split: option.split)

subsection \<open>The update\<close>

definition same_user :: "int \<Rightarrow> engine \<Rightarrow> engine \<Rightarrow> bool" where
  "same_user v e e' \<longleftrightarrow>
     GetByUser v (positionCache e') = GetByUser v (positionCache e) \<and>
     map_of (memAccounts e') v = map_of (memAccounts e) v"

lemma handleOpen_others:
  assumes "handleOpen D u s q p l m oid e = Some (r, e')" and ok: "engine_ok e" and ids: "ids_left 1 e" and "v \<noteq> u"
  shows "same_user v e e'"
  using assms(1)
proof (cases rule: handleOpen_cases)
  case (opened cr accs evts)
  let ?x = "opened (nextPosID e + 1) u s (open_leverage l) q p cr"
  have fresh: "map_of (posLive (positionCache e)) (pID ?x) = None" by (simp add: engine_ok_fresh [OF ok])
  have "positionCache e' = AddPosition ?x (positionCache e)" using opened next_id [OF ok ids] by simp
  moreover have "map_of accs v = map_of (memAccounts e) v"
    using account_frame(1) [of u v "orTotalCost cr" "memAccounts e"] opened(2) assms(4) by simp
  ultimately show ?thesis
    using GetByUser_Add [OF engine_ok_cache [OF ok] fresh, of v] opened(5) assms(4) by (simp add: same_user_def)
qed (simp add: same_user_def)

lemma handleIncrease_others:
  assumes "handleIncrease D u x q p oid e = Some (r, e')" and ok: "engine_ok e" and "v \<noteq> u"
    and x: "map_of (posLive (positionCache e)) (pID x) = Some x" "pUserID x = u"
  shows "same_user v e e'"
  using assms(1)
proof (cases rule: handleIncrease_cases)
  case (increased cr accs evts)
  have "map_of accs v = map_of (memAccounts e) v"
    using account_frame(1) [of u v "irAddMargin cr" "memAccounts e"] increased(2) assms(3) by simp
  then show ?thesis
    using GetByUser_Update [OF engine_ok_cache [OF ok] x(1), of v] increased(5,7) x(2) assms(3) by (simp add: same_user_def)
qed (simp add: same_user_def)

lemma same_user_trans: "same_user v e e1 \<Longrightarrow> same_user v e1 e2 \<Longrightarrow> same_user v e e2"
  by (simp add: same_user_def)

lemma UpdatePosition_others:
  assumes run: "UpdatePosition D u s q p l m reason oid e = Some (r, e')" and law: "div_law D"
    and ok: "engine_ok e" and ids: "ids_left 1 e" and q: "0 < q" and s: "s = 1 \<or> s = - 1"
    and acc: "holds_account u (memAccounts e)" and reason: "reason \<noteq> CloseReasonLiquidation" and v: "v \<noteq> u"
  shows "same_user v e e'"
proof -
  note cache = engine_ok_cache [OF ok]
  consider (red) x where "FindOpposite u s (positionCache e) = Some x"
    | (inc) x where "FindOpposite u s (positionCache e) = None" "FindSameDir u s (positionCache e) = Some x"
    | (new) "FindOpposite u s (positionCache e) = None" "FindSameDir u s (positionCache e) = None"
    by (metis not_Some_eq)
  then show ?thesis
  proof cases
    case red
    note x = FindOpposite_Some(1,2,3) [OF cache red]
    from red run have "handleReduce D u x s q p l reason oid e = Some (r, e')" by (simp add: UpdatePosition_def)
    from this reason show ?thesis
    proof (cases rule: handleReduce_cases)
      case (1 cr e1 evts)
      have mv: "moves u p (of_int s * min q (posQty x)) (rrFee cr) 0 0 e e1"
        by (rule reduction_moves [OF law ok less_imp_le [OF q] acc x 1(1,4,6,5,7,8,9)])
      have e1: "same_user v e e1"
        using GetByUser_Remove [OF cache x(1), of v] GetByUser_Update [OF cache x(1), of v "reduced cr"] 1(5,7) x(2) v
        by (simp add: same_user_def account_frame)
      show ?thesis
      proof (cases "posQty x < q")
        case True
        then obtain r1 where ho: "handleOpen D u s (q - posQty x) p l False oid e1 = Some (r1, e')" using 1(10) by auto
        have "engine_ok e1" "ids_left 1 e1" using mv ids by (auto simp: moves_def ids_left_def)
        from same_user_trans [OF e1 handleOpen_others [OF ho this v]] show ?thesis .
      qed (use 1(10) e1 in simp)
    qed
  next
    case inc
    with run have "handleIncrease D u x q p oid e = Some (r, e')" by (simp add: UpdatePosition_def)
    from handleIncrease_others [OF this ok v FindSameDir_Some(1,2) [OF cache inc(2)]] show ?thesis .
  next
    case new
    with run have "handleOpen D u s q p l m oid e = Some (r, e')" by (simp add: UpdatePosition_def)
    from handleOpen_others [OF this ok ids v] show ?thesis .
  qed
qed

lemma shortfall_others:
  assumes "same_user v e e'" and "eclearance e' = eclearance e"
  shows "shortfall D v s q p l m e' = shortfall D v s q p l m e"
proof -
  have same: "FindOpposite v t (positionCache e') = FindOpposite v t (positionCache e)"
    "FindSameDir v t (positionCache e') = FindSameDir v t (positionCache e)"
    "GetBalance v (memAccounts e') = GetBalance v (memAccounts e)" for t
    using assms(1) by (simp_all add: same_user_def FindOpposite_def FindSameDir_def GetBalance_def)
  show ?thesis unfolding shortfall_def assms(2) same ..
qed

text \<open>A trade between two users who can both pay is funded, whichever of them comes first.\<close>

lemma side_short_others:
  assumes "same_user v e e'" and "eclearance e' = eclearance e" and "orderCache e' = orderCache e"
  shows "side_short D v boid s t tu lv e' = side_short D v boid s t tu lv e"
proof -
  have r: "resolveLeverage v boid tu lv e' = resolveLeverage v boid tu lv e"
    using assms(3) by (simp add: resolveLeverage_def)
  show ?thesis by (simp only: side_short_def r shortfall_others [OF assms(1,2)])
qed

lemma fillSide_others:
  assumes "fillSide D u boid s t tu lv toid e = Some (rs, e')" and "div_law D" and "engine_ok e" and "ids_left 1 e"
    and "0 < tQuantity t" and "s = 1 \<or> s = - 1" and "holds_account u (memAccounts e)" and "v \<noteq> u"
  shows "same_user v e e'"
proof -
  obtain r e1 x where run: "UpdatePosition D u s (tQuantity t) (tPrice t) (fst (resolveLeverage u boid tu lv e))
      (snd (resolveLeverage u boid tu lv e)) CloseReasonManual (if u = tu then toid else boid) e = Some (r, e1)"
    and e': "e' = e1\<lparr>onMakerFill := x\<rparr>" using fillSide_run [OF assms(1)] by blast
  have "same_user v e e1" using UpdatePosition_others [OF run assms(2-7) _ assms(8)] by simp
  then show ?thesis by (simp add: same_user_def e')
qed

lemma funded_single:
  assumes law: "div_law D" and ok: "engine_ok e" and ids: "ids_left 2 e" and q: "0 < tQuantity t"
    and acc: "holds_account (tBuyUserID t) (memAccounts e)" "holds_account (tSellUserID t) (memAccounts e)"
    and two: "tBuyUserID t \<noteq> tSellUserID t"
    and short: "side_short D (tBuyUserID t) (tBuyOrderID t) 1 t tu lv e = 0"
      "side_short D (tSellUserID t) (tSellOrderID t) (- 1) t tu lv e = 0"
  shows "funded D [t] tu lv toid e"
proof -
  let ?B = "tBuyUserID t" and ?S = "tSellUserID t"
  have ids': "ids_left (Suc (Suc 0)) e" "ids_left 1 e" using ids by (simp_all add: ids_left_def numeral_2_eq_2)
  obtain rs1 e1 where 1: "fillSide D ?B (tBuyOrderID t) 1 t tu lv toid e = Some (rs1, e1)" "engine_ok e1"
    "ids_left (Suc 0) e1" "keeps e e1"
    using fillSide_step [OF law ok ids'(1) q _ acc(1), of 1 "tBuyOrderID t" tu lv toid] by auto
  have "same_user ?S e e1" using fillSide_others [OF 1(1) law ok ids'(2) q _ acc(1)] two by auto
  then have "side_short D ?S (tSellOrderID t) (- 1) t tu lv e1 = 0"
    using side_short_others [of ?S e e1] 1(4) short(2) by (simp add: keeps_def update_frame_def)
  moreover have "holds_account ?S (memAccounts e1)" using acc(2) 1(4) by (simp add: keeps_def settles_def)
  then obtain rs2 e2 where "fillSide D ?S (tSellOrderID t) (- 1) t tu lv toid e1 = Some (rs2, e2)"
    using fillSide_step [OF law 1(2,3) q, of "- 1" ?S "tSellOrderID t" tu lv toid] by auto
  ultimately show ?thesis using 1(1) short(1) by simp
qed

text \<open>
  C19. Isolation: an update of one user leaves every other user's positions and account exactly as
  they were, and whether another user could pay for a trade of any kind is not changed by it.
\<close>

theorem UpdatePosition_isolated:
  assumes "UpdatePosition D u s q p l m reason oid e = Some (r, e')" and "div_law D" and "engine_ok e"
    and "ids_left 1 e" and "0 < q" and "s = 1 \<or> s = - 1" and "holds_account u (memAccounts e)"
    and "reason \<noteq> CloseReasonLiquidation" and "v \<noteq> u"
  shows "GetByUser v (positionCache e') = GetByUser v (positionCache e) \<and>
    map_of (memAccounts e') v = map_of (memAccounts e) v \<and>
    shortfall D v s2 q2 p2 l2 m2 e' = shortfall D v s2 q2 p2 l2 m2 e"
proof -
  have same: "same_user v e e'" by (rule UpdatePosition_others [OF assms])
  have "eclearance e' = eclearance e"
    using UpdatePosition_applies [OF assms(1-8)] by (auto simp: applies_def moves_def update_frame_def)
  with same shortfall_others [OF same] show ?thesis by (simp add: same_user_def)
qed

theorem UpdatePosition_isolated_witness:
  "\<exists>r e'. UpdatePosition dec16 7 1 2 100 10 False CloseReasonManual 5 sample_engine = Some (r, e') \<and>
     GetByUser 8 (positionCache e') = [] \<and> map_of (memAccounts e') 8 = Some \<lparr>Balance = 1000, Frozen = 0\<rparr>"
proof -
  obtain r e' where run: "UpdatePosition dec16 7 1 2 100 10 False CloseReasonManual 5 sample_engine = Some (r, e')"
    using UpdatePosition_total [OF dec16_law sample_engine_ok, of 2 1 7 100 10 False CloseReasonManual 5] by auto
  have "GetByUser 8 (positionCache sample_engine) = []"
    by (simp add: GetByUser_def user_ids_def NewPositionCache_def map_filter_simps)
  moreover have "map_of (memAccounts sample_engine) 8 = Some \<lparr>Balance = 1000, Frozen = 0\<rparr>"
    by (simp add: sample_engine_def NewEngine_def LoadAccount_def NewAccountCache_def)
  ultimately show ?thesis using run UpdatePosition_isolated [OF run dec16_law sample_engine_ok, of 8] by auto
qed

end
