(* ===== verification/Liquidation.thy ===== *)
theory Liquidation
  imports Exchange_Props Engine_Frame Insurance
begin

section \<open>The liquidation engine (\<open>internal/engine/trading/liquidation_engine.go\<close>)\<close>

text \<open>
  The system account that takes over the positions of liquidated users and closes them on the
  book. The liquidation engine shares the trading engine, its position cache and its book, and the
  insurance fund, which may be absent; only its own settings are a record here. Time is an argument, in
  nanoseconds; \<open>lastDisposal\<close> is \<open>None\<close> until the first disposal (the zero \<open>time.Time\<close>). Positions
  are reached through pointers (\<open>deref\<close>); a pointer to no object would panic.
\<close>

subsection \<open>State\<close>

abbreviation (input) LiquidationUserID :: int where "LiquidationUserID \<equiv> - 1"

record liq_engine =
  disposalInterval :: int
  disposalFraction :: dec
  maxSlippage :: dec
  lastDisposal :: "int option"

definition NewLiquidationEngine :: liq_engine where
  "NewLiquidationEngine =
     \<lparr>disposalInterval = 10 ^ 9, disposalFraction = 1 / 2, maxSlippage = 1 / 100, lastDisposal = None\<rparr>"

subsection \<open>Taking over\<close>

text \<open>The order row of a system trade.\<close>

definition system_order ::
    "int \<Rightarrow> int \<Rightarrow> int \<Rightarrow> int \<Rightarrow> int \<Rightarrow> dec option \<Rightarrow> dec \<Rightarrow> dec \<Rightarrow> order_row" where
  "system_order i userID side orderType leverage price qty filledPrice =
     \<lparr>omID = i, omUserID = userID, omSide = side, omOrderType = orderType, omLeverage = leverage,
      omPrice = price, omQuantity = qty, omFilledPrice = Some filledPrice, omMarginCost = 0,
      omTakeProfit = None, omStopLoss = None, omStatus = OrderStatusFilled, omPositionID = None\<rparr>"

definition submitRow :: "order_row \<Rightarrow> engine \<Rightarrow> engine" where
  "submitRow ord e = submit ((empty_event EventCreateOrder)\<lparr>evOrder := Some ord, evUserID := omUserID ord\<rparr>) e"

definition syntheticTrade :: "cached_position \<Rightarrow> dec \<Rightarrow> ob_trade" where
  "syntheticTrade pos bankruptcyPrice =
     (let t = \<lparr>tBuyOrderID = 0, tSellOrderID = 0, tBuyUserID = 0, tSellUserID = 0,
               tPrice = bankruptcyPrice, tQuantity = NewFromString (pQuantity pos)\<rparr>
      in if pSide pos = 1 then t\<lparr>tSellUserID := pUserID pos, tBuyUserID := LiquidationUserID\<rparr>
         else t\<lparr>tBuyUserID := pUserID pos, tSellUserID := LiquidationUserID\<rparr>)"

definition TakeOver :: "decimal_lib \<Rightarrow> int \<Rightarrow> dec \<Rightarrow> engine \<Rightarrow> engine option" where
  "TakeOver D posPtr bankruptcyPrice e =
     do {
       pos \<leftarrow> deref posPtr (positionCache e);
       let t = syntheticTrade pos bankruptcyPrice;
       (if pState pos \<noteq> PosStateActive then Some e
        else do {
          let (liqOrderID, b1) = NextOrderID (ebook e);
          let e1 = submitRow (system_order liqOrderID (pUserID pos) (- pSide pos) OrderTypeMarket (pLeverage pos)
                     None (tQuantity t) bankruptcyPrice) (e\<lparr>ebook := b1\<rparr>);
          (rs, e2) \<leftarrow> ProcessTrades D [t] (pUserID pos) (- pSide pos) (pLeverage pos) liqOrderID e1;
          Some e2
        })
     }"

subsection \<open>Disposal\<close>

text \<open>What the fund gains or pays for the trades of one disposal.\<close>

definition disposalPnl :: "dec \<Rightarrow> int \<Rightarrow> ob_trade \<Rightarrow> dec" where
  "disposalPnl entryPrice side t = (tPrice t - entryPrice) * tQuantity t * of_int side"

fun settleDisposal :: "dec \<Rightarrow> int \<Rightarrow> ob_trade list \<Rightarrow> fund option \<Rightarrow> fund option" where
  "settleDisposal entryPrice side [] f = f"
| "settleDisposal entryPrice side (t # ts) f =
     (let pnl = disposalPnl entryPrice side t;
          f' = (case f of
                  None \<Rightarrow> None
                | Some fd \<Rightarrow> Some (if 0 < pnl then Contribute pnl fd else snd (Cover \<bar>pnl\<bar> fd)))
      in settleDisposal entryPrice side ts f')"

text \<open>The price of the immediate-or-cancel order.\<close>

definition iocPrice :: "decimal_lib \<Rightarrow> liq_engine \<Rightarrow> dec \<Rightarrow> int \<Rightarrow> dec" where
  "iocPrice D le midPrice closeSide =
     (let limitPrice = (if closeSide = - 1 then midPrice * (1 - maxSlippage le) else midPrice * (1 + maxSlippage le))
      in Round D 2 limitPrice)"

definition disposeQuantity :: "liq_engine \<Rightarrow> dec \<Rightarrow> dec" where
  "disposeQuantity le quantity =
     (let disposeQty = quantity * disposalFraction le
      in if disposeQty < 1 / 100000 then quantity else disposeQty)"

definition disposeOne ::
    "decimal_lib \<Rightarrow> liq_engine \<Rightarrow> dec \<Rightarrow> int \<Rightarrow> fund option \<Rightarrow> engine \<Rightarrow> (fund option \<times> engine) option" where
  "disposeOne D le midPrice posPtr f e =
     do {
       pos \<leftarrow> deref posPtr (positionCache e);
       let quantity = NewFromString (pQuantity pos);
       (if quantity = 0 then Some (f, e)
        else do {
          let disposeQty = disposeQuantity le quantity;
          let closeSide = - pSide pos;
          let fp = iocPrice D le midPrice closeSide;
          let (orderID, b1) = NextOrderID (ebook e);
          let (trades, b2) = ioc
                \<lparr>oID = orderID, oUserID = LiquidationUserID, oSide = closeSide, oPrice = fp,
                 oQuantity = disposeQty, oIsMaker = False\<rparr> b1;
          let e1 = e\<lparr>ebook := b2\<rparr>;
          (if trades = [] then Some (f, e1)
           else do {
             let e2 = submitRow (system_order orderID LiquidationUserID closeSide OrderTypeLimit 1
                        (Some fp) disposeQty fp) e1;
             (rs, e3) \<leftarrow> ProcessTrades D trades LiquidationUserID closeSide 1 orderID e2;
             pos' \<leftarrow> deref posPtr (positionCache e3);
             Some (settleDisposal (NewFromString (pEntryPrice pos')) (pSide pos') trades f, e3)
           })
        })
     }"

fun disposeAll ::
    "decimal_lib \<Rightarrow> liq_engine \<Rightarrow> dec \<Rightarrow> int list \<Rightarrow> fund option \<Rightarrow> engine \<Rightarrow> (fund option \<times> engine) option" where
  "disposeAll D le midPrice [] f e = Some (f, e)"
| "disposeAll D le midPrice (p # ps) f e =
     do {
       (f1, e1) \<leftarrow> disposeOne D le midPrice p f e;
       disposeAll D le midPrice ps f1 e1
     }"

definition OnTick ::
    "decimal_lib \<Rightarrow> int \<Rightarrow> dec \<Rightarrow> liq_engine \<Rightarrow> fund option \<Rightarrow> engine \<Rightarrow> (liq_engine \<times> fund option \<times> engine) option" where
  "OnTick D now midPrice le f e =
     (if (case lastDisposal le of None \<Rightarrow> False | Some t \<Rightarrow> now < t + disposalInterval le) then Some (le, f, e)
      else
        let positions = map pID (GetByUser LiquidationUserID (positionCache e))
        in if positions = [] then Some (le, f, e)
           else do {
             let le1 = le\<lparr>lastDisposal := Some now\<rparr>;
             (f1, e1) \<leftarrow> disposeAll D le1 midPrice positions f e;
             Some (le1, f1, e1)
           })"

subsection \<open>Pointers\<close>

text \<open>A pointer the cache handed out: its object lives in the cache or has left it.\<close>

definition pointer_ok :: "position_cache \<Rightarrow> int \<Rightarrow> bool" where
  "pointer_ok pc i \<longleftrightarrow> deref i pc \<noteq> None"

lemma exchange_pointer:
  assumes "exchange_ok e" and "deref i (positionCache e) = Some p"
  shows "pos_ok p" and "holds_account (pUserID p) (memAccounts e)"
  using assms by (auto simp: exchange_ok_def engine_ok_def positions_ok_def owners_ok_def deref_def split: option.splits)

lemma process_system:
  assumes "div_law D" and "exchange_ok e" and "ids_left (2 * length ts) e" and "\<forall>t \<in> set ts. 0 < tQuantity t"
    and "accounts_for ts e"
  shows "\<exists>rs e2. ProcessTrades D ts u s lv i (submitRow ord e) = Some (rs, e2) \<and> exchange_ok e2 \<and> accounted e e2 \<and>
    orderCache e2 = orderCache e \<and> ebook e2 = ebook e \<and> nextPosID e2 \<le> nextPosID e + 2 * int (length ts) \<and>
    (funded D ts u lv i (submitRow ord e) \<longrightarrow>
       (\<forall>v. net_position v e2 = net_position v e + bought v ts) \<and> open_net e2 = open_net e)"
  unfolding submitRow_def
  by (rule process_after [OF assms]) (simp add: balance_delta_def empty_event_def)

subsection \<open>Taking over keeps the exchange\<close>

lemma syntheticTrade_fields [simp]:
  "tQuantity (syntheticTrade p b) = posQty p" "tPrice (syntheticTrade p b) = b"
  "tBuyUserID (syntheticTrade p b) = (if pSide p = 1 then LiquidationUserID else pUserID p)"
  "tSellUserID (syntheticTrade p b) = (if pSide p = 1 then pUserID p else LiquidationUserID)"
  by (simp_all add: syntheticTrade_def posQty_def Let_def)

lemma NextOrderID_ok:
  assumes "exchange_ok e" and "room (Suc k) e" and "NextOrderID (ebook e) = (i, b1)"
  shows "exchange_ok (e\<lparr>ebook := b1\<rparr>)" and "uses e (e\<lparr>ebook := b1\<rparr>)" and "book_size b1 = book_size (ebook e)"
    and "nextID b1 = nextID (ebook e) + 1"
proof -
  have bk: "book_ok (ebook e)" "ids_below (ebook e)" using assms(1) by (simp_all add: exchange_ok_def)
  note fresh = NextOrderID_fresh [OF assms(3) bk(2) room_ids(1) [OF assms(2)]]
  then have b1: "book_ok b1" "book_users b1 = book_users (ebook e)" "book_size b1 = book_size (ebook e)"
    "nextID b1 = nextID (ebook e) + 1"
    using bk(1) by (simp_all add: book_users_def book_size_def resting_def)
  then show "book_size b1 = book_size (ebook e)" "nextID b1 = nextID (ebook e) + 1" by simp_all
  show "exchange_ok (e\<lparr>ebook := b1\<rparr>)"
    using assms(1) b1 fresh(4) by (fastforce simp: exchange_ok_def orders_ok_def)
  show "uses e (e\<lparr>ebook := b1\<rparr>)" using b1 by (simp add: uses_def)
qed

lemma TakeOver_run:
  assumes law: "div_law D" and ok: "exchange_ok e" and rm: "room (Suc k) e"
    and ptr: "deref i (positionCache e) = Some p" and acc: "holds_account LiquidationUserID (memAccounts e)"
    and active: "pState p = PosStateActive"
  obtains e' oid e1 where "TakeOver D i b e = Some e'" and "exchange_ok e'" and "accounted e e'" and "uses e e'"
    and "positionCache e1 = positionCache e" "memAccounts e1 = memAccounts e" "eclearance e1 = eclearance e"
      "orderCache e1 = orderCache e" "engine_ok e1" "ids_left 2 e1"
    and "funded D [syntheticTrade p b] (pUserID p) (pLeverage p) oid e1 \<Longrightarrow>
      (\<forall>v. net_position v e' = net_position v e + bought v [syntheticTrade p b]) \<and> open_net e' = open_net e"
proof -
  obtain oid b1 where id: "NextOrderID (ebook e) = (oid, b1)" by force
  note n = NextOrderID_ok [OF ok rm id]
  let ?t = "syntheticTrade p b" and ?e1 = "e\<lparr>ebook := b1\<rparr>"
  let ?e2 = "submitRow (system_order oid (pUserID p) (- pSide p) OrderTypeMarket (pLeverage p) None (tQuantity ?t) b) ?e1"
  note p = exchange_pointer [OF ok ptr]
  have ids: "ids_left (2 * length [?t]) ?e1" using room_ids(2) [OF rm, of 1] by (simp add: ids_left_def)
  have "\<forall>t \<in> set [?t]. 0 < tQuantity t" using p(1) by (simp add: pos_ok_def)
  moreover have "accounts_for [?t] ?e1" using p(2) acc by (simp add: accounts_for_def)
  ultimately obtain rs e2 where run: "ProcessTrades D [?t] (pUserID p) (- pSide p) (pLeverage p) oid ?e2 = Some (rs, e2)"
      "exchange_ok e2" "accounted ?e1 e2" "ebook e2 = b1" "nextPosID e2 \<le> nextPosID e + 2"
      "funded D [?t] (pUserID p) (pLeverage p) oid ?e2 \<longrightarrow>
         (\<forall>v. net_position v e2 = net_position v ?e1 + bought v [?t]) \<and> open_net e2 = open_net ?e1"
    using process_system [OF law n(1) ids, of "pUserID p" "- pSide p" "pLeverage p" oid
        "system_order oid (pUserID p) (- pSide p) OrderTypeMarket (pLeverage p) None (tQuantity ?t) b"]
    by (auto simp del: ProcessTrades.simps funded.simps bought_simps)
  have "net_position v ?e1 = net_position v e" "open_net ?e1 = open_net e" for v
    by (simp_all add: net_position_def open_net_def over_positions_def)
  then have eff: "(\<forall>v. net_position v e2 = net_position v e + bought v [?t]) \<and> open_net e2 = open_net e"
    if "funded D [?t] (pUserID p) (pLeverage p) oid ?e2" using run(6) that by simp
  have "engine_ok ?e1" using n(1) unfolding exchange_ok_def by blast
  then have e2: "engine_ok ?e2" "ids_left 2 ?e2"
    using ids by (simp add: submitRow_def, simp add: submitRow_def ids_left_def submit_def)
  have "accounted e e2" using accounted_trans [OF accounted_same run(3)] by simp
  moreover have "uses e e2" using run(4,5) n(3,4) by (simp add: uses_def)
  moreover have "TakeOver D i b e = Some e2"
    using ptr active id run(1) by (simp add: TakeOver_def Let_def del: ProcessTrades.simps)
  ultimately show thesis using run(2) e2 eff by (intro that [of e2 ?e2 oid]) (simp_all add: submitRow_def submit_def)
qed

lemma TakeOver_ok:
  assumes "div_law D" and ok: "exchange_ok e" and "room (Suc k) e"
    and ptr: "deref i (positionCache e) = Some p" and "holds_account LiquidationUserID (memAccounts e)"
  shows "\<exists>e'. TakeOver D i b e = Some e' \<and> exchange_ok e' \<and> accounted e e' \<and> uses e e'"
proof (cases "pState p = PosStateActive")
  case False
  with ptr ok show ?thesis by (simp add: TakeOver_def)
next
  case True
  show ?thesis using TakeOver_run [OF assms True, of b] by blast
qed

text \<open>When both sides can pay, the position's quantity goes from its user to the liquidation account.\<close>

lemma TakeOver_effect:
  assumes law: "div_law D" and ok: "exchange_ok e" and rm: "room (Suc k) e"
    and ptr: "deref i (positionCache e) = Some p" and acc: "holds_account LiquidationUserID (memAccounts e)"
    and active: "pState p = PosStateActive" and user: "pUserID p \<noteq> LiquidationUserID"
    and no_order: "GetOrder 0 (orderCache e) = None"
    and pays: "shortfall D (pUserID p) (- pSide p) (posQty p) b (pLeverage p) False e = 0"
      "shortfall D LiquidationUserID (pSide p) (posQty p) b 1 True e = 0"
  shows "\<exists>e'. TakeOver D i b e = Some e' \<and> exchange_ok e' \<and>
    (\<forall>v. net_position v e' = net_position v e +
       (if v = pUserID p then - signed_qty p else if v = LiquidationUserID then signed_qty p else 0)) \<and>
    open_net e' = open_net e"
proof -
  note p = exchange_pointer [OF ok ptr]
  obtain e' oid e1 where run: "TakeOver D i b e = Some e'" "exchange_ok e'"
    and same: "positionCache e1 = positionCache e" "memAccounts e1 = memAccounts e" "eclearance e1 = eclearance e"
      "orderCache e1 = orderCache e" "engine_ok e1" "ids_left 2 e1"
    and eff: "funded D [syntheticTrade p b] (pUserID p) (pLeverage p) oid e1 \<Longrightarrow>
      (\<forall>v. net_position v e' = net_position v e + bought v [syntheticTrade p b]) \<and> open_net e' = open_net e"
    using TakeOver_run [OF law ok rm ptr acc active] by metis
  have frame: "same_user v e e1" for v using same by (simp add: same_user_def)
  have "shortfall D (pUserID p) (- pSide p) (posQty p) b (pLeverage p) False e1 = 0"
    "shortfall D LiquidationUserID (pSide p) (posQty p) b 1 True e1 = 0"
    using pays shortfall_others [OF frame same(3)] by simp_all
  then have "funded D [syntheticTrade p b] (pUserID p) (pLeverage p) oid e1"
    using p same user acc no_order
    by (intro funded_single [OF law same(5,6)])
      (auto simp: side_short_def resolveLeverage_def syntheticTrade_def posQty_def pos_ok_def Let_def)
  from eff [OF this] show ?thesis
    using run p(1) user by (auto simp: signed_qty_def pos_ok_def)
qed

subsection \<open>Disposal keeps the exchange\<close>

lemma ioc_fill:
  assumes ok: "exchange_ok e" and rm: "room (Suc k) e" and acc: "holds_account u (memAccounts e)"
    and id: "NextOrderID (ebook e) = (i, b1)"
    and pl: "ioc \<lparr>oID = i, oUserID = u, oSide = s, oPrice = p, oQuantity = q, oIsMaker = False\<rparr> b1 = (ts, b2)"
  shows "exchange_ok (e\<lparr>ebook := b2\<rparr>)" and "accounts_for ts e" and "\<forall>t \<in> set ts. 0 < tQuantity t"
    and "ids_left (2 * length ts) e" and "uses e (e\<lparr>ebook := b2\<rparr>)" and "length ts \<le> book_size (ebook e)"
    and "resting_owned b2 \<subseteq> resting_owned (ebook e)"
proof -
  have bk: "book_ok (ebook e)" "ids_below (ebook e)" and users: "\<forall>u \<in> book_users (ebook e). holds_account u (memAccounts e)"
    using ok by (simp_all add: exchange_ok_def)
  note fresh = NextOrderID_fresh [OF id bk(2) room_ids(1) [OF rm]]
  have b1: "book_ok b1" "book_users b1 = book_users (ebook e)" "book_size b1 = book_size (ebook e)"
    "resting_owned b1 = resting_owned (ebook e)" "nextID b1 = nextID (ebook e) + 1"
    using fresh(1,2) bk(1) by (simp_all add: book_users_def book_size_def resting_owned_def resting_def)
  have "oID \<lparr>oID = i, oUserID = u, oSide = s, oPrice = p, oQuantity = q, oIsMaker = False\<rparr> \<notin> order_ids b1"
    using fresh(3) by simp
  note b2 = ioc_leaves [OF b1(1) this pl]
  show sub: "resting_owned b2 \<subseteq> resting_owned (ebook e)" using b2(2) b1(4) by simp
  then have "order_ids b2 \<subseteq> order_ids (ebook e)" "book_users b2 \<subseteq> book_users (ebook e)"
    by (auto simp: resting_owned_ids)
  moreover from this bk(2) have "ids_below b2" using b2(4) b1(5) by (fastforce simp: ids_below_def)
  ultimately show "exchange_ok (e\<lparr>ebook := b2\<rparr>)"
    using b2(4) b1(5) by (intro exchange_book [OF ok b2(1) _ _ _ acc]) auto
  show "accounts_for ts e"
    using b2(5) users acc b1(2) by (fastforce simp: takes_part_def accounts_for_def trade_users_def)
  show "\<forall>t \<in> set ts. 0 < tQuantity t" using b2(5) by (simp add: takes_part_def)
  show len: "length ts \<le> book_size (ebook e)" using b2(5) b1(3) by (simp add: takes_part_def)
  then show "ids_left (2 * length ts) e" using room_ids(2) [OF rm, of "length ts"] by simp
  show "uses e (e\<lparr>ebook := b2\<rparr>)" using b2(3,4) b1(3,5) by (simp add: uses_def)
qed

text \<open>The fund pays no more than it has, and keeps at least what the disposals bring in.\<close>

definition fund_step :: "dec \<Rightarrow> fund option \<Rightarrow> fund option \<Rightarrow> bool" where
  "fund_step pnl f f' \<longleftrightarrow>
     (case f of None \<Rightarrow> f' = None
      | Some x \<Rightarrow> (\<exists>x'. f' = Some x' \<and> (0 \<le> fundBalance x \<longrightarrow> 0 \<le> fundBalance x' \<and> fundBalance x + pnl \<le> fundBalance x')))"

lemma fund_step_refl [simp]: "fund_step 0 f f"
  by (simp add: fund_step_def split: option.split)

lemma fund_step_none: "\<exists>pnl. fund_step pnl f f"
  using fund_step_refl by blast

lemma fund_step_trans: "fund_step a f f1 \<Longrightarrow> fund_step b f1 f2 \<Longrightarrow> fund_step (a + b) f f2"
  by (auto simp: fund_step_def split: option.splits)

lemma settleDisposal_step: "fund_step (sum_list (map (disposalPnl entry s) ts)) f (settleDisposal entry s ts f)"
proof (induction ts arbitrary: f)
  case (Cons t ts)
  let ?pnl = "disposalPnl entry s t"
  have "fund_step ?pnl f (case f of None \<Rightarrow> None
      | Some fd \<Rightarrow> Some (if 0 < ?pnl then Contribute ?pnl fd else snd (Cover \<bar>?pnl\<bar> fd)))"
    by (auto simp: fund_step_def Contribute_def Cover_def split: option.split)
  from fund_step_trans [OF this Cons.IH] show ?case by (simp add: Let_def)
qed simp

lemma disposeOne_ok:
  assumes law: "div_law D" and ok: "exchange_ok e" and rm: "room (Suc k) e"
    and ptr: "deref i (positionCache e) \<noteq> None" and acc: "holds_account LiquidationUserID (memAccounts e)"
  shows "\<exists>f' e' pnl. disposeOne D le mid i f e = Some (f', e') \<and> exchange_ok e' \<and> accounted e e' \<and> uses e e' \<and>
    resting_owned (ebook e') \<subseteq> resting_owned (ebook e) \<and> fund_step pnl f f'"
proof -
  obtain p where p: "deref i (positionCache e) = Some p" using ptr by blast
  obtain oid b1 where id: "NextOrderID (ebook e) = (oid, b1)" by force
  let ?s = "- pSide p" and ?q = "disposeQuantity le (posQty p)"
  let ?fp = "iocPrice D le mid ?s"
  obtain ts b2 where io: "ioc \<lparr>oID = oid, oUserID = LiquidationUserID, oSide = ?s, oPrice = ?fp, oQuantity = ?q,
      oIsMaker = False\<rparr> b1 = (ts, b2)" by force
  note fill = ioc_fill [OF ok rm acc id io]
  let ?e1 = "e\<lparr>ebook := b2\<rparr>"
  have a1: "accounted e ?e1" by (rule accounted_same) simp_all
  show ?thesis
  proof (cases "posQty p = 0 \<or> ts = []")
    case True
    have "disposeOne D le mid i f e = Some (f, if posQty p = 0 then e else ?e1)"
      using True p id io by (cases "posQty p = 0") (simp_all add: disposeOne_def posQty_def Let_def)
    then show ?thesis using ok fill(1,5,7) a1 fund_step_none by (cases "posQty p = 0") auto
  next
    case False
    have "ids_left (2 * length ts) ?e1" "accounts_for ts ?e1"
      using fill(2,4) by (simp_all add: ids_left_def accounts_for_def)
    from process_system [OF law fill(1) this(1) fill(3) this(2), of LiquidationUserID ?s 1 oid]
    obtain rs e3 where run: "ProcessTrades D ts LiquidationUserID ?s 1 oid
        (submitRow (system_order oid LiquidationUserID ?s OrderTypeLimit 1 (Some ?fp) ?q ?fp) ?e1) = Some (rs, e3)"
      "exchange_ok e3" "accounted ?e1 e3" "ebook e3 = b2" "nextPosID e3 \<le> nextPosID e + 2 * int (length ts)"
      by fastforce
    have a3: "accounted e e3" by (rule accounted_trans [OF a1 run(3)])
    then obtain p' where p': "deref i (positionCache e3) = Some p'"
      using accounted_pointers [OF _ ptr] by blast
    have "uses e e3" using fill(5,6) run(4,5) by (simp add: uses_def)
    moreover have "disposeOne D le mid i f e = Some (settleDisposal (posEntry p') (pSide p') ts f, e3)"
      using False p id io run(1) p' by (simp add: disposeOne_def posQty_def posEntry_def Let_def)
    ultimately show ?thesis using run(2,4) a3 fill(7) settleDisposal_step by blast
  qed
qed

lemma disposeAll_ok:
  assumes law: "div_law D"
  shows "exchange_ok e \<Longrightarrow> room (length ps) e \<Longrightarrow> \<forall>i \<in> set ps. deref i (positionCache e) \<noteq> None \<Longrightarrow>
    holds_account LiquidationUserID (memAccounts e) \<Longrightarrow>
    \<exists>f' e' pnl. disposeAll D le mid ps f e = Some (f', e') \<and> exchange_ok e' \<and> accounted e e' \<and>
      resting_owned (ebook e') \<subseteq> resting_owned (ebook e) \<and> fund_step pnl f f'"
proof (induction ps arbitrary: f e)
  case Nil
  then show ?case using fund_step_refl by fastforce
next
  case (Cons i ps)
  have rm: "room (Suc (length ps)) e" and ptr: "deref i (positionCache e) \<noteq> None" using Cons.prems(2,3) by simp_all
  obtain f1 e1 pnl where 1: "disposeOne D le mid i f e = Some (f1, e1)" "exchange_ok e1" "accounted e e1" "uses e e1"
    "resting_owned (ebook e1) \<subseteq> resting_owned (ebook e)" "fund_step pnl f f1"
    using disposeOne_ok [OF law Cons.prems(1) rm ptr Cons.prems(4)] by blast
  have "\<forall>i \<in> set ps. deref i (positionCache e1) \<noteq> None" "holds_account LiquidationUserID (memAccounts e1)"
    using accounted_pointers [OF 1(3)] accounted_holds [OF 1(3)] Cons.prems(3,4) by simp_all
  then obtain f2 e2 pnl2 where 2: "disposeAll D le mid ps f1 e1 = Some (f2, e2)" "exchange_ok e2" "accounted e1 e2"
    "resting_owned (ebook e2) \<subseteq> resting_owned (ebook e1)" "fund_step pnl2 f1 f2"
    using Cons.IH [OF 1(2) room_uses [OF rm 1(4)]] by blast
  show ?case
    using 1(1) 2(1,2) accounted_trans [OF 1(3) 2(3)] subset_trans [OF 2(4) 1(5)] fund_step_trans [OF 1(6) 2(5)]
    by auto
qed

definition liq_positions :: "engine \<Rightarrow> nat" where
  "liq_positions e = length (GetByUser LiquidationUserID (positionCache e))"

lemma OnTick_ok:
  assumes law: "div_law D" and ok: "exchange_ok e" and "room (liq_positions e) e"
    and "holds_account LiquidationUserID (memAccounts e)"
  shows "\<exists>le' f' e' pnl. OnTick D now mid le f e = Some (le', f', e') \<and> exchange_ok e' \<and> accounted e e' \<and>
    resting_owned (ebook e') \<subseteq> resting_owned (ebook e) \<and> fund_step pnl f f'"
proof -
  let ?ps = "map pID (GetByUser LiquidationUserID (positionCache e))"
  have "cache_ok (positionCache e)" using ok by (simp add: exchange_ok_def engine_ok_def positions_ok_def)
  then have "\<forall>i \<in> set ?ps. deref i (positionCache e) \<noteq> None" using GetByUser_pointers by fastforce
  then obtain f1 e1 pnl where "disposeAll D (le\<lparr>lastDisposal := Some now\<rparr>) mid ?ps f e = Some (f1, e1)" "exchange_ok e1"
    "accounted e e1" "resting_owned (ebook e1) \<subseteq> resting_owned (ebook e)" "fund_step pnl f f1"
    using disposeAll_ok [OF law ok, of ?ps] assms(3,4) unfolding liq_positions_def by (metis length_map)
  then show ?thesis using ok fund_step_none by (cases "?ps = []") (auto simp: OnTick_def Let_def)
qed

subsection \<open>An exchange with a position to liquidate\<close>

definition sample_position :: cached_position where
  "sample_position = NewCachedPosition 1 7 1 MarginModeIsolated 10 (Shown 100) (Shown 2) (Shown 20) (Shown 91)
     (Shown 150) Blank Blank Blank"

definition sample_risky :: engine where
  "sample_risky = sample_engine\<lparr>
     memAccounts := LoadAccount LiquidationUserID 100000000 0 (memAccounts sample_engine),
     positionCache := AddPosition sample_position NewPositionCache\<rparr>"

lemma sample_position_fields [simp]:
  "pID sample_position = 1" "pUserID sample_position = 7" "pSide sample_position = 1" "pLeverage sample_position = 10"
  "posQty sample_position = 2" "pState sample_position = PosStateActive"
  by (simp_all add: sample_position_def NewCachedPosition_def posQty_def)

lemma sample_risky_live [simp]: "posLive (positionCache sample_risky) = [(1, sample_position)]"
  by (simp add: sample_risky_def)

lemma sample_risky_accounts [simp]:
  "holds_account LiquidationUserID (memAccounts sample_risky)" "GetBalance LiquidationUserID (memAccounts sample_risky) = 100000000"
  by (simp_all add: sample_risky_def sample_engine_def ledger_defs)

lemma sample_risky_ok: "exchange_ok sample_risky"
proof -
  let ?accs = "LoadAccount LiquidationUserID 100000000 0 (memAccounts sample_engine)"
  have acc: "exchange_ok (sample_engine\<lparr>memAccounts := ?accs\<rparr>)"
    using sample_exchange_ok
    by (auto simp: exchange_ok_def engine_ok_def orders_ok_def owners_ok_def sample_engine_def NewEngine_def
        NewOrderCache_def ledger_defs NewAccountCache_def NewBook_def book_users_def resting_def frozen_for_def)
  have "cache_ok (AddPosition sample_position NewPositionCache)" by (rule cache_ok_Add [OF cache_ok_new]) simp
  then have "positions_ok (AddPosition sample_position NewPositionCache) 100000"
    by (simp add: positions_ok_def pos_ok_def)
  moreover have "owners_ok (AddPosition sample_position NewPositionCache) ?accs"
    by (simp add: owners_ok_def sample_engine_def ledger_defs)
  ultimately show ?thesis using exchange_positions [OF acc] by (simp add: sample_risky_def)
qed

lemma sample_risky_room: "n \<le> 9 \<Longrightarrow> room n sample_risky"
  using sample_room [of n] by (simp add: room_def sample_risky_def)

lemma sample_risky_user [simp]:
  "GetByUser 7 (positionCache sample_risky) = [sample_position]"
  "GetByUser LiquidationUserID (positionCache sample_risky) = []"
proof -
  have "user_ids 7 (positionCache sample_risky) = [1]" "user_ids LiquidationUserID (positionCache sample_risky) = []"
    by (simp_all add: sample_risky_def user_ids_Add) (simp_all add: user_ids_def NewPositionCache_def)
  then show "GetByUser 7 (positionCache sample_risky) = [sample_position]"
    and "GetByUser LiquidationUserID (positionCache sample_risky) = []"
    by (simp_all add: GetByUser_def map_filter_simps)
qed

lemma sample_risky_short [simp]: "shortfall dec16 LiquidationUserID 1 2 90 1 True sample_risky = 0"
proof -
  obtain cr where cr: "CalcOpen dec16 sample_clearance 90 2 1 1 True = Some cr"
    using dec16.CalcOpen_total [OF sample_clearance_ok, of 1 90 2 1 True] by auto
  have "Div dec16 180 1 = Some 180" using dec16.div_exact_int [of 1 180 180] by simp
  with cr have "orTotalCost cr \<le> 100000000"
    by (auto simp: CalcOpen_def Let_def bind_eq_Some_conv sample_fee)
  moreover have "eclearance sample_risky = sample_clearance" by (simp add: sample_risky_def)
  ultimately show ?thesis
    using cr by (simp add: shortfall_def FindOpposite_def FindSameDir_def open_short_def open_leverage_def Let_def)
qed

subsection \<open>A sample exchange with a position taken over\<close>

text \<open>
  An exchange in which the liquidation account holds a long position of two units, entered at a given price, against
  a short one of user 7, and user 8 bids 100 for five units.
\<close>

definition taken_position :: "dec \<Rightarrow> cached_position" where
  "taken_position ep = NewCachedPosition 1 LiquidationUserID 1 MarginModeIsolated 1 (Shown ep) (Shown 2) (Shown 180) (Shown 0)
     (Shown 0) Blank Blank Blank"

definition other_side :: cached_position where
  "other_side = NewCachedPosition 2 7 (- 1) MarginModeIsolated 10 (Shown 100) (Shown 2) (Shown 20) (Shown 109)
     (Shown 50) Blank Blank Blank"

definition taken_positions :: "dec \<Rightarrow> position_cache" where
  "taken_positions ep = AddPosition other_side (AddPosition (taken_position ep) NewPositionCache)"

definition bid_book :: book where
  "bid_book = snd (PlaceLimit \<lparr>oID = 2, oUserID = 8, oSide = 1, oPrice = 100, oQuantity = 5, oIsMaker = False\<rparr>
     (snd (NextOrderID NewBook)))"

definition sample_taken :: "dec \<Rightarrow> engine" where
  "sample_taken ep = sample_risky\<lparr>positionCache := taken_positions ep, ebook := bid_book\<rparr>"

lemma bid_book_value:
  "bid_book = \<lparr>bids = [\<lparr>lPrice = 100, lOrders = [\<lparr>oID = 2, oUserID = 8, oSide = 1, oPrice = 100, oQuantity = 5, oIsMaker = True\<rparr>],
     lTotal = 5\<rparr>], asks = [], orderIndex = [(2, \<lparr>oID = 2, oUserID = 8, oSide = 1, oPrice = 100, oQuantity = 5, oIsMaker = True\<rparr>)],
     nextID = 2\<rparr>"
  by code_simp

lemma taken_fields [simp]:
  "pID (taken_position ep) = 1" "pUserID (taken_position ep) = LiquidationUserID" "pSide (taken_position ep) = 1"
  "pLeverage (taken_position ep) = 1" "posQty (taken_position ep) = 2" "pState (taken_position ep) = PosStateActive"
  "pID other_side = 2" "pUserID other_side = 7" "pSide other_side = - 1" "pLeverage other_side = 10" "posQty other_side = 2"
  "pState other_side = PosStateActive" "posFunding (taken_position ep) = 0" "posFunding other_side = 0"
  by (simp_all add: taken_position_def other_side_def NewCachedPosition_def pos_fields)

lemma taken_live [simp]: "posLive (positionCache (sample_taken ep)) = [(1, taken_position ep), (2, other_side)]"
  by (simp add: sample_taken_def taken_positions_def)

lemma taken_user [simp]: "GetByUser LiquidationUserID (positionCache (sample_taken ep)) = [taken_position ep]"
proof -
  have "user_ids LiquidationUserID (taken_positions ep) = [1]"
    by (simp add: taken_positions_def user_ids_Add) (simp add: user_ids_def NewPositionCache_def)
  then show ?thesis using taken_live [of ep] by (simp add: GetByUser_def sample_taken_def map_filter_simps)
qed

lemma with_bid_book:
  assumes "exchange_ok e" and "nextID (ebook e) \<le> 2" and "holds_account 8 (memAccounts e)"
  shows "exchange_ok (e\<lparr>ebook := bid_book\<rparr>)"
proof -
  have nid: "NextOrderID NewBook = (2, NewBook\<lparr>nextID := 2\<rparr>)" by code_simp
  define ord where "ord = \<lparr>oID = 0, oUserID = 8, oSide = 1, oPrice = 100, oQuantity = 5, oIsMaker = False\<rparr>"
  have "book_reach bid_book"
  proof (rule reach_limit [OF reach_new _ nid])
    show "PlaceLimit (ord\<lparr>oID := 2\<rparr>) (NewBook\<lparr>nextID := 2\<rparr>) =
        ((fst (fst (PlaceLimit (ord\<lparr>oID := 2\<rparr>) (NewBook\<lparr>nextID := 2\<rparr>))), snd (fst (PlaceLimit (ord\<lparr>oID := 2\<rparr>) (NewBook\<lparr>nextID := 2\<rparr>)))), bid_book)"
      using nid by (simp add: bid_book_def ord_def)
  qed (simp add: NewBook_def)
  then have "book_ok bid_book" "ids_below bid_book" using book_reach_inv by blast+
  then show ?thesis
    by (intro exchange_book [OF assms(1), where u = 8]) (use assms(2,3) in \<open>simp_all add: bid_book_value book_users_def resting_def\<close>)
qed

lemma sample_risky_bidder [simp]: "nextID (ebook sample_risky) = 1" "holds_account 8 (memAccounts sample_risky)"
  by (simp_all add: sample_risky_def sample_engine_def NewEngine_def NewBook_def ledger_defs)

lemma sample_taken_ok: "exchange_ok (sample_taken ep)"
proof -
  let ?e = "sample_risky\<lparr>positionCache := taken_positions ep\<rparr>"
  have "cache_ok (AddPosition (taken_position ep) NewPositionCache)" by (rule cache_ok_Add [OF cache_ok_new]) simp
  then have "cache_ok (taken_positions ep)" unfolding taken_positions_def by (rule cache_ok_Add) simp
  then have pos: "positions_ok (taken_positions ep) 100000"
    by (simp add: positions_ok_def pos_ok_def taken_positions_def)
  have own: "owners_ok (taken_positions ep) (memAccounts sample_risky)"
    by (simp add: owners_ok_def taken_positions_def sample_risky_def sample_engine_def ledger_defs)
  have "exchange_ok ?e"
    using exchange_positions [OF sample_risky_ok, of "taken_positions ep"] pos own by (simp add: sample_risky_def)
  from with_bid_book [OF this] show ?thesis by (simp add: sample_taken_def)
qed

lemma sample_taken_room: "room 1 (sample_taken ep)"
  by (simp add: sample_taken_def room_def book_size_def resting_def bid_book_value sample_risky_def)

text \<open>The fund and the positions (user, side, size) after a tick with a fund of 50.\<close>

definition tick_result :: "dec \<Rightarrow> (int option \<times> dec \<times> (int \<times> int \<times> dstring) list) option" where
  "tick_result ep = (case OnTick dec16 5 100 NewLiquidationEngine (Some (NewFund 50)) (sample_taken ep) of
     Some (le, Some f, e) \<Rightarrow>
       Some (lastDisposal le, fundBalance f, map (\<lambda>(i, p). (pUserID p, pSide p, pQuantity p)) (posLive (positionCache e)))
   | _ \<Rightarrow> None)"

lemma tick_results:
  "tick_result 90 = Some (Some 5, 60, [(- 1, 1, Shown 1), (7, - 1, Shown 2), (8, 1, Shown 1)])"
  "tick_result 110 = Some (Some 5, 40, [(- 1, 1, Shown 1), (7, - 1, Shown 2), (8, 1, Shown 1)])"
  "tick_result 160 = Some (Some 5, 0, [(- 1, 1, Shown 1), (7, - 1, Shown 2), (8, 1, Shown 1)])"
  by code_simp+

subsection \<open>What the liquidation engine promises\<close>

text \<open>
  C20. Taking over an open position moves it from the user to the liquidation account: when the
  liquidation account can pay for the trade, the user's net position loses exactly the position,
  the liquidation account's net position gains it, no other user's net position changes and longs
  still equal shorts.
\<close>

theorem TakeOver_transfers:
  assumes "div_law D" and "exchange_ok e" and "room 1 e"
    and "FindOpposite (pUserID p) (- pSide p) (positionCache e) = Some p" and "pState p = PosStateActive"
    and "pUserID p \<noteq> LiquidationUserID" and "holds_account LiquidationUserID (memAccounts e)"
    and "GetOrder 0 (orderCache e) = None"
    and "shortfall D LiquidationUserID (pSide p) (posQty p) b 1 True e = 0"
  shows "\<exists>e'. TakeOver D (pID p) b e = Some e' \<and> exchange_ok e' \<and>
    (\<forall>v. net_position v e' = net_position v e +
       (if v = pUserID p then - signed_qty p else if v = LiquidationUserID then signed_qty p else 0)) \<and>
    open_net e' = open_net e"
proof -
  have "engine_ok e" using assms(2) by (simp add: exchange_ok_def)
  from FindOpposite_Some(1) [OF engine_ok_cache [OF this] assms(4)]
  have ptr: "deref (pID p) (positionCache e) = Some p" by (simp add: deref_def)
  have "shortfall D (pUserID p) (- pSide p) (posQty p) b (pLeverage p) False e = 0"
    using assms(4) by (simp add: shortfall_def)
  moreover have "room (Suc 0) e" using assms(3) by simp
  ultimately show ?thesis using TakeOver_effect [OF assms(1,2) _ ptr assms(7,5,6,8) _ assms(9)] by blast
qed

theorem TakeOver_transfers_witness:
  "\<exists>e'. TakeOver dec16 1 90 sample_risky = Some e' \<and>
     net_position 7 e' = 0 \<and> net_position LiquidationUserID e' = 2 \<and> open_net e' = 2"
proof -
  have f: "FindOpposite 7 (- 1) (positionCache sample_risky) = Some sample_position" by (simp add: FindOpposite_def)
  have "net_position 7 sample_risky = 2" "net_position LiquidationUserID sample_risky = 0" "open_net sample_risky = 2"
    by (simp_all add: net_position_def open_net_def over_positions_def of_user_def signed_qty_def)
  moreover have "GetOrder 0 (orderCache sample_risky) = None" by (simp add: sample_risky_def GetOrder_def)
  ultimately show ?thesis
    using TakeOver_transfers [OF dec16_law sample_risky_ok sample_risky_room, of sample_position 90] f
    by (auto simp: signed_qty_def)
qed

text \<open>
  C5. A tick of the liquidation engine never panics while IDs are left: the exchange stays well formed,
  its orders are immediate-or-cancel, so nothing new rests in the book afterwards, and the insurance fund,
  if there is one, does not go negative.
\<close>

theorem OnTick_safe:
  assumes "div_law D" and "exchange_ok e" and "room (length (GetByUser LiquidationUserID (positionCache e))) e"
    and "holds_account LiquidationUserID (memAccounts e)" and "f = None \<or> 0 \<le> fundBalance (the f)"
  shows "\<exists>le' f' e'. OnTick D now mid le f e = Some (le', f', e') \<and> exchange_ok e' \<and>
    resting_owned (ebook e') \<subseteq> resting_owned (ebook e) \<and> (f = None \<longleftrightarrow> f' = None) \<and>
    (f' = None \<or> 0 \<le> fundBalance (the f'))"
proof -
  obtain le' f' e' pnl where "OnTick D now mid le f e = Some (le', f', e')" "exchange_ok e'"
    "resting_owned (ebook e') \<subseteq> resting_owned (ebook e)" and f: "fund_step pnl f f'"
    using OnTick_ok [OF assms(1,2) _ assms(4)] assms(3) unfolding liq_positions_def by blast
  moreover have "(f = None \<longleftrightarrow> f' = None) \<and> (f' = None \<or> 0 \<le> fundBalance (the f'))"
    using f assms(5) by (auto simp: fund_step_def split: option.splits)
  ultimately show ?thesis by blast
qed

text \<open>
  In each of three exchanges the tick sells one of the two units to the bid of user 8: with an entry at 90 the fund
  gains 10, at 110 it pays 10, and at 160 it pays all it has.
\<close>

theorem OnTick_safe_witness:
  "list_all (\<lambda>(ep, left). case OnTick dec16 5 100 NewLiquidationEngine (Some (NewFund 50)) (sample_taken ep) of
     Some (le, Some f, e) \<Rightarrow> exchange_ok e \<and> resting_owned (ebook e) \<subseteq> resting_owned bid_book \<and> 0 \<le> fundBalance f \<and>
       lastDisposal le = Some 5 \<and> fundBalance f = left \<and>
       map (\<lambda>(i, p). (pUserID p, pSide p, pQuantity p)) (posLive (positionCache e)) =
         [(- 1, 1, Shown 1), (7, - 1, Shown 2), (8, 1, Shown 1)]
   | _ \<Rightarrow> False) [(90, 60), (110, 40), (160, 0)]"
proof -
  have acc: "holds_account LiquidationUserID (memAccounts (sample_taken ep))" for ep
    using sample_risky_accounts(1) by (simp add: sample_taken_def)
  have safe: "\<exists>le f e. OnTick dec16 5 100 NewLiquidationEngine (Some (NewFund 50)) (sample_taken ep) = Some (le, Some f, e) \<and>
      exchange_ok e \<and> resting_owned (ebook e) \<subseteq> resting_owned bid_book \<and> 0 \<le> fundBalance f" for ep
  proof -
    have "room (length (GetByUser LiquidationUserID (positionCache (sample_taken ep)))) (sample_taken ep)"
      using sample_taken_room by simp
    from OnTick_safe [OF dec16_law sample_taken_ok this acc, of "Some (NewFund 50)" 5 100 NewLiquidationEngine] show ?thesis
      by (auto simp: NewFund_def sample_taken_def)
  qed
  show ?thesis
    using safe [of 90] safe [of 110] safe [of 160] tick_results by (auto simp: tick_result_def)
qed
end
