(* ===== verification/Monitor.thy ===== *)
theory Monitor
  imports Liquidation ADL
begin

section \<open>The risk monitor (\<open>internal/engine/trading/monitor.go\<close>)\<close>

text \<open>
  The loop that runs on every price tick: liquidations at the mark price, forced take-profit, the
  users' take-profit and stop-loss, the profit messages, and the liquidation engine's tick. The state
  is the trading engine with the liquidation engine's settings and the insurance fund, the log of
  calls of the position-close callback (\<open>None\<close> when it is not set) and the log of messages the hub was
  asked to send. The messages carry the numbers before they are formatted.

  Positions are pointers: \<open>GetAll\<close> answers the pointers of the active positions once, and each is
  read when the loop comes to it. The price of the mark price engine (\<open>None\<close> without the engine)
  and the clock are arguments.
\<close>

subsection \<open>State\<close>

datatype notice =
    PositionPnl int dec dec dec int
  | Liquidated int dec dec
  | ForceTpDone int dec dec
  | AdlDone int dec dec dec dec

record monitor =
  mEngine :: engine
  mFund :: "fund option"
  mLiq :: liq_engine
  onPositionClose :: "(int \<times> int \<times> close_result \<times> int) list option"
  mNotices :: "(int \<times> notice) list"

definition NewMonitor :: "engine \<Rightarrow> fund option \<Rightarrow> monitor" where
  "NewMonitor e f =
     \<lparr>mEngine = e, mFund = f, mLiq = NewLiquidationEngine, onPositionClose = None, mNotices = []\<rparr>"

definition SetOnPositionClose :: "monitor \<Rightarrow> monitor" where
  "SetOnPositionClose m = m\<lparr>onPositionClose := Some []\<rparr>"

definition SendToUser :: "int \<Rightarrow> notice \<Rightarrow> monitor \<Rightarrow> monitor" where
  "SendToUser userID msg m = m\<lparr>mNotices := mNotices m @ [(userID, msg)]\<rparr>"

definition notifyClose :: "int \<Rightarrow> int \<Rightarrow> close_result \<Rightarrow> int \<Rightarrow> monitor \<Rightarrow> monitor" where
  "notifyClose userID positionID result reason m =
     (case onPositionClose m of
        None \<Rightarrow> m
      | Some calls \<Rightarrow> m\<lparr>onPositionClose := Some (calls @ [(userID, positionID, result, reason)])\<rparr>)"

subsection \<open>Price tests\<close>

definition shouldLiquidate :: "dec \<Rightarrow> dec \<Rightarrow> int \<Rightarrow> bool" where
  "shouldLiquidate markPrice liqPrice side =
     (if side = 1 then markPrice \<le> liqPrice else liqPrice \<le> markPrice)"

definition isPastPrice :: "dec \<Rightarrow> dec \<Rightarrow> int \<Rightarrow> bool" where
  "isPastPrice price threshold side =
     (if side = 1 then price < threshold else threshold < price)"

definition shouldTrigger :: "dec \<Rightarrow> dec \<Rightarrow> int \<Rightarrow> bool \<Rightarrow> bool" where
  "shouldTrigger price triggerPrice side isProfitDirection =
     (if isProfitDirection then
        if side = 1 then triggerPrice \<le> price else price \<le> triggerPrice
      else
        if side = 1 then price \<le> triggerPrice else triggerPrice \<le> price)"

subsection \<open>Auto-deleveraging\<close>

text \<open>One reduction. \<open>UpdatePosition\<close> always answers a result, so the branch for \<open>nil\<close> is never taken.\<close>

definition reduceOne ::
    "decimal_lib \<Rightarrow> int \<Rightarrow> dec \<Rightarrow> adl_result \<Rightarrow> monitor \<Rightarrow> monitor option" where
  "reduceOne D closeSide currentPrice r m =
     do {
       let e = mEngine m;
       let (adlOrderID, b1) = NextOrderID (ebook e);
       let e1 = submitRow (system_order adlOrderID (arUserID r) closeSide OrderTypeMarket 1 None
                  (arReducedQty r) (arSettlementPrice r)) (e\<lparr>ebook := b1\<rparr>);
       (result, e2) \<leftarrow> UpdatePosition D (arUserID r) closeSide (arReducedQty r) (arSettlementPrice r) 1 False
                         CloseReasonADL adlOrderID e1;
       Some (SendToUser (arUserID r)
               (AdlDone (arPositionID r) (arReducedQty r) (arSettlementPrice r) currentPrice (rNetPnl result))
               (m\<lparr>mEngine := e2\<rparr>))
     }"

fun reduceAll :: "decimal_lib \<Rightarrow> int \<Rightarrow> dec \<Rightarrow> adl_result list \<Rightarrow> monitor \<Rightarrow> monitor option" where
  "reduceAll D closeSide currentPrice [] m = Some m"
| "reduceAll D closeSide currentPrice (r # results) m =
     do {
       m1 \<leftarrow> reduceOne D closeSide currentPrice r m;
       reduceAll D closeSide currentPrice results m1
     }"

definition derefAll :: "int list \<Rightarrow> position_cache \<Rightarrow> cached_position list" where
  "derefAll ps c = List.map_filter (\<lambda>i. deref i c) ps"

definition triggerADL ::
    "decimal_lib \<Rightarrow> ranked_position slice_sort \<Rightarrow> int \<Rightarrow> dec \<Rightarrow> dec \<Rightarrow> dec \<Rightarrow> monitor \<Rightarrow> monitor option" where
  "triggerADL D sortSlice liquidatedSide deficit bankruptcyPrice currentPrice m =
     do {
       let targetSide = - liquidatedSide;
       let pc = positionCache (mEngine m);
       let allPositions = derefAll (GetAll pc) pc;
       ranked \<leftarrow> RankPositions D sortSlice allPositions targetSide currentPrice bankruptcyPrice;
       (if ranked = [] then Some m
        else do {
          (results, remaining) \<leftarrow> ExecuteADL D ranked deficit bankruptcyPrice currentPrice;
          reduceAll D (- targetSide) currentPrice results m
        })
     }"

subsection \<open>The handlers\<close>

definition handleLiquidation ::
    "decimal_lib \<Rightarrow> ranked_position slice_sort \<Rightarrow> int \<Rightarrow> dec \<Rightarrow> dec \<Rightarrow> dec \<Rightarrow> dec \<Rightarrow> monitor \<Rightarrow> monitor option" where
  "handleLiquidation D sortSlice posPtr lastPrice entryPrice quantity margin m =
     do {
       pos \<leftarrow> deref posPtr (positionCache (mEngine m));
       bankruptcyPrice \<leftarrow> CalcBankruptcyPrice D entryPrice (pLeverage pos) (pSide pos);
       e1 \<leftarrow> TakeOver D posPtr bankruptcyPrice (mEngine m);
       let m1 = m\<lparr>mEngine := e1\<rparr>;
       m2 \<leftarrow> (case mFund m1 of
                None \<Rightarrow> Some m1
              | Some fd \<Rightarrow>
                  if isPastPrice lastPrice bankruptcyPrice (pSide pos) then do {
                    let deficit = \<bar>bankruptcyPrice - lastPrice\<bar> * quantity;
                    let ((covered, needADL), fd') = Cover deficit fd;
                    let m1' = m1\<lparr>mFund := Some fd'\<rparr>;
                    (if needADL
                     then triggerADL D sortSlice (pSide pos) (deficit - covered) bankruptcyPrice lastPrice m1'
                     else Some m1')
                  } else Some m1);
       let m3 = SendToUser (pUserID pos) (Liquidated (pID pos) lastPrice (- margin)) m2;
       let rawPnl = CalcUnrealizedPnL entryPrice bankruptcyPrice quantity (pSide pos);
       Some (notifyClose (pUserID pos) (pID pos)
               \<lparr>crRawPnl = rawPnl, crRealizedPnl = rawPnl, crFee = 0, crFundingPnl = 0, crNetPnl = rawPnl,
                crClosePrice = bankruptcyPrice, crClosedQty = quantity, crRemainingQty = 0, crIsPartial = False\<rparr>
               CloseReasonLiquidation m3)
     }"

definition handleForceTP :: "decimal_lib \<Rightarrow> int \<Rightarrow> dec \<Rightarrow> monitor \<Rightarrow> monitor option" where
  "handleForceTP D posPtr lastPrice m =
     do {
       pos \<leftarrow> deref posPtr (positionCache (mEngine m));
       (res, e1) \<leftarrow> ClosePositionInternal D (pID pos) lastPrice CloseReasonForceTp (mEngine m);
       let m1 = m\<lparr>mEngine := e1\<rparr>;
       Some (case res of
               Inl err \<Rightarrow> m1
             | Inr result \<Rightarrow>
                 notifyClose (pUserID pos) (pID pos) result CloseReasonForceTp
                   (SendToUser (pUserID pos) (ForceTpDone (pID pos) lastPrice (crRealizedPnl result)) m1))
     }"

definition handleClose :: "decimal_lib \<Rightarrow> int \<Rightarrow> dec \<Rightarrow> int \<Rightarrow> monitor \<Rightarrow> monitor option" where
  "handleClose D posPtr lastPrice reason m =
     (if reason = CloseReasonLiquidation \<or> reason = CloseReasonForceTp then Some m
      else do {
        pos \<leftarrow> deref posPtr (positionCache (mEngine m));
        (res, e1) \<leftarrow> ClosePositionInternal D (pID pos) lastPrice reason (mEngine m);
        let m1 = m\<lparr>mEngine := e1\<rparr>;
        Some (case res of
                Inl err \<Rightarrow> m1
              | Inr result \<Rightarrow> notifyClose (pUserID pos) (pID pos) result reason m1)
      })"

subsection \<open>Cross margin\<close>

record cross_data =
  upnlTotal :: dec
  maintenanceTotal :: dec
  crossPositions :: "int list"

text \<open>One position added to its user's totals.\<close>

definition addCross ::
    "dec \<Rightarrow> dec \<Rightarrow> int \<Rightarrow> cached_position \<Rightarrow> (int \<times> cross_data) list \<Rightarrow> (int \<times> cross_data) list" where
  "addCross mr lastPrice posPtr pos crossByUser =
     (if pMarginMode pos \<noteq> MarginModeCross then crossByUser
      else
        let cd = (case map_of crossByUser (pUserID pos) of
                    Some cd \<Rightarrow> cd
                  | None \<Rightarrow> \<lparr>upnlTotal = 0, maintenanceTotal = 0, crossPositions = []\<rparr>);
            ep = NewFromString (pEntryPrice pos);
            qty = NewFromString (pQuantity pos);
            upnl = CalcUnrealizedPnL ep lastPrice qty (pSide pos);
            mg = NewFromString (pMargin pos);
            posValue = mg * of_int (pLeverage pos);
            maintMargin = posValue * mr
        in AList.update (pUserID pos)
             \<lparr>upnlTotal = upnlTotal cd + upnl, maintenanceTotal = maintenanceTotal cd + maintMargin,
              crossPositions = crossPositions cd @ [posPtr]\<rparr> crossByUser)"

fun crossTotals ::
    "dec \<Rightarrow> dec \<Rightarrow> int list \<Rightarrow> position_cache \<Rightarrow> (int \<times> cross_data) list \<Rightarrow> (int \<times> cross_data) list option" where
  "crossTotals mr lastPrice [] c crossByUser = Some crossByUser"
| "crossTotals mr lastPrice (i # ps) c crossByUser =
     do {
       pos \<leftarrow> deref i c;
       crossTotals mr lastPrice ps c (addCross mr lastPrice i pos crossByUser)
     }"

fun liquidateAll ::
    "decimal_lib \<Rightarrow> ranked_position slice_sort \<Rightarrow> dec \<Rightarrow> int list \<Rightarrow> monitor \<Rightarrow> monitor option" where
  "liquidateAll D sortSlice lastPrice [] m = Some m"
| "liquidateAll D sortSlice lastPrice (i # ps) m =
     do {
       cp \<leftarrow> deref i (positionCache (mEngine m));
       let cpEntry = NewFromString (pEntryPrice cp);
       let cpQty = NewFromString (pQuantity cp);
       let cpMargin = NewFromString (pMargin cp);
       m1 \<leftarrow> handleLiquidation D sortSlice i lastPrice cpEntry cpQty cpMargin m;
       liquidateAll D sortSlice lastPrice ps m1
     }"

subsection \<open>One position\<close>

definition updateCachedPosition :: "int \<Rightarrow> (cached_position \<Rightarrow> cached_position) \<Rightarrow> monitor \<Rightarrow> monitor" where
  "updateCachedPosition i fn m =
     m\<lparr>mEngine := (mEngine m)\<lparr>positionCache := UpdateCached i fn (positionCache (mEngine m))\<rparr>\<rparr>"

text \<open>The last case: the profit message.\<close>

definition pushPnl :: "decimal_lib \<Rightarrow> dec \<Rightarrow> int \<Rightarrow> cached_position \<Rightarrow> monitor \<Rightarrow> monitor option" where
  "pushPnl D lastPrice n pos m =
     do {
       let entryPrice = NewFromString (pEntryPrice pos);
       let quantity = NewFromString (pQuantity pos);
       let margin = NewFromString (pMargin pos);
       let upnl = CalcUnrealizedPnL entryPrice lastPrice quantity (pSide pos);
       marginRatio \<leftarrow> CalcMarginRatio D margin upnl quantity lastPrice;
       roi \<leftarrow> CalcROI D upnl margin;
       let adlIndicator = GetADLIndicator roi n;
       Some (SendToUser (pUserID pos) (PositionPnl (pID pos) upnl marginRatio roi adlIndicator) m)
     }"

text \<open>Forced take-profit, take-profit and stop-loss, in this order.\<close>

definition checkTriggers ::
    "decimal_lib \<Rightarrow> dec \<Rightarrow> int \<Rightarrow> int \<Rightarrow> cached_position \<Rightarrow> monitor \<Rightarrow> monitor option" where
  "checkTriggers D lastPrice n posPtr pos m =
     (if shouldTrigger lastPrice (NewFromString (pForceTpPrice pos)) (pSide pos) True
      then handleForceTP D posPtr lastPrice m
      else if pTakeProfit pos \<noteq> Blank \<and> shouldTrigger lastPrice (NewFromString (pTakeProfit pos)) (pSide pos) True
      then handleClose D posPtr lastPrice CloseReasonTakeProfit
             (updateCachedPosition (pID pos) (\<lambda>cp. cp\<lparr>pStopLoss := Blank\<rparr>) m)
      else if pStopLoss pos \<noteq> Blank \<and> shouldTrigger lastPrice (NewFromString (pStopLoss pos)) (pSide pos) False
      then handleClose D posPtr lastPrice CloseReasonStopLoss
             (updateCachedPosition (pID pos) (\<lambda>cp. cp\<lparr>pTakeProfit := Blank\<rparr>) m)
      else pushPnl D lastPrice n pos m)"

definition checkPosition ::
    "decimal_lib \<Rightarrow> ranked_position slice_sort \<Rightarrow> dec \<Rightarrow> dec \<Rightarrow> int \<Rightarrow> (int \<times> cross_data) list \<Rightarrow> int \<Rightarrow>
     monitor \<times> int list \<Rightarrow> (monitor \<times> int list) option" where
  "checkPosition D sortSlice markPrice lastPrice n crossByUser posPtr st =
     (let (m, crossLiquidated) = st
      in do {
        pos \<leftarrow> deref posPtr (positionCache (mEngine m));
        let entryPrice = NewFromString (pEntryPrice pos);
        let quantity = NewFromString (pQuantity pos);
        let margin = NewFromString (pMargin pos);
        let liqPrice = NewFromString (pLiqPrice pos);
        (if pMarginMode pos = MarginModeCross then
           if pUserID pos \<in> set crossLiquidated then Some (m, crossLiquidated)
           else do {
             cd \<leftarrow> map_of crossByUser (pUserID pos);
             let balance = GetBalance (pUserID pos) (memAccounts (mEngine m));
             let accountEquity = balance + upnlTotal cd;
             (if accountEquity \<le> maintenanceTotal cd then do {
                m1 \<leftarrow> liquidateAll D sortSlice lastPrice (crossPositions cd) m;
                Some (m1, pUserID pos # crossLiquidated)
              } else map_option (\<lambda>m1. (m1, crossLiquidated)) (checkTriggers D lastPrice n posPtr pos m))
           }
         else if shouldLiquidate markPrice liqPrice (pSide pos)
         then map_option (\<lambda>m1. (m1, crossLiquidated))
                (handleLiquidation D sortSlice posPtr lastPrice entryPrice quantity margin m)
         else map_option (\<lambda>m1. (m1, crossLiquidated)) (checkTriggers D lastPrice n posPtr pos m))
      })"

fun checkAll ::
    "decimal_lib \<Rightarrow> ranked_position slice_sort \<Rightarrow> dec \<Rightarrow> dec \<Rightarrow> int \<Rightarrow> (int \<times> cross_data) list \<Rightarrow> int list \<Rightarrow>
     monitor \<times> int list \<Rightarrow> (monitor \<times> int list) option" where
  "checkAll D sortSlice markPrice lastPrice n crossByUser [] st = Some st"
| "checkAll D sortSlice markPrice lastPrice n crossByUser (i # ps) st =
     do {
       st1 \<leftarrow> checkPosition D sortSlice markPrice lastPrice n crossByUser i st;
       checkAll D sortSlice markPrice lastPrice n crossByUser ps st1
     }"

subsection \<open>The tick\<close>

definition OnPriceUpdate ::
    "decimal_lib \<Rightarrow> ranked_position slice_sort \<Rightarrow> int \<Rightarrow> dec option \<Rightarrow> dec \<Rightarrow> monitor \<Rightarrow> monitor option" where
  "OnPriceUpdate D sortSlice now markPriceEngine lastPrice m =
     do {
       let markPrice = (case markPriceEngine of
             None \<Rightarrow> lastPrice
           | Some mp \<Rightarrow> if mp \<noteq> 0 then mp else lastPrice);
       let pc = positionCache (mEngine m);
       let allPositions = GetAll pc;
       crossByUser \<leftarrow> crossTotals (GetMaintRate (eclearance (mEngine m))) lastPrice allPositions pc [];
       (m1, crossLiquidated) \<leftarrow>
         checkAll D sortSlice markPrice lastPrice (int (length allPositions)) crossByUser allPositions (m, []);
       (le', f', e') \<leftarrow> OnTick D now lastPrice (mLiq m1) (mFund m1) (mEngine m1);
       Some (m1\<lparr>mLiq := le', mFund := f', mEngine := e'\<rparr>)
     }"

end
