(* ===== verification/Deleveraging.thy ===== *)
theory Deleveraging
  imports Monitor
begin

section \<open>Auto-deleveraging keeps the exchange\<close>

text \<open>
  The steps of the monitor as a relation, and the reductions that follow a liquidation the insurance fund cannot pay.
  A reduction needs a position to reduce: without one, \<open>UpdatePosition\<close> would open a position, and of no
  quantity when the deficit per unit rounds to nothing. Every result belongs to a ranked position of its
  user, and a reduction takes at most one position away, so there is always one left for the results to come.
\<close>

subsection \<open>Steps of the monitor\<close>

definition spends :: "nat \<Rightarrow> engine \<Rightarrow> engine \<Rightarrow> bool" where
  "spends k e e' \<longleftrightarrow> (\<forall>j. room (j + k) e \<longrightarrow> room j e')"

lemma spends_uses: "uses e e' \<Longrightarrow> spends 1 e e'"
  using room_uses by (simp add: spends_def)

lemma spends_0 [simp]: "spends 0 e e"
  by (simp add: spends_def)

lemma spends_trans: "spends j e e1 \<Longrightarrow> spends k e1 e2 \<Longrightarrow> spends (j + k) e e2"
  by (simp add: spends_def add.assoc [symmetric] add.commute [of _ j])

lemma spends_mono: "spends j e e' \<Longrightarrow> j \<le> k \<Longrightarrow> spends k e e'"
proof -
  assume s: "spends j e e'" and "j \<le> k"
  then obtain d where k: "k = d + j" using le_Suc_ex by (metis add.commute)
  have "room (i + d) e' \<Longrightarrow> room i e'" for i
    by (induction d) (auto intro: room_0)
  with s show ?thesis by (simp add: spends_def k add.assoc [symmetric])
qed

lemma room_le: "room k e \<Longrightarrow> j \<le> k \<Longrightarrow> room j e"
  using spends_mono [of 0 e e "k - j"] by (simp add: spends_def)

definition risk_step :: "nat \<Rightarrow> monitor \<Rightarrow> monitor \<Rightarrow> bool" where
  "risk_step k m m' \<longleftrightarrow>
     exchange_ok (mEngine m') \<and> accounted (mEngine m) (mEngine m') \<and> spends k (mEngine m) (mEngine m') \<and>
     mLiq m' = mLiq m"

lemma risk_refl: "exchange_ok (mEngine m) \<Longrightarrow> risk_step 0 m m"
  by (simp add: risk_step_def)

lemma risk_trans: "risk_step j m m1 \<Longrightarrow> risk_step k m1 m2 \<Longrightarrow> risk_step (j + k) m m2"
  using accounted_trans spends_trans by (auto simp: risk_step_def)

lemma risk_mono: "risk_step j m m' \<Longrightarrow> j \<le> k \<Longrightarrow> risk_step k m m'"
  using spends_mono by (auto simp: risk_step_def)

lemma risk_frame [simp]:
  "risk_step k m (SendToUser u msg m') = risk_step k m m'"
  "risk_step k m (notifyClose u i r reason m') = risk_step k m m'"
  "risk_step k m (m'\<lparr>mFund := f\<rparr>) = risk_step k m m'"
  by (simp_all add: risk_step_def SendToUser_def notifyClose_def split: option.split)

lemma monitor_frame [simp]:
  "mEngine (SendToUser u msg m) = mEngine m" "mEngine (notifyClose u i r reason m) = mEngine m"
  by (simp_all add: SendToUser_def notifyClose_def split: option.split)

text \<open>What a pass of the monitor may assume of the state it finds: pointers and the liquidation account.\<close>

definition ready :: "int list \<Rightarrow> monitor \<Rightarrow> bool" where
  "ready ps m \<longleftrightarrow>
     exchange_ok (mEngine m) \<and> holds_account LiquidationUserID (memAccounts (mEngine m)) \<and>
     (\<forall>i \<in> set ps. deref i (positionCache (mEngine m)) \<noteq> None)"

lemma ready_step: "risk_step k m m' \<Longrightarrow> ready ps m \<Longrightarrow> ready ps m'"
  unfolding ready_def risk_step_def using accounted_pointers accounted_holds by blast

subsection \<open>A user's positions on a side\<close>

definition targets :: "int \<Rightarrow> int \<Rightarrow> position_cache \<Rightarrow> int set" where
  "targets s u c =
     {i. \<exists>p. map_of (posLive c) i = Some p \<and> pUserID p = u \<and> pSide p = s \<and> pState p = PosStateActive}"

lemma targets_finite [simp]: "finite (targets s u c)"
proof (rule finite_subset)
  show "targets s u c \<subseteq> dom (map_of (posLive c))" by (auto simp: targets_def)
qed (rule finite_dom_map_of)

lemma targets_Add: "map_of (posLive c) (pID x) = None \<Longrightarrow> targets s u c \<subseteq> targets s u (AddPosition x c)"
  by (auto simp: targets_def)

lemma targets_Remove:
  "map_of (posLive c) (pID x) = Some x \<Longrightarrow>
   targets s v c - (if v = pUserID x then {pID x} else {}) \<subseteq> targets s v (RemovePosition (pID x) c)"
  by (auto simp: targets_def)

lemma targets_Update:
  assumes "\<And>p. pUserID (fn p) = pUserID p \<and> pSide (fn p) = pSide p \<and> pState (fn p) = PosStateActive"
  shows "targets s v c \<subseteq> targets s v (UpdateCached i fn c)"
  using assms by (auto simp: targets_def UpdateCached_def split: option.split)

lemma targets_opposite:
  assumes "cache_ok c" and "targets (- s) u c \<noteq> {}"
  obtains x where "FindOpposite u s c = Some x"
proof -
  obtain i p where p: "map_of (posLive c) i = Some p" "pUserID p = u" "pSide p = - s" "pState p = PosStateActive"
    using assms(2) by (auto simp: targets_def)
  moreover have "pID p = i" using assms(1) p(1) by (simp add: cache_ok_def)
  ultimately show thesis using FindOpposite_None [OF assms(1), of u s p] that by (cases "FindOpposite u s c") auto
qed

subsection \<open>One reduction\<close>

lemma handleReduce_targets:
  assumes run: "handleReduce D u x s q p l reason oid e = Some (r, e')" and law: "div_law D" and ok: "engine_ok e"
    and ids: "ids_left 1 e" and q: "0 \<le> q" and acc: "holds_account u (memAccounts e)"
    and x: "map_of (posLive (positionCache e)) (pID x) = Some x" "pUserID x = u" "pSide x = - s"
    and reason: "reason \<noteq> CloseReasonLiquidation"
  shows "targets t v (positionCache e) - (if v = u then {pID x} else {}) \<subseteq> targets t v (positionCache e')"
  using run reason
proof (cases rule: handleReduce_cases)
  case (1 cr e1 evts)
  have "moves u p (of_int s * min q (posQty x)) (rrFee cr) 0 0 e e1"
    by (rule reduction_moves [OF law ok q acc x 1(1,4,6,5,7,8,9)])
  then have e1: "engine_ok e1" "ids_left 1 e1" using ids by (auto simp: moves_def ids_left_def)
  have same: "pUserID (Engine_Updates.reduced cr y) = pUserID y \<and> pSide (Engine_Updates.reduced cr y) = pSide y \<and> pState (Engine_Updates.reduced cr y) = PosStateActive" for y
    by (simp add: Engine_Updates.reduced_def)
  have first: "targets t v (positionCache e) - (if v = u then {pID x} else {}) \<subseteq> targets t v (positionCache e1)"
    using targets_Remove [OF x(1), of t v] targets_Update [OF same, of t v "positionCache e" "pID x"] x(2) 1(7)
    by (cases "rrIsFullClose cr") auto
  show ?thesis
  proof (cases "posQty x < q")
    case True
    then obtain r1 where "handleOpen D u s (q - posQty x) p l False oid e1 = Some (r1, e')" using 1(10) by auto
    then have "targets t v (positionCache e1) \<subseteq> targets t v (positionCache e')"
    proof (cases rule: handleOpen_cases)
      case (opened cr' accs evts')
      let ?y = "opened (nextPosID e1 + 1) u s (open_leverage l) (q - posQty x) p cr'"
      have "map_of (posLive (positionCache e1)) (pID ?y) = None" by (simp add: engine_ok_fresh [OF e1(1)])
      from targets_Add [OF this] show ?thesis using opened(7) next_id [OF e1] by simp
    qed simp
    with first show ?thesis by blast
  qed (use 1(10) first in simp)
qed

lemma UpdatePosition_reduces:
  assumes law: "div_law D" and ok: "engine_ok e" and ids: "ids_left 1 e" and q: "0 \<le> q" and s: "s = 1 \<or> s = - 1"
    and acc: "holds_account u (memAccounts e)" and reason: "reason \<noteq> CloseReasonLiquidation"
    and x: "FindOpposite u s (positionCache e) = Some x"
  obtains r e' n fee sl where "UpdatePosition D u s q p l m reason oid e = Some (r, e')" and "moves u p n fee sl 1 e e'"
    and "\<And>t v. targets t v (positionCache e) - (if v = u then {pID x} else {}) \<subseteq> targets t v (positionCache e')"
proof -
  note live = FindOpposite_Some(1-3) [OF engine_ok_cache [OF ok] x]
  obtain r e' where run: "handleReduce D u x s q p l reason oid e = Some (r, e')"
    using handleReduce_total [OF law ok live(1), of u s q p l reason oid] by auto
  from handleReduce_applies [OF run law ok ids q s acc live reason] obtain n fee sl where "moves u p n fee sl 1 e e'"
    by (auto simp: applies_def)
  moreover note handleReduce_targets [OF run law ok ids q acc live reason]
  moreover have "UpdatePosition D u s q p l m reason oid e = Some (r, e')" using run x by (simp add: UpdatePosition_def)
  ultimately show thesis using that by blast
qed

lemma reduceOne_ok:
  assumes law: "div_law D" and ok: "exchange_ok (mEngine m)" and rm: "room (Suc k) (mEngine m)" and s: "s = 1 \<or> s = - 1"
    and q: "0 \<le> arReducedQty r" and some: "targets (- s) (arUserID r) (positionCache (mEngine m)) \<noteq> {}"
  obtains m' y where "reduceOne D s cur r m = Some m'" and "risk_step 1 m m'"
    and "\<And>v. targets (- s) v (positionCache (mEngine m)) - (if v = arUserID r then {y} else {}) \<subseteq>
      targets (- s) v (positionCache (mEngine m'))"
proof -
  let ?e = "mEngine m" and ?u = "arUserID r" and ?q = "arReducedQty r" and ?p = "arSettlementPrice r"
  obtain oid b1 where id: "NextOrderID (ebook ?e) = (oid, b1)" by force
  note n = NextOrderID_ok [OF ok rm id]
  let ?ord = "system_order oid ?u s OrderTypeMarket 1 None ?q ?p"
  let ?e1 = "submitRow ?ord (?e\<lparr>ebook := b1\<rparr>)"
  have x1: "exchange_ok ?e1" using n(1) by (simp add: submitRow_def)
  then have e1: "engine_ok ?e1" by (simp add: exchange_ok_def)
  have ids: "ids_left 1 ?e1"
    using room_ids(2) [OF rm, of 1] by (simp add: ids_left_def submitRow_def submit_def)
  have pc: "positionCache ?e1 = positionCache ?e" by (simp add: submitRow_def submit_def)
  obtain x where x: "FindOpposite ?u s (positionCache ?e1) = Some x"
    using targets_opposite [OF engine_ok_cache [OF e1], of s ?u] some pc by auto
  note live = FindOpposite_Some [OF engine_ok_cache [OF e1] x]
  have acc: "holds_account ?u (memAccounts ?e1)" using e1 live(1,2) unfolding engine_ok_def owners_ok_def by metis
  obtain res e' nn fee sl where run: "UpdatePosition D ?u s ?q ?p 1 False CloseReasonADL oid ?e1 = Some (res, e')"
    and mv: "moves ?u ?p nn fee sl 1 ?e1 e'"
    and left: "\<And>t v. targets t v (positionCache ?e1) - (if v = ?u then {pID x} else {}) \<subseteq> targets t v (positionCache e')"
    by (rule UpdatePosition_reduces [OF law e1 ids q s acc _ x, of CloseReasonADL ?p 1 False oid]) simp_all
  have fr: "update_frame ?e1 e'" "settles ?e1 e'" "engine_ok e'" "nextPosID e' \<le> nextPosID ?e + 1"
    using mv by (simp_all add: moves_def submitRow_def submit_def)
  have "keeps ?e1 e'" using fr(1,2) by (simp add: keeps_def update_frame_def)
  from exchange_keeps [OF x1 this fr(3)] have "exchange_ok e'" .
  moreover have "accounted ?e ?e1"
    by (rule accounted_trans [of _ "?e\<lparr>ebook := b1\<rparr>"])
      (simp_all add: accounted_same submitRow_def accounted_submit balance_delta_def empty_event_def)
  then have "accounted ?e e'" using accounted_trans settles_accounted [OF fr(2)] by blast
  moreover have "ebook e' = b1" using fr(1) by (simp add: update_frame_def submitRow_def submit_def)
  then have "uses ?e e'" using fr(4) n(3,4) by (simp add: uses_def)
  ultimately have step: "risk_step 1 m (m\<lparr>mEngine := e'\<rparr>)" using spends_uses by (simp add: risk_step_def)
  let ?m = "SendToUser ?u (AdlDone (arPositionID r) ?q ?p cur (rNetPnl res)) (m\<lparr>mEngine := e'\<rparr>)"
  have eng: "mEngine ?m = e'" by simp
  show thesis
  proof (rule that [of ?m "pID x"])
    show "reduceOne D s cur r m = Some ?m" using run id by (simp add: reduceOne_def Let_def)
    show "risk_step 1 m ?m" using step by (simp only: risk_frame)
    show "targets (- s) v (positionCache ?e) - (if v = ?u then {pID x} else {}) \<subseteq> targets (- s) v (positionCache (mEngine ?m))" for v
      using left [of "- s" v] by (simp only: eng pc)
  qed
qed

subsection \<open>All reductions\<close>

lemma reduceAll_ok:
  assumes law: "div_law D" and s: "s = 1 \<or> s = - 1"
  shows "exchange_ok (mEngine m) \<Longrightarrow> room (length rs) (mEngine m) \<Longrightarrow> \<forall>r \<in> set rs. 0 \<le> arReducedQty r \<Longrightarrow>
    (\<And>v. length (filter (\<lambda>r. arUserID r = v) rs) \<le> card (targets (- s) v (positionCache (mEngine m)))) \<Longrightarrow>
    \<exists>m'. reduceAll D s cur rs m = Some m' \<and> risk_step (length rs) m m'"
proof (induction rs arbitrary: m)
  case Nil
  then show ?case using risk_refl by simp
next
  case (Cons r rs)
  let ?T = "\<lambda>m v. targets (- s) v (positionCache (mEngine m))"
  have rm: "room (Suc (length rs)) (mEngine m)" using Cons.prems(2) by simp
  have "?T m (arUserID r) \<noteq> {}" using Cons.prems(4) [of "arUserID r"] by auto
  then obtain m1 y where m1: "reduceOne D s cur r m = Some m1" "risk_step 1 m m1"
    and left: "\<And>v. ?T m v - (if v = arUserID r then {y} else {}) \<subseteq> ?T m1 v"
    using reduceOne_ok [OF law Cons.prems(1) rm s, of r cur] Cons.prems(3) by auto
  have "length (filter (\<lambda>r. arUserID r = v) rs) \<le> card (?T m1 v)" for v
  proof -
    have "card (?T m v) - (if v = arUserID r then 1 else 0) \<le> card (?T m v - (if v = arUserID r then {y} else {}))"
      by (simp add: card_Diff_singleton_if)
    also have "\<dots> \<le> card (?T m1 v)" by (rule card_mono [OF targets_finite left])
    finally show ?thesis using Cons.prems(4) [of v] by (auto split: if_splits)
  qed
  moreover have "exchange_ok (mEngine m1)" "room (length rs) (mEngine m1)"
    using m1(2) rm by (auto simp: risk_step_def spends_def)
  ultimately obtain m2 where "reduceAll D s cur rs m1 = Some m2" "risk_step (length rs) m1 m2"
    using Cons.IH [of m1] Cons.prems(3) by auto
  then show ?case using m1 risk_trans [OF m1(2)] by auto
qed

subsection \<open>The results belong to the ranked positions\<close>

lemma ExecuteADL_ranked:
  "ExecuteADL D ranked d bank cur = Some (rs, rem) \<Longrightarrow>
   mset (map (\<lambda>r. (arPositionID r, arUserID r)) rs) \<subseteq>#
     mset (map (\<lambda>rp. (pID (rpPosition rp), pUserID (rpPosition rp))) ranked)"
proof (induction ranked arbitrary: d rs rem)
  case (Cons rp ranked)
  consider (stop) "rs = []" | (skip) "ExecuteADL D ranked d bank cur = Some (rs, rem)"
    | (take) r d' rs' where "rs = r # rs'" and "ExecuteADL D ranked d' bank cur = Some (rs', rem)"
        and "arPositionID r = pID (rpPosition rp)" and "arUserID r = pUserID (rpPosition rp)"
    using Cons.prems by (fastforce simp: Let_def bind_eq_Some_conv split: if_splits)
  then show ?case
  proof cases
    case stop
    then show ?thesis by simp
  next
    case skip
    from Cons.IH [OF skip] show ?thesis by (simp add: subseteq_mset_def le_SucI)
  next
    case take
    with Cons.IH [OF take(2)] show ?thesis by simp
  qed
qed simp

text \<open>The positions the ranking reads: the live active ones, each once.\<close>

lemma derefAll_GetAll:
  assumes "cache_ok c"
  shows "derefAll (GetAll c) c = map snd (filter (\<lambda>(i, p). pState p = PosStateActive) (posLive c))"
proof -
  have d: "distinct (map fst (posLive c))" using assms by (simp add: cache_ok_def)
  have "List.map_filter (\<lambda>i. deref i c) (map fst (filter P xs)) = map snd (filter P xs)" if "set xs \<subseteq> set (posLive c)" for xs P
    using that by (induction xs) (auto simp: map_filter_simps deref_def map_of_is_SomeI [OF d] split: option.split)
  then show ?thesis by (simp add: derefAll_def GetAll_def)
qed

lemma active_positions:
  assumes "cache_ok c"
  shows "p \<in> set (derefAll (GetAll c) c) \<Longrightarrow> map_of (posLive c) (pID p) = Some p \<and> pState p = PosStateActive"
    and "distinct (map pID (derefAll (GetAll c) c))" and "length (derefAll (GetAll c) c) = length (GetAll c)"
proof -
  have d: "distinct (map fst (posLive c))" using assms by (simp add: cache_ok_def)
  have key: "pID p = i \<and> map_of (posLive c) i = Some p" if "(i, p) \<in> set (posLive c)" for i p
    using assms map_of_is_SomeI [OF d that] by (simp add: cache_ok_def)
  then show "p \<in> set (derefAll (GetAll c) c) \<Longrightarrow> map_of (posLive c) (pID p) = Some p \<and> pState p = PosStateActive"
    by (auto simp: derefAll_GetAll [OF assms])
  have "map pID (derefAll (GetAll c) c) = map fst (filter (\<lambda>(i, p). pState p = PosStateActive) (posLive c))"
    using key by (auto simp: derefAll_GetAll [OF assms])
  then show "distinct (map pID (derefAll (GetAll c) c))" using d by (simp add: distinct_map_filter)
  show "length (derefAll (GetAll c) c) = length (GetAll c)" unfolding derefAll_GetAll [OF assms] by (simp add: GetAll_def)
qed

subsection \<open>The whole of it\<close>

lemma triggerADL_ok:
  assumes law: "div_law D" "sort_law srt" and ok: "exchange_ok (mEngine m)" and s: "s = 1 \<or> s = - 1"
    and d: "0 \<le> deficit" and past: "isPastPrice cur bank s"
    and rm: "room (length (GetAll (positionCache (mEngine m)))) (mEngine m)"
  shows "\<exists>m'. triggerADL D srt s deficit bank cur m = Some m' \<and>
    risk_step (length (GetAll (positionCache (mEngine m)))) m m'"
proof -
  let ?pc = "positionCache (mEngine m)"
  let ?ps = "derefAll (GetAll ?pc) ?pc" and ?n = "length (GetAll ?pc)"
  let ?el = "filter (eligible (- s) cur bank) ?ps"
  note dec = decimal.intro [OF law(1)]
  note sorted = slice_sorter.sorts_permutes [OF slice_sorter.intro [OF law(2)], of rpScore]
  have eok: "engine_ok (mEngine m)" using ok by (simp add: exchange_ok_def)
  note act = active_positions [OF engine_ok_cache [OF eok]]
  obtain rs0 where rs0: "rankAll D ?ps (- s) cur bank = Some rs0" "map rpPosition rs0 = ?el" using decimal.rankAll_total [OF dec] by blast
  define ranked where "ranked = srt (\<lambda>x y. rpScore y < rpScore x) rs0"
  have rank: "RankPositions D srt ?ps (- s) cur bank = Some ranked" using rs0(1) by (simp add: RankPositions_def ranked_def)
  have perm: "mset ranked = mset rs0" using sorted by (simp add: ranked_def)
  then have sets: "set ranked = set rs0" by (rule mset_eq_setD)
  have ready: "adl_ready (- s) cur bank ranked"
    unfolding adl_ready_def sets
  proof
    fix rp
    assume "rp \<in> set rs0"
    then have "rpPosition rp \<in> set ?el" using rs0(2) by (metis image_eqI set_map)
    then show "eligible (- s) cur bank (rpPosition rp) \<and> 0 < NewFromString (pQuantity (rpPosition rp))"
      using act(1) engine_ok_live [OF eok] by (auto simp: pos_ok_def posQty_def)
  qed
  have u: "0 < of_int (- s) * (cur - bank)" using past s by (auto simp: isPastPrice_def)
  obtain rs rem where rs: "ExecuteADL D ranked deficit bank cur = Some (rs, rem)" "\<forall>r \<in> set rs. 0 \<le> arReducedQty r"
    using decimal.ExecuteADL_covers [OF dec _ refl u ready d] s by auto
  have "mset (map (\<lambda>r. (arPositionID r, arUserID r)) rs) \<subseteq># mset (map (\<lambda>rp. (pID (rpPosition rp), pUserID (rpPosition rp))) ranked)"
    by (rule ExecuteADL_ranked [OF rs(1)])
  also have "\<dots> = image_mset (\<lambda>p. (pID p, pUserID p)) (mset (map rpPosition rs0))"
    by (simp add: perm image_mset.compositionality comp_def)
  finally have sub: "mset (map (\<lambda>r. (arPositionID r, arUserID r)) rs) \<subseteq># mset (map (\<lambda>p. (pID p, pUserID p)) ?el)"
    by (simp add: rs0(2))
  have count: "length (filter (\<lambda>r. arUserID r = v) rs) \<le> card (targets (- s) v ?pc)" for v
  proof -
    have "length (filter (\<lambda>r. arUserID r = v) rs) = size (filter_mset (\<lambda>x. snd x = v) (mset (map (\<lambda>r. (arPositionID r, arUserID r)) rs)))"
      by (simp add: filter_mset_image_mset comp_def flip: mset_filter size_mset)
    also have "\<dots> \<le> size (filter_mset (\<lambda>x. snd x = v) (mset (map (\<lambda>p. (pID p, pUserID p)) ?el)))"
      by (intro size_mset_mono multiset_filter_mono sub)
    also have "\<dots> = length (filter (\<lambda>p. pUserID p = v) ?el)"
      by (simp add: filter_mset_image_mset comp_def flip: mset_filter size_mset)
    also have "\<dots> = card (pID ` set (filter (\<lambda>p. pUserID p = v) ?el))"
      using distinct_card [OF distinct_map_filter [OF distinct_map_filter [OF act(2)]], of "\<lambda>p. pUserID p = v" "eligible (- s) cur bank"]
      by (simp only: set_map length_map)
    also have "\<dots> \<le> card (targets (- s) v ?pc)"
      using act(1) by (intro card_mono targets_finite) (auto simp: targets_def eligible_def)
    finally show ?thesis .
  qed
  have "length rs \<le> length ?el" using size_mset_mono [OF sub] by (simp only: size_mset length_map)
  then have len: "length rs \<le> ?n" using act(3) length_filter_le [of _ ?ps] by (metis le_trans)
  have rm': "room (length rs) (mEngine m)"
    by (rule room_le [OF rm len])
  obtain m' where "reduceAll D s cur rs m = Some m'" "risk_step (length rs) m m'"
    using reduceAll_ok [OF law(1) s ok rm' rs(2) count] by blast
  then show ?thesis
    using rank rs(1) risk_mono [OF _ len] risk_mono [OF risk_refl [OF ok]] by (auto simp: triggerADL_def Let_def)
qed

end
