(* ===== verification/Monitor_Steps.thy ===== *)
theory Monitor_Steps
  imports Deleveraging
begin

section \<open>The risk monitor keeps the exchange\<close>

text \<open>
  What one handler of the monitor does to the exchange: it ends, it keeps the exchange well formed and
  memory and settlement in agreement, and it uses a bounded number of IDs: one order's, and for a liquidation that the
  insurance fund cannot pay one more for every active position.
\<close>

subsection \<open>The handlers\<close>

lemma close_step:
  assumes "div_law D" and "ready [i] m" and "room (Suc k) (mEngine m)"
  obtains res e' where "ClosePositionInternal D j p reason (mEngine m) = Some (res, e')" and "risk_step 1 m (m\<lparr>mEngine := e'\<rparr>)"
  using ClosePositionInternal_ok [OF assms(1) _ assms(3), of j p reason] assms(2) spends_uses
  by (auto simp: ready_def risk_step_def)

lemma handleForceTP_ok:
  assumes "div_law D" and "ready [i] m" and "room (Suc k) (mEngine m)"
  shows "\<exists>m'. handleForceTP D i lp m = Some m' \<and> risk_step 1 m m'"
proof -
  obtain p where p: "deref i (positionCache (mEngine m)) = Some p" using assms(2) by (auto simp: ready_def)
  obtain res e' where "ClosePositionInternal D (pID p) lp CloseReasonForceTp (mEngine m) = Some (res, e')"
    and "risk_step 1 m (m\<lparr>mEngine := e'\<rparr>)" using close_step [OF assms] by blast
  with p show ?thesis by (simp add: handleForceTP_def Let_def split: sum.split)
qed

lemma handleClose_ok:
  assumes "div_law D" and "ready [i] m" and "room (Suc k) (mEngine m)"
  shows "\<exists>m'. handleClose D i lp reason m = Some m' \<and> risk_step 1 m m'"
proof (cases "reason = CloseReasonLiquidation \<or> reason = CloseReasonForceTp")
  case True
  then show ?thesis
    using assms(2) risk_mono [OF risk_refl, of m 1] by (auto simp: handleClose_def ready_def)
next
  case False
  obtain p where p: "deref i (positionCache (mEngine m)) = Some p" using assms(2) by (auto simp: ready_def)
  obtain res e' where "ClosePositionInternal D (pID p) lp reason (mEngine m) = Some (res, e')"
    and "risk_step 1 m (m\<lparr>mEngine := e'\<rparr>)" using close_step [OF assms] by blast
  with p False show ?thesis by (simp add: handleClose_def Let_def split: sum.split)
qed

lemma updateCached_step:
  assumes "exchange_ok (mEngine m)" and "\<And>p. pID (fn p) = pID p \<and> pUserID (fn p) = pUserID p \<and> pSide (fn p) = pSide p \<and>
      pLeverage (fn p) = pLeverage p \<and> pQuantity (fn p) = pQuantity p \<and> pMarginMode (fn p) = pMarginMode p"
  shows "risk_step 0 m (updateCachedPosition i fn m)"
proof -
  let ?e = "mEngine m" and ?e' = "(mEngine m)\<lparr>positionCache := UpdateCached i fn (positionCache (mEngine m))\<rparr>"
  have "accounted ?e ?e'" by (rule accounted_same) (simp_all add: pointers_Update same_identity_def assms(2))
  then show ?thesis
    using exchange_update [OF assms(1)] assms(2) by (simp add: risk_step_def updateCachedPosition_def spends_def)
qed

lemma pushPnl_ok:
  assumes "div_law D" and "exchange_ok (mEngine m)"
  shows "\<exists>m'. pushPnl D lp n p m = Some m' \<and> risk_step 0 m m'"
proof -
  note tot = decimal.CalcMarginRatio_total [OF decimal.intro [OF assms(1)]] decimal.CalcROI_total [OF decimal.intro [OF assms(1)]]
  obtain x where x: "CalcMarginRatio D (NewFromString (pMargin p))
      (CalcUnrealizedPnL (NewFromString (pEntryPrice p)) lp (NewFromString (pQuantity p)) (pSide p))
      (NewFromString (pQuantity p)) lp = Some x" using tot(1) by blast
  obtain y where "CalcROI D (CalcUnrealizedPnL (NewFromString (pEntryPrice p)) lp (NewFromString (pQuantity p)) (pSide p))
      (NewFromString (pMargin p)) = Some y" using tot(2) by blast
  with x show ?thesis using risk_refl [OF assms(2)] by (simp add: pushPnl_def Let_def)
qed

lemma checkTriggers_ok:
  assumes law: "div_law D" and rd: "ready [i] m" and rm: "room (Suc k) (mEngine m)"
  shows "\<exists>m'. checkTriggers D lp n i p m = Some m' \<and> risk_step 1 m m'"
proof -
  have ok: "exchange_ok (mEngine m)" using rd by (simp add: ready_def)
  have close: "\<exists>m'. handleClose D i lp reason (updateCachedPosition (pID p) fn m) = Some m' \<and> risk_step 1 m m'"
    if "\<And>p. pID (fn p) = pID p \<and> pUserID (fn p) = pUserID p \<and> pSide (fn p) = pSide p \<and>
      pLeverage (fn p) = pLeverage p \<and> pQuantity (fn p) = pQuantity p \<and> pMarginMode (fn p) = pMarginMode p" for reason fn
  proof -
    let ?m = "updateCachedPosition (pID p) fn m"
    have s: "risk_step 0 m ?m" by (rule updateCached_step [OF ok that])
    then have "room (Suc k) (mEngine ?m)" using rm by (simp add: updateCachedPosition_def)
    then obtain m' where "handleClose D i lp reason ?m = Some m'" "risk_step 1 ?m m'"
      using handleClose_ok [OF law ready_step [OF s rd]] by blast
    with risk_trans [OF s this(2)] show ?thesis by simp
  qed
  obtain m1 where "pushPnl D lp n p m = Some m1" "risk_step 1 m m1"
    using pushPnl_ok [OF law ok] risk_mono [of 0 m _ 1] by fastforce
  then show ?thesis
    using handleForceTP_ok [OF law rd rm] close [of "\<lambda>cp. cp\<lparr>pStopLoss := Blank\<rparr>"] close [of "\<lambda>cp. cp\<lparr>pTakeProfit := Blank\<rparr>"]
    by (simp add: checkTriggers_def)
qed

text \<open>The liquidation of a position leaves more than so many active positions, each of which may be reduced.\<close>

definition crowded :: "decimal_lib \<Rightarrow> nat \<Rightarrow> int \<Rightarrow> dec \<Rightarrow> monitor \<Rightarrow> bool" where
  "crowded D N i entryPrice m \<longleftrightarrow>
     (case deref i (positionCache (mEngine m)) of
        None \<Rightarrow> False
      | Some p \<Rightarrow>
          (case Option.bind (CalcBankruptcyPrice D entryPrice (pLeverage p) (pSide p)) (\<lambda>b. TakeOver D i b (mEngine m)) of
             None \<Rightarrow> False
           | Some e \<Rightarrow> N < length (GetAll (positionCache e))))"

lemma handleLiquidation_ok:
  assumes law: "div_law D" "sort_law srt" and rd: "ready [i] m" and rm: "room (k + Suc N) (mEngine m)"
    and few: "\<not> crowded D N i entry m"
  shows "\<exists>m'. handleLiquidation D srt i lp entry qty margin m = Some m' \<and> risk_step (Suc N) m m'"
proof -
  obtain p where p: "deref i (positionCache (mEngine m)) = Some p" using rd by (auto simp: ready_def)
  have ok: "exchange_ok (mEngine m)" "holds_account LiquidationUserID (memAccounts (mEngine m))"
    using rd by (simp_all add: ready_def)
  have pok: "pos_ok p" using exchange_pointer(1) [OF ok(1) p] .
  then have side: "pSide p = 1 \<or> pSide p = - 1" and "pLeverage p \<noteq> 0" by (auto simp: pos_ok_def)
  then obtain b where b: "CalcBankruptcyPrice D entry (pLeverage p) (pSide p) = Some b"
    using decimal.CalcBankruptcyPrice_total [OF decimal.intro [OF law(1)]] by blast
  have rm1: "room (Suc (k + N)) (mEngine m)" using rm by simp
  obtain e1 where e1: "TakeOver D i b (mEngine m) = Some e1" "risk_step 1 m (m\<lparr>mEngine := e1\<rparr>)"
    using TakeOver_ok [OF law(1) ok(1) rm1 p ok(2), of b] spends_uses by (auto simp: risk_step_def)
  have short: "length (GetAll (positionCache e1)) \<le> N" using few p b e1(1) by (simp add: crowded_def)
  have after: "exchange_ok e1" "room (k + N) e1" using e1(2) rm1 by (simp_all add: risk_step_def spends_def)
  have idle: "risk_step (Suc N) m (m\<lparr>mEngine := e1\<rparr>)" using risk_mono [OF e1(2)] by simp
  show ?thesis
  proof (cases "mFund m")
    case None
    with p b e1 idle show ?thesis by (simp add: handleLiquidation_def Let_def)
  next
    case (Some fd)
    obtain c adl fd' where c: "Cover (\<bar>b - lp\<bar> * qty) fd = ((c, adl), fd')" by (metis surj_pair)
    show ?thesis
    proof (cases "isPastPrice lp b (pSide p) \<and> adl")
      case False
      with Some p b e1 c idle show ?thesis by (simp add: handleLiquidation_def Let_def)
    next
      case True
      let ?m1 = "m\<lparr>mEngine := e1, mFund := Some fd'\<rparr>"
      have "0 \<le> \<bar>b - lp\<bar> * qty - c" using c True by (auto simp: Cover_def split: if_splits)
      moreover have "room (length (GetAll (positionCache e1))) e1"
        by (rule room_le [OF after(2)]) (use short in simp)
      ultimately obtain m' where "triggerADL D srt (pSide p) (\<bar>b - lp\<bar> * qty - c) b lp ?m1 = Some m'"
        "risk_step (length (GetAll (positionCache e1))) ?m1 m'"
        using triggerADL_ok [OF law, of ?m1 "pSide p" "\<bar>b - lp\<bar> * qty - c" lp b] after(1) side True by auto
      moreover from this have "risk_step (Suc N) m m'"
        using risk_mono [OF risk_trans [of 1 m ?m1], of "length (GetAll (positionCache e1))" m' "Suc N"] e1(2) short by simp
      ultimately show ?thesis using Some p b e1(1) c True by (simp add: handleLiquidation_def Let_def)
    qed
  qed
qed

end
