(* ===== verification/Monitor_Tick.thy ===== *)
theory Monitor_Tick
  imports Monitor_Steps
begin

section \<open>A tick of the risk monitor\<close>

text \<open>
  The pass over all positions: it ends and keeps the exchange well formed, with room for one order per liquidated
  position and one more for each of at most \<open>N\<close> active positions that auto-deleveraging reduces; the cross-margin totals are the sums over each user's cross
  positions.
\<close>

subsection \<open>Cross-margin totals\<close>

definition cross_of :: "int \<Rightarrow> int list \<Rightarrow> position_cache \<Rightarrow> cached_position list" where
  "cross_of u ps c = filter (\<lambda>p. pMarginMode p = MarginModeCross \<and> pUserID p = u) (derefAll ps c)"

definition cross_upnl :: "dec \<Rightarrow> cached_position \<Rightarrow> dec" where
  "cross_upnl lp p = CalcUnrealizedPnL (NewFromString (pEntryPrice p)) lp (NewFromString (pQuantity p)) (pSide p)"

definition cross_maint :: "dec \<Rightarrow> cached_position \<Rightarrow> dec" where
  "cross_maint mr p = NewFromString (pMargin p) * of_int (pLeverage p) * mr"

definition cross_ptrs :: "int \<Rightarrow> int list \<Rightarrow> position_cache \<Rightarrow> int list" where
  "cross_ptrs u ps c = filter (\<lambda>i. case deref i c of None \<Rightarrow> False
     | Some p \<Rightarrow> pMarginMode p = MarginModeCross \<and> pUserID p = u) ps"

definition plus_cross :: "dec \<Rightarrow> dec \<Rightarrow> int list \<Rightarrow> position_cache \<Rightarrow> int \<Rightarrow> cross_data option \<Rightarrow> cross_data option" where
  "plus_cross mr lp ps c u old =
     (if cross_of u ps c = [] then old
      else
        let cd = (case old of Some cd \<Rightarrow> cd | None \<Rightarrow> \<lparr>upnlTotal = 0, maintenanceTotal = 0, crossPositions = []\<rparr>)
        in Some \<lparr>upnlTotal = upnlTotal cd + sum_list (map (cross_upnl lp) (cross_of u ps c)),
                 maintenanceTotal = maintenanceTotal cd + sum_list (map (cross_maint mr) (cross_of u ps c)),
                 crossPositions = crossPositions cd @ cross_ptrs u ps c\<rparr>)"

lemma crossTotals_sum:
  "\<forall>i \<in> set ps. deref i c \<noteq> None \<Longrightarrow>
   \<exists>cross. crossTotals mr lp ps c acc = Some cross \<and> (\<forall>u. map_of cross u = plus_cross mr lp ps c u (map_of acc u))"
proof (induction ps arbitrary: acc)
  case Nil
  then show ?case by (simp add: plus_cross_def cross_of_def derefAll_def map_filter_simps)
next
  case (Cons i ps)
  then obtain p where p: "deref i c = Some p" by auto
  obtain cross where c: "crossTotals mr lp ps c (addCross mr lp i p acc) = Some cross"
    "\<forall>u. map_of cross u = plus_cross mr lp ps c u (map_of (addCross mr lp i p acc) u)"
    using Cons.IH [of "addCross mr lp i p acc"] Cons.prems by auto
  have "plus_cross mr lp ps c u (map_of (addCross mr lp i p acc) u) = plus_cross mr lp (i # ps) c u (map_of acc u)" for u
  proof (cases "pMarginMode p = MarginModeCross \<and> pUserID p = u")
    case True
    then have "cross_of u (i # ps) c = p # cross_of u ps c" "cross_ptrs u (i # ps) c = i # cross_ptrs u ps c"
      using p by (simp_all add: cross_of_def cross_ptrs_def derefAll_def map_filter_simps)
    moreover have "cross_of u ps c = [] \<Longrightarrow> cross_ptrs u ps c = []"
      using Cons.prems by (induction ps) (auto simp: cross_of_def cross_ptrs_def derefAll_def map_filter_simps split: if_splits)
    ultimately show ?thesis
      using True by (auto simp: plus_cross_def addCross_def cross_upnl_def cross_maint_def Let_def add.assoc split: option.split)
  next
    case False
    then have "cross_of u (i # ps) c = cross_of u ps c" "cross_ptrs u (i # ps) c = cross_ptrs u ps c"
      using p by (auto simp: cross_of_def cross_ptrs_def derefAll_def map_filter_simps)
    moreover have "map_of (addCross mr lp i p acc) u = map_of acc u" using False by (auto simp: addCross_def Let_def)
    ultimately show ?thesis by (simp add: plus_cross_def)
  qed
  with p c show ?case by simp
qed

subsection \<open>The pass over all positions\<close>

text \<open>No liquidation of a list of positions leaves more than \<open>N\<close> active positions.\<close>

fun few_active ::
    "decimal_lib \<Rightarrow> ranked_position slice_sort \<Rightarrow> nat \<Rightarrow> dec \<Rightarrow> int list \<Rightarrow> monitor \<Rightarrow> bool" where
  "few_active D srt N lp [] m \<longleftrightarrow> True"
| "few_active D srt N lp (i # is) m \<longleftrightarrow>
     (case deref i (positionCache (mEngine m)) of
        None \<Rightarrow> True
      | Some p \<Rightarrow>
          \<not> crowded D N i (posEntry p) m \<and>
          (case handleLiquidation D srt i lp (posEntry p) (posQty p) (posMargin p) m of
             None \<Rightarrow> True
           | Some m1 \<Rightarrow> few_active D srt N lp is m1))"

text \<open>The positions a check liquidates.\<close>

definition liquidates ::
    "dec \<Rightarrow> (int \<times> cross_data) list \<Rightarrow> int \<Rightarrow> monitor \<times> int list \<Rightarrow> int list" where
  "liquidates mp cross i st =
     (let (m, seen) = st
      in case deref i (positionCache (mEngine m)) of
           None \<Rightarrow> []
         | Some p \<Rightarrow>
             if pMarginMode p = MarginModeCross then
               if pUserID p \<in> set seen then []
               else (case map_of cross (pUserID p) of
                       None \<Rightarrow> []
                     | Some cd \<Rightarrow>
                         if GetBalance (pUserID p) (memAccounts (mEngine m)) + upnlTotal cd \<le> maintenanceTotal cd
                         then crossPositions cd else [])
             else if shouldLiquidate mp (NewFromString (pLiqPrice p)) (pSide p) then [i] else [])"

fun few_in_pass ::
    "decimal_lib \<Rightarrow> ranked_position slice_sort \<Rightarrow> nat \<Rightarrow> dec \<Rightarrow> dec \<Rightarrow> int \<Rightarrow> (int \<times> cross_data) list \<Rightarrow> int list \<Rightarrow>
     monitor \<times> int list \<Rightarrow> bool" where
  "few_in_pass D srt N mp lp n cross [] st \<longleftrightarrow> True"
| "few_in_pass D srt N mp lp n cross (i # is) st \<longleftrightarrow>
     few_active D srt N lp (liquidates mp cross i st) (fst st) \<and>
     (case checkPosition D srt mp lp n cross i st of
        None \<Rightarrow> True
      | Some st1 \<Rightarrow> few_in_pass D srt N mp lp n cross is st1)"

lemma ready_sub: "ready ps m \<Longrightarrow> set is \<subseteq> set ps \<Longrightarrow> ready is m"
  by (auto simp: ready_def)

lemma liquidateAll_ok:
  assumes law: "div_law D" "sort_law srt"
  shows "ready is m \<Longrightarrow> room (length is * Suc N) (mEngine m) \<Longrightarrow> few_active D srt N lp is m \<Longrightarrow>
    \<exists>m'. liquidateAll D srt lp is m = Some m' \<and> risk_step (length is * Suc N) m m'"
proof (induction "is" arbitrary: m)
  case Nil
  then show ?case using risk_refl by (simp add: ready_def)
next
  case (Cons i "is")
  then obtain p where p: "deref i (positionCache (mEngine m)) = Some p" by (auto simp: ready_def)
  have rm: "room (length is * Suc N + Suc N) (mEngine m)" using Cons.prems(2) by (simp add: add.commute del: mult_Suc_right)
  have few: "\<not> crowded D N i (posEntry p) m" using Cons.prems(3) p by simp
  obtain m1 where m1: "handleLiquidation D srt i lp (posEntry p) (posQty p) (posMargin p) m = Some m1" "risk_step (Suc N) m m1"
    using handleLiquidation_ok [OF law ready_sub [OF Cons.prems(1)] rm few, where lp = lp and qty = "posQty p" and margin = "posMargin p"]
    by auto
  have "room (length is * Suc N) (mEngine m1)" using m1(2) rm by (simp add: risk_step_def spends_def del: mult_Suc_right)
  moreover have "ready is m1" using ready_step [OF m1(2)] Cons.prems(1) ready_sub [of "i # is" _ "is"] by auto
  ultimately obtain m2 where m2: "liquidateAll D srt lp is m1 = Some m2" "risk_step (length is * Suc N) m1 m2"
    using Cons.IH Cons.prems(3) p m1(1) by auto
  show ?case
    using p m1(1) m2(1) risk_trans [OF m1(2) m2(2)] by (simp add: pos_fields Let_def del: mult_Suc_right)
qed

text \<open>The totals refer to positions of the pass, and every cross position of the pass has its user's totals.\<close>

definition cross_ok :: "(int \<times> cross_data) list \<Rightarrow> int list \<Rightarrow> monitor \<Rightarrow> bool" where
  "cross_ok cross ps m \<longleftrightarrow>
     (\<forall>u cd. map_of cross u = Some cd \<longrightarrow> set (crossPositions cd) \<subseteq> set ps \<and> length (crossPositions cd) \<le> length ps) \<and>
     (\<forall>i p. i \<in> set ps \<longrightarrow> deref i (positionCache (mEngine m)) = Some p \<longrightarrow> pMarginMode p = MarginModeCross \<longrightarrow>
        map_of cross (pUserID p) \<noteq> None)"

lemma cross_ok_step:
  assumes "risk_step k m m'" and "ready ps m" and "cross_ok cross ps m"
  shows "cross_ok cross ps m'"
proof -
  have "map_of cross (pUserID p') \<noteq> None" if i: "i \<in> set ps" and p': "deref i (positionCache (mEngine m')) = Some p'"
    and mode: "pMarginMode p' = MarginModeCross" for i p'
  proof -
    obtain p where p: "deref i (positionCache (mEngine m)) = Some p" using assms(2) i by (auto simp: ready_def)
    have "pointers_kept (positionCache (mEngine m)) (positionCache (mEngine m'))"
      using assms(1) by (simp add: risk_step_def accounted_def)
    then have "same_identity p p'" using p p' by (fastforce simp: pointers_kept_def)
    then show ?thesis using assms(3) i p mode unfolding same_identity_def cross_ok_def by metis
  qed
  then show ?thesis using assms(3) unfolding cross_ok_def by blast
qed

lemma checkPosition_ok:
  assumes law: "div_law D" "sort_law srt" and rd: "ready ps m" and i: "i \<in> set ps" and cr: "cross_ok cross ps m"
    and rm: "room (k + length ps * Suc N) (mEngine m)" and few: "few_active D srt N lp (liquidates mp cross i (m, seen)) m"
  shows "\<exists>m' seen'. checkPosition D srt mp lp n cross i (m, seen) = Some (m', seen') \<and> risk_step (length ps * Suc N) m m'"
proof -
  obtain p where p: "deref i (positionCache (mEngine m)) = Some p" using rd i by (auto simp: ready_def)
  have ok: "exchange_ok (mEngine m)" using rd by (simp add: ready_def)
  have len: "1 \<le> length ps * Suc N" using i by (cases ps) auto
  then have rm1: "room (Suc k) (mEngine m)" by (intro room_le [OF rm]) simp
  have idle: "risk_step (length ps * Suc N) m m" by (rule risk_mono [OF risk_refl [OF ok]]) simp
  obtain mt where mt: "checkTriggers D lp n i p m = Some mt" "risk_step (length ps * Suc N) m mt"
    using checkTriggers_ok [OF law(1) ready_sub [OF rd] rm1, of i lp n p] i risk_mono [OF _ len] by auto
  have liq: "\<exists>m'. liquidateAll D srt lp is m = Some m' \<and> risk_step (length ps * Suc N) m m'"
    if eq: "is = liquidates mp cross i (m, seen)" and sub: "set is \<subseteq> set ps" and short: "length is \<le> length ps" for "is"
  proof -
    have le: "length is * Suc N \<le> length ps * Suc N" by (rule mult_le_mono1 [OF short])
    have "room (length is * Suc N) (mEngine m)" by (rule room_le [OF rm]) (use le in linarith)
    then show ?thesis
      using liquidateAll_ok [OF law ready_sub [OF rd sub], of N lp] few eq risk_mono [OF _ le] by blast
  qed
  show ?thesis
  proof (cases "pMarginMode p = MarginModeCross")
    case True
    then obtain cd where cd: "map_of cross (pUserID p) = Some cd" using cr i p unfolding cross_ok_def by blast
    then have cdp: "set (crossPositions cd) \<subseteq> set ps" "length (crossPositions cd) \<le> length ps"
      using cr by (auto simp: cross_ok_def)
    show ?thesis
    proof (cases "pUserID p \<notin> set seen \<and> GetBalance (pUserID p) (memAccounts (mEngine m)) + upnlTotal cd \<le> maintenanceTotal cd")
      case go: True
      then have "crossPositions cd = liquidates mp cross i (m, seen)" using p True cd by (simp add: liquidates_def)
      with liq [OF this cdp] show ?thesis using p True cd go by (auto simp: checkPosition_def Let_def)
    next
      case False
      with p True cd mt idle show ?thesis by (auto simp: checkPosition_def Let_def)
    qed
  next
    case iso: False
    show ?thesis
    proof (cases "shouldLiquidate mp (NewFromString (pLiqPrice p)) (pSide p)")
      case True
      then have "[i] = liquidates mp cross i (m, seen)" using p iso by (simp add: liquidates_def)
      from liq [OF this] i len obtain m' where "liquidateAll D srt lp [i] m = Some m'" "risk_step (length ps * Suc N) m m'"
        by (cases ps) (auto simp del: mult_Suc_right liquidateAll.simps)
      then show ?thesis using p iso True by (auto simp: checkPosition_def Let_def bind_eq_Some_conv)
    next
      case False
      with p iso mt show ?thesis by (auto simp: checkPosition_def Let_def)
    qed
  qed
qed

lemma checkAll_ok:
  assumes law: "div_law D" "sort_law srt"
  shows "ready ps m \<Longrightarrow> set is \<subseteq> set ps \<Longrightarrow> cross_ok cross ps m \<Longrightarrow>
    room (length is * (length ps * Suc N)) (mEngine m) \<Longrightarrow> few_in_pass D srt N mp lp n cross is (m, seen) \<Longrightarrow>
    \<exists>m' seen'. checkAll D srt mp lp n cross is (m, seen) = Some (m', seen') \<and>
      risk_step (length is * (length ps * Suc N)) m m'"
proof (induction "is" arbitrary: m seen)
  case Nil
  then show ?case using risk_refl by (simp add: ready_def)
next
  case (Cons i "is")
  let ?c = "length ps * Suc N"
  have i: "i \<in> set ps" and sub: "set is \<subseteq> set ps" using Cons.prems(2) by auto
  have rm: "room (length is * ?c + ?c) (mEngine m)" using Cons.prems(4) by (simp add: add.commute del: mult_Suc_right)
  obtain m1 seen1 where 1: "checkPosition D srt mp lp n cross i (m, seen) = Some (m1, seen1)" "risk_step ?c m m1"
    using checkPosition_ok [OF law Cons.prems(1) i Cons.prems(3) rm, of lp mp seen n] Cons.prems(5) by auto
  have "room (length is * ?c) (mEngine m1)" using 1(2) rm by (simp add: risk_step_def spends_def del: mult_Suc_right)
  moreover have "few_in_pass D srt N mp lp n cross is (m1, seen1)" using Cons.prems(5) 1(1) by simp
  ultimately obtain m2 seen2 where 2: "checkAll D srt mp lp n cross is (m1, seen1) = Some (m2, seen2)"
    "risk_step (length is * ?c) m1 m2"
    using Cons.IH [OF ready_step [OF 1(2) Cons.prems(1)] sub cross_ok_step [OF 1(2) Cons.prems(1,3)]] by blast
  show ?case using 1(1) 2(1) risk_trans [OF 1(2) 2(2)] by auto
qed

end
