(* ===== verification/Monitor_Props.thy ===== *)
theory Monitor_Props
  imports Monitor_Tick
begin

section \<open>What the risk monitor promises, and what it does not\<close>

text \<open>
  A whole tick, the cross-margin totals, and two behaviours of the code that its comments deny:
  auto-deleveraging unbalances longs and shorts, and a position that left the cache during the tick
  can be taken over a second time.
\<close>

subsection \<open>The tick\<close>

definition mark_or_last :: "dec option \<Rightarrow> dec \<Rightarrow> dec" where
  "mark_or_last mpo lp = (case mpo of None \<Rightarrow> lp | Some mp \<Rightarrow> if mp \<noteq> 0 then mp else lp)"

lemma crossTotals_ready:
  assumes "exchange_ok (mEngine m)" and "holds_account LiquidationUserID (memAccounts (mEngine m))"
    and "crossTotals mr lp (GetAll (positionCache (mEngine m))) (positionCache (mEngine m)) [] = Some cross"
  shows "ready (GetAll (positionCache (mEngine m))) m"
    and "cross_ok cross (GetAll (positionCache (mEngine m))) m"
proof -
  let ?pc = "positionCache (mEngine m)"
  let ?ps = "GetAll ?pc"
  show "ready ?ps m" using assms(1,2) GetAll_pointers by (simp add: ready_def)
  have "\<forall>i \<in> set ?ps. deref i ?pc \<noteq> None" using GetAll_pointers by blast
  from crossTotals_sum [OF this, of mr lp "[]"] assms(3)
  have sums: "map_of cross u = plus_cross mr lp ?ps ?pc u None" for u by auto
  have "set (cross_ptrs u ?ps ?pc) \<subseteq> set ?ps" "length (cross_ptrs u ?ps ?pc) \<le> length ?ps" for u
    by (auto simp: cross_ptrs_def)
  moreover have "cross_of (pUserID p) ?ps ?pc \<noteq> []"
    if "i \<in> set ?ps" "deref i ?pc = Some p" "pMarginMode p = MarginModeCross" for i p
  proof -
    have "p \<in> set (cross_of (pUserID p) ?ps ?pc)" using that by (auto simp: cross_of_def derefAll_def in_map_filter)
    then show ?thesis by auto
  qed
  ultimately show "cross_ok cross ?ps m"
    unfolding cross_ok_def sums by (auto simp: plus_cross_def Let_def split: if_splits)
qed

text \<open>The tick, from its steps.\<close>

lemma OnPriceUpdate_ok:
  assumes "div_law D" and "sort_law srt" and "exchange_ok (mEngine m)"
    and "holds_account LiquidationUserID (memAccounts (mEngine m))" and "ps = GetAll (positionCache (mEngine m))"
    and "crossTotals (GetMaintRate (eclearance (mEngine m))) lp ps (positionCache (mEngine m)) [] = Some cross"
    and "room (length ps * (length ps * Suc N) + n) (mEngine m)"
    and "few_in_pass D srt N (mark_or_last mpo lp) lp (int (length ps)) cross ps (m, [])"
    and "\<And>m1 seen. checkAll D srt (mark_or_last mpo lp) lp (int (length ps)) cross ps (m, []) = Some (m1, seen) \<Longrightarrow>
       length (GetByUser LiquidationUserID (positionCache (mEngine m1))) \<le> n"
  shows "\<exists>m'. OnPriceUpdate D srt now mpo lp m = Some m' \<and> exchange_ok (mEngine m') \<and>
    accounted (mEngine m) (mEngine m')"
proof -
  have rd: "ready ps m" "cross_ok cross ps m" using crossTotals_ready [OF assms(3,4)] assms(5,6) by simp_all
  have rm: "room (length ps * (length ps * Suc N)) (mEngine m)" by (rule room_le [OF assms(7)]) simp
  obtain m1 seen where m1: "checkAll D srt (mark_or_last mpo lp) lp (int (length ps)) cross ps (m, []) = Some (m1, seen)"
    "risk_step (length ps * (length ps * Suc N)) m m1"
    using checkAll_ok [OF assms(1,2) rd(1) subset_refl rd(2) rm assms(8)] by blast
  have "room n (mEngine m1)" using m1(2) assms(7) by (simp add: risk_step_def spends_def add.commute del: mult_Suc_right)
  then have "room (liq_positions (mEngine m1)) (mEngine m1)"
    using room_le assms(9) [OF m1(1)] by (simp add: liq_positions_def)
  moreover have e1: "exchange_ok (mEngine m1)" "accounted (mEngine m) (mEngine m1)" using m1(2) by (simp_all add: risk_step_def)
  moreover have "holds_account LiquidationUserID (memAccounts (mEngine m1))" using accounted_holds [OF e1(2)] assms(4) by simp
  ultimately obtain le' f' e' where "OnTick D now lp (mLiq m1) (mFund m1) (mEngine m1) = Some (le', f', e')"
    "exchange_ok e'" "accounted (mEngine m1) e'" using OnTick_ok [OF assms(1)] by blast
  then show ?thesis
    using assms(5,6) m1(1) accounted_trans [OF e1(2)]
    by (auto simp: OnPriceUpdate_def mark_or_last_def Let_def)
qed

text \<open>
  C4. A tick of the risk engine never panics and keeps the exchange well formed, whatever the
  prices: it may liquidate, deleverage, force take-profit, close at take-profit or stop-loss and dispose of
  positions, in isolated and in cross margin, with or without an insurance fund that pays, as long as IDs are left for it: with
  \<open>k\<close> active positions at the start and at most \<open>N\<close> after each liquidation, \<open>k\<^sup>2 (N + 1)\<close> and one for every position the
  liquidation account then has. Every account keeps existing and every balance changes as the submitted events say.
\<close>

theorem OnPriceUpdate_safe:
  assumes "div_law D" and "sort_law srt" and "exchange_ok (mEngine m)"
    and "holds_account LiquidationUserID (memAccounts (mEngine m))" and "ps = GetAll (positionCache (mEngine m))"
    and "crossTotals (GetMaintRate (eclearance (mEngine m))) lp ps (positionCache (mEngine m)) [] = Some cross"
    and "room (length ps * (length ps * Suc N) + n) (mEngine m)"
    and "few_in_pass D srt N (mark_or_last mpo lp) lp (int (length ps)) cross ps (m, [])"
    and "\<And>m1 seen. checkAll D srt (mark_or_last mpo lp) lp (int (length ps)) cross ps (m, []) = Some (m1, seen) \<Longrightarrow>
       length (GetByUser LiquidationUserID (positionCache (mEngine m1))) \<le> n"
  shows "\<exists>m'. OnPriceUpdate D srt now mpo lp m = Some m' \<and> exchange_ok (mEngine m') \<and>
    accounted (mEngine m) (mEngine m')"
  using assms by (rule OnPriceUpdate_ok)

definition sample_monitor :: monitor where
  "sample_monitor = NewMonitor sample_risky None"

lemma sample_monitor_fields [simp]:
  "mEngine sample_monitor = sample_risky" "mFund sample_monitor = None" "mLiq sample_monitor = NewLiquidationEngine"
  by (simp_all add: sample_monitor_def NewMonitor_def)

lemma sample_monitor_all [simp]: "GetAll (positionCache sample_risky) = [1]"
  by (simp add: GetAll_def)

lemma sample_monitor_deref [simp]: "deref 1 (positionCache sample_risky) = Some sample_position"
  by (simp add: deref_def)

text \<open>Users 7 and 8 hold the two sides of two units entered at 100, and user 8 bids 100.\<close>

definition counter_position :: cached_position where
  "counter_position = NewCachedPosition 2 8 (- 1) MarginModeIsolated 10 (Shown 100) (Shown 2) (Shown 20) (Shown 109)
     (Shown 50) Blank Blank Blank"

definition both_sides :: position_cache where
  "both_sides = AddPosition counter_position (AddPosition sample_position NewPositionCache)"

definition two_sides :: engine where
  "two_sides = sample_risky\<lparr>positionCache := both_sides, ebook := bid_book\<rparr>"

definition funded_monitor :: "dec \<Rightarrow> monitor" where
  "funded_monitor x = NewMonitor two_sides (Some (NewFund x))"

lemma funded_fields [simp]:
  "mEngine (funded_monitor x) = two_sides" "GetAll (positionCache two_sides) = [1, 2]" "eclearance two_sides = sample_clearance"
  by (simp_all add: funded_monitor_def NewMonitor_def two_sides_def both_sides_def GetAll_def counter_position_def
      NewCachedPosition_def sample_risky_def)

lemma two_sides_ok: "exchange_ok two_sides" "room 18 two_sides" "holds_account LiquidationUserID (memAccounts two_sides)"
proof -
  have f: "pID counter_position = 2" "pUserID counter_position = 8" "pSide counter_position = - 1" "pLeverage counter_position = 10"
    "posQty counter_position = 2" by (simp_all add: counter_position_def NewCachedPosition_def posQty_def)
  have "cache_ok (AddPosition sample_position NewPositionCache)" by (rule cache_ok_Add [OF cache_ok_new]) simp
  then have "cache_ok both_sides" unfolding both_sides_def by (rule cache_ok_Add) (simp add: f)
  then have "positions_ok both_sides 100000"
    by (simp add: positions_ok_def pos_ok_def both_sides_def f)
  moreover have "owners_ok both_sides (memAccounts sample_risky)"
    by (simp add: owners_ok_def both_sides_def f sample_risky_def sample_engine_def ledger_defs)
  ultimately have e: "exchange_ok (sample_risky\<lparr>positionCache := both_sides\<rparr>)"
    using exchange_positions [OF sample_risky_ok, of both_sides] by (simp add: sample_risky_def)
  show "exchange_ok two_sides"
    unfolding two_sides_def using with_bid_book [OF e] by simp
  show "room 18 two_sides" by (simp add: two_sides_def room_def book_size_def resting_def bid_book_value sample_risky_def)
  show "holds_account LiquidationUserID (memAccounts two_sides)" using sample_risky_accounts(1) by (simp add: two_sides_def)
qed

lemma two_sides_pass:
  "crossTotals (GetMaintRate sample_clearance) 95 [1, 2] (positionCache two_sides) [] = Some []"
  "crossTotals (GetMaintRate sample_clearance) 85 [1, 2] (positionCache two_sides) [] = Some []"
  "few_in_pass dec16 insertion 3 90 95 2 [] [1, 2] (funded_monitor 50, [])"
  "few_in_pass dec16 insertion 3 80 85 2 [] [1, 2] (funded_monitor 5, [])"
  "map_option (\<lambda>(m, seen). length (GetByUser LiquidationUserID (positionCache (mEngine m))))
     (checkAll dec16 insertion 90 95 2 [] [1, 2] (funded_monitor 50, [])) = Some 1"
  "map_option (\<lambda>(m, seen). length (GetByUser LiquidationUserID (positionCache (mEngine m))))
     (checkAll dec16 insertion 80 85 2 [] [1, 2] (funded_monitor 5, [])) = Some 1"
  by code_simp+

text \<open>The fund and the positions (user, side, size) after a tick.\<close>

definition after_tick :: "dec \<Rightarrow> dec \<Rightarrow> dec \<Rightarrow> (dec \<times> (int \<times> int \<times> dstring) list) option" where
  "after_tick mp lp x = (case OnPriceUpdate dec16 insertion 7 (Some mp) lp (funded_monitor x) of
     None \<Rightarrow> None
   | Some m \<Rightarrow> map_option (\<lambda>f. (fundBalance f, map (\<lambda>(i, p). (pUserID p, pSide p, pQuantity p)) (posLive (positionCache (mEngine m))))) (mFund m))"

lemma after_ticks:
  "after_tick 90 95 50 = Some (60, [(8, - 1, Shown 1), (- 1, 1, Shown 1)])"
  "after_tick 80 85 5 = Some (10, [(- 1, 1, Shown 1)])"
  by code_simp+

text \<open>
  At a mark price of 90 the tick liquidates user 7, the liquidation account takes over two units and sells one to the bid of
  user 8, and the fund gains 10. With 80 and a fund of 5 the fund cannot cover the loss, so the tick also closes the
  position of user 8.
\<close>

theorem OnPriceUpdate_safe_witness:
  "list_all (\<lambda>(mp, lp, x, left, ps). case OnPriceUpdate dec16 insertion 7 (Some mp) lp (funded_monitor x) of
     None \<Rightarrow> False
   | Some m \<Rightarrow> exchange_ok (mEngine m) \<and> map_option fundBalance (mFund m) = Some left \<and>
       map (\<lambda>(i, p). (pUserID p, pSide p, pQuantity p)) (posLive (positionCache (mEngine m))) = ps)
   [(90, 95, 50, 60, [(8, - 1, Shown 1), (- 1, 1, Shown 1)]), (80, 85, 5, 10, [(- 1, 1, Shown 1)])]"
proof -
  have room: "room (length [1, 2 :: int] * (length [1, 2 :: int] * Suc 3) + 2) two_sides" using two_sides_ok(2) by simp
  have safe: "\<exists>m. OnPriceUpdate dec16 insertion 7 (Some mp) lp (funded_monitor x) = Some m \<and> exchange_ok (mEngine m)"
    if "crossTotals (GetMaintRate sample_clearance) lp [1, 2] (positionCache two_sides) [] = Some []"
      and "few_in_pass dec16 insertion 3 mp lp 2 [] [1, 2] (funded_monitor x, [])"
      and "map_option (\<lambda>(m, seen). length (GetByUser LiquidationUserID (positionCache (mEngine m))))
        (checkAll dec16 insertion mp lp 2 [] [1, 2] (funded_monitor x, [])) = Some 1" and "mp \<noteq> 0" for mp lp x
  proof -
    have mark: "mark_or_last (Some mp) lp = mp" using \<open>mp \<noteq> 0\<close> by (simp add: mark_or_last_def)
    have two: "int (length [1, 2 :: int]) = 2" by simp
    have "\<exists>m. OnPriceUpdate dec16 insertion 7 (Some mp) lp (funded_monitor x) = Some m \<and> exchange_ok (mEngine m) \<and>
        accounted (mEngine (funded_monitor x)) (mEngine m)"
    proof (rule OnPriceUpdate_safe [OF dec16_law insertion.law, where ps = "[1, 2]" and cross = "[]" and N = 3 and n = 2])
      show "few_in_pass dec16 insertion 3 (mark_or_last (Some mp) lp) lp (int (length [1, 2 :: int])) [] [1, 2] (funded_monitor x, [])"
        unfolding mark two by (rule that(2))
      show "length (GetByUser LiquidationUserID (positionCache (mEngine m1))) \<le> 2"
        if "checkAll dec16 insertion (mark_or_last (Some mp) lp) lp (int (length [1, 2 :: int])) [] [1, 2] (funded_monitor x, []) = Some (m1, seen)"
        for m1 seen using that that(1) [unfolded mark two] \<open>map_option _ _ = Some 1\<close> by (simp del: checkAll.simps)
    qed (use that(1) two_sides_ok room in simp_all)
    then show ?thesis by blast
  qed
  show ?thesis
    using safe [OF two_sides_pass(1,3,5)] safe [OF two_sides_pass(2,4,6)] after_ticks by (auto simp: after_tick_def)
qed
text \<open>
  The map of cross-margin totals that a tick builds in one pass is, for every user, the direct
  sum over that user's cross positions: no entry without one, otherwise the sum of their unrealized profits, of
  their maintenance margins, and the list of their pointers.
\<close>

theorem crossTotals_correct:
  assumes "\<forall>i \<in> set ps. deref i c \<noteq> None"
  shows "\<exists>cross. crossTotals mr lp ps c [] = Some cross \<and>
    (\<forall>u. map_of cross u = (if cross_of u ps c = [] then None
       else Some \<lparr>upnlTotal = sum_list (map (cross_upnl lp) (cross_of u ps c)),
                  maintenanceTotal = sum_list (map (cross_maint mr) (cross_of u ps c)),
                  crossPositions = cross_ptrs u ps c\<rparr>))"
  using crossTotals_sum [OF assms, of mr lp "[]"] by (auto simp: plus_cross_def Let_def)

theorem crossTotals_correct_witness:
  "\<exists>cross. crossTotals (1 / 200) 100 [1] (positionCache sample_risky) [] = Some cross \<and> map_of cross 7 = None"
  using crossTotals_correct [of "[1]" "positionCache sample_risky" "1 / 200" 100]
  by (fastforce simp: cross_of_def derefAll_def map_filter_simps sample_position_def NewCachedPosition_def)

subsection \<open>Auto-deleveraging unbalances the positions\<close>

text \<open>
  C37. A reduction by auto-deleveraging closes the counterparty's quantity with no trade on the other
  side: the signed sum of all positions moves by the whole reduced quantity. So if longs equalled shorts
  before, they do not afterwards, although the code announces that the equality still holds.
\<close>

theorem reduceOne_unbalances:
  assumes "div_law D" and "exchange_ok (mEngine m)" and "room 1 (mEngine m)" and "s = 1 \<or> s = - 1"
    and "FindOpposite (arUserID r) s (positionCache (mEngine m)) = Some x"
    and "0 < arReducedQty r" and "arReducedQty r \<le> posQty x"
  shows "\<exists>m'. reduceOne D s cur r m = Some m' \<and>
    open_net (mEngine m') = open_net (mEngine m) + of_int s * arReducedQty r"
proof -
  let ?e = "mEngine m" and ?u = "arUserID r" and ?q = "arReducedQty r" and ?p = "arSettlementPrice r"
  obtain oid b1 where id: "NextOrderID (ebook ?e) = (oid, b1)" by force
  let ?ord = "system_order oid ?u s OrderTypeMarket 1 None ?q ?p"
  let ?e1 = "submitRow ?ord (?e\<lparr>ebook := b1\<rparr>)"
  have eok: "engine_ok ?e" using assms(2) by (simp add: exchange_ok_def)
  then have e1: "engine_ok ?e1" by (simp add: submitRow_def)
  have rm: "room (Suc 0) ?e" using assms(3) by simp
  have ids: "ids_left 1 ?e1"
    using room_ids(2) [OF rm, of 1] by (simp add: ids_left_def submitRow_def submit_def)
  have fo: "FindOpposite ?u s (positionCache ?e1) = Some x" using assms(5) by (simp add: submitRow_def submit_def)
  note x = FindOpposite_Some [OF engine_ok_cache [OF e1] fo]
  have acc: "holds_account ?u (memAccounts ?e1)"
    using e1 x(1,2) unfolding engine_ok_def owners_ok_def by metis
  obtain res e' where run: "UpdatePosition D ?u s ?q ?p 1 False CloseReasonADL oid ?e1 = Some (res, e')"
    using UpdatePosition_total [OF assms(1) e1 assms(6,4)] by blast
  have "shortfall D ?u s ?q ?p 1 False ?e1 = 0" using fo assms(7) by (simp add: shortfall_def)
  then have "open_net e' = open_net ?e1 + of_int s * ?q"
    using UpdatePosition_applies [OF run assms(1) e1 ids assms(6,4) acc] by (auto simp: applies_def moves_def)
  moreover have "open_net ?e1 = open_net ?e" by (simp add: open_net_def over_positions_def submitRow_def submit_def)
  ultimately show ?thesis using id run by (simp add: reduceOne_def Let_def)
qed

theorem reduceOne_unbalances_witness:
  "\<exists>m'. reduceOne dec16 (- 1) 120 \<lparr>arPositionID = 1, arUserID = 7, arReducedQty = 1, arReducedMargin = 10,
       arRealizedPnl = 10, arSettlementPrice = 110, arRemainingQty = 1, arFullyClosed = False\<rparr> sample_monitor = Some m' \<and>
     open_net (mEngine m') = open_net sample_risky - 1"
proof -
  have f: "FindOpposite 7 (- 1) (positionCache sample_risky) = Some sample_position" by (simp add: FindOpposite_def)
  show ?thesis
    using reduceOne_unbalances [OF dec16_law, of sample_monitor "- 1" "\<lparr>arPositionID = 1, arUserID = 7, arReducedQty = 1,
       arReducedMargin = 10, arRealizedPnl = 10, arSettlementPrice = 110, arRemainingQty = 1, arFullyClosed = False\<rparr>"
       sample_position 120] f sample_risky_ok sample_risky_room [of 1] by simp
qed

subsection \<open>Taking over a position that is gone\<close>

text \<open>
  C38. A pointer that the tick still holds to a position that was closed meanwhile looks active.
  Taking it over again does not fail: when both sides can pay, it opens for the user a new position of the
  same quantity on the opposite side, and the liquidation account takes the other side.
\<close>

theorem TakeOver_stale_reopens:
  assumes "div_law D" and "exchange_ok e" and "room 1 e" and "map_of (posLive (positionCache e)) i = None"
    and "map_of (posGone (positionCache e)) i = Some p" and "pState p = PosStateActive"
    and "net_position (pUserID p) e = 0" and "pUserID p \<noteq> LiquidationUserID"
    and "holds_account LiquidationUserID (memAccounts e)" and "GetOrder 0 (orderCache e) = None"
    and "shortfall D (pUserID p) (- pSide p) (posQty p) b (pLeverage p) False e = 0"
    and "shortfall D LiquidationUserID (pSide p) (posQty p) b 1 True e = 0"
  shows "\<exists>e'. TakeOver D i b e = Some e' \<and> net_position (pUserID p) e' = - of_int (pSide p) * posQty p \<and>
    net_position (pUserID p) e' \<noteq> 0"
proof -
  have ptr: "deref i (positionCache e) = Some p" using assms(4,5) by (simp add: deref_def)
  have rm: "room (Suc 0) e" using assms(3) by simp
  from TakeOver_effect [OF assms(1,2) rm ptr assms(9,6,8,10,11,12)] exchange_pointer(1) [OF assms(2) ptr] assms(7)
  show ?thesis by (auto simp: signed_qty_def pos_ok_def)
qed

definition sample_gone :: engine where
  "sample_gone = sample_risky\<lparr>positionCache := RemovePosition 1 (positionCache sample_risky)\<rparr>"

lemma sample_gone_ok: "exchange_ok sample_gone"
proof -
  have e: "engine_ok sample_risky" using sample_risky_ok by (simp add: exchange_ok_def)
  have "positions_ok (RemovePosition 1 (positionCache sample_risky)) (nextPosID sample_risky)"
    using positions_ok_Remove e by (simp add: engine_ok_def)
  moreover have "owners_ok (RemovePosition 1 (positionCache sample_risky)) (memAccounts sample_risky)"
    using e by (auto simp: engine_ok_def owners_ok_def split: if_splits)
  ultimately show ?thesis using exchange_positions [OF sample_risky_ok] by (simp add: sample_gone_def)
qed

theorem TakeOver_stale_reopens_witness:
  "\<exists>e'. TakeOver dec16 1 90 sample_gone = Some e' \<and> net_position 7 e' = - 2"
proof -
  have "cache_ok (positionCache sample_risky)"
    using sample_risky_ok by (simp add: exchange_ok_def engine_ok_def positions_ok_def)
  then have gbu: "GetByUser 7 (positionCache sample_gone) = []" "GetByUser LiquidationUserID (positionCache sample_gone) = []"
    by (simp_all add: sample_gone_def GetByUser_def user_ids_Remove map_filter_simps List.map_filter_def)
  have cl: "eclearance sample_gone = sample_clearance" by (simp add: sample_gone_def sample_risky_def)
  have bal: "GetBalance 7 (memAccounts sample_gone) = 1000" "GetBalance LiquidationUserID (memAccounts sample_gone) = 100000000"
    by (simp_all add: sample_gone_def) (simp add: sample_risky_def sample_engine_def ledger_defs)
  obtain cr where cr: "CalcOpen dec16 sample_clearance 90 2 10 (- 1) False = Some cr"
    using dec16.CalcOpen_total [OF sample_clearance_ok, of 10 90 2 "- 1" False] by auto
  have "Div dec16 180 10 = Some 18" using dec16.div_exact_int [of 10 180 18] by simp
  with cr have cost: "orTotalCost cr \<le> 1000" by (auto simp: CalcOpen_def Let_def bind_eq_Some_conv sample_fee)
  have "shortfall dec16 7 (- 1) 2 90 10 False sample_gone = 0"
    using cr cost by (simp add: shortfall_def FindOpposite_def FindSameDir_def gbu cl bal open_short_def open_leverage_def)
  moreover have "shortfall dec16 LiquidationUserID 1 2 90 1 True sample_gone = 0"
    using shortfall_others [of LiquidationUserID sample_risky sample_gone] sample_risky_short
    by (simp add: same_user_def gbu) (simp add: sample_gone_def)
  moreover have "room 1 sample_gone" using sample_risky_room [of 1] by (simp add: sample_gone_def)
  moreover have "net_position 7 sample_gone = 0" by (simp add: net_position_def over_positions_def sample_gone_def)
  moreover have "GetOrder 0 (orderCache sample_gone) = None" by (simp add: sample_gone_def sample_risky_def GetOrder_def)
  moreover have "holds_account LiquidationUserID (memAccounts sample_gone)" by (simp add: sample_gone_def)
  moreover have "map_of (posLive (positionCache sample_gone)) 1 = None" "map_of (posGone (positionCache sample_gone)) 1 = Some sample_position"
    by (simp_all add: sample_gone_def)
  ultimately show ?thesis
    using TakeOver_stale_reopens [OF dec16_law sample_gone_ok, of 1 sample_position 90] by auto
qed

end
