(* ===== verification/Json.thy ===== *)
theory Json
  imports Prelude
begin

section \<open>Replies of the exchanges' HTTP interfaces\<close>

text \<open>
  The mark-price engine and the funding scheduler fetch a number from a JSON document. A document
  is given as its tree; \<open>None\<close> is a body that is no JSON. The program decodes a tree with
  \<open>json.Unmarshal\<close> into a struct with a single string field, or into a slice of such structs. The
  functions below are that function at these two types: a key matches a field when it is equal up to
  letter case, a later key overwrites an earlier one, \<open>null\<close> changes nothing, and a value of another
  type is an error that is reported after the rest was decoded. (\<open>encoding/json\<close> folds two
  letters beyond ASCII as well, which no exchange sends.) The conversion from text to number,
  \<open>decimal.NewFromString\<close>, is outside the repository and a parameter \<open>parse\<close>, \<open>None\<close> where it
  returns an error.
\<close>

datatype json =
    JNull
  | JBool bool
  | JNum string
  | JStr string
  | JArr "json list"
  | JObj "(string \<times> json) list"

datatype reply = NoReply | Unreadable | Body "json option"

definition asciiLower :: "char \<Rightarrow> char" where
  "asciiLower c = (if 65 \<le> (of_char c :: nat) \<and> (of_char c :: nat) \<le> 90 then char_of ((of_char c :: nat) + 32) else c)"

definition same_name :: "string \<Rightarrow> string \<Rightarrow> bool" where
  "same_name x y \<longleftrightarrow> map asciiLower x = map asciiLower y"

text \<open>The error flag and the field's value after each key.\<close>

fun readField :: "string \<Rightarrow> (string \<times> json) list \<Rightarrow> bool \<times> string \<Rightarrow> bool \<times> string" where
  "readField f [] r = r"
| "readField f ((k, v) # kvs) (ok, s) =
     readField f kvs
       (if same_name f k then (case v of JStr t \<Rightarrow> (ok, t) | JNull \<Rightarrow> (ok, s) | _ \<Rightarrow> (False, s)) else (ok, s))"

definition unmarshalStruct :: "string \<Rightarrow> json \<Rightarrow> bool \<times> string" where
  "unmarshalStruct f j = (case j of JObj kvs \<Rightarrow> readField f kvs (True, []) | JNull \<Rightarrow> (True, []) | _ \<Rightarrow> (False, []))"

definition unmarshalSlice :: "string \<Rightarrow> json \<Rightarrow> bool \<times> string list" where
  "unmarshalSlice f j =
     (case j of
        JArr js \<Rightarrow> let rs = map (unmarshalStruct f) js in (list_all fst rs, map snd rs)
      | JNull \<Rightarrow> (True, [])
      | _ \<Rightarrow> (False, []))"

text \<open>
  The two idioms of the program: the field of an object if it decodes and is not empty, and the field
  of the first element of a non-empty array; in both the text must then denote a number.
\<close>

definition objectNumber :: "(string \<Rightarrow> dec option) \<Rightarrow> string \<Rightarrow> json option \<Rightarrow> dec option" where
  "objectNumber parse f body =
     (case body of
        None \<Rightarrow> None
      | Some j \<Rightarrow> let r = unmarshalStruct f j in if fst r \<and> snd r \<noteq> [] then parse (snd r) else None)"

definition arrayNumber :: "(string \<Rightarrow> dec option) \<Rightarrow> string \<Rightarrow> json option \<Rightarrow> dec option" where
  "arrayNumber parse f body =
     (case body of
        None \<Rightarrow> None
      | Some j \<Rightarrow> let r = unmarshalSlice f j in if fst r \<and> 0 < length (snd r) then parse (hd (snd r)) else None)"

lemma same_name_refl [simp]: "same_name x x"
  by (simp add: same_name_def)

lemma readField_absent: "\<forall>k \<in> fst ` set kvs. \<not> same_name f k \<Longrightarrow> readField f kvs r = r"
  by (induction f kvs r rule: readField.induct) auto

lemma readField_append: "readField f (kvs @ kvs') r = readField f kvs' (readField f kvs r)"
  by (induction f kvs r rule: readField.induct) auto

text \<open>An object is never taken for an array, nor an array for an object.\<close>

lemma arrayNumber_object [simp]: "arrayNumber parse f (Some (JObj kvs)) = None"
  by (simp add: arrayNumber_def unmarshalSlice_def)

lemma objectNumber_array [simp]: "objectNumber parse f (Some (JArr js)) = None"
  by (simp add: objectNumber_def unmarshalStruct_def)

lemma numbers_of_nothing [simp]: "objectNumber parse f None = None" "arrayNumber parse f None = None"
  by (simp_all add: objectNumber_def arrayNumber_def)

text \<open>Keys beside the one asked for, as long as they carry other names, do not matter.\<close>

lemma readField_field:
  assumes "\<forall>k \<in> fst ` (set before \<union> set after). \<not> same_name f k"
  shows "readField f (before @ (f, JStr t) # after) (True, []) = (True, t)"
proof -
  have "readField f before (True, []) = (True, [])" and "readField f after (True, t) = (True, t)"
    using assms by (auto intro!: readField_absent)
  then show ?thesis by (simp add: readField_append)
qed

lemma objectNumber_field:
  assumes "\<forall>k \<in> fst ` (set before \<union> set after). \<not> same_name f k" and "t \<noteq> []"
  shows "objectNumber parse f (Some (JObj (before @ (f, JStr t) # after))) = parse t"
  using assms(2) readField_field [OF assms(1)]
  by (simp add: objectNumber_def unmarshalStruct_def)

lemma arrayNumber_field:
  assumes "\<forall>k \<in> fst ` (set before \<union> set after). \<not> same_name f k"
    and "list_all (fst \<circ> unmarshalStruct f) js"
  shows "arrayNumber parse f (Some (JArr (JObj (before @ (f, JStr t) # after) # js))) = parse t"
  using assms(2) readField_field [OF assms(1)]
  by (simp add: arrayNumber_def unmarshalSlice_def unmarshalStruct_def list_all_iff)

end
