(* ===== verification/Mark_Price.thy ===== *)
theory Mark_Price
  imports Json
begin

section \<open>The mark-price engine (\<open>internal/engine/markprice/engine.go\<close>)\<close>

text \<open>
  The mark price is the spot price times one plus a moving average of the basis, the relative
  distance of the futures price from the spot price. Every method is one critical section. The HTTP
  exchange of a fetch is its outcome, a \<open>reply\<close>; the loop is driven by the sequence of its
  \<open>select\<close>'s outcomes. The smoothing factor is the decimal that \<open>decimal.NewFromFloat\<close> makes of the
  configured one.
\<close>

subsection \<open>Operations\<close>

record mark_engine =
  mkLast :: dec
  mkIndex :: dec
  mkMark :: dec
  mkBasis :: dec
  mkAlpha :: dec
  mkURL :: string
  mkInitialized :: bool
  mkDone :: bool

definition NewMarkEngine :: "dec \<Rightarrow> string \<Rightarrow> mark_engine" where
  "NewMarkEngine configuredAlpha url =
     (let alpha = (if configuredAlpha = 0 then 1 / 10 else configuredAlpha)
      in \<lparr>mkLast = 0, mkIndex = 0, mkMark = 0, mkBasis = 0, mkAlpha = alpha, mkURL = url,
          mkInitialized = False, mkDone = False\<rparr>)"

definition recalculate :: "decimal_lib \<Rightarrow> mark_engine \<Rightarrow> mark_engine option" where
  "recalculate D e =
     (if mkIndex e = 0 then Some (e\<lparr>mkMark := mkLast e\<rparr>)
      else do {
        basis \<leftarrow> Div D (mkLast e - mkIndex e) (mkIndex e);
        let e1 = e\<lparr>mkBasis := mkAlpha e * basis + (1 - mkAlpha e) * mkBasis e\<rparr>;
        Some (e1\<lparr>mkMark := mkIndex e1 * (1 + mkBasis e1)\<rparr>)
      })"

definition UpdateLastPrice :: "decimal_lib \<Rightarrow> dec \<Rightarrow> mark_engine \<Rightarrow> mark_engine option" where
  "UpdateLastPrice D price e =
     (let e1 = e\<lparr>mkLast := price\<rparr>
      in if \<not> mkInitialized e1 then Some (e1\<lparr>mkIndex := price, mkMark := price, mkInitialized := True\<rparr>)
         else recalculate D e1)"

definition UpdateIndexPrice :: "decimal_lib \<Rightarrow> dec \<Rightarrow> mark_engine \<Rightarrow> mark_engine option" where
  "UpdateIndexPrice D price e =
     (let e1 = e\<lparr>mkIndex := price\<rparr>
      in if \<not> mkInitialized e1 then Some (e1\<lparr>mkLast := price, mkMark := price, mkInitialized := True\<rparr>)
         else recalculate D e1)"

definition GetMarkPrice :: "mark_engine \<Rightarrow> dec" where
  "GetMarkPrice e = mkMark e"

definition GetPrices :: "mark_engine \<Rightarrow> dec \<times> dec \<times> dec" where
  "GetPrices e = (mkLast e, mkMark e, mkIndex e)"

definition GetBasis :: "mark_engine \<Rightarrow> dec" where
  "GetBasis e = mkBasis e"

definition parseSpotPrice :: "(string \<Rightarrow> dec option) \<Rightarrow> json option \<Rightarrow> dec" where
  "parseSpotPrice parse body =
     (case objectNumber parse ''price'' body of Some p \<Rightarrow> p
      | None \<Rightarrow> (case arrayNumber parse ''last'' body of Some p \<Rightarrow> p
      | None \<Rightarrow> (case arrayNumber parse ''index_price'' body of Some p \<Rightarrow> p
      | None \<Rightarrow> 0)))"

definition fetchSpotPrice :: "decimal_lib \<Rightarrow> (string \<Rightarrow> dec option) \<Rightarrow> reply \<Rightarrow> mark_engine \<Rightarrow> mark_engine option" where
  "fetchSpotPrice D parse resp e =
     (case resp of
        NoReply \<Rightarrow> Some e
      | Unreadable \<Rightarrow> Some e
      | Body body \<Rightarrow>
          let price = parseSpotPrice parse body
          in if price = 0 then Some e else UpdateIndexPrice D price e)"

datatype loop_event = Tick reply | Done

fun fetchTicks :: "decimal_lib \<Rightarrow> (string \<Rightarrow> dec option) \<Rightarrow> loop_event list \<Rightarrow> mark_engine \<Rightarrow> mark_engine option" where
  "fetchTicks D parse [] e = Some e"
| "fetchTicks D parse (Tick resp # evs) e = do { e' \<leftarrow> fetchSpotPrice D parse resp e; fetchTicks D parse evs e' }"
| "fetchTicks D parse (Done # evs) e = Some e"

definition fetchLoop ::
    "decimal_lib \<Rightarrow> (string \<Rightarrow> dec option) \<Rightarrow> reply \<Rightarrow> loop_event list \<Rightarrow> mark_engine \<Rightarrow> mark_engine option" where
  "fetchLoop D parse initial evs e = do { e' \<leftarrow> fetchSpotPrice D parse initial e; fetchTicks D parse evs e' }"

definition StartFetching ::
    "decimal_lib \<Rightarrow> (string \<Rightarrow> dec option) \<Rightarrow> reply \<Rightarrow> loop_event list \<Rightarrow> mark_engine \<Rightarrow> mark_engine option" where
  "StartFetching D parse initial evs e = (if mkURL e = [] then Some e else fetchLoop D parse initial evs e)"

definition StopFetching :: "mark_engine \<Rightarrow> mark_engine" where
  "StopFetching e = (if mkDone e then e else e\<lparr>mkDone := True\<rparr>)"

subsection \<open>A run of price updates\<close>

datatype price_update = LastUpdate dec | IndexUpdate dec

fun update_price :: "price_update \<Rightarrow> dec" where
  "update_price (LastUpdate p) = p"
| "update_price (IndexUpdate p) = p"

fun applyUpdate :: "decimal_lib \<Rightarrow> price_update \<Rightarrow> mark_engine \<Rightarrow> mark_engine option" where
  "applyUpdate D (LastUpdate p) e = UpdateLastPrice D p e"
| "applyUpdate D (IndexUpdate p) e = UpdateIndexPrice D p e"

fun applyUpdates :: "decimal_lib \<Rightarrow> price_update list \<Rightarrow> mark_engine \<Rightarrow> mark_engine option" where
  "applyUpdates D [] e = Some e"
| "applyUpdates D (u # us) e = do { e' \<leftarrow> applyUpdate D u e; applyUpdates D us e' }"

text \<open>
  The invariant: until the first price everything is zero; afterwards the mark price is the spot
  price times one plus the basis, unless the spot price is zero.
\<close>

definition mark_ok :: "mark_engine \<Rightarrow> bool" where
  "mark_ok e \<longleftrightarrow>
     (\<not> mkInitialized e \<longrightarrow> mkBasis e = 0) \<and>
     (mkInitialized e \<and> mkIndex e \<noteq> 0 \<longrightarrow> mkMark e = mkIndex e * (1 + mkBasis e))"

definition in_band :: "dec \<Rightarrow> dec \<Rightarrow> mark_engine \<Rightarrow> bool" where
  "in_band lo hi e \<longleftrightarrow> (mkInitialized e \<longrightarrow> lo \<le> mkLast e \<and> mkLast e \<le> hi \<and> lo \<le> mkIndex e \<and> mkIndex e \<le> hi)"

lemma mark_ok_new: "mark_ok (NewMarkEngine a url)"
  by (simp add: mark_ok_def NewMarkEngine_def Let_def)

context decimal
begin

lemma recalculate_total: "\<exists>e'. recalculate D e = Some e'"
  using div_defined [of "mkIndex e" "mkLast e - mkIndex e"] by (auto simp: recalculate_def Let_def)

lemma recalculate_Some:
  assumes "recalculate D e = Some e'"
  shows "mkLast e' = mkLast e" and "mkIndex e' = mkIndex e" and "mkAlpha e' = mkAlpha e"
    and "mkInitialized e' = mkInitialized e"
    and "mkIndex e = 0 \<Longrightarrow> mkMark e' = mkLast e \<and> mkBasis e' = mkBasis e"
    and "mkIndex e \<noteq> 0 \<Longrightarrow> mkMark e' = mkIndex e * (1 + mkBasis e')"
    and "mkIndex e \<noteq> 0 \<Longrightarrow> \<exists>b. mkBasis e' = mkAlpha e * b + (1 - mkAlpha e) * mkBasis e \<and>
      \<bar>b - (mkLast e - mkIndex e) / mkIndex e\<bar> < ulp"
  using assms div_error [of "mkLast e - mkIndex e" "mkIndex e"]
  by (auto simp: recalculate_def Let_def split: if_splits bind_splits)

lemma applyUpdate_total: "\<exists>e'. applyUpdate D u e = Some e'"
  using recalculate_total by (cases u) (auto simp: UpdateLastPrice_def UpdateIndexPrice_def Let_def)

lemma applyUpdate_mark_ok: "applyUpdate D u e = Some e' \<Longrightarrow> mark_ok e \<Longrightarrow> mark_ok e'"
  using recalculate_Some [of _ e']
  by (cases u) (auto simp: mark_ok_def UpdateLastPrice_def UpdateIndexPrice_def Let_def split: if_splits)

end

text \<open>A convex combination stays within the bound of its parts.\<close>

lemma convex_bound:
  fixes a b c B :: dec
  assumes "\<bar>b\<bar> \<le> B" and "\<bar>c\<bar> \<le> B" and "0 \<le> a" and "a \<le> 1"
  shows "\<bar>a * b + (1 - a) * c\<bar> \<le> B"
proof -
  have "\<bar>a * b + (1 - a) * c\<bar> \<le> a * \<bar>b\<bar> + (1 - a) * \<bar>c\<bar>"
    using abs_triangle_ineq [of "a * b" "(1 - a) * c"] assms(3,4) by (simp add: abs_mult)
  also have "\<dots> \<le> a * B + (1 - a) * B"
    using assms by (intro add_mono mult_left_mono) auto
  finally show ?thesis by (simp add: algebra_simps)
qed

text \<open>Two prices in a band have a basis of at most the band's relative width.\<close>

lemma basis_in_band:
  fixes lo hi l i :: dec
  assumes "0 < lo" and "lo \<le> l" "l \<le> hi" and "lo \<le> i" "i \<le> hi"
  shows "\<bar>(l - i) / i\<bar> \<le> (hi - lo) / lo"
proof -
  have "\<bar>(l - i) / i\<bar> = \<bar>l - i\<bar> / i" using assms by simp
  also have "\<dots> \<le> (hi - lo) / lo"
    using assms by (intro frac_le) auto
  finally show ?thesis .
qed

definition tracking :: "dec \<Rightarrow> dec \<Rightarrow> mark_engine \<Rightarrow> bool" where
  "tracking lo hi e \<longleftrightarrow> mark_ok e \<and> in_band lo hi e \<and> 0 \<le> mkAlpha e \<and> mkAlpha e \<le> 1 \<and>
     \<bar>mkBasis e\<bar> \<le> (hi - lo) / lo + ulp"

context decimal
begin

lemma recalculate_basis:
  assumes "recalculate D e = Some e'" and "0 < lo" and "lo \<le> mkLast e" "mkLast e \<le> hi" "lo \<le> mkIndex e" "mkIndex e \<le> hi"
    and "0 \<le> mkAlpha e" "mkAlpha e \<le> 1" and "\<bar>mkBasis e\<bar> \<le> (hi - lo) / lo + ulp"
  shows "\<bar>mkBasis e'\<bar> \<le> (hi - lo) / lo + ulp"
proof -
  have "mkIndex e \<noteq> 0" using assms(2,5) by simp
  from recalculate_Some(7) [OF assms(1) this] obtain b where
    b: "mkBasis e' = mkAlpha e * b + (1 - mkAlpha e) * mkBasis e" "\<bar>b - (mkLast e - mkIndex e) / mkIndex e\<bar> < ulp"
    by blast
  have "\<bar>(mkLast e - mkIndex e) / mkIndex e\<bar> \<le> (hi - lo) / lo"
    by (rule basis_in_band) (use assms in auto)
  with b(2) have "\<bar>b\<bar> \<le> (hi - lo) / lo + ulp" by linarith
  from convex_bound [OF this assms(9,7,8)] show ?thesis by (simp add: b(1))
qed

lemma applyUpdate_tracking:
  assumes "applyUpdate D u e = Some e'" and "tracking lo hi e" and "0 < lo"
    and "lo \<le> update_price u" "update_price u \<le> hi"
  shows "tracking lo hi e'" and "mkAlpha e' = mkAlpha e" and "mkInitialized e'"
proof -
  obtain e1 where e1: "mkAlpha e1 = mkAlpha e" "mkBasis e1 = mkBasis e" "mkInitialized e1 = mkInitialized e"
    "mkInitialized e \<Longrightarrow> lo \<le> mkLast e1 \<and> mkLast e1 \<le> hi \<and> lo \<le> mkIndex e1 \<and> mkIndex e1 \<le> hi"
    "mkInitialized e \<Longrightarrow> recalculate D e1 = Some e'"
  proof (cases u)
    case (LastUpdate p)
    show ?thesis
      by (rule that [of "e\<lparr>mkLast := p\<rparr>"])
        (use assms LastUpdate in \<open>auto simp: UpdateLastPrice_def tracking_def in_band_def\<close>)
  next
    case (IndexUpdate p)
    show ?thesis
      by (rule that [of "e\<lparr>mkIndex := p\<rparr>"])
        (use assms IndexUpdate in \<open>auto simp: UpdateIndexPrice_def tracking_def in_band_def\<close>)
  qed
  have ok: "mark_ok e'" using applyUpdate_mark_ok [OF assms(1)] assms(2) by (simp add: tracking_def)
  have "tracking lo hi e' \<and> mkAlpha e' = mkAlpha e \<and> mkInitialized e'"
  proof (cases "mkInitialized e")
    case True
    note r = recalculate_Some [OF e1(5) [OF True]]
    have "\<bar>mkBasis e'\<bar> \<le> (hi - lo) / lo + ulp"
      by (rule recalculate_basis [OF e1(5) [OF True] assms(3)]) (use e1(1,2) e1(4) [OF True] assms(2) in \<open>auto simp: tracking_def\<close>)
    with ok r e1 True assms(2) show ?thesis by (simp add: tracking_def in_band_def)
  next
    case False
    with assms ok show ?thesis
      by (cases u) (auto simp: UpdateLastPrice_def UpdateIndexPrice_def Let_def tracking_def in_band_def)
  qed
  then show "tracking lo hi e'" "mkAlpha e' = mkAlpha e" "mkInitialized e'" by auto
qed

lemma applyUpdates_tracking:
  assumes "tracking lo hi e" and "0 < lo" and "\<forall>u \<in> set us. lo \<le> update_price u \<and> update_price u \<le> hi"
  shows "\<exists>e'. applyUpdates D us e = Some e' \<and> tracking lo hi e' \<and> mkAlpha e' = mkAlpha e \<and>
    (mkInitialized e' \<longleftrightarrow> mkInitialized e \<or> us \<noteq> [])"
  using assms
proof (induction us arbitrary: e)
  case (Cons u us)
  obtain e1 where e1: "applyUpdate D u e = Some e1" using applyUpdate_total by blast
  from applyUpdate_tracking [OF this Cons.prems(1,2)] Cons.prems(3)
  have "tracking lo hi e1" "mkAlpha e1 = mkAlpha e" "mkInitialized e1" by auto
  with Cons.IH [of e1] Cons.prems e1 show ?case by auto
qed simp

lemma applyUpdates_mark_ok:
  assumes "mark_ok e"
  shows "\<exists>e'. applyUpdates D us e = Some e' \<and> mark_ok e'"
  using assms
proof (induction us arbitrary: e)
  case (Cons u us)
  obtain e1 where e1: "applyUpdate D u e = Some e1" using applyUpdate_total by blast
  from applyUpdate_mark_ok [OF this Cons.prems] Cons.IH [of e1] e1 show ?case by simp
qed simp

lemma applyUpdates_alpha: "applyUpdates D us e = Some e' \<Longrightarrow> mkAlpha e' = mkAlpha e"
proof (induction us arbitrary: e)
  case (Cons u us)
  then obtain e1 where "applyUpdate D u e = Some e1" "applyUpdates D us e1 = Some e'" by (auto split: bind_splits)
  moreover from this(1) have "mkAlpha e1 = mkAlpha e"
    using recalculate_Some(3) [of _ e1]
    by (cases u) (auto simp: UpdateLastPrice_def UpdateIndexPrice_def Let_def split: if_splits)
  ultimately show ?case using Cons.IH by simp
qed simp

lemma UpdateLastPrice_moves:
  assumes "mark_ok e" and "mkInitialized e" and "0 < mkIndex e" and "0 \<le> mkAlpha e"
  shows "\<exists>e'. UpdateLastPrice D p e = Some e' \<and> mkIndex e' = mkIndex e \<and>
    \<bar>mkMark e' - ((1 - mkAlpha e) * mkMark e + mkAlpha e * p)\<bar> \<le> mkAlpha e * mkIndex e * ulp"
proof -
  let ?e = "e\<lparr>mkLast := p\<rparr>" and ?a = "mkAlpha e" and ?i = "mkIndex e" and ?m = "mkBasis e"
  obtain e' where e': "recalculate D ?e = Some e'" using recalculate_total by blast
  have i: "mkIndex ?e \<noteq> 0" using assms(3) by simp
  from recalculate_Some(7) [OF e' i] obtain b where
    b: "mkBasis e' = ?a * b + (1 - ?a) * ?m" "\<bar>b - (p - ?i) / ?i\<bar> < ulp" by auto
  have m: "mkMark e = ?i * (1 + ?m)" using assms(1-3) by (simp add: mark_ok_def)
  have m': "mkMark e' = ?i * (1 + (?a * b + (1 - ?a) * ?m))" using recalculate_Some(6) [OF e' i] b(1) by simp
  have "mkMark e' - ((1 - ?a) * mkMark e + ?a * p) = ?a * ?i * (b - (p - ?i) / ?i)"
    using assms(3) unfolding m m' by (simp add: field_simps)
  then have "\<bar>mkMark e' - ((1 - ?a) * mkMark e + ?a * p)\<bar> = ?a * ?i * \<bar>b - (p - ?i) / ?i\<bar>"
    using assms(3,4) by (simp add: abs_mult)
  also have "\<dots> \<le> ?a * ?i * ulp"
    by (rule mult_left_mono) (use b(2) assms(3,4) in auto)
  finally show ?thesis using assms(2) e' recalculate_Some(2) [OF e'] by (simp add: UpdateLastPrice_def)
qed

end

subsection \<open>Properties\<close>

text \<open>
  As long as the futures and spot prices stay between two positive bounds, a run of updates
  never panics and the mark price stays within the relative width of that band of the latest spot
  price, up to one unit of the last digit, however the updates are interleaved.
\<close>

theorem mark_tracks_index:
  assumes "div_law D" and "0 \<le> a" and "a \<le> 1" and "0 < lo" and "lo \<le> hi"
    and "\<forall>u \<in> set us. lo \<le> update_price u \<and> update_price u \<le> hi"
  shows "\<exists>e. applyUpdates D us (NewMarkEngine a url) = Some e \<and>
    \<bar>GetMarkPrice e - mkIndex e\<bar> \<le> mkIndex e * ((hi - lo) / lo + ulp)"
proof -
  have "tracking lo hi (NewMarkEngine a url)"
    using assms(2-5) mark_ok_new [of a url]
    by (simp add: tracking_def in_band_def NewMarkEngine_def Let_def)
  from decimal.applyUpdates_tracking [OF decimal.intro [OF assms(1)] this assms(4,6)]
  obtain e where e: "applyUpdates D us (NewMarkEngine a url) = Some e" "tracking lo hi e"
    and ini: "mkInitialized e \<longleftrightarrow> us \<noteq> []"
    by (auto simp: NewMarkEngine_def Let_def)
  show ?thesis
  proof (cases "us = []")
    case True
    with e(1) show ?thesis by (auto simp: NewMarkEngine_def Let_def GetMarkPrice_def)
  next
    case False
    with e(2) ini assms(4) have i: "0 < mkIndex e" "mkMark e = mkIndex e * (1 + mkBasis e)" "\<bar>mkBasis e\<bar> \<le> (hi - lo) / lo + ulp"
      by (auto simp: tracking_def in_band_def mark_ok_def)
    have "\<bar>mkMark e - mkIndex e\<bar> = mkIndex e * \<bar>mkBasis e\<bar>"
      using i(1) by (simp add: i(2) algebra_simps abs_mult)
    also have "\<dots> \<le> mkIndex e * ((hi - lo) / lo + ulp)"
      using i(1,3) by (intro mult_left_mono) auto
    finally show ?thesis using e(1) by (simp add: GetMarkPrice_def)
  qed
qed

theorem mark_tracks_index_witness:
  "\<exists>e. applyUpdates dec16 [LastUpdate 100, IndexUpdate 98, LastUpdate 105] (NewMarkEngine (1 / 5) []) = Some e \<and>
    \<bar>GetMarkPrice e - mkIndex e\<bar> \<le> mkIndex e * ((105 - 98) / 98 + ulp)"
  by (rule mark_tracks_index [OF dec16_law]) auto

text \<open>
  A single futures print moves the mark price only by the smoothing factor: after any run of
  updates with a positive spot price, the new mark price is the average of the old one and the printed
  price with that weight, up to the rounding of one quotient.
\<close>

theorem spike_damped:
  assumes "div_law D" and "0 \<le> a" and "applyUpdates D us (NewMarkEngine a url) = Some e"
    and "mkInitialized e" and "0 < mkIndex e" and "w = (if a = 0 then 1 / 10 else a)"
  shows "\<exists>e'. UpdateLastPrice D p e = Some e' \<and> mkIndex e' = mkIndex e \<and>
    \<bar>GetMarkPrice e' - ((1 - w) * GetMarkPrice e + w * p)\<bar> \<le> w * mkIndex e * ulp"
proof -
  have "mark_ok e"
    using decimal.applyUpdates_mark_ok [OF decimal.intro [OF assms(1)] mark_ok_new, of us a url] assms(3) by simp
  moreover have "mkAlpha e = w"
    using decimal.applyUpdates_alpha [OF decimal.intro [OF assms(1)] assms(3)] assms(6)
    by (simp add: NewMarkEngine_def)
  moreover have "0 \<le> w" using assms(2,6) by simp
  ultimately show ?thesis
    using decimal.UpdateLastPrice_moves [OF decimal.intro [OF assms(1)], of e p] assms(4,5)
    by (simp add: GetMarkPrice_def)
qed

theorem spike_damped_witness:
  "\<exists>e'. UpdateLastPrice dec16 500 (the (applyUpdates dec16 [LastUpdate 100] (NewMarkEngine (1 / 4) []))) = Some e' \<and>
    \<bar>GetMarkPrice e' - ((1 - 1 / 4) * 100 + 1 / 4 * 500)\<bar> \<le> 1 / 4 * 100 * ulp"
  using spike_damped [OF dec16_law, of "1 / 4" "[LastUpdate 100]" "[]" _ "1 / 4" 500]
  by (auto simp: UpdateLastPrice_def NewMarkEngine_def GetMarkPrice_def)

end
