(* ===== verification/Funding.thy ===== *)
theory Funding
  imports Exchange Json
begin

section \<open>The funding scheduler (\<open>internal/engine/funding/scheduler.go\<close>)\<close>

text \<open>
  The periodic exchange of funding payments. The scheduler shares the engine's position, account and
  price caches (\<open>schEngine\<close>); \<open>withLock\<close> makes its critical sections atomic, so they are one
  transformation of that engine. What the database does may differ from one attempt to the next: a
  retry loop is given the behaviour of the \<open>k\<close>-th attempt as \<open>Ps k\<close>. The loop has no bound in the
  code, so it is a \<open>partial_function\<close>: \<open>None\<close> is a run that panics or never ends. The pauses between
  attempts and the log are left out; times are nanoseconds since the epoch, in UTC.
\<close>

subsection \<open>State\<close>

record scheduler =
  schHours :: "int list"
  schURL :: string
  schEngine :: engine
  schDB :: database
  schHub :: "(int \<times> dec \<times> dec) list"
  schDone :: bool
  schRate :: dec
  schMaintRate :: dec

definition NewScheduler :: "int list \<Rightarrow> string \<Rightarrow> engine \<Rightarrow> database \<Rightarrow> dec \<Rightarrow> scheduler" where
  "NewScheduler settleHours fetchURL e db maintRate' =
     \<lparr>schHours = settleHours, schURL = fetchURL, schEngine = e, schDB = db, schHub = [], schDone = False,
      schRate = 0, schMaintRate = maintRate'\<rparr>"

definition SetRate :: "dec \<Rightarrow> scheduler \<Rightarrow> scheduler" where
  "SetRate rate s = s\<lparr>schRate := rate\<rparr>"

definition GetCurrentRate :: "scheduler \<Rightarrow> dec" where
  "GetCurrentRate s = schRate s"

text \<open>Closing a closed channel panics.\<close>

definition StopScheduler :: "scheduler \<Rightarrow> scheduler option" where
  "StopScheduler s = (if schDone s then None else Some (s\<lparr>schDone := True\<rparr>))"

subsection \<open>When to settle\<close>

definition hourNs :: int where "hourNs = 3600000000000"
definition dayNs :: int where "dayNs = 24 * hourNs"

definition dateAt :: "int \<Rightarrow> int \<Rightarrow> int \<Rightarrow> int" where
  "dateAt now days h = (now div dayNs + days) * dayNs + h * hourNs"

fun firstAfter :: "int \<Rightarrow> int list \<Rightarrow> int option" where
  "firstAfter now [] = None"
| "firstAfter now (h # hs) = (let t = dateAt now 0 h in if now < t then Some t else firstAfter now hs)"

text \<open>With no hours configured, \<open>settleHours[0]\<close> panics.\<close>

definition GetNextSettleTime :: "int \<Rightarrow> scheduler \<Rightarrow> int option" where
  "GetNextSettleTime now s =
     (case firstAfter now (schHours s) of
        Some t \<Rightarrow> Some t
      | None \<Rightarrow> (case schHours s of [] \<Rightarrow> None | h # _ \<Rightarrow> Some (dateAt now 1 h)))"

subsection \<open>The rate\<close>

definition fetchRate :: "(string \<Rightarrow> dec option) \<Rightarrow> reply \<Rightarrow> scheduler \<Rightarrow> scheduler" where
  "fetchRate parse resp s =
     (if schURL s = [] then s
      else case resp of
          NoReply \<Rightarrow> s
        | Unreadable \<Rightarrow> s
        | Body body \<Rightarrow>
            (case objectNumber parse ''lastFundingRate'' body of
               Some rate \<Rightarrow> s\<lparr>schRate := rate\<rparr>
             | None \<Rightarrow> (case arrayNumber parse ''funding_rate_indicative'' body of
                 Some rate \<Rightarrow> s\<lparr>schRate := rate\<rparr>
               | None \<Rightarrow> s)))"

subsection \<open>Settling one position\<close>

datatype funding_error =
    CreateSettlementError db_error
  | UpdateFundingPnlError db_error
  | AddPnlError db_error
  | DeductBalanceError db_error
  | UpdateMarginError db_error

type_synonym outcome = "funding_error option \<times> scheduler"

definition addFunding :: "dec \<Rightarrow> cached_position \<Rightarrow> cached_position" where
  "addFunding payment cp =
     (let oldFunding = NewFromString (pFundingPnl cp) in cp\<lparr>pFundingPnl := Shown (oldFunding + payment)\<rparr>)"

definition withPositions :: "(position_cache \<Rightarrow> position_cache) \<Rightarrow> scheduler \<Rightarrow> scheduler" where
  "withPositions f s = s\<lparr>schEngine := (schEngine s)\<lparr>positionCache := f (positionCache (schEngine s))\<rparr>\<rparr>"

definition withAccounts :: "(accounts \<Rightarrow> accounts) \<Rightarrow> scheduler \<Rightarrow> scheduler" where
  "withAccounts f s = s\<lparr>schEngine := (schEngine s)\<lparr>memAccounts := f (memAccounts (schEngine s))\<rparr>\<rparr>"

definition deductBalance :: "pg \<Rightarrow> int \<Rightarrow> dec \<Rightarrow> database \<Rightarrow> database db_result" where
  "deductBalance P userID fromBalance =
     (if 0 < fromBalance then AddPnlTx P userID (- fromBalance) else skip_stmt)"

definition shrinkMargin :: "dec \<Rightarrow> dec \<Rightarrow> dec \<Rightarrow> cached_position \<Rightarrow> cached_position" where
  "shrinkMargin payment newMargin newLiqPrice cp =
     (addFunding payment cp)\<lparr>pMargin := Shown newMargin, pLiqPrice := Shown newLiqPrice\<rparr>"

definition leftMargin :: "cached_position \<Rightarrow> dec \<Rightarrow> dec" where
  "leftMargin pos fromMargin =
     (let newMargin = NewFromString (pMargin pos) - fromMargin in if newMargin < 0 then 0 else newMargin)"

definition settleInsufficientBalance ::
    "decimal_lib \<Rightarrow> pg \<Rightarrow> cached_position \<Rightarrow> dec \<Rightarrow> dec \<Rightarrow> dec \<Rightarrow> scheduler \<Rightarrow> outcome option" where
  "settleInsufficientBalance D P pos payment balance quantity s =
     (let fromBalance = balance;
          fromMargin = - (payment + fromBalance)
      in case deductBalance P (pUserID pos) fromBalance (schDB s) of
           Inl er \<Rightarrow> Some (Some (DeductBalanceError er), s)
         | Inr db1 \<Rightarrow>
             let s1 = s\<lparr>schDB := db1\<rparr>;
                 newMargin = leftMargin pos fromMargin;
                 newFundingPnl = NewFromString (pFundingPnl pos) + payment
             in do {
               newLiqPrice \<leftarrow> CalcLiquidationPriceWithFunding D (NewFromString (pEntryPrice pos)) (pLeverage pos)
                 (pSide pos) (schMaintRate s1) newFundingPnl quantity;
               (case UpdateMargin P (pID pos) newMargin newLiqPrice (schDB s1) of
                  Inl er \<Rightarrow> Some (Some (UpdateMarginError er), s1)
                | Inr db2 \<Rightarrow>
                    let s2 = s1\<lparr>schDB := db2\<rparr>;
                        s3 = (if 0 < fromBalance then withAccounts (AddPnl (pUserID pos) (- fromBalance)) s2 else s2)
                    in Some (None, withPositions (UpdateCached (pID pos) (shrinkMargin payment newMargin newLiqPrice)) s3))
             })"

definition settleMemory ::
    "decimal_lib \<Rightarrow> pg \<Rightarrow> cached_position \<Rightarrow> dec \<Rightarrow> dec \<Rightarrow> scheduler \<Rightarrow> outcome option" where
  "settleMemory D P pos payment quantity s =
     (let balance = GetBalance (pUserID pos) (memAccounts (schEngine s))
      in if payment < 0 \<and> balance + payment < 0 then settleInsufficientBalance D P pos payment balance quantity s
         else case AddPnlTx P (pUserID pos) payment (schDB s) of
             Inl er \<Rightarrow> Some (Some (AddPnlError er), s)
           | Inr db1 \<Rightarrow>
               Some (None, withAccounts (AddPnl (pUserID pos) payment)
                 (withPositions (UpdateCached (pID pos) (addFunding payment)) (s\<lparr>schDB := db1\<rparr>))))"

definition settlePosition ::
    "decimal_lib \<Rightarrow> pg \<Rightarrow> int \<Rightarrow> dec \<Rightarrow> int \<Rightarrow> scheduler \<Rightarrow> outcome option" where
  "settlePosition D P ptr currentPrice now s = do {
     pos \<leftarrow> deref ptr (positionCache (schEngine s));
     let quantity = NewFromString (pQuantity pos);
     let payment = CalcFundingPayment quantity currentPrice (schRate s) (pSide pos);
     let posValue = quantity * currentPrice;
     let settlement = \<lparr>fsUserID = pUserID pos, fsPositionID = pID pos, fsRate = schRate s,
       fsPositionValue = posValue, fsPayment = payment, fsSettleTime = now\<rparr>;
     (case CreateSettlementTx P settlement (schDB s) of
        Inl er \<Rightarrow> Some (Some (CreateSettlementError er), s)
      | Inr db1 \<Rightarrow>
          (let s1 = s\<lparr>schDB := db1\<rparr>
           in case UpdateFundingPnlTx P (pID pos) payment (schDB s1) of
               Inl er \<Rightarrow> Some (Some (UpdateFundingPnlError er), s1)
             | Inr db2 \<Rightarrow> do {
                 r \<leftarrow> settleMemory D P pos payment quantity (s1\<lparr>schDB := db2\<rparr>);
                 (case r of
                    (Some er, s3) \<Rightarrow> Some (Some er, s3)
                  | (None, s3) \<Rightarrow> Some (None, s3\<lparr>schHub := schHub s3 @ [(pUserID pos, schRate s3, Round D 4 payment)]\<rparr>))
               }))
   }"

subsection \<open>Settling all positions\<close>

text \<open>The market maker has no row in the database.\<close>

definition settleMaker :: "cached_position \<Rightarrow> dec \<Rightarrow> scheduler \<Rightarrow> scheduler" where
  "settleMaker pos currentPrice s =
     (let payment = CalcFundingPayment (NewFromString (pQuantity pos)) currentPrice (schRate s) (pSide pos)
      in withPositions (UpdateCached (pID pos) (addFunding payment)) (withAccounts (AddPnl (pUserID pos) payment) s))"

partial_function (option) settleRetry ::
    "decimal_lib \<Rightarrow> (nat \<Rightarrow> pg) \<Rightarrow> nat \<Rightarrow> int \<Rightarrow> dec \<Rightarrow> int \<Rightarrow> scheduler \<Rightarrow> scheduler option" where
  "settleRetry D Ps retries ptr currentPrice now s = do {
     r \<leftarrow> settlePosition D (Ps retries) ptr currentPrice now s;
     (case fst r of
        None \<Rightarrow> Some (snd r)
      | Some er \<Rightarrow> settleRetry D Ps (Suc retries) ptr currentPrice now (snd r))
   }"

fun settleAll ::
    "decimal_lib \<Rightarrow> (int \<Rightarrow> nat \<Rightarrow> pg) \<Rightarrow> dec \<Rightarrow> int \<Rightarrow> int list \<Rightarrow> scheduler \<Rightarrow> scheduler option" where
  "settleAll D Ps currentPrice now [] s = Some s"
| "settleAll D Ps currentPrice now (ptr # ptrs) s = do {
     pos \<leftarrow> deref ptr (positionCache (schEngine s));
     s' \<leftarrow> (if pUserID pos = 0 then Some (settleMaker pos currentPrice s)
       else settleRetry D (Ps ptr) 0 ptr currentPrice now s);
     settleAll D Ps currentPrice now ptrs s'
   }"

definition settle ::
    "decimal_lib \<Rightarrow> (string \<Rightarrow> dec option) \<Rightarrow> reply \<Rightarrow> pg \<Rightarrow> (int \<Rightarrow> nat \<Rightarrow> pg) \<Rightarrow> int \<Rightarrow> scheduler \<Rightarrow> scheduler option" where
  "settle D parse resp P0 Ps now s =
     (let s1 = fetchRate parse resp s
      in if schRate s1 = 0 then Some s1
         else let currentPrice = GetPrice (priceCache (schEngine s1))
              in if currentPrice = 0 then Some s1
                 else case CreateRate P0 \<lparr>frRate = schRate s1, frSettleTime = now\<rparr> (schDB s1) of
                     Inl er \<Rightarrow> Some s1
                   | Inr db1 \<Rightarrow> settleAll D Ps currentPrice now (GetAll (positionCache (schEngine s1))) (s1\<lparr>schDB := db1\<rparr>))"

text \<open>
  The goroutine: it waits for the next settlement time or for the stop signal. A wake-up carries the
  outside world's part in the settlement it starts.
\<close>

datatype wake = Settlement reply pg "int \<Rightarrow> nat \<Rightarrow> pg" int | Stopped

fun runScheduler :: "decimal_lib \<Rightarrow> (string \<Rightarrow> dec option) \<Rightarrow> (int \<times> wake) list \<Rightarrow> scheduler \<Rightarrow> scheduler option" where
  "runScheduler D parse [] s = Some s"
| "runScheduler D parse ((now, w) # ws) s = do {
     nextSettle \<leftarrow> GetNextSettleTime now s;
     (case w of
        Stopped \<Rightarrow> Some s
      | Settlement resp P0 Ps t \<Rightarrow> do { s' \<leftarrow> settle D parse resp P0 Ps t s; runScheduler D parse ws s' })
   }"

definition StartScheduler :: "decimal_lib \<Rightarrow> (string \<Rightarrow> dec option) \<Rightarrow> reply \<Rightarrow> (int \<times> wake) list \<Rightarrow> scheduler \<Rightarrow> scheduler option" where
  "StartScheduler D parse resp ws s = runScheduler D parse ws (fetchRate parse resp s)"

definition SettleNow ::
    "decimal_lib \<Rightarrow> (string \<Rightarrow> dec option) \<Rightarrow> reply \<Rightarrow> pg \<Rightarrow> (int \<Rightarrow> nat \<Rightarrow> pg) \<Rightarrow> int \<Rightarrow> scheduler \<Rightarrow> scheduler option" where
  "SettleNow = settle"

end
