(* ===== verification/Funding_Steps.thy ===== *)
theory Funding_Steps
  imports Funding
begin

section \<open>Funding: what an attempt and a settlement do\<close>

text \<open>
  A failed attempt leaves the memory as it was; a successful one pays, or takes what is missing from
  the margin. Either way the position's funding field moves by exactly the payment.
\<close>

subsection \<open>One attempt\<close>

text \<open>Only the database differs.\<close>

definition only_db :: "scheduler \<Rightarrow> scheduler \<Rightarrow> bool" where
  "only_db s s' \<longleftrightarrow> (\<exists>db. s' = s\<lparr>schDB := db\<rparr>)"

lemma only_db_refl [simp]: "only_db s s"
  unfolding only_db_def by (rule exI [of _ "schDB s"]) simp

lemma only_db_upd [simp]: "only_db s (s\<lparr>schDB := db\<rparr>)"
  by (auto simp: only_db_def)

lemma only_db_trans: "only_db s s1 \<Longrightarrow> only_db s1 s2 \<Longrightarrow> only_db s s2"
  by (auto simp: only_db_def)

lemma only_dbD:
  assumes "only_db s s'"
  shows "schEngine s' = schEngine s" "schRate s' = schRate s" "schMaintRate s' = schMaintRate s" "schHub s' = schHub s"
  using assms by (auto simp: only_db_def)

text \<open>What an attempt does to the memory when it succeeds.\<close>

inductive settled :: "cached_position \<Rightarrow> dec \<Rightarrow> scheduler \<Rightarrow> scheduler \<Rightarrow> bool" for pos pay s s' where
  paid: "schEngine s' = (schEngine s)\<lparr>memAccounts := AddPnl (pUserID pos) pay (memAccounts (schEngine s)),
      positionCache := UpdateCached (pID pos) (addFunding pay) (positionCache (schEngine s))\<rparr> \<Longrightarrow>
    schRate s' = schRate s \<Longrightarrow> schMaintRate s' = schMaintRate s \<Longrightarrow>
    0 \<le> pay \<or> 0 \<le> GetBalance (pUserID pos) (memAccounts (schEngine s)) + pay \<Longrightarrow> settled pos pay s s'"
| short: "bal = GetBalance (pUserID pos) (memAccounts (schEngine s)) \<Longrightarrow> pay < 0 \<Longrightarrow> bal + pay < 0 \<Longrightarrow>
    schEngine s' = (schEngine s)\<lparr>memAccounts :=
        (if 0 < bal then AddPnl (pUserID pos) (- bal) (memAccounts (schEngine s)) else memAccounts (schEngine s)),
      positionCache := UpdateCached (pID pos) (shrinkMargin pay (leftMargin pos (- (pay + bal))) liq)
        (positionCache (schEngine s))\<rparr> \<Longrightarrow>
    schRate s' = schRate s \<Longrightarrow> schMaintRate s' = schMaintRate s \<Longrightarrow> settled pos pay s s'"

definition payment_of :: "dec \<Rightarrow> scheduler \<Rightarrow> cached_position \<Rightarrow> dec" where
  "payment_of price s pos = CalcFundingPayment (NewFromString (pQuantity pos)) price (schRate s) (pSide pos)"

lemma settleInsufficientBalance_Some:
  assumes "settleInsufficientBalance D P pos pay bal q s = Some (er, s')"
    and "bal = GetBalance (pUserID pos) (memAccounts (schEngine s))" and "pay < 0" and "bal + pay < 0"
  shows "(er \<noteq> None \<longrightarrow> only_db s s') \<and> (er = None \<longrightarrow> settled pos pay s s')"
proof (cases "deductBalance P (pUserID pos) bal (schDB s)")
  case (Inl e)
  with assms(1) show ?thesis by (auto simp: settleInsufficientBalance_def)
next
  case (Inr db1)
  let ?m = "leftMargin pos (- (pay + bal))"
  obtain liq where liq: "CalcLiquidationPriceWithFunding D (NewFromString (pEntryPrice pos)) (pLeverage pos) (pSide pos)
      (schMaintRate s) (NewFromString (pFundingPnl pos) + pay) q = Some liq"
    using assms(1) Inr unfolding settleInsufficientBalance_def Let_def by (auto split: bind_splits)
  note run = assms(1) [unfolded settleInsufficientBalance_def Let_def Inr sum.case, simplified, unfolded liq, simplified]
  show ?thesis
  proof (cases "UpdateMargin P (pID pos) ?m liq db1")
    case (Inl e)
    with run show ?thesis by auto
  next
    case (Inr db2)
    with run have "er = None" and "s' = withPositions (UpdateCached (pID pos) (shrinkMargin pay ?m liq))
        (if 0 < bal then withAccounts (AddPnl (pUserID pos) (- bal)) (s\<lparr>schDB := db2\<rparr>) else s\<lparr>schDB := db2\<rparr>)"
      by auto
    then show ?thesis
      using assms(2-4) by (auto simp: withPositions_def withAccounts_def intro!: settled.short [OF assms(2-4)])
  qed
qed

lemma settleMemory_Some:
  assumes "settleMemory D P pos pay q s = Some (er, s')"
  shows "(er \<noteq> None \<longrightarrow> only_db s s') \<and> (er = None \<longrightarrow> settled pos pay s s')"
proof (cases "pay < 0 \<and> GetBalance (pUserID pos) (memAccounts (schEngine s)) + pay < 0")
  case True
  with assms have "settleInsufficientBalance D P pos pay (GetBalance (pUserID pos) (memAccounts (schEngine s))) q s = Some (er, s')"
    by (simp add: settleMemory_def)
  from settleInsufficientBalance_Some [OF this refl] True show ?thesis by blast
next
  case False
  then have "0 \<le> pay \<or> 0 \<le> GetBalance (pUserID pos) (memAccounts (schEngine s)) + pay" by auto
  with False assms show ?thesis
    unfolding settleMemory_def Let_def
    by (auto simp: withPositions_def withAccounts_def intro!: settled.paid split: sum.splits)
qed

lemma settled_frame: "settled pos pay (s\<lparr>schDB := db\<rparr>) s' \<Longrightarrow> settled pos pay s s'"
  by (erule settled.cases) (auto intro: settled.paid settled.short)

lemma settled_hub: "settled pos pay s s' \<Longrightarrow> settled pos pay s (s'\<lparr>schHub := h\<rparr>)"
  by (erule settled.cases) (auto intro: settled.paid settled.short)

lemma settlePosition_Some:
  assumes "settlePosition D P ptr price now s = Some (er, s')"
  obtains pos where "deref ptr (positionCache (schEngine s)) = Some pos"
    and "er \<noteq> None \<Longrightarrow> only_db s s'" and "er = None \<Longrightarrow> settled pos (payment_of price s pos) s s'"
proof -
  obtain pos where pos: "deref ptr (positionCache (schEngine s)) = Some pos"
    using assms by (auto simp: settlePosition_def split: bind_splits)
  let ?pay = "payment_of price s pos"
  have "(er \<noteq> None \<longrightarrow> only_db s s') \<and> (er = None \<longrightarrow> settled pos ?pay s s')"
    using assms pos
    by (auto simp: settlePosition_def Let_def payment_of_def [symmetric] split: sum.splits bind_splits option.splits
        dest!: settleMemory_Some intro!: settled_hub [OF settled_frame] intro: only_db_trans [OF only_db_upd])
  with pos that show thesis by blast
qed

subsection \<open>Attempts return, and the loop ends\<close>

definition accepts :: "pg \<Rightarrow> bool" where
  "accepts P \<longleftrightarrow> (\<forall>st db. \<not> pgRefuses P st db)"

definition price_defined :: "dec \<Rightarrow> bool" where
  "price_defined r \<longleftrightarrow> r \<noteq> 1 \<and> r \<noteq> - 1"

lemma settleInsufficientBalance_accepted:
  assumes "accepts P" and "settleInsufficientBalance D P pos pay bal q s = Some r"
  shows "fst r = None"
  using assms by (auto simp: settleInsufficientBalance_def deductBalance_def stmt_defs accepts_def Let_def
      split: bind_splits sum.splits if_splits)

context decimal
begin

lemma CalcLiquidationPriceWithFunding_total:
  assumes "l \<noteq> 0" and "price_defined r"
  shows "\<exists>p. CalcLiquidationPriceWithFunding D e l s r f q = Some p"
proof -
  have d: "\<exists>x. Div D a (of_int l) = Some x" "\<exists>x. Div D a (1 - r) = Some x" "\<exists>x. Div D a (1 + r) = Some x"
    "0 < q \<Longrightarrow> \<exists>x. Div D a (q * (1 - r)) = Some x" "0 < q \<Longrightarrow> \<exists>x. Div D a (q * (1 + r)) = Some x" for a
    using assms by (auto intro!: div_defined simp: price_defined_def)
  show ?thesis
  proof (cases "s = 1")
    case True
    with d(1) [of 1] d(2) d(4) [of f] show ?thesis
      unfolding CalcLiquidationPriceWithFunding_def Let_def by (cases "0 < q \<and> f \<noteq> 0") (force split: bind_splits)+
  next
    case False
    with d(1) [of 1] d(3) d(5) [of f] show ?thesis
      unfolding CalcLiquidationPriceWithFunding_def Let_def by (cases "0 < q \<and> f \<noteq> 0") (force split: bind_splits)+
  qed
qed

lemma settleInsufficientBalance_total:
  assumes "pLeverage pos \<noteq> 0" and "price_defined (schMaintRate s)"
  shows "\<exists>r. settleInsufficientBalance D P pos pay bal q s = Some r"
proof (cases "deductBalance P (pUserID pos) bal (schDB s)")
  case (Inr db1)
  obtain liq where "CalcLiquidationPriceWithFunding D (NewFromString (pEntryPrice pos)) (pLeverage pos) (pSide pos)
      (schMaintRate s) (NewFromString (pFundingPnl pos) + pay) q = Some liq"
    using CalcLiquidationPriceWithFunding_total [OF assms] by blast
  with Inr show ?thesis
    by (cases "UpdateMargin P (pID pos) (leftMargin pos (- (pay + bal))) liq db1")
      (simp_all add: settleInsufficientBalance_def Let_def)
qed (simp add: settleInsufficientBalance_def)

lemma settlePosition_total:
  assumes "deref ptr (positionCache (schEngine s)) = Some pos" and "pLeverage pos \<noteq> 0" and "price_defined (schMaintRate s)"
  shows "\<exists>er s'. settlePosition D P ptr price now s = Some (er, s') \<and> (accepts P \<longrightarrow> er = None)"
proof -
  have m: "\<exists>er s'. settleMemory D P pos pay q (s\<lparr>schDB := db\<rparr>) = Some (er, s') \<and> (accepts P \<longrightarrow> er = None)" for pay q db
  proof -
    obtain r where "settleInsufficientBalance D P pos pay (GetBalance (pUserID pos) (memAccounts (schEngine s))) q (s\<lparr>schDB := db\<rparr>) = Some r"
      using settleInsufficientBalance_total [of pos "s\<lparr>schDB := db\<rparr>"] assms(2,3) by fastforce
    with settleInsufficientBalance_accepted [OF _ this] show ?thesis
      by (cases r) (auto simp: settleMemory_def Let_def stmt_defs accepts_def split: sum.split)
  qed
  show ?thesis
  proof (cases "CreateSettlementTx P \<lparr>fsUserID = pUserID pos, fsPositionID = pID pos, fsRate = schRate s,
      fsPositionValue = NewFromString (pQuantity pos) * price, fsPayment = payment_of price s pos, fsSettleTime = now\<rparr> (schDB s)")
    case (Inl e)
    with assms(1) show ?thesis
      by (auto simp: settlePosition_def Let_def payment_of_def stmt_defs accepts_def split: if_splits)
  next
    case (Inr db1)
    show ?thesis
    proof (cases "UpdateFundingPnlTx P (pID pos) (payment_of price s pos) db1")
      case (Inl e)
      with \<open>CreateSettlementTx P _ (schDB s) = Inr db1\<close> assms(1) show ?thesis
        by (auto simp: settlePosition_def Let_def payment_of_def stmt_defs accepts_def split: if_splits)
    next
      case (Inr db2)
      obtain er s3 where "settleMemory D P pos (payment_of price s pos) (NewFromString (pQuantity pos)) (s\<lparr>schDB := db2\<rparr>) = Some (er, s3)"
        "accepts P \<longrightarrow> er = None" using m by blast
      with Inr \<open>CreateSettlementTx P _ (schDB s) = Inr db1\<close> assms(1) show ?thesis
        by (cases er) (auto simp: settlePosition_def Let_def payment_of_def)
    qed
  qed
qed

lemma settleRetry_returns:
  assumes "k \<le> n" and "accepts (Ps n)" and "deref ptr (positionCache (schEngine s)) = Some pos"
    and "pLeverage pos \<noteq> 0" and "price_defined (schMaintRate s)"
  shows "\<exists>s'. settleRetry D Ps k ptr price now s = Some s'"
  using assms(1,3,5)
proof (induction arbitrary: s rule: inc_induct)
  case base
  then obtain s' where "settlePosition D (Ps n) ptr price now s = Some (None, s')"
    using settlePosition_total [of ptr s pos "Ps n" price now] assms(2,4) by auto
  then show ?case by (subst settleRetry.simps) simp
next
  case (step k)
  then obtain er s1 where s1: "settlePosition D (Ps k) ptr price now s = Some (er, s1)"
    using settlePosition_total [of ptr s pos "Ps k" price now] assms(4) by auto
  show ?case
  proof (cases er)
    case None
    with s1 show ?thesis by (subst settleRetry.simps) simp
  next
    case (Some x)
    with s1 have "only_db s s1" by (auto elim: settlePosition_Some)
    with step only_dbD [OF this] have "\<exists>s'. settleRetry D Ps (Suc k) ptr price now s1 = Some s'" by simp
    with s1 Some show ?thesis by (subst settleRetry.simps) simp
  qed
qed

end

lemma settled_only_db: "only_db s s1 \<Longrightarrow> settled pos pay s1 s' \<Longrightarrow> settled pos pay s s'"
  by (auto simp: only_db_def dest: settled_frame)

lemma settleRetry_Some:
  assumes "settleRetry D Ps k ptr price now s = Some s'"
  shows "\<exists>pos. deref ptr (positionCache (schEngine s)) = Some pos \<and> settled pos (payment_of price s pos) s s'"
proof (rule settleRetry.raw_induct [where P = "\<lambda>D Ps k ptr price now s s'.
    \<exists>pos. deref ptr (positionCache (schEngine s)) = Some pos \<and> settled pos (payment_of price s pos) s s'", OF _ assms], goal_cases)
  case (1 retry D Ps k ptr price now s s')
  obtain er s1 where s1: "settlePosition D (Ps k) ptr price now s = Some (er, s1)"
    using 1(2) by (auto split: bind_splits)
  then obtain pos where pos: "deref ptr (positionCache (schEngine s)) = Some pos"
    "er \<noteq> None \<Longrightarrow> only_db s s1" "er = None \<Longrightarrow> settled pos (payment_of price s pos) s s1"
    by (rule settlePosition_Some) blast
  show ?case
  proof (cases er)
    case None
    with 1(2) s1 pos show ?thesis by auto
  next
    case (Some x)
    with 1(2) s1 have "retry D Ps (Suc k) ptr price now s1 = Some s'" by simp
    from 1(1) [OF this] pos(1,2) Some show ?thesis
      using only_dbD [of s s1] by (auto simp: payment_of_def dest: settled_only_db)
  qed
qed

end
