(* ===== verification/Funding_Props.thy ===== *)
theory Funding_Props
  imports Funding_Steps Liquidation
begin

section \<open>Funding: what the scheduler promises\<close>

text \<open>
  When the next settlement is due, that a settlement ends and keeps the exchange well formed, that
  it is zero-sum over the positions, and two weaknesses of the code: a payment reaches the user's
  equity twice, and every retry leaves another settlement row.
\<close>

subsection \<open>A settled position in a well-formed exchange\<close>

text \<open>Writes of a settlement: everything but the funding, the margin and the liquidation price stays.\<close>

definition same_size :: "cached_position \<Rightarrow> cached_position \<Rightarrow> bool" where
  "same_size p p' \<longleftrightarrow> pID p' = pID p \<and> pUserID p' = pUserID p \<and> pSide p' = pSide p \<and> pLeverage p' = pLeverage p \<and>
     pQuantity p' = pQuantity p \<and> pEntryPrice p' = pEntryPrice p \<and> pState p' = pState p \<and> pMarginMode p' = pMarginMode p"

lemma same_size_refl [simp]: "same_size p p"
  by (simp add: same_size_def)

lemma same_size_trans: "same_size p q \<Longrightarrow> same_size q r \<Longrightarrow> same_size p r"
  by (simp add: same_size_def)

lemma settle_writes [simp]:
  "same_size p (addFunding pay p)" "same_size p (shrinkMargin pay m l p)"
  "posFunding (addFunding pay p) = posFunding p + pay" "posFunding (shrinkMargin pay m l p) = posFunding p + pay"
  "posMargin (addFunding pay p) = posMargin p" "posMargin (shrinkMargin pay m l p) = m"
  by (simp_all add: same_size_def addFunding_def shrinkMargin_def pos_fields Let_def)

lemma frozen_of_AddPnl [simp]: "frozen_of v (AddPnl u x accs) = frozen_of v accs"
  by (auto simp: ledger_defs Let_def split: option.split)

lemma exchange_AddPnl: "exchange_ok e \<Longrightarrow> exchange_ok (e\<lparr>memAccounts := AddPnl u x (memAccounts e)\<rparr>)"
  by (simp add: exchange_ok_def engine_ok_def owners_ok_def orders_ok_def)

text \<open>The memory after a settlement: some account movement, one write to the position.\<close>

definition writes :: "cached_position \<Rightarrow> dec \<Rightarrow> scheduler \<Rightarrow> scheduler \<Rightarrow> bool" where
  "writes pos pay s s' \<longleftrightarrow> schRate s' = schRate s \<and> schMaintRate s' = schMaintRate s \<and>
     (\<exists>fn a. (\<forall>p. same_size p (fn p) \<and> posFunding (fn p) = posFunding p + pay) \<and>
        schEngine s' = (schEngine s)\<lparr>memAccounts := a, positionCache := UpdateCached (pID pos) fn (positionCache (schEngine s))\<rparr> \<and>
        (exchange_ok (schEngine s) \<longrightarrow> exchange_ok ((schEngine s)\<lparr>memAccounts := a\<rparr>)))"

lemma settled_writes: "settled pos pay s s' \<Longrightarrow> writes pos pay s s'"
proof (erule settled.cases, goal_cases)
  case 1
  then show ?case
    unfolding writes_def
    by (intro conjI exI [of _ "addFunding pay"] exI [of _ "AddPnl (pUserID pos) pay (memAccounts (schEngine s))"])
      (simp_all add: exchange_AddPnl)
next
  case (2 bal liq)
  then show ?case
    unfolding writes_def
    by (intro conjI exI [of _ "shrinkMargin pay (leftMargin pos (- (pay + bal))) liq"]
        exI [of _ "if 0 < bal then AddPnl (pUserID pos) (- bal) (memAccounts (schEngine s)) else memAccounts (schEngine s)"])
      (simp_all add: exchange_AddPnl)
qed

lemma settleMaker_writes: "writes pos (payment_of price s pos) s (settleMaker pos price s)"
  unfolding writes_def
  by (intro conjI exI [of _ "addFunding (payment_of price s pos)"]
      exI [of _ "AddPnl (pUserID pos) (payment_of price s pos) (memAccounts (schEngine s))"])
    (simp_all add: exchange_AddPnl settleMaker_def withPositions_def withAccounts_def payment_of_def Let_def)

lemma exchange_live:
  assumes "exchange_ok e" and "map_of (posLive (positionCache e)) i = Some p"
  shows "pID p = i" and "pos_ok p" and "holds_account (pUserID p) (memAccounts e)" and "deref i (positionCache e) = Some p"
  using assms by (auto simp: exchange_ok_def engine_ok_def positions_ok_def owners_ok_def cache_ok_def deref_def)

text \<open>A position that is credited a payment and else keeps its size.\<close>

definition credited :: "dec \<Rightarrow> cached_position \<Rightarrow> cached_position \<Rightarrow> bool" where
  "credited pay p p' \<longleftrightarrow> same_size p p' \<and> posFunding p' = posFunding p + pay"

lemma credited_refl [simp]: "credited 0 p p"
  by (simp add: credited_def)

lemma credited_trans: "credited x p q \<Longrightarrow> credited y q r \<Longrightarrow> credited (x + y) p r"
  by (auto simp: credited_def intro: same_size_trans)

lemma rel_credited_trans:
  "rel_option (credited x) a b \<Longrightarrow> rel_option (credited y) b c \<Longrightarrow> rel_option (credited (x + y)) a c"
  by (cases a; cases b; cases c) (auto intro: credited_trans)

text \<open>What a settlement of one live position keeps and changes.\<close>

definition settles_one :: "int \<Rightarrow> dec \<Rightarrow> scheduler \<Rightarrow> scheduler \<Rightarrow> bool" where
  "settles_one i pay s s' \<longleftrightarrow>
     exchange_ok (schEngine s') \<and> schRate s' = schRate s \<and> schMaintRate s' = schMaintRate s \<and>
     (\<forall>j. rel_option (credited (if j = i then pay else 0))
        (map_of (posLive (positionCache (schEngine s))) j) (map_of (posLive (positionCache (schEngine s'))) j)) \<and>
     over_positions posFunding (schEngine s') = over_positions posFunding (schEngine s) + pay \<and>
     open_net (schEngine s') = open_net (schEngine s)"

lemma writes_settles:
  assumes "writes pos pay s s'" and "exchange_ok (schEngine s)"
    and "map_of (posLive (positionCache (schEngine s))) i = Some pos"
  shows "settles_one i pay s s'"
proof -
  obtain fn a where fn: "\<And>p. same_size p (fn p)" "\<And>p. posFunding (fn p) = posFunding p + pay"
    and e': "schEngine s' = (schEngine s)\<lparr>memAccounts := a, positionCache := UpdateCached (pID pos) fn (positionCache (schEngine s))\<rparr>"
    and ok: "exchange_ok ((schEngine s)\<lparr>memAccounts := a\<rparr>)"
    and r: "schRate s' = schRate s" "schMaintRate s' = schMaintRate s"
    using assms(1,2) unfolding writes_def by blast
  have i: "pID pos = i" using exchange_live [OF assms(2,3)] by simp
  have pc: "positionCache (schEngine s') = UpdateCached i fn (positionCache (schEngine s))" using e' i by simp
  have "exchange_ok (schEngine s')"
    using exchange_update [OF ok, of fn i] fn(1) e' i by (simp add: same_size_def)
  moreover have "rel_option (credited (if j = i then pay else 0))
      (map_of (posLive (positionCache (schEngine s))) j) (map_of (posLive (positionCache (schEngine s'))) j)" for j
  proof -
    have "rel_option (credited 0) x x" for x by (rule option.rel_refl) simp
    then show ?thesis using pc assms(3) fn by (simp add: UpdateCached_def credited_def)
  qed
  moreover have "over_positions posFunding (schEngine s') = over_positions posFunding (schEngine s) + pay"
    using over_Update [OF assms(3) pc, of posFunding] fn(2) [of pos] by simp
  moreover have "open_net (schEngine s') = open_net (schEngine s)"
    using over_Update [OF assms(3) pc, of signed_qty] fn(1) [of pos] by (simp add: open_net_def signed_qty_def same_size_def posQty_def)
  ultimately show ?thesis using r by (simp add: settles_one_def)
qed

subsection \<open>Settling all positions\<close>

lemma payment_same_size: "same_size p p' \<Longrightarrow> schRate s' = schRate s \<Longrightarrow> payment_of price s' p' = payment_of price s p"
  by (simp add: payment_of_def same_size_def)

lemma settleAll_step:
  assumes "settleAll D Ps price now (i # is') s = Some s'" and "exchange_ok (schEngine s)"
    and "map_of (posLive (positionCache (schEngine s))) i = Some pos"
  obtains s1 where "settles_one i (payment_of price s pos) s s1" and "settleAll D Ps price now is' s1 = Some s'"
proof -
  have ptr: "deref i (positionCache (schEngine s)) = Some pos" using exchange_live [OF assms(2,3)] by simp
  then obtain s1 where s1: "(if pUserID pos = 0 then Some (settleMaker pos price s) else settleRetry D (Ps i) 0 i price now s) = Some s1"
    "settleAll D Ps price now is' s1 = Some s'"
    using assms(1) by (auto split: bind_splits)
  have "writes pos (payment_of price s pos) s s1"
    using s1(1) ptr settleMaker_writes [of pos price s]
    by (auto split: if_splits dest!: settleRetry_Some intro: settled_writes)
  from that [OF writes_settles [OF this assms(2,3)] s1(2)] show thesis .
qed

lemma settleAll_sum:
  assumes "settleAll D Ps price now is' s = Some s'" and "exchange_ok (schEngine s)" and "distinct is'"
    and "\<forall>i \<in> set is'. map_of (posLive (positionCache (schEngine s))) i \<noteq> None"
  shows "exchange_ok (schEngine s') \<and> open_net (schEngine s') = open_net (schEngine s) \<and>
    over_positions posFunding (schEngine s') = over_positions posFunding (schEngine s) +
      sum_list (map (\<lambda>i. payment_of price s (the (map_of (posLive (positionCache (schEngine s))) i))) is') \<and>
    (\<forall>j. rel_option (\<lambda>p. credited (if j \<in> set is' then payment_of price s p else 0) p)
       (map_of (posLive (positionCache (schEngine s))) j) (map_of (posLive (positionCache (schEngine s'))) j))"
  using assms
proof (induction is' arbitrary: s)
  case Nil
  have "rel_option (credited 0) x x" for x by (rule option.rel_refl) simp
  with Nil show ?case by simp
next
  case (Cons i is')
  let ?live = "\<lambda>t. posLive (positionCache (schEngine t))"
  obtain pos where pos: "map_of (?live s) i = Some pos" using Cons.prems(4) by auto
  from settleAll_step [OF Cons.prems(1,2) pos] obtain s1
    where s1: "settles_one i (payment_of price s pos) s s1" "settleAll D Ps price now is' s1 = Some s'" .
  have rel: "rel_option (credited (if j = i then payment_of price s pos else 0)) (map_of (?live s) j) (map_of (?live s1) j)" for j
    using s1(1) by (simp add: settles_one_def)
  have kept: "\<exists>p'. map_of (?live s1) j = Some p' \<and> credited (if j = i then payment_of price s pos else 0) p p' \<and>
      payment_of price s1 p' = payment_of price s p" if "map_of (?live s) j = Some p" for j p
  proof -
    obtain p' where "map_of (?live s1) j = Some p'" "credited (if j = i then payment_of price s pos else 0) p p'"
      using rel [of j] \<open>map_of (?live s) j = Some p\<close> by (auto simp: option_rel_Some1)
    with s1(1) show ?thesis using payment_same_size [of p p' s1 s price] by (simp add: settles_one_def credited_def)
  qed
  have live: "\<forall>j \<in> set is'. map_of (?live s1) j \<noteq> None"
    using Cons.prems(4) kept by fastforce
  have pay: "payment_of price s1 (the (map_of (?live s1) j)) = payment_of price s (the (map_of (?live s) j))" if "j \<in> set is'" for j
    using kept Cons.prems(4) \<open>j \<in> set is'\<close> by fastforce
  have "exchange_ok (schEngine s1)" using s1(1) by (simp add: settles_one_def)
  from Cons.IH [OF s1(2) this _ live] Cons.prems(3) have IH:
    "exchange_ok (schEngine s')" "open_net (schEngine s') = open_net (schEngine s1)"
    "over_positions posFunding (schEngine s') = over_positions posFunding (schEngine s1) +
      sum_list (map (\<lambda>i. payment_of price s1 (the (map_of (?live s1) i))) is')"
    "rel_option (\<lambda>p. credited (if j \<in> set is' then payment_of price s1 p else 0) p) (map_of (?live s1) j) (map_of (?live s') j)" for j
    by simp_all
  have "rel_option (\<lambda>p. credited (if j \<in> set (i # is') then payment_of price s p else 0) p) (map_of (?live s) j) (map_of (?live s') j)" for j
  proof (cases "map_of (?live s) j")
    case None
    with rel [of j] IH(4) [of j] show ?thesis by simp
  next
    case (Some p)
    obtain p1 where p1: "map_of (?live s1) j = Some p1" "credited (if j = i then payment_of price s pos else 0) p p1"
      "payment_of price s1 p1 = payment_of price s p" using kept [OF Some] by blast
    obtain p2 where p2: "map_of (?live s') j = Some p2" "credited (if j \<in> set is' then payment_of price s1 p1 else 0) p1 p2"
      using IH(4) [of j] p1(1) by (auto simp: option_rel_Some1 split del: if_split)
    from credited_trans [OF p1(2) p2(2) [unfolded p1(3)]] Some p2(1) pos Cons.prems(3) show ?thesis by (cases "j = i") auto
  qed
  moreover have "sum_list (map (\<lambda>i. payment_of price s1 (the (map_of (?live s1) i))) is') =
      sum_list (map (\<lambda>i. payment_of price s (the (map_of (?live s) i))) is')"
    using pay by (simp cong: map_cong)
  ultimately show ?case using IH(1-3) s1(1) pos by (simp add: settles_one_def)
qed

text \<open>The payments of the active positions add up to the imbalance of their longs and shorts.\<close>

definition active_only :: "(cached_position \<Rightarrow> dec) \<Rightarrow> cached_position \<Rightarrow> dec" where
  "active_only f p = (if pState p = PosStateActive then f p else 0)"

definition active_net :: "engine \<Rightarrow> dec" where
  "active_net e = over_positions (active_only signed_qty) e"

lemma sum_over_keys:
  "distinct (map fst al) \<Longrightarrow>
   sum_list (map (\<lambda>i. f (the (map_of al i))) (map fst (filter (\<lambda>(i, p). pState p = PosStateActive) al))) = al_sum (active_only f) al"
proof (induction al)
  case (Cons x al)
  let ?keys = "map fst (filter (\<lambda>(i, p). pState p = PosStateActive) al)"
  have "sum_list (map (\<lambda>i. f (the (map_of (x # al) i))) ?keys) = sum_list (map (\<lambda>i. f (the (map_of al i))) ?keys)"
  proof (rule arg_cong [where f = sum_list], rule map_cong [OF refl])
    fix i
    assume "i \<in> set ?keys"
    then have "i \<in> fst ` set al" by auto
    with Cons.prems have "i \<noteq> fst x" by (auto simp: image_iff)
    then show "f (the (map_of (x # al) i)) = f (the (map_of al i))" by (cases x) simp
  qed
  with Cons show ?case by (cases x) (simp add: active_only_def del: map_map)
qed simp

lemma payments_imbalance:
  "al_sum (active_only (payment_of price s)) al = - (price * schRate s) * al_sum (active_only signed_qty) al"
  by (induction al)
    (auto simp: active_only_def payment_of_def CalcFundingPayment_def signed_qty_def posQty_def Let_def algebra_simps)

lemma GetAll_iff:
  "exchange_ok e \<Longrightarrow> map_of (posLive (positionCache e)) i = Some p \<Longrightarrow> i \<in> set (GetAll (positionCache e)) \<longleftrightarrow> pState p = PosStateActive"
proof -
  assume e: "exchange_ok e" and p: "map_of (posLive (positionCache e)) i = Some p"
  have "distinct (map fst (posLive (positionCache e)))"
    using e by (simp add: exchange_ok_def engine_ok_def positions_ok_def cache_ok_def)
  with p show ?thesis by (force simp: GetAll_def dest: map_of_SomeD)
qed

text \<open>Whether the row of the rate is written, without which nothing is settled.\<close>

definition rateStored :: "pg \<Rightarrow> dec \<Rightarrow> int \<Rightarrow> scheduler \<Rightarrow> bool" where
  "rateStored P0 rate now s \<longleftrightarrow> \<not> isl (CreateRate P0 \<lparr>frRate = rate, frSettleTime = now\<rparr> (schDB s))"

lemma fetchRate_keeps [simp]:
  "schEngine (fetchRate parse resp s) = schEngine s" "schDB (fetchRate parse resp s) = schDB s"
  "schMaintRate (fetchRate parse resp s) = schMaintRate s"
  by (auto simp: fetchRate_def split: reply.split option.split)

lemma settle_runs:
  assumes "settle D parse resp P0 Ps now s = Some s'"
  defines "rate \<equiv> schRate (fetchRate parse resp s)" and "price \<equiv> GetPrice (priceCache (schEngine s))"
  shows "schEngine s' = schEngine s \<and> (rate = 0 \<or> price = 0 \<or> \<not> rateStored P0 rate now s) \<or>
    rateStored P0 rate now s \<and> (\<exists>s1. schEngine s1 = schEngine s \<and> schRate s1 = rate \<and>
       settleAll D Ps price now (GetAll (positionCache (schEngine s))) s1 = Some s')"
  using assms(1) unfolding rate_def price_def rateStored_def
  by (auto simp: settle_def Let_def split: if_splits sum.splits intro!: exI [of _ "fetchRate parse resp s\<lparr>schDB := x\<rparr>" for x])

text \<open>One long position of two units at 100, a rate of a tenth of a percent, a database that accepts everything.\<close>

definition open_pg :: pg where
  "open_pg = \<lparr>pgCol = (\<lambda>x. x), pgRefuses = (\<lambda>st db. False)\<rparr>"

definition sample_scheduler :: scheduler where
  "sample_scheduler = SetRate (1 / 1000) (NewScheduler [0, 8, 16] [] sample_risky
     \<lparr>dbAccounts = [], dbPositions = [], dbOrders = [], dbTrades = [], dbSettlements = [], dbRates = []\<rparr> (1 / 200))"

lemma open_pg_accepts [simp]: "accepts open_pg" "pgCol open_pg x = x"
  by (simp_all add: accepts_def open_pg_def)

lemma sample_scheduler_fields [simp]:
  "schEngine sample_scheduler = sample_risky" "schHours sample_scheduler = [0, 8, 16]" "schRate sample_scheduler = 1 / 1000"
  "schMaintRate sample_scheduler = 1 / 200" "exchange_ok sample_risky"
  by (simp_all add: sample_scheduler_def SetRate_def NewScheduler_def sample_risky_ok)

lemma sample_payment [simp]: "payment_of 100 sample_scheduler sample_position = - (1 / 5)"
  by (simp add: payment_of_def CalcFundingPayment_def Let_def) (simp add: sample_position_def NewCachedPosition_def)

text \<open>
  C9. Funding is an exchange between the sides, of an exact amount: a settlement keeps the exchange well formed and the
  size of every position. If the rate's row is written, every active position is credited minus price times rate times
  its signed size, with the price of the cache and the rate just fetched, once, whatever the order of the positions,
  however many attempts fail and whoever cannot pay from the balance; else, and at the positions that are not active,
  nothing changes. So the credits add up to minus price times rate times the imbalance of the active longs and shorts:
  with equal sides, what one side pays the other receives.
\<close>

theorem settle_zero_sum:
  assumes "settle D parse resp P0 Ps now s = Some s'" and "exchange_ok (schEngine s)"
    and "rate = schRate (fetchRate parse resp s)" and "price = GetPrice (priceCache (schEngine s))"
  shows "exchange_ok (schEngine s') \<and> open_net (schEngine s') = open_net (schEngine s) \<and>
    (\<forall>i. rel_option
       (\<lambda>p. credited (if rateStored P0 rate now s then - (price * rate * active_only signed_qty p) else 0) p)
       (map_of (posLive (positionCache (schEngine s))) i) (map_of (posLive (positionCache (schEngine s'))) i)) \<and>
    over_positions posFunding (schEngine s') = over_positions posFunding (schEngine s) -
      (if rateStored P0 rate now s then price * rate * active_net (schEngine s) else 0)"
proof (cases "schEngine s' = schEngine s \<and> (rate = 0 \<or> price = 0 \<or> \<not> rateStored P0 rate now s)")
  case True
  have "rel_option (credited 0) x x" for x by (rule option.rel_refl) simp
  with True assms(2) show ?thesis by auto
next
  case False
  let ?live = "posLive (positionCache (schEngine s))"
  obtain s1 where stored: "rateStored P0 rate now s" and s1: "schEngine s1 = schEngine s" "schRate s1 = rate"
    and run: "settleAll D Ps price now (GetAll (positionCache (schEngine s))) s1 = Some s'"
    using settle_runs [OF assms(1), folded assms(3,4)] False by blast
  have d: "distinct (map fst ?live)" using assms(2) by (simp add: exchange_ok_def engine_ok_def positions_ok_def cache_ok_def)
  then have "distinct (GetAll (positionCache (schEngine s)))" "\<forall>i \<in> set (GetAll (positionCache (schEngine s))). map_of ?live i \<noteq> None"
    by (auto simp: GetAll_def distinct_map_filter)
  from settleAll_sum [OF run, unfolded s1(1), OF assms(2) this]
  have r: "exchange_ok (schEngine s')" "open_net (schEngine s') = open_net (schEngine s)"
    "over_positions posFunding (schEngine s') = over_positions posFunding (schEngine s) +
      sum_list (map (\<lambda>i. payment_of price s1 (the (map_of ?live i))) (GetAll (positionCache (schEngine s))))"
    "rel_option (\<lambda>p. credited (if j \<in> set (GetAll (positionCache (schEngine s))) then payment_of price s1 p else 0) p)
       (map_of ?live j) (map_of (posLive (positionCache (schEngine s'))) j)" for j by simp_all
  have pay: "payment_of price s1 p = - (price * rate * signed_qty p)" for p
    by (simp add: payment_of_def s1(2) CalcFundingPayment_def signed_qty_def posQty_def Let_def)
  have "rel_option (\<lambda>p. credited (- (price * rate * active_only signed_qty p)) p)
       (map_of ?live j) (map_of (posLive (positionCache (schEngine s'))) j)" for j
  proof (cases "map_of ?live j")
    case (Some p)
    with GetAll_iff [OF assms(2) Some] r(4) [of j] pay show ?thesis by (auto simp: option_rel_Some1 active_only_def)
  qed (use r(4) [of j] in simp)
  moreover have "over_positions posFunding (schEngine s') = over_positions posFunding (schEngine s) - price * rate * active_net (schEngine s)"
    using r(3) sum_over_keys [OF d, of "payment_of price s1"] payments_imbalance [of price s1 ?live]
    by (simp add: GetAll_def s1(2) active_net_def over_positions_def)
  ultimately show ?thesis using r(1,2) stored by simp
qed

subsection \<open>The loop ends with the database's help only\<close>

lemma settleAll_returns:
  assumes "div_law D" and "exchange_ok (schEngine s)" and "price_defined (schMaintRate s)"
    and "\<forall>i \<in> set is'. map_of (posLive (positionCache (schEngine s))) i \<noteq> None"
    and "\<forall>i \<in> set is'. \<exists>k. accepts (Ps i k)"
  shows "\<exists>s'. settleAll D Ps price now is' s = Some s'"
  using assms(2-5)
proof (induction is' arbitrary: s)
  case (Cons i is')
  obtain pos where pos: "map_of (posLive (positionCache (schEngine s))) i = Some pos" using Cons.prems(3) by auto
  note p = exchange_live [OF Cons.prems(1) pos]
  obtain k where "accepts (Ps i k)" using Cons.prems(4) by auto
  from decimal.settleRetry_returns [OF decimal.intro [OF assms(1)], of 0 k "Ps i" i s pos price now] this p(2,4) Cons.prems(2)
  obtain s0 where s0: "settleRetry D (Ps i) 0 i price now s = Some s0" by (auto simp: pos_ok_def)
  define s1 where "s1 = (if pUserID pos = 0 then settleMaker pos price s else s0)"
  have "writes pos (payment_of price s pos) s s1"
    using settleRetry_Some [OF s0] p(4) settleMaker_writes by (auto simp: s1_def intro: settled_writes)
  from writes_settles [OF this Cons.prems(1) pos] have one: "settles_one i (payment_of price s pos) s s1" .
  then have rel: "rel_option (credited (if j = i then payment_of price s pos else 0))
      (map_of (posLive (positionCache (schEngine s))) j) (map_of (posLive (positionCache (schEngine s1))) j)" for j
    by (simp add: settles_one_def)
  have "\<forall>j \<in> set is'. map_of (posLive (positionCache (schEngine s1))) j \<noteq> None"
    using Cons.prems(3) rel by (metis list.set_intros(2) option.rel_distinct(2) option.exhaust)
  with Cons.IH [of s1] Cons.prems one obtain s' where "settleAll D Ps price now is' s1 = Some s'"
    by (auto simp: settles_one_def)
  with p(4) s0 show ?case by (auto simp: s1_def split: if_splits)
qed simp

lemma settle_returns:
  assumes "div_law D" and "exchange_ok (schEngine s)" and "price_defined (schMaintRate s)"
    and "\<forall>i \<in> set (GetAll (positionCache (schEngine s))). \<exists>k. accepts (Ps i k)"
  shows "\<exists>s'. settle D parse resp P0 Ps now s = Some s'"
proof -
  let ?s1 = "fetchRate parse resp s"
  have f: "schEngine ?s1 = schEngine s" "schMaintRate ?s1 = schMaintRate s"
    by (auto simp: fetchRate_def split: reply.split option.split)
  have "\<forall>i \<in> set (GetAll (positionCache (schEngine s))). map_of (posLive (positionCache (schEngine s))) i \<noteq> None"
    by (auto simp: GetAll_def map_of_eq_None_iff)
  then show ?thesis
    using settleAll_returns [OF assms(1), of "?s1\<lparr>schDB := x\<rparr>" for x] assms(2-4) f
    by (auto simp: settle_def Let_def split: sum.split)
qed

text \<open>
  The liquidation account is long and user 7 short by two units; the database refuses everything at the first two
  attempts for each position. One side pays a fifth, the other receives it.
\<close>

definition sides_scheduler :: scheduler where
  "sides_scheduler = sample_scheduler\<lparr>schEngine := sample_taken 90\<rparr>"

lemma sides_scheduler_fields [simp]:
  "schEngine sides_scheduler = sample_taken 90" "schRate sides_scheduler = 1 / 1000" "schMaintRate sides_scheduler = 1 / 200"
  "schURL sides_scheduler = []" "exchange_ok (sample_taken 90)" "GetPrice (priceCache (sample_taken 90)) = 100"
  "over_positions posFunding (sample_taken 90) = 0" "active_net (sample_taken 90) = 0"
  using sample_taken_ok
  by (simp_all add: sides_scheduler_def sample_scheduler_def SetRate_def NewScheduler_def over_positions_def active_net_def
      active_only_def signed_qty_def) (simp add: sample_taken_def sample_risky_def sample_engine_def NewEngine_def GetPrice_def)

theorem settle_zero_sum_witness:
  "\<exists>s'. settle dec16 (\<lambda>t. None) NoReply open_pg
       (\<lambda>i k. if k < 2 then \<lparr>pgCol = (\<lambda>x. x), pgRefuses = (\<lambda>st db. True)\<rparr> else open_pg) 0 sides_scheduler = Some s' \<and>
     rel_option (credited (- (1 / 5))) (Some (taken_position 90)) (map_of (posLive (positionCache (schEngine s'))) 1) \<and>
     rel_option (credited (1 / 5)) (Some other_side) (map_of (posLive (positionCache (schEngine s'))) 2) \<and>
     over_positions posFunding (schEngine s') = 0"
proof -
  let ?Ps = "\<lambda>(i::int) (k::nat). if k < 2 then \<lparr>pgCol = (\<lambda>x. x), pgRefuses = (\<lambda>st db. True)\<rparr> else open_pg"
  have "\<exists>k. accepts (?Ps i k)" for i by (rule exI [of _ 2]) simp
  then obtain s' where s': "settle dec16 (\<lambda>t. None) NoReply open_pg ?Ps 0 sides_scheduler = Some s'"
    using settle_returns [OF dec16_law, of sides_scheduler ?Ps "\<lambda>t. None" NoReply open_pg 0]
    by (auto simp: price_defined_def)
  have rate: "schRate (fetchRate (\<lambda>t. None) NoReply sides_scheduler) = 1 / 1000" by (simp add: fetchRate_def)
  have stored: "rateStored open_pg (1 / 1000) 0 sides_scheduler" by (simp add: rateStored_def stmt_defs open_pg_def)
  note r = settle_zero_sum [OF s' _ rate [symmetric] refl, simplified stored, simplified]
  have "\<forall>i. rel_option (\<lambda>p. credited (- (active_only signed_qty p / 10)) p)
      (map_of [(1, taken_position 90), (2, other_side)] i) (map_of (posLive (positionCache (schEngine s'))) i)"
    using r by simp
  from spec [OF this, of 1] spec [OF this, of 2] s' r show ?thesis
    by (simp add: option_rel_Some1 active_only_def signed_qty_def)
qed

text \<open>
  C10. The retry loop of the settlement has no bound, and it ends: if for every active position
  some attempt finds a database that accepts its statements, a settlement returns, without a panic.
\<close>

theorem settle_terminates:
  assumes "div_law D" and "exchange_ok (schEngine s)" and "price_defined (schMaintRate s)"
    and "\<forall>i \<in> set (GetAll (positionCache (schEngine s))). \<exists>k. accepts (Ps i k)"
  shows "\<exists>s'. settle D parse resp P0 Ps now s = Some s'"
  using assms by (rule settle_returns)

theorem settle_terminates_witness:
  "\<exists>s'. settle dec16 (\<lambda>t. None) NoReply open_pg (\<lambda>i k. if k < 3 then exact_pg else open_pg) 0 sample_scheduler = Some s'"
proof (rule settle_terminates [OF dec16_law])
  have "accepts (if 4 < (3::nat) then exact_pg else open_pg)" by simp
  then show "\<forall>i \<in> set (GetAll (positionCache (schEngine sample_scheduler))). \<exists>k::nat. accepts (if k < 3 then exact_pg else open_pg)"
    by (intro ballI exI [of _ 4])
qed (simp_all add: price_defined_def)

text \<open>
  Without it the loop never ends: while the database refuses the statements of one position, its
  settlement does not return, so the positions after it are not settled either.
\<close>

theorem settleRetry_hangs:
  assumes "\<forall>k st db. pgRefuses (Ps k) st db"
  shows "settleRetry D Ps k ptr price now s = None"
proof -
  have "(\<forall>k st db. pgRefuses (Ps k) st db) \<longrightarrow> False" if "settleRetry D Ps k ptr price now s = Some s'" for s'
  proof (rule settleRetry.raw_induct [where P = "\<lambda>D Ps k ptr price now s s'. (\<forall>k st db. pgRefuses (Ps k) st db) \<longrightarrow> False",
        OF _ that], goal_cases)
    case (1 retry D Ps k ptr price now s s')
    show ?case
    proof
      assume r: "\<forall>k st db. pgRefuses (Ps k) st db"
      then obtain er s1 where "settlePosition D (Ps k) ptr price now s = Some (Some er, s1)"
        using 1(2) by (auto simp: settlePosition_def stmt_defs Let_def split: bind_splits)
      with 1(2) have "retry D Ps (Suc k) ptr price now s1 = Some s'" by simp
      from 1(1) [OF this] r show False by blast
    qed
  qed
  with assms show ?thesis by fastforce
qed

theorem settleRetry_hangs_witness:
  "settleRetry dec16 (\<lambda>k. \<lparr>pgCol = (\<lambda>x. x), pgRefuses = (\<lambda>st db. True)\<rparr>) 0 1 100 0 sample_scheduler = None"
  by (rule settleRetry_hangs) simp

subsection \<open>What a payment does to the user's equity\<close>

lemma GetBalance_AddPnl:
  assumes "holds_account u a" and "0 \<le> GetBalance u a + frozen_of u a + x"
  shows "GetBalance u (AddPnl u x a) = GetBalance u a + x"
  using assms by (auto simp: ledger_defs Let_def split: option.splits)

lemma GetBalance_AddPnl_other [simp]: "v \<noteq> u \<Longrightarrow> GetBalance v (AddPnl u x a) = GetBalance v a"
  by (auto simp: cache_defs Let_def split: option.split)

lemma pos_value_shift:
  assumes "same_size p p'" and "posFunding p' = posFunding p + pay"
  shows "pos_value price p' = pos_value price p + (posMargin p' - posMargin p) + pay"
  using assms by (simp add: pos_value_def same_size_def pos_fields)

lemma settled_equity:
  assumes "settled pos pay s s'" and "exchange_ok (schEngine s)"
    and "map_of (posLive (positionCache (schEngine s))) (pID pos) = Some pos"
    and "0 \<le> GetBalance (pUserID pos) (memAccounts (schEngine s))"
    and "0 \<le> GetBalance (pUserID pos) (memAccounts (schEngine s)) + posMargin pos + pay"
  shows "equity v p (schEngine s') = equity v p (schEngine s) + (if v = pUserID pos then 2 * pay else 0)"
proof -
  let ?e = "schEngine s" and ?e' = "schEngine s'" and ?u = "pUserID pos" and ?bal = "GetBalance (pUserID pos) (memAccounts (schEngine s))"
  have h: "holds_account ?u (memAccounts ?e)" using exchange_live [OF assms(2,3)] by simp
  have fr: "0 \<le> frozen_of ?u (memAccounts ?e)" using assms(2) frozen_nonneg by (auto simp: exchange_ok_def)
  have upd: "over_positions (of_user v (pos_value p)) ?e' =
      over_positions (of_user v (pos_value p)) ?e + (if v = ?u then posMargin (fn pos) - posMargin pos + pay else 0)"
    if "positionCache ?e' = UpdateCached (pID pos) fn (positionCache ?e)" and "same_size pos (fn pos)"
      and "posFunding (fn pos) = posFunding pos + pay" for fn
    using over_Update [OF assms(3) that(1), of "of_user v (pos_value p)"] pos_value_shift [OF that(2,3), of p] that(2)
    by (auto simp: of_user_def same_size_def)
  from assms(1) show ?thesis
  proof cases
    case paid
    from paid(4) assms(4) have "0 \<le> ?bal + pay" by linarith
    with GetBalance_AddPnl [OF h, of pay] fr have "GetBalance ?u (AddPnl ?u pay (memAccounts ?e)) = ?bal + pay" by linarith
    with upd [of "addFunding pay"] paid(1) show ?thesis by (auto simp: equity_def)
  next
    case (short bal liq)
    let ?fn = "shrinkMargin pay (leftMargin pos (- (pay + bal))) liq"
    have m: "posMargin (?fn pos) = posMargin pos + pay + bal"
      using assms(5) short(1) by (simp add: leftMargin_def Let_def posMargin_def [of pos])
    have "GetBalance v (memAccounts ?e') = GetBalance v (memAccounts ?e) - (if v = ?u then bal else 0)"
    proof (cases "0 < bal")
      case True
      with GetBalance_AddPnl [OF h, of "- bal"] fr short(1) have "GetBalance ?u (AddPnl ?u (- bal) (memAccounts ?e)) = ?bal - bal" by simp
      with True short(4) show ?thesis by auto
    next
      case False
      with assms(4) short(1) have "bal = 0" by simp
      with short(4) show ?thesis by simp
    qed
    with upd [of ?fn] m short(4) show ?thesis by (auto simp: equity_def)
  qed
qed

text \<open>
  C11. A payment is counted twice: settling a position that can pay moves the balance (or the margin) by the
  payment and the position's funding field, which closing the position pays out again, by the same
  amount. At every price the user's equity moves by twice the payment; nobody else's moves.
\<close>

theorem funding_counted_twice:
  assumes "settlePosition D P ptr price now s = Some (None, s')" and "exchange_ok (schEngine s)"
    and "map_of (posLive (positionCache (schEngine s))) ptr = Some pos" and "pay = payment_of price s pos"
    and "0 \<le> GetBalance (pUserID pos) (memAccounts (schEngine s))"
    and "0 \<le> GetBalance (pUserID pos) (memAccounts (schEngine s)) + posMargin pos + pay"
  shows "equity v p (schEngine s') = equity v p (schEngine s) + (if v = pUserID pos then 2 * pay else 0)"
proof -
  note e = exchange_live [OF assms(2,3)]
  from settlePosition_Some [OF assms(1)] e(4) assms(4) have "settled pos pay s s'" by force
  from settled_equity [OF this assms(2)] assms(3,5,6) e(1) show ?thesis by simp
qed

theorem funding_counted_twice_witness:
  "\<exists>s'. settlePosition dec16 open_pg 1 100 0 sample_scheduler = Some (None, s') \<and>
     equity 7 100 (schEngine s') = equity 7 100 sample_risky - 2 / 5"
proof -
  have p: "map_of (posLive (positionCache (schEngine sample_scheduler))) 1 = Some sample_position" by simp
  have "deref 1 (positionCache (schEngine sample_scheduler)) = Some sample_position"
    using exchange_live(4) [OF _ p] by simp
  then obtain s' where s': "settlePosition dec16 open_pg 1 100 0 sample_scheduler = Some (None, s')"
    using dec16.settlePosition_total [of 1 sample_scheduler sample_position open_pg 100 0] by (auto simp: price_defined_def)
  have "GetBalance 7 (memAccounts sample_risky) = 1000" by (simp add: sample_risky_def sample_engine_def ledger_defs)
  moreover have "posMargin sample_position = 20" by (simp add: posMargin_def sample_position_def NewCachedPosition_def)
  ultimately show ?thesis using funding_counted_twice [OF s' _ p refl, of 7 100] s' by simp
qed

subsection \<open>What a retry leaves behind\<close>

lemma settleInsufficientBalance_rows:
  "settleInsufficientBalance D P pos pay bal q s = Some (er, s') \<Longrightarrow> dbSettlements (schDB s') = dbSettlements (schDB s)"
  by (auto simp: settleInsufficientBalance_def deductBalance_def stmt_defs Let_def withPositions_def withAccounts_def
      split: bind_splits sum.splits if_splits)

lemma settleMemory_rows:
  "settleMemory D P pos pay q s = Some (er, s') \<Longrightarrow> dbSettlements (schDB s') = dbSettlements (schDB s)"
  by (auto simp: settleMemory_def stmt_defs Let_def withPositions_def withAccounts_def
      split: sum.splits if_splits dest: settleInsufficientBalance_rows)

lemma settlePosition_rows:
  assumes "settlePosition D P ptr price now s = Some (er, s')" and "deref ptr (positionCache (schEngine s)) = Some pos"
    and "\<And>r db. \<not> pgRefuses P (InsertSettlement r) db"
  shows "GetTotalFunding (pUserID pos) (schDB s') = GetTotalFunding (pUserID pos) (schDB s) + pgCol P (payment_of price s pos)"
proof -
  have "\<exists>row. dbSettlements (schDB s') = dbSettlements (schDB s) @ [row] \<and> fsUserID row = pUserID pos \<and>
      fsPayment row = pgCol P (payment_of price s pos)"
    using assms
    by (auto simp: settlePosition_def Let_def payment_of_def [symmetric] CreateSettlementTx_def exec_def UpdateFundingPnlTx_def
        update_position_def split: bind_splits sum.splits if_splits option.splits dest!: settleMemory_rows)
  then show ?thesis by (auto simp: GetTotalFunding_def)
qed

lemma settleRetry_rows:
  assumes "div_law D" and "k \<le> n" and "accepts (Ps n)" and "\<And>k. k \<le> n \<Longrightarrow> pgCol (Ps k) = col"
    and "\<And>k r db. k < n \<Longrightarrow> \<not> pgRefuses (Ps k) (InsertSettlement r) db \<and> pgRefuses (Ps k) (UpdatePositionRow (pID pos)) db"
    and "deref ptr (positionCache (schEngine s)) = Some pos" and "pLeverage pos \<noteq> 0" and "price_defined (schMaintRate s)"
  shows "\<exists>s'. settleRetry D Ps k ptr price now s = Some s' \<and>
    GetTotalFunding (pUserID pos) (schDB s') =
      GetTotalFunding (pUserID pos) (schDB s) + of_nat (n + 1 - k) * col (payment_of price s pos)"
  using assms(2,6,8)
proof (induction arbitrary: s rule: inc_induct)
  case base
  then obtain s' where s': "settlePosition D (Ps n) ptr price now s = Some (None, s')"
    using decimal.settlePosition_total [OF decimal.intro [OF assms(1)], of ptr s pos "Ps n" price now] assms(3,7) by auto
  have "\<not> pgRefuses (Ps n) (InsertSettlement r) db" for r db using assms(3) by (simp add: accepts_def)
  from settlePosition_rows [OF s' base(1) this] s' assms(4) [OF le_refl] show ?case
    by (subst settleRetry.simps) simp
next
  case (step k)
  then obtain er s1 where s1: "settlePosition D (Ps k) ptr price now s = Some (er, s1)"
    using decimal.settlePosition_total [OF decimal.intro [OF assms(1)], of ptr s pos "Ps k" price now] assms(7) by auto
  have er: "er \<noteq> None"
    using s1 step(4) assms(5) [OF step(2)]
    by (auto simp: settlePosition_def Let_def CreateSettlementTx_def exec_def UpdateFundingPnlTx_def update_position_def
        split: if_splits)
  have db: "only_db s s1" using s1 er by (auto elim: settlePosition_Some)
  have row: "GetTotalFunding (pUserID pos) (schDB s1) = GetTotalFunding (pUserID pos) (schDB s) + col (payment_of price s pos)"
    using settlePosition_rows [OF s1 step(4)] assms(5) [OF step(2)] assms(4) [of k] step(2) by simp
  note d = only_dbD [OF db]
  from step.IH [of s1] step.prems d obtain s' where s': "settleRetry D Ps (Suc k) ptr price now s1 = Some s'"
    "GetTotalFunding (pUserID pos) (schDB s') =
      GetTotalFunding (pUserID pos) (schDB s1) + of_nat (n + 1 - Suc k) * col (payment_of price s1 pos)" by auto
  have "n + 1 - k = Suc (n + 1 - Suc k)" using step(2) by simp
  then have "of_nat (n + 1 - k) = (of_nat (n + 1 - Suc k) :: dec) + 1" by simp
  with s' row d(2) have "GetTotalFunding (pUserID pos) (schDB s') =
      GetTotalFunding (pUserID pos) (schDB s) + of_nat (n + 1 - k) * col (payment_of price s pos)"
    by (simp add: payment_of_def algebra_simps)
  with s1 er s'(1) show ?case by (subst settleRetry.simps) auto
qed

text \<open>
  C39. The insertion of the settlement row is not undone when a later statement of the same attempt fails:
  after \<open>n\<close> such attempts and a successful one the user's recorded funding has grown by
  \<open>n + 1\<close> payments, while the position was credited one.
\<close>

theorem retry_duplicates_rows:
  assumes "div_law D" and "accepts (Ps n)" and "\<And>k. k \<le> n \<Longrightarrow> pgCol (Ps k) = col"
    and "\<And>k r db. k < n \<Longrightarrow> \<not> pgRefuses (Ps k) (InsertSettlement r) db \<and> pgRefuses (Ps k) (UpdatePositionRow (pID pos)) db"
    and "exchange_ok (schEngine s)" and "map_of (posLive (positionCache (schEngine s))) ptr = Some pos"
    and "price_defined (schMaintRate s)" and "pay = payment_of price s pos"
  shows "\<exists>s'. settleRetry D Ps 0 ptr price now s = Some s' \<and>
    GetTotalFunding (pUserID pos) (schDB s') = GetTotalFunding (pUserID pos) (schDB s) + of_nat (n + 1) * col pay \<and>
    over_positions posFunding (schEngine s') = over_positions posFunding (schEngine s) + pay"
proof -
  note e = exchange_live [OF assms(5,6)]
  have "pLeverage pos \<noteq> 0" using e(2) by (simp add: pos_ok_def)
  from settleRetry_rows [where k = 0 and n = n and Ps = Ps and pos = pos, OF assms(1) _ assms(2,3,4) e(4) this assms(7)] assms(8)
  obtain s'
    where s': "settleRetry D Ps 0 ptr price now s = Some s'"
      "GetTotalFunding (pUserID pos) (schDB s') = GetTotalFunding (pUserID pos) (schDB s) + of_nat (n + 1) * col pay" by auto
  from settleRetry_Some [OF s'(1)] e(4) assms(8) have "settled pos pay s s'" by auto
  from writes_settles [OF settled_writes [OF this] assms(5,6)] s' show ?thesis by (auto simp: settles_one_def)
qed

theorem retry_duplicates_rows_witness:
  "\<exists>s'. settleRetry dec16 (\<lambda>k. if k < 2 then \<lparr>pgCol = (\<lambda>x. x), pgRefuses = (\<lambda>st db. st = UpdatePositionRow 1)\<rparr> else open_pg)
       0 1 100 0 sample_scheduler = Some s' \<and>
     GetTotalFunding 7 (schDB s') = - (3 / 5)"
proof -
  have "GetTotalFunding 7 (schDB sample_scheduler) = 0"
    by (simp add: GetTotalFunding_def sample_scheduler_def SetRate_def NewScheduler_def)
  moreover let ?Ps = "\<lambda>k::nat. if k < 2 then \<lparr>pgCol = (\<lambda>x. x), pgRefuses = (\<lambda>st db. st = UpdatePositionRow 1)\<rparr> else open_pg"
  have "\<exists>s'. settleRetry dec16 ?Ps 0 1 100 0 sample_scheduler = Some s' \<and>
      GetTotalFunding (pUserID sample_position) (schDB s') =
        GetTotalFunding (pUserID sample_position) (schDB sample_scheduler) + of_nat (2 + 1) * - (1 / 5) \<and>
      over_positions posFunding (schEngine s') = over_positions posFunding (schEngine sample_scheduler) + - (1 / 5)"
    by (rule retry_duplicates_rows [OF dec16_law, where n = 2 and col = "\<lambda>x. x"])
      (simp_all add: price_defined_def fun_eq_iff)
  ultimately show ?thesis by auto
qed

subsection \<open>The next settlement time\<close>

definition settle_time :: "int list \<Rightarrow> int \<Rightarrow> bool" where
  "settle_time hours t \<longleftrightarrow> (\<exists>d. \<exists>h \<in> set hours. t = d * dayNs + h * hourNs)"

lemma firstAfter_Some:
  assumes "firstAfter now hs = Some t" and "sorted hs"
  shows "\<exists>h \<in> set hs. t = dateAt now 0 h \<and> now < t \<and> (\<forall>h' \<in> set hs. now < dateAt now 0 h' \<longrightarrow> h \<le> h')"
  using assms by (induction now hs rule: firstAfter.induct) (auto simp: Let_def split: if_splits)

lemma firstAfter_None: "firstAfter now hs = None \<Longrightarrow> h \<in> set hs \<Longrightarrow> dateAt now 0 h \<le> now"
  by (induction now hs rule: firstAfter.induct) (auto simp: Let_def split: if_splits)

lemmas clock_defs = dateAt_def dayNs_def hourNs_def

lemma later_day:
  assumes "0 \<le> h'" "h' < 24" "0 \<le> h" "h < 24" and "q * dayNs \<le> now" and "now < d * dayNs + h' * hourNs" and "d \<noteq> q"
  shows "q * dayNs + h * hourNs \<le> d * dayNs + h' * hourNs"
proof -
  have c: "dayNs = 86400000000000" "hourNs = 3600000000000" by (simp_all add: clock_defs)
  from assms(7) consider "d < q" | "q < d" by linarith
  then show ?thesis using assms(1-6) unfolding c by cases linarith+
qed

lemma tomorrow:
  assumes "q * dayNs + h' * hourNs \<le> now" and "now < d * dayNs + h' * hourNs" and "h \<le> h'"
  shows "q * dayNs + dayNs + h * hourNs \<le> d * dayNs + h' * hourNs"
proof -
  have c: "dayNs = 86400000000000" "hourNs = 3600000000000" by (simp_all add: clock_defs)
  consider "d \<le> q" | "q + 1 \<le> d" by linarith
  then show ?thesis using assms unfolding c by cases linarith+
qed

text \<open>
  With sorted hours of the day configured, the next settlement time is the first settlement time
  after now, and at most a day away.
\<close>

theorem GetNextSettleTime_first:
  assumes "sorted (schHours s)" and "schHours s \<noteq> []" and "\<forall>h \<in> set (schHours s). 0 \<le> h \<and> h < 24"
  shows "\<exists>t. GetNextSettleTime now s = Some t \<and> settle_time (schHours s) t \<and> now < t \<and> t \<le> now + dayNs \<and>
    (\<forall>t'. settle_time (schHours s) t' \<and> now < t' \<longrightarrow> t \<le> t')"
proof (cases "firstAfter now (schHours s)")
  case (Some t)
  from firstAfter_Some [OF this assms(1)] obtain h where h: "h \<in> set (schHours s)" "t = dateAt now 0 h" "now < t"
    and first: "\<And>h'. h' \<in> set (schHours s) \<Longrightarrow> now < dateAt now 0 h' \<Longrightarrow> h \<le> h'" by blast
  have "t \<le> d * dayNs + h' * hourNs" if "h' \<in> set (schHours s)" "now < d * dayNs + h' * hourNs" for d h'
  proof (cases "d = now div dayNs")
    case True
    with that first [of h'] h(2) show ?thesis by (auto simp: clock_defs)
  next
    case False
    have "0 \<le> h'" "h' < 24" "0 \<le> h" "h < 24" using assms(3) h(1) that(1) by auto
    moreover have "now div dayNs * dayNs \<le> now" "now < now div dayNs * dayNs + dayNs" by (simp_all add: clock_defs)
    ultimately show ?thesis using later_day [of h' h "now div dayNs" now d] that(2) False h(2) by (simp add: dateAt_def)
  qed
  moreover have "t \<le> now + dayNs" using h(1,2) assms(3) by (force simp: clock_defs)
  moreover have "settle_time (schHours s) t" using h(1,2) by (auto simp: settle_time_def dateAt_def)
  ultimately show ?thesis using Some h(3) by (auto simp: GetNextSettleTime_def settle_time_def)
next
  case None
  obtain h hs where hs: "schHours s = h # hs" using assms(2) by (cases "schHours s") auto
  let ?t = "dateAt now 1 h"
  have low: "h \<le> h'" if "h' \<in> set (schHours s)" for h' using that assms(1) hs by auto
  have past: "dateAt now 0 h' \<le> now" if "h' \<in> set (schHours s)" for h' using firstAfter_None [OF None that] .
  have "?t \<le> d * dayNs + h' * hourNs" if "h' \<in> set (schHours s)" "now < d * dayNs + h' * hourNs" for d h'
    using tomorrow [of "now div dayNs" h' now d h] that low [OF that(1)] past [OF that(1)] by (simp add: dateAt_def distrib_right)
  moreover have "?t \<le> now + dayNs" using past [of h] hs by (simp add: clock_defs)
  moreover have "now < now div dayNs * dayNs + dayNs" "0 \<le> h * hourNs" using assms(3) hs by (simp_all add: clock_defs)
  then have "now < ?t" by (simp add: dateAt_def distrib_right)
  moreover have "settle_time (schHours s) ?t" using hs by (auto simp: settle_time_def dateAt_def)
  ultimately show ?thesis using None hs by (auto simp: GetNextSettleTime_def settle_time_def)
qed

theorem GetNextSettleTime_first_witness:
  "\<exists>t. GetNextSettleTime (9 * hourNs) sample_scheduler = Some t \<and> 9 * hourNs < t \<and> t \<le> 16 * hourNs"
proof -
  obtain t where t: "GetNextSettleTime (9 * hourNs) sample_scheduler = Some t" "9 * hourNs < t"
    and first: "\<forall>t'. settle_time [0, 8, 16] t' \<and> 9 * hourNs < t' \<longrightarrow> t \<le> t'"
    using GetNextSettleTime_first [of sample_scheduler "9 * hourNs"] by auto
  have "settle_time [0, 8, 16] (16 * hourNs)" unfolding settle_time_def by (rule exI [of _ 0]) simp
  with first have "t \<le> 16 * hourNs" by (simp add: hourNs_def)
  with t show ?thesis by blast
qed

end
