(* ===== verification/Kline.thy ===== *)
theory Kline
  imports Prelude
begin

section \<open>Candlesticks (\<open>internal/engine/pricefeed/kline_aggregator.go\<close>)\<close>

text \<open>
  The hierarchy of candlesticks: ticks make one-second bars, a bar that closes is merged into the bar
  of the next interval, and a tick also updates the current bars of all longer intervals.

  Times are nanoseconds since the epoch; \<open>zone\<close> is the offset from UTC of the location the ticks'
  times carry (fixed, without daylight saving), which only the daily interval depends on. The
  configurations are a constant table, so the aggregator's \<open>configs\<close> is the function \<open>configOf\<close>. A bar
  is not written to once it is cached or closed, so bars are values. The recursion over the
  parents and the gap loop end because the table has no cycle and the base interval is positive:
  both are proved here, by the termination proofs.
\<close>

subsection \<open>Intervals\<close>

definition second :: int where "second = 1000000000"
definition minute :: int where "minute = 60 * second"
definition hour :: int where "hour = 60 * minute"

record interval_config =
  icName :: string
  icDuration :: int
  icMaxCache :: nat
  icPersist :: bool
  icParent :: string

definition mk_interval :: "string \<Rightarrow> int \<Rightarrow> nat \<Rightarrow> bool \<Rightarrow> string \<Rightarrow> interval_config" where
  "mk_interval n d m p par = \<lparr>icName = n, icDuration = d, icMaxCache = m, icPersist = p, icParent = par\<rparr>"

definition Intervals :: "interval_config list" where
  "Intervals =
     [mk_interval ''1s'' second 3600 False ''5s'', mk_interval ''5s'' (5 * second) 720 False ''15s'',
      mk_interval ''15s'' (15 * second) 240 False ''1m'', mk_interval ''1m'' minute 1440 True ''5m'',
      mk_interval ''5m'' (5 * minute) 288 True ''15m'', mk_interval ''15m'' (15 * minute) 192 True ''1h'',
      mk_interval ''1h'' hour 168 True ''4h'', mk_interval ''4h'' (4 * hour) 180 True ''1d'',
      mk_interval ''1d'' (24 * hour) 365 True '''']"

definition configOf :: "string \<Rightarrow> interval_config option" where
  "configOf name = List.find (\<lambda>c. icName c = name) Intervals"

definition baseConfig :: interval_config where
  "baseConfig = the (configOf ''1s'')"

definition truncateToInterval :: "int \<Rightarrow> int \<Rightarrow> int \<Rightarrow> int" where
  "truncateToInterval zone t d =
     (if 24 * hour \<le> d then (t + zone) div (24 * hour) * (24 * hour) - zone else t div d * d)"

text \<open>How far a name is from the end of the table: parents come after their children.\<close>

definition rank :: "string \<Rightarrow> nat" where
  "rank name = length (dropWhile (\<lambda>c. icName c \<noteq> name) Intervals)"

lemma configOf_Some: "configOf n = Some c \<Longrightarrow> icName c = n \<and> c \<in> set Intervals"
  unfolding configOf_def by (auto dest: find_SomeD)

lemma table_ok: "list_all (\<lambda>c. rank (icParent c) < rank (icName c) \<and> 0 < icDuration c \<and> 0 < icMaxCache c) Intervals"
  by code_simp

lemma configOf_rank: "configOf n = Some c \<Longrightarrow> rank (icParent c) < rank n"
  using table_ok configOf_Some [of n c] by (auto simp: list_all_iff)

lemma duration_pos: "configOf n = Some c \<Longrightarrow> 0 < icDuration c"
  using table_ok configOf_Some [of n c] by (auto simp: list_all_iff)

lemma baseConfig_eq: "baseConfig = mk_interval ''1s'' second 3600 False ''5s''"
  by (simp add: baseConfig_def configOf_def Intervals_def mk_interval_def)

subsection \<open>Bars\<close>

record kline_bar =
  kbInterval :: string
  kbOpenTime :: int
  kbOpen :: dec
  kbHigh :: dec
  kbLow :: dec
  kbClose :: dec
  kbVolume :: dec
  kbCloseTime :: int

record aggregator =
  kaCurrent :: "(string \<times> kline_bar) list"
  kaCache :: "(string \<times> kline_bar list) list"
  kaPersisted :: "kline_bar list option"

text \<open>\<open>kaPersisted\<close> collects the calls of the close callback, \<open>None\<close> when there is none.\<close>

definition NewKlineAggregator :: "bool \<Rightarrow> aggregator" where
  "NewKlineAggregator callback =
     \<lparr>kaCurrent = [], kaCache = [], kaPersisted = (if callback then Some [] else None)\<rparr>"

definition setCurrent :: "string \<Rightarrow> kline_bar \<Rightarrow> aggregator \<Rightarrow> aggregator" where
  "setCurrent n bar a = a\<lparr>kaCurrent := AList.update n bar (kaCurrent a)\<rparr>"

definition cachedBars :: "string \<Rightarrow> aggregator \<Rightarrow> kline_bar list" where
  "cachedBars n a = (case map_of (kaCache a) n of None \<Rightarrow> [] | Some bars \<Rightarrow> bars)"

definition cacheBar :: "kline_bar \<Rightarrow> interval_config \<Rightarrow> aggregator \<Rightarrow> aggregator" where
  "cacheBar bar cfg a =
     (let bars = bar # cachedBars (icName cfg) a;
          kept = (if icMaxCache cfg < length bars then take (icMaxCache cfg) bars else bars);
          a1 = a\<lparr>kaCache := AList.update (icName cfg) kept (kaCache a)\<rparr>
      in if icPersist cfg then a1\<lparr>kaPersisted := map_option (\<lambda>closed. closed @ [bar]) (kaPersisted a1)\<rparr> else a1)"

definition closeBarOnly :: "kline_bar \<Rightarrow> interval_config \<Rightarrow> aggregator \<Rightarrow> aggregator" where
  "closeBarOnly = cacheBar"

definition tickBar :: "dec \<Rightarrow> kline_bar \<Rightarrow> kline_bar" where
  "tickBar price bar =
     (let b1 = (if kbHigh bar < price then bar\<lparr>kbHigh := price\<rparr> else bar);
          b2 = (if price < kbLow b1 then b1\<lparr>kbLow := price\<rparr> else b1)
      in b2\<lparr>kbClose := price\<rparr>)"

definition newBar :: "string \<Rightarrow> int \<Rightarrow> int \<Rightarrow> dec \<Rightarrow> dec \<Rightarrow> kline_bar" where
  "newBar n openTime closeTime openPrice price =
     \<lparr>kbInterval = n, kbOpenTime = openTime, kbOpen = openPrice, kbHigh = max openPrice price,
      kbLow = min openPrice price, kbClose = price, kbVolume = 0, kbCloseTime = closeTime\<rparr>"

definition childBar :: "string \<Rightarrow> int \<Rightarrow> int \<Rightarrow> kline_bar \<Rightarrow> kline_bar" where
  "childBar n openTime closeTime bar =
     \<lparr>kbInterval = n, kbOpenTime = openTime, kbOpen = kbOpen bar, kbHigh = kbHigh bar, kbLow = kbLow bar,
      kbClose = kbClose bar, kbVolume = kbVolume bar, kbCloseTime = closeTime\<rparr>"

definition mergeChild :: "kline_bar \<Rightarrow> kline_bar \<Rightarrow> kline_bar" where
  "mergeChild bar parentBar =
     (let p1 = (if kbHigh parentBar < kbHigh bar then parentBar\<lparr>kbHigh := kbHigh bar\<rparr> else parentBar);
          p2 = (if kbLow bar < kbLow p1 then p1\<lparr>kbLow := kbLow bar\<rparr> else p1)
      in p2\<lparr>kbClose := kbClose bar, kbVolume := kbVolume p2 + kbVolume bar\<rparr>)"

subsection \<open>Closing bars\<close>

function closeAndCascade :: "int \<Rightarrow> kline_bar \<Rightarrow> interval_config \<Rightarrow> aggregator \<Rightarrow> aggregator" where
  "closeAndCascade zone bar cfg a =
     (let a1 = cacheBar bar cfg a
      in if icParent cfg = '''' then a1
         else case configOf (icParent cfg) of
             None \<Rightarrow> a1
           | Some parentCfg \<Rightarrow>
               let openTime = truncateToInterval zone (kbOpenTime bar) (icDuration parentCfg);
                   fresh = childBar (icParent cfg) openTime (openTime + icDuration parentCfg) bar
               in case map_of (kaCurrent a1) (icParent cfg) of
                   None \<Rightarrow> setCurrent (icParent cfg) fresh a1
                 | Some parentBar \<Rightarrow>
                     if kbOpenTime parentBar \<noteq> openTime
                     then setCurrent (icParent cfg) fresh (closeAndCascade zone parentBar parentCfg a1)
                     else setCurrent (icParent cfg) (mergeChild bar parentBar) a1)"
  by pat_completeness auto
termination
  by (relation "measure (\<lambda>(zone, bar, cfg, a). rank (icParent cfg))") (auto dest: configOf_rank)

subsection \<open>A tick\<close>

text \<open>At most a minute of missing seconds is filled with flat bars.\<close>

function fillGaps :: "int \<Rightarrow> dec \<Rightarrow> int \<Rightarrow> int \<Rightarrow> aggregator \<Rightarrow> aggregator" where
  "fillGaps zone lastClose gapStart openTime a =
     (if gapStart < openTime \<and> openTime - gapStart \<le> 60 * second then
        let gapEnd = gapStart + icDuration baseConfig;
            flatBar = newBar ''1s'' gapStart gapEnd lastClose lastClose
        in fillGaps zone lastClose gapEnd openTime (closeAndCascade zone flatBar baseConfig a)
      else a)"
  by pat_completeness auto
termination
  by (relation "measure (\<lambda>(zone, lastClose, gapStart, openTime, a). nat (openTime - gapStart))")
    (auto simp: baseConfig_eq mk_interval_def second_def)

definition updateBase :: "int \<Rightarrow> dec \<Rightarrow> int \<Rightarrow> aggregator \<Rightarrow> aggregator" where
  "updateBase zone price ts a =
     (let cfg = baseConfig;
          openTime = truncateToInterval zone ts (icDuration cfg);
          closeTime = openTime + icDuration cfg
      in case map_of (kaCurrent a) ''1s'' of
          None \<Rightarrow> setCurrent ''1s'' (newBar ''1s'' openTime closeTime price price) a
        | Some bar \<Rightarrow>
            if kbOpenTime bar \<noteq> openTime then
              let a1 = closeAndCascade zone bar cfg a;
                  a2 = fillGaps zone (kbClose bar) (kbOpenTime bar + icDuration cfg) openTime a1
              in setCurrent ''1s'' (newBar ''1s'' openTime closeTime (kbClose bar) price) a2
            else setCurrent ''1s'' (tickBar price bar) a)"

definition updateAncestor :: "int \<Rightarrow> dec \<Rightarrow> int \<Rightarrow> string \<Rightarrow> interval_config \<Rightarrow> aggregator \<Rightarrow> aggregator" where
  "updateAncestor zone price ts parentName cfg a =
     (let openTime = truncateToInterval zone ts (icDuration cfg);
          closeTime = openTime + icDuration cfg
      in case map_of (kaCurrent a) parentName of
          None \<Rightarrow> setCurrent parentName (newBar parentName openTime closeTime price price) a
        | Some bar \<Rightarrow>
            if kbOpenTime bar \<noteq> openTime
            then setCurrent parentName (newBar parentName openTime closeTime (kbClose bar) price) (closeBarOnly bar cfg a)
            else setCurrent parentName (tickBar price bar) a)"

function ancestorsFrom :: "int \<Rightarrow> dec \<Rightarrow> int \<Rightarrow> string \<Rightarrow> aggregator \<Rightarrow> aggregator" where
  "ancestorsFrom zone price ts parentName a =
     (if parentName = '''' then a
      else case configOf parentName of
          None \<Rightarrow> a
        | Some cfg \<Rightarrow> ancestorsFrom zone price ts (icParent cfg) (updateAncestor zone price ts parentName cfg a))"
  by pat_completeness auto
termination
  by (relation "measure (\<lambda>(zone, price, ts, parentName, a). rank parentName)") (auto dest: configOf_rank)

definition updateAncestors :: "int \<Rightarrow> dec \<Rightarrow> int \<Rightarrow> aggregator \<Rightarrow> aggregator" where
  "updateAncestors zone price ts a = ancestorsFrom zone price ts (icParent baseConfig) a"

definition OnTrade :: "int \<Rightarrow> dec \<Rightarrow> int \<Rightarrow> aggregator \<Rightarrow> aggregator" where
  "OnTrade zone price ts a = updateAncestors zone price ts (updateBase zone price ts a)"

subsection \<open>Queries\<close>

definition GetCurrentBar :: "string \<Rightarrow> aggregator \<Rightarrow> kline_bar option" where
  "GetCurrentBar n a = map_of (kaCurrent a) n"

definition GetCachedKlines :: "string \<Rightarrow> int \<Rightarrow> aggregator \<Rightarrow> kline_bar list" where
  "GetCachedKlines n limit a =
     (let bars = cachedBars n a
      in case map_of (kaCurrent a) n of
          Some current \<Rightarrow>
            let result = current # bars
            in if 0 < limit \<and> limit < int (length result) then take (nat limit) result else result
        | None \<Rightarrow> if 0 < limit \<and> limit < int (length bars) then take (nat limit) bars else bars)"

declare closeAndCascade.simps [simp del] fillGaps.simps [simp del] ancestorsFrom.simps [simp del]

end
