(* ===== verification/Kline_Props.thy ===== *)
theory Kline_Props
  imports Kline
begin

section \<open>Candlesticks: what the aggregator promises\<close>

text \<open>
  Every bar, current, cached or passed to the close callback, is aligned to its interval and consistent
  in its prices, none of which leaves the range of the ticks; a tick is shown by the current bars of
  all intervals.
\<close>

subsection \<open>Well-formed bars\<close>

definition bar_ok :: "int \<Rightarrow> dec \<Rightarrow> dec \<Rightarrow> string \<Rightarrow> kline_bar \<Rightarrow> bool" where
  "bar_ok zone lo hi n b \<longleftrightarrow>
     kbInterval b = n \<and>
     (\<exists>c. configOf n = Some c \<and> truncateToInterval zone (kbOpenTime b) (icDuration c) = kbOpenTime b \<and>
        kbCloseTime b = kbOpenTime b + icDuration c) \<and>
     lo \<le> kbLow b \<and> kbLow b \<le> kbOpen b \<and> kbLow b \<le> kbClose b \<and>
     kbOpen b \<le> kbHigh b \<and> kbClose b \<le> kbHigh b \<and> kbHigh b \<le> hi"

definition klines_ok :: "int \<Rightarrow> dec \<Rightarrow> dec \<Rightarrow> aggregator \<Rightarrow> bool" where
  "klines_ok zone lo hi a \<longleftrightarrow>
     (\<forall>n b. map_of (kaCurrent a) n = Some b \<longrightarrow> bar_ok zone lo hi n b) \<and>
     (\<forall>n. \<forall>b \<in> set (cachedBars n a). bar_ok zone lo hi n b) \<and>
     (\<forall>n c. configOf n = Some c \<longrightarrow> length (cachedBars n a) \<le> icMaxCache c) \<and>
     (\<forall>bars. kaPersisted a = Some bars \<longrightarrow>
        (\<forall>b \<in> set bars. bar_ok zone lo hi (kbInterval b) b \<and> (\<exists>c. configOf (kbInterval b) = Some c \<and> icPersist c)))"

lemma truncate_idem: "0 < d \<Longrightarrow> truncateToInterval zone (truncateToInterval zone t d) d = truncateToInterval zone t d"
  by (simp add: truncateToInterval_def hour_def minute_def second_def)

lemma klines_new: "klines_ok zone lo hi (NewKlineAggregator callback)"
  by (simp add: klines_ok_def NewKlineAggregator_def cachedBars_def)

lemma bar_ok_tick: "bar_ok zone lo hi n b \<Longrightarrow> lo \<le> p \<Longrightarrow> p \<le> hi \<Longrightarrow> bar_ok zone lo hi n (tickBar p b)"
  by (auto simp: bar_ok_def tickBar_def Let_def)

lemma bar_ok_new:
  assumes "configOf n = Some c" and "truncateToInterval zone t (icDuration c) = t"
    and "lo \<le> op" "op \<le> hi" and "lo \<le> p" "p \<le> hi"
  shows "bar_ok zone lo hi n (newBar n t (t + icDuration c) op p)"
  using assms by (auto simp: bar_ok_def newBar_def)

lemma bar_ok_child:
  assumes "configOf n = Some c" and "truncateToInterval zone t (icDuration c) = t" and "bar_ok zone lo hi m b"
  shows "bar_ok zone lo hi n (childBar n t (t + icDuration c) b)"
  using assms by (auto simp: bar_ok_def childBar_def)

lemma bar_ok_merge: "bar_ok zone lo hi m b \<Longrightarrow> bar_ok zone lo hi n par \<Longrightarrow> bar_ok zone lo hi n (mergeChild b par)"
  by (auto simp: bar_ok_def mergeChild_def Let_def)

lemma bar_ok_range: "bar_ok zone lo hi n b \<Longrightarrow> lo \<le> kbClose b \<and> kbClose b \<le> hi"
  by (auto simp: bar_ok_def)

subsection \<open>The operations keep them\<close>

lemma current_simps [simp]:
  "kaCurrent (cacheBar b c a) = kaCurrent a" "kaCurrent (closeBarOnly b c a) = kaCurrent a"
  "map_of (kaCurrent (setCurrent n b a)) = (map_of (kaCurrent a))(n \<mapsto> b)"
  by (simp_all add: cacheBar_def closeBarOnly_def setCurrent_def Let_def)

lemma klines_setCurrent: "klines_ok zone lo hi a \<Longrightarrow> bar_ok zone lo hi n b \<Longrightarrow> klines_ok zone lo hi (setCurrent n b a)"
  by (auto simp: klines_ok_def setCurrent_def cachedBars_def)

lemma cachedBars_cacheBar:
  "cachedBars m (cacheBar b c a) = (if m = icName c then take (icMaxCache c) (b # cachedBars (icName c) a) else cachedBars m a)"
  by (simp add: cacheBar_def cachedBars_def Let_def)

lemma klines_cacheBar:
  assumes "klines_ok zone lo hi a" and "bar_ok zone lo hi n b" and "configOf n = Some c"
  shows "klines_ok zone lo hi (cacheBar b c a)"
proof -
  have n: "icName c = n" and i: "kbInterval b = n" using assms configOf_Some by (auto simp: bar_ok_def)
  have "\<forall>m. \<forall>b' \<in> set (cachedBars m (cacheBar b c a)). bar_ok zone lo hi m b'"
    using assms(1,2) n by (auto simp: cachedBars_cacheBar klines_ok_def dest!: in_set_takeD split: if_splits)
  moreover have "\<forall>m c'. configOf m = Some c' \<longrightarrow> length (cachedBars m (cacheBar b c a)) \<le> icMaxCache c'"
    using assms(1,3) n by (auto simp: cachedBars_cacheBar klines_ok_def)
  moreover have "\<forall>bars. kaPersisted (cacheBar b c a) = Some bars \<longrightarrow>
      (\<forall>b \<in> set bars. bar_ok zone lo hi (kbInterval b) b \<and> (\<exists>c. configOf (kbInterval b) = Some c \<and> icPersist c))"
    using assms i by (auto simp: cacheBar_def Let_def klines_ok_def)
  ultimately show ?thesis using assms(1) by (simp add: klines_ok_def)
qed

lemma klines_closeAndCascade:
  "klines_ok zone lo hi a \<Longrightarrow> bar_ok zone lo hi n bar \<Longrightarrow> configOf n = Some cfg \<Longrightarrow>
   klines_ok zone lo hi (closeAndCascade zone bar cfg a)"
proof (induction zone bar cfg a arbitrary: n rule: closeAndCascade.induct)
  case (1 zone bar cfg a)
  let ?a1 = "cacheBar bar cfg a"
  have a1: "klines_ok zone lo hi ?a1" by (rule klines_cacheBar [OF 1(2,3,4)])
  show ?case
  proof (cases "icParent cfg = '''' \<or> configOf (icParent cfg) = None")
    case True
    with a1 show ?thesis by (subst closeAndCascade.simps) (auto simp: Let_def)
  next
    case False
    then obtain pcfg where p: "icParent cfg \<noteq> ''''" "configOf (icParent cfg) = Some pcfg" by auto
    let ?t = "truncateToInterval zone (kbOpenTime bar) (icDuration pcfg)"
    have "bar_ok zone lo hi (icParent cfg) (childBar (icParent cfg) ?t (?t + icDuration pcfg) bar)"
      by (rule bar_ok_child [OF p(2) _ 1(3)]) (rule truncate_idem [OF duration_pos [OF p(2)]])
    note fresh = klines_setCurrent [OF _ this]
    show ?thesis
    proof (cases "map_of (kaCurrent ?a1) (icParent cfg)")
      case None
      with p fresh [OF a1] show ?thesis by (subst closeAndCascade.simps) (simp add: Let_def)
    next
      case (Some par)
      then have par: "bar_ok zone lo hi (icParent cfg) par" using a1 by (simp add: klines_ok_def)
      show ?thesis
      proof (cases "kbOpenTime par = ?t")
        case True
        with Some p klines_setCurrent [OF a1 bar_ok_merge [OF 1(3) par]] show ?thesis
          by (subst closeAndCascade.simps) (simp add: Let_def)
      next
        case False
        have "klines_ok zone lo hi (closeAndCascade zone par pcfg ?a1)"
          using 1(1) [OF refl p refl refl Some False a1 par p(2)] .
        with Some p False fresh show ?thesis by (subst closeAndCascade.simps) (simp add: Let_def)
      qed
    qed
  qed
qed

lemma base_config [simp]: "configOf ''1s'' = Some baseConfig" "icDuration baseConfig = second"
  by (simp_all add: baseConfig_eq configOf_def Intervals_def mk_interval_def)

lemma truncate_second: "truncateToInterval zone t second = t div second * second"
  by (simp add: truncateToInterval_def hour_def minute_def second_def)

lemma next_second: "truncateToInterval zone t second = t \<Longrightarrow> truncateToInterval zone (t + second) second = t + second"
proof -
  assume "truncateToInterval zone t second = t"
  moreover have "(t + second) div second = t div second + 1" by (simp add: second_def)
  ultimately show ?thesis by (simp add: truncate_second distrib_right)
qed

lemma klines_fillGaps:
  assumes "klines_ok zone lo hi a" and "lo \<le> p" "p \<le> hi" and "truncateToInterval zone t second = t"
  shows "klines_ok zone lo hi (fillGaps zone p t u a)"
  using assms
proof (induction zone p t u a rule: fillGaps.induct)
  case (1 zone p t u a)
  have "bar_ok zone lo hi ''1s'' (newBar ''1s'' t (t + icDuration baseConfig) p p)"
    by (rule bar_ok_new [OF base_config(1)]) (use 1 in simp_all)
  from klines_closeAndCascade [OF 1(2) this base_config(1)] 1 next_second show ?case
    by (subst fillGaps.simps) (auto simp: Let_def)
qed

lemma klines_updateBase:
  assumes "klines_ok zone lo hi a" and "lo \<le> p" "p \<le> hi"
  shows "klines_ok zone lo hi (updateBase zone p t a)"
proof -
  let ?o = "truncateToInterval zone t second"
  have o: "truncateToInterval zone ?o second = ?o" by (rule truncate_idem) (simp add: second_def)
  have new: "bar_ok zone lo hi ''1s'' (newBar ''1s'' ?o (?o + second) q p)" if "lo \<le> q" "q \<le> hi" for q
    using bar_ok_new [OF base_config(1), of zone ?o lo q hi p] that assms(2,3) o by simp
  show ?thesis
  proof (cases "map_of (kaCurrent a) ''1s''")
    case None
    with klines_setCurrent [OF assms(1) new [OF assms(2,3)]] show ?thesis by (simp add: updateBase_def Let_def)
  next
    case (Some bar)
    then have b: "bar_ok zone lo hi ''1s'' bar" using assms(1) by (simp add: klines_ok_def)
    then have at: "truncateToInterval zone (kbOpenTime bar) second = kbOpenTime bar" by (simp add: bar_ok_def)
    have "klines_ok zone lo hi (fillGaps zone (kbClose bar) (kbOpenTime bar + second) ?o (closeAndCascade zone bar baseConfig a))"
      using klines_fillGaps [OF klines_closeAndCascade [OF assms(1) b base_config(1)] _ _ next_second [OF at]] bar_ok_range [OF b] by simp
    from klines_setCurrent [OF this new] bar_ok_range [OF b] klines_setCurrent [OF assms(1) bar_ok_tick [OF b assms(2,3)]] Some
    show ?thesis by (simp add: updateBase_def Let_def)
  qed
qed

lemma klines_updateAncestor:
  assumes "klines_ok zone lo hi a" and "lo \<le> p" "p \<le> hi" and "configOf n = Some c"
  shows "klines_ok zone lo hi (updateAncestor zone p t n c a)"
proof -
  let ?o = "truncateToInterval zone t (icDuration c)"
  have new: "bar_ok zone lo hi n (newBar n ?o (?o + icDuration c) q p)" if "lo \<le> q" "q \<le> hi" for q
    using bar_ok_new [OF assms(4) truncate_idem [OF duration_pos [OF assms(4)]]] that assms(2,3) by blast
  show ?thesis
  proof (cases "map_of (kaCurrent a) n")
    case None
    with klines_setCurrent [OF assms(1) new [OF assms(2,3)]] show ?thesis by (simp add: updateAncestor_def Let_def)
  next
    case (Some bar)
    then have b: "bar_ok zone lo hi n bar" using assms(1) by (simp add: klines_ok_def)
    from klines_setCurrent [OF klines_cacheBar [OF assms(1) b assms(4)] new] bar_ok_range [OF b]
      klines_setCurrent [OF assms(1) bar_ok_tick [OF b assms(2,3)]] Some
    show ?thesis by (simp add: updateAncestor_def closeBarOnly_def Let_def)
  qed
qed

lemma klines_ancestorsFrom:
  "klines_ok zone lo hi a \<Longrightarrow> lo \<le> p \<Longrightarrow> p \<le> hi \<Longrightarrow> klines_ok zone lo hi (ancestorsFrom zone p t n a)"
proof (induction zone p t n a rule: ancestorsFrom.induct)
  case (1 zone p t n a)
  then show ?case using klines_updateAncestor [OF 1(2,3,4)]
    by (subst ancestorsFrom.simps) (auto split: option.split)
qed

lemma klines_OnTrade: "klines_ok zone lo hi a \<Longrightarrow> lo \<le> p \<Longrightarrow> p \<le> hi \<Longrightarrow> klines_ok zone lo hi (OnTrade zone p t a)"
  by (simp add: OnTrade_def updateAncestors_def klines_ancestorsFrom klines_updateBase)

subsection \<open>What a tick shows\<close>

definition shows_tick :: "int \<Rightarrow> dec \<Rightarrow> int \<Rightarrow> interval_config \<Rightarrow> kline_bar option \<Rightarrow> bool" where
  "shows_tick zone p t c cur \<longleftrightarrow>
     (\<exists>b. cur = Some b \<and> kbClose b = p \<and> kbLow b \<le> p \<and> p \<le> kbHigh b \<and>
        kbOpenTime b = truncateToInterval zone t (icDuration c))"

lemma updateAncestor_current:
  "shows_tick zone p t c (map_of (kaCurrent (updateAncestor zone p t n c a)) n)"
  "m \<noteq> n \<Longrightarrow> map_of (kaCurrent (updateAncestor zone p t n c a)) m = map_of (kaCurrent a) m"
  by (auto simp: updateAncestor_def shows_tick_def newBar_def tickBar_def Let_def split: option.split)

lemma updateBase_current: "shows_tick zone p t baseConfig (map_of (kaCurrent (updateBase zone p t a)) ''1s'')"
  by (auto simp: updateBase_def shows_tick_def newBar_def tickBar_def Let_def split: option.split)

text \<open>The walk over the parents visits every name it reaches and leaves the others alone.\<close>

lemma ancestors_unchanged:
  "rank n < rank m \<Longrightarrow> map_of (kaCurrent (ancestorsFrom zone p t n a)) m = map_of (kaCurrent a) m"
proof (induction zone p t n a rule: ancestorsFrom.induct)
  case (1 zone p t n a)
  show ?case
  proof (cases "n = '''' \<or> configOf n = None")
    case True
    then show ?thesis by (subst ancestorsFrom.simps) auto
  next
    case False
    then obtain c where c: "n \<noteq> ''''" "configOf n = Some c" by auto
    have "rank (icParent c) < rank m" using configOf_rank [OF c(2)] 1(2) by simp
    moreover have "m \<noteq> n" using 1(2) by auto
    ultimately show ?thesis using 1(1) [OF c] c
      by (subst ancestorsFrom.simps) (auto simp: updateAncestor_current(2))
  qed
qed

inductive reaches :: "string \<Rightarrow> string \<Rightarrow> bool" where
  here: "reaches n n"
| up: "configOf n = Some c \<Longrightarrow> n \<noteq> '''' \<Longrightarrow> reaches (icParent c) m \<Longrightarrow> reaches n m"

lemma ancestors_show:
  "reaches n m \<Longrightarrow> m \<noteq> '''' \<Longrightarrow> configOf m = Some c \<Longrightarrow> shows_tick zone p t c (map_of (kaCurrent (ancestorsFrom zone p t n a)) m)"
proof (induction arbitrary: a rule: reaches.induct)
  case (here n)
  have "map_of (kaCurrent (ancestorsFrom zone p t (icParent c) (updateAncestor zone p t n c a))) n =
      map_of (kaCurrent (updateAncestor zone p t n c a)) n"
    by (rule ancestors_unchanged) (rule configOf_rank [OF here(2)])
  with here show ?case
    by (subst ancestorsFrom.simps) (simp add: updateAncestor_current(1))
next
  case (up n c' m)
  then show ?case by (subst ancestorsFrom.simps) simp
qed

text \<open>From the base interval every other one is reached.\<close>

definition up_from :: "string \<Rightarrow> string" where
  "up_from n = icParent (the (configOf n))"

lemma reaches_step: "configOf n \<noteq> None \<Longrightarrow> n \<noteq> '''' \<Longrightarrow> up_from n = m \<Longrightarrow> reaches m k \<Longrightarrow> reaches n k"
  by (auto simp: up_from_def intro: reaches.up)

lemma table_parents:
  "list_all (\<lambda>(n, m). configOf n \<noteq> None \<and> n \<noteq> '''' \<and> up_from n = m)
     [(''5s'', ''15s''), (''15s'', ''1m''), (''1m'', ''5m''), (''5m'', ''15m''), (''15m'', ''1h''), (''1h'', ''4h''), (''4h'', ''1d'')]"
  by code_simp

lemma table_reaches:
  assumes "configOf n = Some c"
  shows "n \<noteq> ''''" and "n = ''1s'' \<or> reaches ''5s'' n"
proof -
  have "n \<in> set (map icName Intervals)" using configOf_Some [OF assms] by auto
  then have n: "n \<in> {''1s'', ''5s'', ''15s'', ''1m'', ''5m'', ''15m'', ''1h'', ''4h'', ''1d''}"
    by (simp add: Intervals_def mk_interval_def)
  then show "n \<noteq> ''''" by auto
  have up: "reaches ''4h'' k" if "reaches ''1d'' k" for k using that table_parents by (auto intro: reaches_step)
  have up1: "reaches ''1h'' k" if "reaches ''4h'' k" for k using that table_parents by (auto intro: reaches_step)
  have up2: "reaches ''15m'' k" if "reaches ''1h'' k" for k using that table_parents by (auto intro: reaches_step)
  have up3: "reaches ''5m'' k" if "reaches ''15m'' k" for k using that table_parents by (auto intro: reaches_step)
  have up4: "reaches ''1m'' k" if "reaches ''5m'' k" for k using that table_parents by (auto intro: reaches_step)
  have up5: "reaches ''15s'' k" if "reaches ''1m'' k" for k using that table_parents by (auto intro: reaches_step)
  have up6: "reaches ''5s'' k" if "reaches ''15s'' k" for k using that table_parents by (auto intro: reaches_step)
  show "n = ''1s'' \<or> reaches ''5s'' n"
    using n reaches.here up up1 up2 up3 up4 up5 up6 by blast
qed

lemma OnTrade_shows:
  assumes "configOf n = Some c"
  shows "shows_tick zone p t c (GetCurrentBar n (OnTrade zone p t a))"
proof (cases "n = ''1s''")
  case True
  have "rank ''5s'' < rank ''1s''" by code_simp
  moreover have "icParent baseConfig = ''5s''" by (simp add: baseConfig_eq mk_interval_def)
  moreover have "c = baseConfig" using assms True base_config by simp
  ultimately show ?thesis using True updateBase_current
    by (simp add: GetCurrentBar_def OnTrade_def updateAncestors_def ancestors_unchanged)
next
  case False
  then have "reaches ''5s'' n" using table_reaches(2) [OF assms] by simp
  moreover have "icParent baseConfig = ''5s''" by (simp add: baseConfig_eq mk_interval_def)
  ultimately show ?thesis using ancestors_show [OF _ table_reaches(1) [OF assms] assms]
    by (simp add: GetCurrentBar_def OnTrade_def updateAncestors_def)
qed

subsection \<open>Properties\<close>

fun OnTrades :: "int \<Rightarrow> (dec \<times> int) list \<Rightarrow> aggregator \<Rightarrow> aggregator" where
  "OnTrades zone [] a = a"
| "OnTrades zone ((p, t) # ticks) a = OnTrades zone ticks (OnTrade zone p t a)"

lemma klines_OnTrades:
  "klines_ok zone lo hi a \<Longrightarrow> \<forall>(p, t) \<in> set ticks. lo \<le> p \<and> p \<le> hi \<Longrightarrow> klines_ok zone lo hi (OnTrades zone ticks a)"
  by (induction zone ticks a rule: OnTrades.induct) (auto intro: klines_OnTrade)

text \<open>
  C40. Whatever ticks arrive, in whatever order of time and with whatever gaps, every bar of the
  aggregator (current, cached or passed to the close callback) is aligned to its interval, has its low
  below and its high above its open and close, and contains no price outside the range of the
  ticks; no cache grows beyond its limit, and only bars of the persistent intervals are passed on.
\<close>

theorem OnTrades_klines_ok:
  assumes "\<forall>(p, t) \<in> set ticks. lo \<le> p \<and> p \<le> hi"
  shows "klines_ok zone lo hi (OnTrades zone ticks (NewKlineAggregator callback))"
  by (rule klines_OnTrades [OF klines_new assms])

theorem OnTrades_klines_ok_witness:
  "klines_ok 0 99 102 (OnTrades 0 [(100, 0), (102, 4 * second), (99, 70 * second)] (NewKlineAggregator True))"
  by (rule OnTrades_klines_ok) simp

text \<open>
  After a tick the current bar of every configured interval is the bar of the period the tick falls
  into, closes at the tick's price and contains it between its low and high, whatever happened before.
\<close>

theorem OnTrade_visible:
  assumes "configOf n = Some c"
  shows "\<exists>b. GetCurrentBar n (OnTrade zone p t a) = Some b \<and> kbClose b = p \<and> kbLow b \<le> p \<and> p \<le> kbHigh b \<and>
    kbOpenTime b = truncateToInterval zone t (icDuration c)"
  using OnTrade_shows [OF assms] by (simp add: shows_tick_def)

theorem OnTrade_visible_witness:
  "\<exists>b. GetCurrentBar ''1s'' (OnTrade 0 101 (7 * second) (NewKlineAggregator True)) = Some b \<and> kbClose b = 101 \<and>
     kbOpenTime b = 7 * second"
  using OnTrade_visible [OF base_config(1), of 0 101 "7 * second" "NewKlineAggregator True"]
  by (auto simp: truncateToInterval_def hour_def minute_def second_def)

end
