(* ===== verification/Market_Maker.thy ===== *)
theory Market_Maker
  imports Liquidation
begin

section \<open>The market maker (\<open>internal/engine/marketmaker/bot.go\<close>)\<close>

text \<open>
  The bot quotes a ladder of limit orders around the current price and replaces it when the price has
  moved enough. It shares the engine's book and price cache. The trades its orders make are
  handed, after the ladder is placed, to the callback the service installs
  (\<open>internal/svc/service_context.go\<close>), a parameter here and modelled below as \<open>mmTrades\<close>. The
  configured floating-point numbers are given as the decimals \<open>decimal.NewFromFloat\<close> makes of
  them; for a number of basis points \<open>n\<close>, \<open>float64(n)/10000\<close> becomes \<open>n / 10000\<close>.
\<close>

subsection \<open>State\<close>

abbreviation (input) SystemUserID :: int where "SystemUserID \<equiv> 0"

record mm_config =
  cfgSpreadBps :: int
  cfgLevels :: int
  cfgBaseQty :: dec
  cfgQtyMultiplier :: dec
  cfgRefreshMs :: int
  cfgMoveThreshBps :: int

definition DefaultConfig :: mm_config where
  "DefaultConfig = \<lparr>cfgSpreadBps = 5, cfgLevels = 10, cfgBaseQty = 1 / 2, cfgQtyMultiplier = 13 / 10,
     cfgRefreshMs = 500, cfgMoveThreshBps = 3\<rparr>"

record bot =
  botCfg :: mm_config
  botLastQuote :: dec
  botActive :: "int list"
  botDone :: bool

definition NewBot :: "mm_config \<Rightarrow> bot" where
  "NewBot cfg =
     (let cfg' = (if cfgSpreadBps cfg = 0 then DefaultConfig else cfg)
      in \<lparr>botCfg = cfg', botLastQuote = 0, botActive = [], botDone = False\<rparr>)"

definition StopBot :: "bot \<Rightarrow> bot option" where
  "StopBot b = (if botDone b then None else Some (b\<lparr>botDone := True\<rparr>))"

subsection \<open>A tick\<close>

type_synonym trade_callback = "ob_trade list \<Rightarrow> int \<Rightarrow> int \<Rightarrow> engine \<Rightarrow> engine option"

definition bps :: "int \<Rightarrow> dec" where
  "bps n = of_int n / 10000"

text \<open>Whether the price has moved enough to quote again.\<close>

definition priceMoved :: "decimal_lib \<Rightarrow> bot \<Rightarrow> dec \<Rightarrow> bool option" where
  "priceMoved D b refPrice =
     (if botLastQuote b = 0 then Some True
      else do {
        moveRatio \<leftarrow> Div D \<bar>refPrice - botLastQuote b\<bar> (botLastQuote b);
        Some (\<not> moveRatio < bps (cfgMoveThreshBps (botCfg b)))
      })"

fun cancelAll :: "int list \<Rightarrow> book \<Rightarrow> book" where
  "cancelAll [] bk = bk"
| "cancelAll (i # ids) bk = cancelAll ids (snd (Cancel i bk))"

text \<open>The ladder under construction: the book, the IDs placed, the trades to hand on.\<close>

type_synonym ladder = "book \<times> int list \<times> (ob_trade list \<times> int) list"

fun quoteOne :: "dec \<Rightarrow> dec \<Rightarrow> int \<Rightarrow> ladder \<Rightarrow> ladder" where
  "quoteOne price qty side (bk, active, pending) =
     (let (i, bk1) = NextOrderID bk;
          ((trades, rest), bk2) = PlaceLimit \<lparr>oID = i, oUserID = SystemUserID, oSide = side, oPrice = price,
             oQuantity = qty, oIsMaker = False\<rparr> bk1
      in (bk2, active @ [i], if 0 < length trades then pending @ [(trades, side)] else pending))"

definition quoteLevel :: "decimal_lib \<Rightarrow> mm_config \<Rightarrow> dec \<Rightarrow> int \<Rightarrow> ladder \<Rightarrow> ladder" where
  "quoteLevel D cfg refPrice i st =
     (let halfSpread = bps (cfgSpreadBps cfg);
          levelStep = halfSpread;
          offset = halfSpread + levelStep * of_int i;
          qty = cfgBaseQty cfg * Pow D (cfgQtyMultiplier cfg) (of_int i);
          bidPrice = Round D 2 (refPrice * (1 - offset));
          st1 = quoteOne bidPrice (Round D 8 qty) 1 st;
          askPrice = Round D 2 (refPrice * (1 + offset))
      in quoteOne askPrice (Round D 8 qty) (- 1) st1)"

fun quoteLevels :: "decimal_lib \<Rightarrow> mm_config \<Rightarrow> dec \<Rightarrow> int list \<Rightarrow> ladder \<Rightarrow> ladder" where
  "quoteLevels D cfg refPrice [] st = st"
| "quoteLevels D cfg refPrice (i # levels) st = quoteLevels D cfg refPrice levels (quoteLevel D cfg refPrice i st)"

fun handOn :: "trade_callback \<Rightarrow> (ob_trade list \<times> int) list \<Rightarrow> engine \<Rightarrow> engine option" where
  "handOn onTrades [] e = Some e"
| "handOn onTrades ((trades, side) # pending) e =
     do { e' \<leftarrow> onTrades trades SystemUserID side e; handOn onTrades pending e' }"

definition mmTick :: "decimal_lib \<Rightarrow> trade_callback option \<Rightarrow> bot \<Rightarrow> engine \<Rightarrow> (bot \<times> engine) option" where
  "mmTick D onTrades b e =
     (let refPrice = GetPrice (priceCache e)
      in if refPrice = 0 then Some (b, e)
         else do {
           moved \<leftarrow> priceMoved D b refPrice;
           (if \<not> moved then Some (b, e)
            else
              let bk1 = cancelAll (botActive b) (ebook e);
                  (bk2, active, pending) = quoteLevels D (botCfg b) refPrice (map int [0..<nat (cfgLevels (botCfg b))]) (bk1, [], []);
                  b' = b\<lparr>botActive := active, botLastQuote := refPrice\<rparr>;
                  e1 = e\<lparr>ebook := bk2\<rparr>
              in case onTrades of
                  None \<Rightarrow> Some (b', e1)
                | Some cb \<Rightarrow> map_option (Pair b') (handOn cb pending e1))
         })"

datatype mm_event = MmTick | MmDone

fun runBot :: "decimal_lib \<Rightarrow> trade_callback option \<Rightarrow> mm_event list \<Rightarrow> bot \<Rightarrow> engine \<Rightarrow> (bot \<times> engine) option" where
  "runBot D cb [] b e = Some (b, e)"
| "runBot D cb (MmTick # evs) b e = do { r \<leftarrow> mmTick D cb b e; runBot D cb evs (fst r) (snd r) }"
| "runBot D cb (MmDone # evs) b e = Some (b, e)"

text \<open>The service's callback: the bot took the resting orders, so it is the taker of the trades.\<close>

definition mmTrades :: "decimal_lib \<Rightarrow> trade_callback" where
  "mmTrades D trades makerUserID makerSide e =
     (let (orderID, b1) = NextOrderID (ebook e);
          e1 = e\<lparr>ebook := b1\<rparr>
      in do {
        e2 \<leftarrow> (if 0 < length trades then do {
                 (avgPrice, totalQty) \<leftarrow> CalcVWAP D trades;
                 Some (submitRow (system_order orderID makerUserID makerSide OrderTypeMarket 1 None totalQty avgPrice) e1)
               } else Some e1);
        (rs, e3) \<leftarrow> ProcessTrades D trades makerUserID makerSide 1 orderID e2;
        Some e3
      })"

subsection \<open>Statistics\<close>

record mm_stats =
  stRefPrice :: dec
  stBestBid :: dec
  stBestAsk :: dec
  stSpread :: dec
  stActiveOrders :: nat
  stTotalLevels :: int

definition GetStats :: "decimal_lib \<Rightarrow> bot \<Rightarrow> book \<Rightarrow> mm_stats" where
  "GetStats D b bk =
     \<lparr>stRefPrice = Round D 2 (botLastQuote b), stBestBid = Round D 2 (fst (BestBid bk)),
      stBestAsk = Round D 2 (fst (BestAsk bk)), stSpread = Round D 2 (Spread bk),
      stActiveOrders = length (botActive b), stTotalLevels = cfgLevels (botCfg b)\<rparr>"

subsection \<open>The book under the bot's orders\<close>

lemma owned_insert_queue: "owned ` set (insert_queue before (m\<lparr>oIsMaker := x\<rparr>) os) = insert (owned m) (owned ` set os)"
  by (auto simp: insert_queue_def image_iff)

lemma PlaceLimit_owned:
  assumes "book_ok b" and "PlaceLimit ord b = ((ts, rem), b')"
  shows "resting_owned b' \<subseteq> insert (owned ord) (resting_owned b)"
proof -
  have s: "spec_limit ord (queue (bids b), queue (asks b)) = ((ts, rem), abs_book b')"
    using PlaceLimit_abs [OF assms(1), of ord] assms(2) by (simp add: abs_book_def [of b])
  have b: "resting_owned b = owned ` (set (queue (bids b)) \<union> set (queue (asks b)))"
    by (auto simp: resting_owned_def resting_def)
  have own: "owned t' = owned ord \<and> owned ` set ms' \<subseteq> owned ` set ms"
    if "exec_queue d (ord\<lparr>oIsMaker := False\<rparr>) ms = (ts, t', ms')" for d t' ms ms'
    using exec_queue_owned [OF that] exec_queue_users [OF that] by (auto simp: owned_def)
  show ?thesis
  proof (cases "oSide ord = 1")
    case True
    obtain t' q' where ex: "exec_queue True (ord\<lparr>oIsMaker := False\<rparr>) (queue (asks b)) = (ts, t', q')"
      and ab: "abs_book b' = (if 0 < oQuantity t' then insert_queue (>) (t'\<lparr>oIsMaker := True\<rparr>) (queue (bids b))
         else queue (bids b), q')"
      using s True by (auto simp: spec_limit_def Let_def split: if_splits prod.splits)
    from own [OF ex] show ?thesis
      unfolding abs_owned [of b'] ab b fst_conv snd_conv by (cases "0 < oQuantity t'") (simp_all add: owned_insert_queue, blast+)
  next
    case False
    obtain t' q' where ex: "exec_queue False (ord\<lparr>oIsMaker := False\<rparr>) (queue (bids b)) = (ts, t', q')"
      and ab: "abs_book b' = (q', if 0 < oQuantity t' then insert_queue (<) (t'\<lparr>oIsMaker := True\<rparr>) (queue (asks b))
         else queue (asks b))"
      using s False by (auto simp: spec_limit_def Let_def split: if_splits prod.splits)
    from own [OF ex] show ?thesis
      unfolding abs_owned [of b'] ab b fst_conv snd_conv by (cases "0 < oQuantity t'") (simp_all add: owned_insert_queue, blast+)
  qed
qed

lemma Cancel_owned:
  assumes "book_ok b"
  shows "resting_owned (snd (Cancel i b)) = {x \<in> resting_owned b. fst x \<noteq> i}"
proof -
  have "abs_book (snd (Cancel i b)) = spec_cancel i (abs_book b)" using Cancel_abs(1) [OF assms, of i] by simp
  moreover obtain bs as where "abs_book b = (bs, as)" by force
  ultimately have "resting_owned (snd (Cancel i b)) = owned ` ({r \<in> set bs. oID r \<noteq> i} \<union> {r \<in> set as. oID r \<noteq> i})"
    and "resting_owned b = owned ` (set bs \<union> set as)"
    by (simp_all add: abs_owned spec_cancel_def)
  then show ?thesis by (auto simp: owned_def)
qed

lemma cancelAll_ok:
  assumes "book_ok bk" and "ids_below bk"
  shows "book_ok (cancelAll ids bk) \<and> ids_below (cancelAll ids bk) \<and> nextID (cancelAll ids bk) = nextID bk \<and>
    book_size (cancelAll ids bk) \<le> book_size bk \<and>
    resting_owned (cancelAll ids bk) = {x \<in> resting_owned bk. fst x \<notin> set ids}"
  using assms
proof (induction ids arbitrary: bk)
  case (Cons i ids)
  obtain r b1 where c: "Cancel i bk = (r, b1)" by force
  have b1: "book_ok b1" "order_ids b1 \<subseteq> order_ids bk" using Cancel_keeps [OF Cons.prems(1) c] by auto
  have n: "nextID b1 = nextID bk" using nextID_frame(3) [OF c] .
  have "ids_below b1" using b1(2) n Cons.prems(2) by (auto simp: ids_below_def)
  from Cons.IH [OF b1(1) this] n c Cancel_owned [OF Cons.prems(1), of i] Cancel_takes_part [OF Cons.prems(1) c]
  show ?case by auto
qed simp

end
