(* ===== verification/Market_Maker_Props.thy ===== *)
theory Market_Maker_Props
  imports Market_Maker
begin

section \<open>The market maker: what a tick promises\<close>

text \<open>
  A tick keeps the exchange well formed whatever the configuration and the price, and leaves no quote
  of an earlier tick in the book.
\<close>

subsection \<open>The ladder\<close>

text \<open>The state of the ladder after at most \<open>n\<close> orders placed from the book \<open>bk0\<close>.\<close>

definition ladder_ok :: "book \<Rightarrow> nat \<Rightarrow> ladder \<Rightarrow> bool" where
  "ladder_ok bk0 n st \<longleftrightarrow> (case st of (bk, active, pending) \<Rightarrow>
     book_ok bk \<and> ids_below bk \<and> nextID bk = nextID bk0 + int n \<and> book_size bk \<le> book_size bk0 + n \<and>
     resting_owned bk \<subseteq> resting_owned bk0 \<union> {(i, SystemUserID) | i. i \<in> set active} \<and>
     length pending \<le> n \<and>
     (\<forall>(ts, s) \<in> set pending. trade_users ts \<subseteq> insert SystemUserID (book_users bk0) \<and>
        length ts \<le> book_size bk0 + n \<and> (\<forall>t \<in> set ts. 0 < tQuantity t)))"

lemma ladder_users: "ladder_ok bk0 n (bk, active, pending) \<Longrightarrow> book_users bk \<subseteq> insert SystemUserID (book_users bk0)"
  by (auto simp: ladder_ok_def resting_owned_ids)

lemma quoteOne_ok:
  assumes st: "ladder_ok bk0 n st" and next_ok: "nextID bk0 + int n < 2 ^ 63 - 1"
  shows "ladder_ok bk0 (Suc n) (quoteOne p q s st)"
proof -
  obtain bk active pending where st3: "st = (bk, active, pending)" by (cases st) auto
  have bk: "book_ok bk" "ids_below bk" "nextID bk = nextID bk0 + int n" "book_size bk \<le> book_size bk0 + n"
    and own: "resting_owned bk \<subseteq> resting_owned bk0 \<union> {(i, SystemUserID) | i. i \<in> set active}"
    using st by (simp_all add: ladder_ok_def st3)
  obtain i bk1 where id: "NextOrderID bk = (i, bk1)" by force
  note fresh = NextOrderID_fresh [OF id bk(2) next_ok [folded bk(3)]]
  have bk1: "book_ok bk1" "resting_owned bk1 = resting_owned bk" "book_size bk1 = book_size bk" "book_users bk1 = book_users bk"
    using bk(1) fresh(1,2) by (simp_all add: resting_owned_def book_size_def book_users_def resting_def)
  let ?ord = "\<lparr>oID = i, oUserID = SystemUserID, oSide = s, oPrice = p, oQuantity = q, oIsMaker = False\<rparr>"
  obtain ts rem bk2 where pl: "PlaceLimit ?ord bk1 = ((ts, rem), bk2)" by (metis prod.collapse)
  have keeps: "book_ok bk2" "order_ids bk2 \<subseteq> insert i (order_ids bk1)"
    using PlaceLimit_keeps [OF bk1(1) _ pl] fresh(3) by auto
  have tp: "takes_part bk1 ?ord ts bk2" by (rule PlaceLimit_takes_part [OF bk1(1) pl])
  have n2: "nextID bk2 = nextID bk1" using nextID_frame(1) [OF pl] .
  have o2: "resting_owned bk2 \<subseteq> insert (i, SystemUserID) (resting_owned bk)"
    using PlaceLimit_owned [OF bk1(1) pl] bk1(2) by (simp add: owned_def)
  have below: "ids_below bk2" using keeps(2) fresh(1,2,4) n2 by (auto simp: ids_below_def)
  have users: "trade_users ts \<subseteq> insert SystemUserID (book_users bk0)"
    using tp ladder_users [OF st [unfolded st3]] bk1(4) by (auto simp: takes_part_def)
  have nid: "nextID bk2 = nextID bk0 + int (Suc n)" using n2 fresh(1,2) bk(3) by simp
  have sz: "book_size bk2 \<le> book_size bk0 + Suc n" "length ts \<le> book_size bk0 + Suc n" "\<forall>t \<in> set ts. 0 < tQuantity t"
    using tp bk(4) bk1(3) by (auto simp: takes_part_def)
  have o3: "resting_owned bk2 \<subseteq> resting_owned bk0 \<union> {(j, SystemUserID) | j. j \<in> set (active @ [i])}"
    using o2 own by auto
  have pend: "length pending \<le> n" "\<forall>(ts, s) \<in> set pending. trade_users ts \<subseteq> insert SystemUserID (book_users bk0) \<and>
      length ts \<le> book_size bk0 + n \<and> (\<forall>t \<in> set ts. 0 < tQuantity t)"
    using st by (simp_all add: ladder_ok_def st3)
  have "quoteOne p q s st = (bk2, active @ [i], if 0 < length ts then pending @ [(ts, s)] else pending)"
    by (simp add: st3 id pl)
  moreover have "\<forall>(ts', s') \<in> set (if 0 < length ts then pending @ [(ts, s)] else pending).
      trade_users ts' \<subseteq> insert SystemUserID (book_users bk0) \<and> length ts' \<le> book_size bk0 + Suc n \<and> (\<forall>t \<in> set ts'. 0 < tQuantity t)"
    using pend(2) users sz(2,3) by (fastforce split: if_splits)
  ultimately show ?thesis
    using keeps(1) below nid sz(1) o3 pend(1) by (simp add: ladder_ok_def)
qed

lemma quoteLevels_ok:
  assumes "ladder_ok bk0 n st" and "nextID bk0 + int n + 2 * int (length levels) < 2 ^ 63"
  shows "ladder_ok bk0 (n + 2 * length levels) (quoteLevels D cfg ref levels st)"
  using assms
proof (induction levels arbitrary: n st)
  case (Cons i levels)
  obtain p q p' q' where two: "quoteLevel D cfg ref i st = quoteOne p' q' (- 1) (quoteOne p q 1 st)"
    by (simp add: quoteLevel_def Let_def)
  have "ladder_ok bk0 (Suc n) (quoteOne p q 1 st)" by (rule quoteOne_ok [OF Cons.prems(1)]) (use Cons.prems(2) in simp)
  then have "ladder_ok bk0 (Suc (Suc n)) (quoteLevel D cfg ref i st)"
    unfolding two by (rule quoteOne_ok) (use Cons.prems(2) in simp)
  from Cons.IH [OF this] Cons.prems(2) show ?case by simp
qed simp

subsection \<open>Handing on the trades\<close>

lemma mmTrades_ok:
  assumes law: "div_law D" and ok: "exchange_ok e" and next_ok: "nextID (ebook e) < 2 ^ 63 - 1"
    and ids: "ids_left (2 * length ts) e" and ts: "\<forall>t \<in> set ts. 0 < tQuantity t" "accounts_for ts e"
  shows "\<exists>e'. mmTrades D ts u s e = Some e' \<and> exchange_ok e' \<and> accounted e e' \<and>
    nextPosID e' \<le> nextPosID e + 2 * int (length ts) \<and> nextID (ebook e') = nextID (ebook e) + 1 \<and>
    resting_owned (ebook e') = resting_owned (ebook e)"
proof -
  obtain i b1 where id: "NextOrderID (ebook e) = (i, b1)" by force
  have bk: "book_ok (ebook e)" "ids_below (ebook e)" using ok by (simp_all add: exchange_ok_def)
  note fresh = NextOrderID_fresh [OF id bk(2) next_ok]
  let ?e1 = "e\<lparr>ebook := b1\<rparr>"
  have b1: "book_ok b1" "book_users b1 = book_users (ebook e)" "nextID b1 = nextID (ebook e) + 1"
    "resting_owned b1 = resting_owned (ebook e)"
    using bk(1) fresh(1,2) by (simp_all add: book_users_def resting_owned_def resting_def)
  have e1: "exchange_ok ?e1" using ok b1 fresh(4) by (fastforce simp: exchange_ok_def orders_ok_def)
  have acc: "accounted e ?e1" by (rule accounted_same) simp_all
  show ?thesis
  proof (cases "ts = []")
    case True
    with id e1 acc b1 show ?thesis by (simp add: mmTrades_def)
  next
    case False
    obtain a q where vw: "CalcVWAP D ts = Some (a, q)" using CalcVWAP_total [OF law] by blast
    obtain rs e2 where run: "ProcessTrades D ts u s 1 i (submitRow (system_order i u s OrderTypeMarket 1 None q a) ?e1) = Some (rs, e2)"
      "exchange_ok e2" "accounted ?e1 e2" "ebook e2 = b1" "nextPosID e2 \<le> nextPosID e + 2 * int (length ts)"
      using process_system [OF law e1, of ts u s 1 i "system_order i u s OrderTypeMarket 1 None q a"] ids ts
      by (auto simp: ids_left_def accounts_for_def)
    have "mmTrades D ts u s e = Some e2" using False id vw run(1) by (simp add: mmTrades_def)
    with run accounted_trans [OF acc run(3)] b1 show ?thesis by simp
  qed
qed

lemma handOn_ok:
  assumes law: "div_law D" and "exchange_ok e" and "nextID (ebook e) + int (length pending) < 2 ^ 63"
    and "nextPosID e + 2 * int (length pending) * int m < 2 ^ 63"
    and "\<forall>(ts, s) \<in> set pending. length ts \<le> m \<and> (\<forall>t \<in> set ts. 0 < tQuantity t) \<and> accounts_for ts e"
  shows "\<exists>e'. handOn (mmTrades D) pending e = Some e' \<and> exchange_ok e' \<and> accounted e e' \<and>
    resting_owned (ebook e') = resting_owned (ebook e)"
  using assms(2-5)
proof (induction pending arbitrary: e)
  case (Cons x pending)
  obtain ts s where x: "x = (ts, s)" by (cases x)
  have m: "int (length ts) \<le> int m" using Cons.prems(4) x by simp
  have pos: "0 \<le> 2 * int (length pending) * int m" by simp
  have bound: "nextPosID e + 2 * int (length pending) * int m + 2 * int m < 2 ^ 63"
    using Cons.prems(3) by (simp add: algebra_simps)
  have ids: "ids_left (2 * length ts) e" using bound pos m unfolding ids_left_def by linarith
  obtain e1 where e1: "mmTrades D ts SystemUserID s e = Some e1" "exchange_ok e1" "accounted e e1"
    "nextPosID e1 \<le> nextPosID e + 2 * int (length ts)" "nextID (ebook e1) = nextID (ebook e) + 1"
    "resting_owned (ebook e1) = resting_owned (ebook e)"
    using mmTrades_ok [OF law Cons.prems(1) _ ids, of SystemUserID s] Cons.prems(2,4) x by auto
  have "\<forall>(ts, s) \<in> set pending. length ts \<le> m \<and> (\<forall>t \<in> set ts. 0 < tQuantity t) \<and> accounts_for ts e1"
    using Cons.prems(4) accounted_holds [OF e1(3)] by (fastforce simp: accounts_for_def)
  moreover have "nextPosID e1 + 2 * int (length pending) * int m < 2 ^ 63" using bound m e1(4) by linarith
  ultimately obtain e' where "handOn (mmTrades D) pending e1 = Some e'" "exchange_ok e'" "accounted e1 e'"
    "resting_owned (ebook e') = resting_owned (ebook e1)"
    using Cons.IH [OF e1(2)] Cons.prems(2) e1(5) by auto
  with e1 x accounted_trans [OF e1(3)] show ?case by auto
qed simp

subsection \<open>Properties\<close>

definition mm_levels :: "bot \<Rightarrow> nat" where
  "mm_levels b = nat (cfgLevels (botCfg b))"

text \<open>The bot's resting orders are the ones it remembers.\<close>

definition quotes_known :: "bot \<Rightarrow> engine \<Rightarrow> bool" where
  "quotes_known b e \<longleftrightarrow> (\<forall>i. (i, SystemUserID) \<in> resting_owned (ebook e) \<longrightarrow> i \<in> set (botActive b))"

lemma mmTick_ok:
  assumes law: "div_law D" and ok: "exchange_ok e" and rm: "room (4 * mm_levels b) e"
    and acc: "holds_account SystemUserID (memAccounts e)"
  shows "\<exists>b' e'. mmTick D (Some (mmTrades D)) b e = Some (b', e') \<and> exchange_ok e' \<and> accounted e e' \<and>
    (quotes_known b e \<longrightarrow> quotes_known b' e') \<and>
    (b' = b \<and> e' = e \<or>
     resting_owned (ebook e') \<subseteq> {x \<in> resting_owned (ebook e). fst x \<notin> set (botActive b)} \<union> {(i, SystemUserID) | i. i \<in> set (botActive b')})"
proof -
  let ?ref = "GetPrice (priceCache e)" and ?bk1 = "cancelAll (botActive b) (ebook e)" and ?n = "2 * mm_levels b"
  let ?levels = "map int [0..<nat (cfgLevels (botCfg b))]"
  have "\<exists>mv. priceMoved D b ?ref = Some mv"
    using decimal.div_defined [OF decimal.intro [OF law], of "botLastQuote b" "\<bar>?ref - botLastQuote b\<bar>"]
    by (auto simp: priceMoved_def)
  then obtain mv where mv: "priceMoved D b ?ref = Some mv" by blast
  show ?thesis
  proof (cases "?ref = 0 \<or> \<not> mv")
    case True
    then have "mmTick D (Some (mmTrades D)) b e = Some (b, e)" using mv by (auto simp: mmTick_def Let_def)
    with ok show ?thesis by simp
  next
    case False
    have bk: "book_ok (ebook e)" "ids_below (ebook e)" and users: "\<forall>u \<in> book_users (ebook e). holds_account u (memAccounts e)"
      using ok by (simp_all add: exchange_ok_def)
    have c: "book_ok ?bk1" "ids_below ?bk1" "nextID ?bk1 = nextID (ebook e)" "book_size ?bk1 \<le> book_size (ebook e)"
      "resting_owned ?bk1 = {x \<in> resting_owned (ebook e). fst x \<notin> set (botActive b)}"
      using cancelAll_ok [OF bk, of "botActive b"] by auto
    obtain bk2 active pending where l: "quoteLevels D (botCfg b) ?ref ?levels (?bk1, [], []) = (bk2, active, pending)"
      by (metis prod.collapse)
    have lad0: "ladder_ok ?bk1 0 (?bk1, [], [])" using c by (simp add: ladder_ok_def)
    have n: "length ?levels = mm_levels b" by (simp add: mm_levels_def)
    have "nextID ?bk1 + int 0 + 2 * int (length ?levels) < 2 ^ 63" using rm c(3) unfolding n by (simp add: room_def)
    from quoteLevels_ok [OF lad0 this, of D "botCfg b" ?ref]
    have lad: "ladder_ok ?bk1 ?n (bk2, active, pending)" unfolding n l by simp
    let ?e1 = "e\<lparr>ebook := bk2\<rparr>"
    have bk2: "book_ok bk2" "ids_below bk2" "nextID bk2 = nextID (ebook e) + int ?n" "length pending \<le> ?n"
      using lad c(3) by (simp_all add: ladder_ok_def)
    have own: "resting_owned bk2 \<subseteq> resting_owned ?bk1 \<union> {(i, SystemUserID) | i. i \<in> set active}"
      using lad by (simp add: ladder_ok_def)
    have usr: "book_users ?bk1 \<subseteq> book_users (ebook e)" using c(5) by (auto simp: resting_owned_ids)
    have e1: "exchange_ok ?e1"
      using exchange_book [OF ok bk2(1,2) _ _ acc] bk2(3) ladder_users [OF lad] usr by auto
    have a1: "accounted e ?e1" by (rule accounted_same) simp_all
    have ready: "\<forall>(ts, s) \<in> set pending. length ts \<le> book_size (ebook e) + 4 * mm_levels b \<and>
        (\<forall>t \<in> set ts. 0 < tQuantity t) \<and> accounts_for ts ?e1"
    proof (clarify, intro conjI)
      fix ts s
      assume "(ts, s) \<in> set pending"
      then have t: "trade_users ts \<subseteq> insert SystemUserID (book_users ?bk1)" "length ts \<le> book_size ?bk1 + ?n"
        "\<forall>t \<in> set ts. 0 < tQuantity t" using lad by (auto simp: ladder_ok_def)
      show "length ts \<le> book_size (ebook e) + 4 * mm_levels b" using t(2) c(4) by simp
      show "\<forall>t \<in> set ts. 0 < tQuantity t" by (rule t(3))
      show "accounts_for ts ?e1" using t(1) usr users acc by (fastforce simp: accounts_for_def trade_users_def)
    qed
    have "int (length pending) * int (book_size (ebook e) + 4 * mm_levels b) \<le>
        int (4 * mm_levels b) * int (book_size (ebook e) + 4 * mm_levels b)"
      using bk2(4) by (intro mult_right_mono) auto
    then have "nextPosID ?e1 + 2 * int (length pending) * int (book_size (ebook e) + 4 * mm_levels b) < 2 ^ 63"
      using rm by (simp add: room_def)
    moreover have "nextID (ebook ?e1) + int (length pending) < 2 ^ 63" using rm bk2(3,4) by (simp add: room_def)
    ultimately obtain e' where e': "handOn (mmTrades D) pending ?e1 = Some e'" "exchange_ok e'" "accounted ?e1 e'"
      "resting_owned (ebook e') = resting_owned bk2"
      using handOn_ok [OF law e1 _ _ ready] by auto
    let ?b' = "b\<lparr>botActive := active, botLastQuote := ?ref\<rparr>"
    have "mmTick D (Some (mmTrades D)) b e = Some (?b', e')" using False mv l e'(1) by (simp add: mmTick_def Let_def)
    moreover have "quotes_known b e \<Longrightarrow> quotes_known ?b' e'"
      using e'(4) own c(5) unfolding quotes_known_def by auto
    ultimately show ?thesis using e'(2,4) accounted_trans [OF a1 e'(3)] own c(5) by auto
  qed
qed

text \<open>
  C12. A tick of the market maker never panics, whatever its configuration and the price, as long as
  IDs are left: the exchange stays well formed, its balances change as the submitted events say, and
  no stale quote is left: if the bot remembered all its resting orders before, it still does, and unless the tick
  kept its quotes, what rests afterwards is orders it had not remembered and its new quotes.
\<close>

theorem mmTick_safe:
  assumes "div_law D" and "exchange_ok e" and "room (4 * mm_levels b) e" and "holds_account SystemUserID (memAccounts e)"
    and "quotes_known b e"
  shows "\<exists>b' e'. mmTick D (Some (mmTrades D)) b e = Some (b', e') \<and> exchange_ok e' \<and> accounted e e' \<and>
    quotes_known b' e' \<and>
    (b' = b \<and> e' = e \<or>
     resting_owned (ebook e') \<subseteq> {x \<in> resting_owned (ebook e). fst x \<notin> set (botActive b)} \<union> {(i, SystemUserID) | i. i \<in> set (botActive b')})"
  using mmTick_ok [OF assms(1-4)] assms(5) by blast

definition sample_bot :: bot where
  "sample_bot = NewBot (DefaultConfig\<lparr>cfgLevels := 2\<rparr>)"

theorem mmTick_safe_witness:
  "\<exists>b' e'. mmTick dec16 (Some (mmTrades dec16)) sample_bot (sample_engine\<lparr>memAccounts := LoadAccount 0 100000000 0 (memAccounts sample_engine)\<rparr>) =
     Some (b', e') \<and> exchange_ok e' \<and> quotes_known b' e'"
proof -
  let ?e = "sample_engine\<lparr>memAccounts := LoadAccount 0 100000000 0 (memAccounts sample_engine)\<rparr>"
  have "exchange_ok ?e"
    using sample_exchange_ok
    by (auto simp: exchange_ok_def engine_ok_def orders_ok_def owners_ok_def sample_engine_def NewEngine_def
        NewOrderCache_def ledger_defs NewAccountCache_def NewBook_def book_users_def resting_def frozen_for_def)
  moreover have "room (4 * mm_levels sample_bot) ?e"
    using sample_room [of 8] by (simp add: room_def mm_levels_def sample_bot_def NewBot_def DefaultConfig_def Let_def)
  moreover have "holds_account SystemUserID (memAccounts ?e)" by (simp add: ledger_defs)
  moreover have "quotes_known sample_bot ?e"
    by (simp add: quotes_known_def resting_owned_def resting_def sample_engine_def NewEngine_def NewBook_def)
  ultimately show ?thesis using mmTick_safe [OF dec16_law, of ?e sample_bot] by blast
qed

end
