(* ===== verification/Reconcile.thy ===== *)
theory Reconcile
  imports Account_Cache Position_Cache Database
begin

section \<open>The daily reconciliation (\<open>internal/engine/reconcile/reconcile.go\<close>)\<close>

text \<open>
  The comparison of the memory with the database. Which queries fail is an argument; a row that cannot
  be scanned does not occur. The texts of the issues are constructors with the values they show. The
  mail is its destination, \<open>None\<close> when mail is not configured or nothing is to be reported.
\<close>

subsection \<open>Checks\<close>

datatype check_query = BalanceQuery | PositionCountQuery | PositionQuery

datatype issue =
    QueryFailed check_query
  | BalanceMismatch int dec dec dec
  | PositionCountMismatch nat nat
  | PositionMissing int int
  | PositionQtyMismatch int dec dec

definition reconcileTolerance :: dec where
  "reconcileTolerance = 1 / 10 ^ 6"

definition checkBalance :: "accounts \<Rightarrow> int \<times> account_row \<Rightarrow> issue option" where
  "checkBalance mem row =
     (let (userID, a) = row;
          memBalance = GetBalance userID mem;
          diff = memBalance - aBalance a
      in if reconcileTolerance < \<bar>diff\<bar> then Some (BalanceMismatch userID memBalance (aBalance a) diff) else None)"

definition checkBalances :: "(check_query \<Rightarrow> bool) \<Rightarrow> accounts \<Rightarrow> database \<Rightarrow> issue list" where
  "checkBalances fails mem db =
     (if fails BalanceQuery then [QueryFailed BalanceQuery]
      else List.map_filter (checkBalance mem) (filter (\<lambda>(userID, a). 0 < userID) (dbAccounts db)))"

text \<open>The active positions of real users in the database.\<close>

definition active_rows :: "database \<Rightarrow> (int \<times> position_row) list" where
  "active_rows db = filter (\<lambda>(i, p). prStatus p = PositionStatusActive \<and> 0 < prUserID p) (dbPositions db)"

definition memCount :: "position_cache \<Rightarrow> nat" where
  "memCount c = length (filter (\<lambda>i. case deref i c of None \<Rightarrow> False | Some p \<Rightarrow> 0 < pUserID p) (GetAll c))"

definition checkPosition :: "position_cache \<Rightarrow> int \<times> position_row \<Rightarrow> issue option" where
  "checkPosition c row =
     (let (posID, p) = row
      in case GetPosition posID c of
          None \<Rightarrow> Some (PositionMissing posID (prUserID p))
        | Some cp \<Rightarrow>
            let memQty = NewFromString (pQuantity cp)
            in if reconcileTolerance < \<bar>memQty - prQuantity p\<bar> then Some (PositionQtyMismatch posID memQty (prQuantity p))
               else None)"

definition checkPositions :: "(check_query \<Rightarrow> bool) \<Rightarrow> position_cache \<Rightarrow> database \<Rightarrow> issue list" where
  "checkPositions fails c db =
     (if fails PositionCountQuery then [QueryFailed PositionCountQuery]
      else
        let dbCount = length (active_rows db);
            issues = (if memCount c \<noteq> dbCount then [PositionCountMismatch (memCount c) dbCount] else [])
        in if fails PositionQuery then issues @ [QueryFailed PositionQuery]
           else issues @ List.map_filter (checkPosition c) (active_rows db))"

subsection \<open>The report\<close>

record alert_config =
  acHost :: string
  acPort :: string
  acUser :: string
  acPass :: string
  acTo :: string

definition sendAlert :: "alert_config \<Rightarrow> (string \<times> string) option" where
  "sendAlert a =
     (if acHost a = [] \<or> acUser a = [] \<or> acPass a = [] \<or> acTo a = [] then None
      else let port = (if acPort a = [] then ''587'' else acPort a) in Some (acHost a @ '':'' @ port, acTo a))"

definition RunAll ::
    "alert_config \<Rightarrow> (check_query \<Rightarrow> bool) \<Rightarrow> accounts \<Rightarrow> position_cache \<Rightarrow> database \<Rightarrow> issue list \<times> (string \<times> string) option" where
  "RunAll alert fails mem c db =
     (let details = checkBalances fails mem db @ checkPositions fails c db
      in (details, if details = [] then None else sendAlert alert))"

subsection \<open>What a silent run means\<close>

lemma map_filter_Nil_iff: "List.map_filter f xs = [] \<longleftrightarrow> (\<forall>x \<in> set xs. f x = None)"
  by (induction xs) (auto simp: map_filter_simps split: option.split)

lemma checkBalances_silent:
  "checkBalances (\<lambda>q. False) mem db = [] \<longleftrightarrow>
     (\<forall>(u, a) \<in> set (dbAccounts db). 0 < u \<longrightarrow> \<bar>GetBalance u mem - aBalance a\<bar> \<le> reconcileTolerance)"
  by (fastforce simp: checkBalances_def map_filter_Nil_iff checkBalance_def Let_def not_less split: if_splits)

lemma GetAll_active:
  assumes "\<forall>(i, p) \<in> set (posLive c). pState p = PosStateActive"
  shows "GetAll c = map fst (posLive c)"
  using assms by (simp add: GetAll_def case_prod_unfold)

definition real_live :: "position_cache \<Rightarrow> int set" where
  "real_live c = {i. \<exists>p. map_of (posLive c) i = Some p \<and> 0 < pUserID p}"

lemma memCount_card:
  assumes "cache_ok c" and "\<forall>(i, p) \<in> set (posLive c). pState p = PosStateActive"
  shows "memCount c = card (real_live c)" and "finite (real_live c)"
proof -
  let ?P = "\<lambda>i. case deref i c of None \<Rightarrow> False | Some p \<Rightarrow> 0 < pUserID p"
  have d: "distinct (filter ?P (map fst (posLive c)))" using assms(1) by (simp add: cache_ok_def)
  have "set (filter ?P (map fst (posLive c))) = real_live c"
  proof (intro set_eqI iffI)
    fix i
    assume "i \<in> set (filter ?P (map fst (posLive c)))"
    then have i: "i \<in> set (map fst (posLive c))" "?P i" by simp_all
    then obtain p where "map_of (posLive c) i = Some p" by (metis map_of_eq_None_iff not_None_eq set_map)
    with i(2) show "i \<in> real_live c" by (simp add: real_live_def deref_def)
  next
    fix i
    assume "i \<in> real_live c"
    then obtain p where p: "map_of (posLive c) i = Some p" "0 < pUserID p" by (auto simp: real_live_def)
    then have "i \<in> set (map fst (posLive c))" by (metis map_of_eq_None_iff option.distinct(1) set_map)
    with p show "i \<in> set (filter ?P (map fst (posLive c)))" by (simp add: deref_def)
  qed
  with distinct_card [OF d] show "memCount c = card (real_live c)"
    by (simp add: memCount_def GetAll_active [OF assms(2)])
  show "finite (real_live c)" using \<open>set (filter ?P (map fst (posLive c))) = real_live c\<close> by (metis List.finite_set)
qed

lemma checkPositions_silent:
  assumes "cache_ok c" and "\<forall>(i, p) \<in> set (posLive c). pState p = PosStateActive"
    and "distinct (map fst (dbPositions db))"
    and "\<forall>(i, r) \<in> set (active_rows db). \<forall>p. map_of (posLive c) i = Some p \<longrightarrow> pUserID p = prUserID r"
  shows "checkPositions (\<lambda>q. False) c db = [] \<longleftrightarrow>
    fst ` set (active_rows db) = real_live c \<and>
    (\<forall>(i, r) \<in> set (active_rows db). \<exists>p. map_of (posLive c) i = Some p \<and>
       \<bar>NewFromString (pQuantity p) - prQuantity r\<bar> \<le> reconcileTolerance)"
proof -
  let ?rows = "active_rows db"
  have "distinct (map fst ?rows)" using assms(3) unfolding active_rows_def by (rule distinct_map_filter)
  then have card: "length ?rows = card (fst ` set ?rows)" using distinct_card [of "map fst ?rows"] by simp
  have each: "(\<forall>x \<in> set ?rows. checkPosition c x = None) \<longleftrightarrow>
      (\<forall>(i, r) \<in> set ?rows. \<exists>p. map_of (posLive c) i = Some p \<and> \<bar>NewFromString (pQuantity p) - prQuantity r\<bar> \<le> reconcileTolerance)"
    by (auto simp: checkPosition_def GetPosition_def Let_def split: option.splits if_splits)
  have sub: "fst ` set ?rows \<subseteq> real_live c"
    if "\<forall>(i, r) \<in> set ?rows. \<exists>p. map_of (posLive c) i = Some p \<and> \<bar>NewFromString (pQuantity p) - prQuantity r\<bar> \<le> reconcileTolerance"
  proof
    fix i
    assume "i \<in> fst ` set ?rows"
    then obtain r where r: "(i, r) \<in> set ?rows" by auto
    with that obtain p where p: "map_of (posLive c) i = Some p" by auto
    moreover have "pUserID p = prUserID r" using assms(4) r p by auto
    moreover have "0 < prUserID r" using r by (auto simp: active_rows_def)
    ultimately show "i \<in> real_live c" by (simp add: real_live_def)
  qed
  let ?each = "\<forall>(i, r) \<in> set ?rows. \<exists>p. map_of (posLive c) i = Some p \<and> \<bar>NewFromString (pQuantity p) - prQuantity r\<bar> \<le> reconcileTolerance"
  have "checkPositions (\<lambda>q. False) c db = [] \<longleftrightarrow> memCount c = length ?rows \<and> ?each"
    unfolding checkPositions_def Let_def using each by (simp add: map_filter_Nil_iff)
  moreover have "memCount c = length ?rows \<longleftrightarrow> fst ` set ?rows = real_live c" if ?each
    using card memCount_card [OF assms(1,2)] card_subset_eq [OF _ sub [OF that]] by metis
  ultimately show ?thesis by blast
qed

end
