(* ===== verification/Service.thy ===== *)
theory Service
  imports Exchange_Props Reconcile
begin

section \<open>Starting up from the database (\<open>internal/svc/service_context.go\<close>)\<close>

text \<open>
  \<open>LoadCachesFromDB\<close> fills the caches of a new engine. Which queries fail is an argument; an error
  ends the loading with what was loaded so far, as the code does. A result set that breaks off after some
  rows is the argument \<open>broken\<close> for the accounts, whose rows are loaded while they are read, and a failed
  query for the positions and orders, which are collected first. A row that cannot be scanned does not occur.
\<close>

subsection \<open>Loading\<close>

datatype load_query = ActivePositions | PendingOrders | AccountRows | MaxPositionID | MaxOrderID

definition loadedPosition :: "position_row \<Rightarrow> cached_position" where
  "loadedPosition p =
     NewCachedPosition (prID p) (prUserID p) (prSide p) (prMarginMode p) (prLeverage p)
       (Shown (prEntryPrice p)) (Shown (prQuantity p)) (Shown (prMargin p)) (Shown (prLiqPrice p)) (Shown (prForceTpPrice p))
       (decimalPtrToString (prTakeProfit p)) (decimalPtrToString (prStopLoss p)) (Shown (prFundingPnl p))"

definition loadPositions :: "position_row list \<Rightarrow> position_cache \<Rightarrow> position_cache" where
  "loadPositions = fold (\<lambda>p. AddPosition (loadedPosition p))"

definition loadedOrder :: "order_row \<Rightarrow> dec \<Rightarrow> cached_order" where
  "loadedOrder r price =
     \<lparr>coID = omID r, coUserID = omUserID r, coSide = omSide r, coPrice = price, coQuantity = omQuantity r,
      coMarginCost = omMarginCost r, coLeverage = omLeverage r,
      coTakeProfit = decimalPtrToString (omTakeProfit r), coStopLoss = decimalPtrToString (omStopLoss r)\<rparr>"

definition loadOrders :: "order_row list \<Rightarrow> order_cache \<Rightarrow> order_cache" where
  "loadOrders = fold (\<lambda>r oc. case omPrice r of None \<Rightarrow> oc | Some price \<Rightarrow> AddOrder (loadedOrder r price) oc)"

text \<open>The rows read, whether the reading ended with an error, and the accounts.\<close>

definition loadAccountsToMemory ::
    "(load_query \<Rightarrow> bool) \<Rightarrow> nat option \<Rightarrow> database \<Rightarrow> accounts \<Rightarrow> (nat \<times> bool) \<times> accounts" where
  "loadAccountsToMemory fails broken db accs =
     (if fails AccountRows then ((0, False), accs)
      else
        let rows = (case broken of None \<Rightarrow> dbAccounts db | Some k \<Rightarrow> take k (dbAccounts db));
            accs1 = fold (\<lambda>(userID, a). LoadAccount userID (aBalance a) (aFrozen a)) rows accs;
            accs2 = LoadAccount 0 100000000 0 accs1;
            accs3 = LoadAccount (- 1) 100000000 0 accs2
        in ((length rows, broken = None), accs3))"

definition maxID :: "(int \<times> 'a) list \<Rightarrow> int" where
  "maxID al = (case map fst al of [] \<Rightarrow> 0 | i # is \<Rightarrow> fold max is i)"

definition LoadCachesFromDB ::
    "(load_query \<Rightarrow> bool) \<Rightarrow> nat option \<Rightarrow> database \<Rightarrow> engine \<Rightarrow> load_query option \<times> engine" where
  "LoadCachesFromDB fails broken db e =
     (if fails ActivePositions then (Some ActivePositions, e)
      else
        let e1 = e\<lparr>positionCache := loadPositions (FindAllActive db) (positionCache e)\<rparr>
        in if fails PendingOrders then (Some PendingOrders, e1)
        else
          let e2 = e1\<lparr>orderCache := loadOrders (FindAllPending db) (orderCache e1)\<rparr>;
              ((accountCount, complete), accs) = loadAccountsToMemory fails broken db (memAccounts e2);
              e3 = e2\<lparr>memAccounts := accs\<rparr>
          in if \<not> complete then (Some AccountRows, e3)
          else if fails MaxPositionID then (Some MaxPositionID, e3)
          else
            let maxPosID = maxID (dbPositions db);
                e4 = (if 0 < maxPosID then SetNextPosID maxPosID e3 else e3)
            in if fails MaxOrderID then (Some MaxOrderID, e4)
            else
              let maxOrderID = maxID (dbOrders db)
              in (None, if 0 < maxOrderID then e4\<lparr>ebook := SetNextID maxOrderID (ebook e4)\<rparr> else e4))"

subsection \<open>The loaded caches\<close>

lemma alist_update_fresh: "k \<notin> fst ` set al \<Longrightarrow> AList.update k v al = al @ [(k, v)]"
  by (induction al) auto

lemma fold_alist_update:
  "distinct (map fst kvs) \<Longrightarrow> fst ` set kvs \<inter> fst ` set al = {} \<Longrightarrow> fold (\<lambda>(k, v). AList.update k v) kvs al = al @ kvs"
  by (induction kvs arbitrary: al) (auto simp: alist_update_fresh image_Un)

lemma loadPositions_live:
  "posLive (loadPositions rows c) = fold (\<lambda>(k, v). AList.update k v) (map (\<lambda>p. (prID p, loadedPosition p)) rows) (posLive c)"
  by (induction rows arbitrary: c) (simp_all add: loadPositions_def loadedPosition_def NewCachedPosition_def)

lemma loadPositions_gone [simp]: "posGone (loadPositions rows c) = posGone c"
  by (induction rows arbitrary: c) (simp_all add: loadPositions_def)

lemma loadPositions_ok:
  "cache_ok c \<Longrightarrow> distinct (map prID rows) \<Longrightarrow> prID ` set rows \<inter> fst ` set (posLive c) = {} \<Longrightarrow> cache_ok (loadPositions rows c)"
proof (induction rows arbitrary: c)
  case (Cons p rows)
  have "map_of (posLive c) (prID p) = None" using Cons.prems(3) by (auto simp: map_of_eq_None_iff)
  then have "cache_ok (AddPosition (loadedPosition p) c)"
    using Cons.prems(1) by (intro cache_ok_Add) (simp_all add: loadedPosition_def NewCachedPosition_def)
  moreover have "prID ` set rows \<inter> fst ` set (posLive (AddPosition (loadedPosition p) c)) = {}"
    using Cons.prems(2,3) by (auto simp: loadedPosition_def NewCachedPosition_def dom_update)
  ultimately show ?case using Cons.IH Cons.prems(2) by (simp add: loadPositions_def)
qed (simp add: loadPositions_def)

definition priced :: "order_row \<Rightarrow> cached_order option" where
  "priced r = map_option (loadedOrder r) (omPrice r)"

lemma loadOrders_fold:
  "loadOrders rows oc = fold (\<lambda>(k, v). AList.update k v) (map (\<lambda>co. (coID co, co)) (List.map_filter priced rows)) oc"
  by (induction rows arbitrary: oc)
    (simp_all add: loadOrders_def priced_def AddOrder_def map_filter_simps split: option.split)

lemma maxID_le: "i \<in> fst ` set al \<Longrightarrow> i \<le> maxID al"
  unfolding maxID_def using Max.set_eq_fold [of "hd (map fst al)" "tl (map fst al)"] Max_ge [of "fst ` set al" i]
  by (cases al) auto

lemma maxID_in: "maxID al = 0 \<or> maxID al \<in> fst ` set al"
  unfolding maxID_def using Max.set_eq_fold [of "hd (map fst al)" "tl (map fst al)"] Max_in [of "fst ` set al"]
  by (cases al) auto

subsection \<open>Consistent databases\<close>

text \<open>
  What a run of the program leaves in the tables when every event is settled: rows are stored under
  their IDs, active positions and pending orders are well formed and belong to accounts, pending orders
  belong to real users, and what is frozen on an account is the cost of its pending orders.
\<close>

definition pending_cost :: "clearance \<Rightarrow> int \<Rightarrow> database \<Rightarrow> dec" where
  "pending_cost c u db =
     sum_list (map (\<lambda>co. if coUserID co = u then order_cost c co else 0) (List.map_filter priced (FindAllPending db)))"

definition systemUsers :: "int list" where
  "systemUsers = [0, - 1]"

definition db_consistent :: "clearance \<Rightarrow> database \<Rightarrow> bool" where
  "db_consistent c db \<longleftrightarrow>
     distinct (map fst (dbAccounts db)) \<and> distinct (map fst (dbPositions db)) \<and> distinct (map fst (dbOrders db)) \<and>
     (\<forall>(i, p) \<in> set (dbPositions db). prID p = i) \<and> (\<forall>(i, r) \<in> set (dbOrders db). omID r = i) \<and>
     (\<forall>p \<in> set (FindAllActive db). (prSide p = 1 \<or> prSide p = - 1) \<and> 1 \<le> prLeverage p \<and> 0 < prQuantity p \<and>
        prUserID p \<in> fst ` set (dbAccounts db) \<union> set systemUsers) \<and>
     (\<forall>co \<in> set (List.map_filter priced (FindAllPending db)). 0 \<le> order_cost c co \<and> 0 < coUserID co \<and>
        coUserID co \<in> fst ` set (dbAccounts db)) \<and>
     (\<forall>(u, a) \<in> set (dbAccounts db). u \<notin> set systemUsers \<longrightarrow> aFrozen a = pending_cost c u db)"

definition started :: "clearance \<Rightarrow> engine \<Rightarrow> bool" where
  "started c e \<longleftrightarrow>
     positionCache e = NewPositionCache \<and> orderCache e = NewOrderCache \<and> memAccounts e = NewAccountCache \<and>
     ebook e = NewBook \<and> eclearance e = c \<and> nextPosID e = 100000 \<and>
     clearance_ok c \<and> (\<exists>rate. fee_rates c rate) \<and> 0 < minMargin e"

lemma FindAllActive_ids:
  assumes "distinct (map fst (dbPositions db))" and "\<forall>(i, p) \<in> set (dbPositions db). prID p = i"
  shows "distinct (map prID (FindAllActive db))" and "prID ` set (FindAllActive db) \<subseteq> fst ` set (dbPositions db)"
proof -
  let ?act = "filter (\<lambda>x. prStatus (snd x) = PositionStatusActive) (dbPositions db)"
  have "map prID (FindAllActive db) = map (prID \<circ> snd) ?act"
    by (simp add: FindAllActive_def scanPosition_def filter_map comp_def)
  also have "\<dots> = map fst ?act" using assms(2) by (auto intro!: map_cong)
  finally have ids: "map prID (FindAllActive db) = map fst ?act" .
  show "distinct (map prID (FindAllActive db))" unfolding ids using assms(1) by (rule distinct_map_filter)
  show "prID ` set (FindAllActive db) \<subseteq> fst ` set (dbPositions db)"
    using arg_cong [OF ids, of set] by auto
qed

lemma priced_ids:
  assumes "distinct (map fst (dbOrders db))" and "\<forall>(i, r) \<in> set (dbOrders db). omID r = i"
  shows "distinct (map coID (List.map_filter priced (FindAllPending db)))"
    and "coID ` set (List.map_filter priced (FindAllPending db)) \<subseteq> fst ` set (dbOrders db)"
proof -
  let ?pend = "filter (\<lambda>x. omStatus (snd x) = OrderStatusPending \<and> omPrice (snd x) \<noteq> None) (dbOrders db)"
  have step: "map coID (List.map_filter priced rows) = map omID (filter (\<lambda>r. omPrice r \<noteq> None) rows)" for rows
    by (induction rows) (auto simp: map_filter_simps priced_def loadedOrder_def)
  have "map coID (List.map_filter priced (FindAllPending db)) = map (omID \<circ> snd) ?pend"
    by (simp add: step FindAllPending_def filter_map comp_def conj_commute)
  also have "\<dots> = map fst ?pend" using assms(2) by (auto intro!: map_cong)
  finally have ids: "map coID (List.map_filter priced (FindAllPending db)) = map fst ?pend" .
  show "distinct (map coID (List.map_filter priced (FindAllPending db)))"
    unfolding ids using assms(1) by (rule distinct_map_filter)
  show "coID ` set (List.map_filter priced (FindAllPending db)) \<subseteq> fst ` set (dbOrders db)"
    using arg_cong [OF ids, of set] by auto
qed

subsection \<open>The loaded exchange\<close>

definition memAccount :: "account_row \<Rightarrow> mem_account" where
  "memAccount a = \<lparr>Balance = aBalance a, Frozen = aFrozen a\<rparr>"

lemma loadAccounts_map:
  "distinct (map fst rows) \<Longrightarrow>
   map_of (fold (\<lambda>(userID, a). LoadAccount userID (aBalance a) (aFrozen a)) rows accs) u =
     (case map_of rows u of None \<Rightarrow> map_of accs u | Some a \<Rightarrow> Some (memAccount a))"
proof (induction rows arbitrary: accs)
  case (Cons x rows)
  obtain v a where x: "x = (v, a)" by force
  then have "map_of rows v = None" using Cons.prems by (simp add: map_of_eq_None_iff)
  then show ?case using Cons by (auto simp: x LoadAccount_def memAccount_def split: option.split)
qed simp

lemma started_book [simp]: "book_size (NewBook\<lparr>nextID := n\<rparr>) = 0" "book_size NewBook = 0" "book_users NewBook = {}" "nextID NewBook = 1"
  by (simp_all add: NewBook_def book_size_def book_users_def resting_def)

lemma loaded:
  assumes db: "db_consistent c db" and st: "started c e" and run: "LoadCachesFromDB (\<lambda>_. False) None db e = (err, e')"
  shows "err = None" and "positionCache e' = loadPositions (FindAllActive db) NewPositionCache"
    and "posLive (positionCache e') = map (\<lambda>p. (prID p, loadedPosition p)) (FindAllActive db)"
    and "orderCache e' = map (\<lambda>co. (coID co, co)) (List.map_filter priced (FindAllPending db))"
    and "map_of (memAccounts e') u = (if u \<in> set systemUsers then Some \<lparr>Balance = 100000000, Frozen = 0\<rparr>
           else map_option memAccount (map_of (dbAccounts db) u))"
    and "nextPosID e' = (if 0 < maxID (dbPositions db) then maxID (dbPositions db) else 100000)"
    and "ebook e' = SetNextID (if 0 < maxID (dbOrders db) then maxID (dbOrders db) else 1) NewBook"
    and "eclearance e' = c" and "minMargin e' = minMargin e"
proof -
  let ?e = "e\<lparr>positionCache := loadPositions (FindAllActive db) (positionCache e),
      orderCache := loadOrders (FindAllPending db) (orderCache e),
      memAccounts := LoadAccount (- 1) 100000000 0 (LoadAccount 0 100000000 0
        (fold (\<lambda>(userID, a). LoadAccount userID (aBalance a) (aFrozen a)) (dbAccounts db) (memAccounts e)))\<rparr>"
  let ?e4 = "if 0 < maxID (dbPositions db) then SetNextPosID (maxID (dbPositions db)) ?e else ?e"
  have parts: "err = None" "e' = (if 0 < maxID (dbOrders db) then ?e4\<lparr>ebook := SetNextID (maxID (dbOrders db)) (ebook ?e4)\<rparr> else ?e4)"
    using run by (auto simp: LoadCachesFromDB_def loadAccountsToMemory_def Let_def)
  note s = st [unfolded started_def]
  show "err = None" using parts by simp
  show pc: "positionCache e' = loadPositions (FindAllActive db) NewPositionCache"
    using parts s by (auto simp: SetNextPosID_def)
  have "distinct (map prID (FindAllActive db))" using FindAllActive_ids db by (auto simp: db_consistent_def)
  then show "posLive (positionCache e') = map (\<lambda>p. (prID p, loadedPosition p)) (FindAllActive db)"
    unfolding pc loadPositions_live by (subst fold_alist_update) (simp_all add: comp_def)
  have "distinct (map coID (List.map_filter priced (FindAllPending db)))" using priced_ids db by (auto simp: db_consistent_def)
  moreover have "orderCache e' = loadOrders (FindAllPending db) NewOrderCache" using parts s by (auto simp: SetNextPosID_def)
  ultimately show "orderCache e' = map (\<lambda>co. (coID co, co)) (List.map_filter priced (FindAllPending db))"
    unfolding loadOrders_fold by (simp add: fold_alist_update comp_def NewOrderCache_def)
  have "memAccounts e' = LoadAccount (- 1) 100000000 0 (LoadAccount 0 100000000 0
      (fold (\<lambda>(userID, a). LoadAccount userID (aBalance a) (aFrozen a)) (dbAccounts db) NewAccountCache))"
    using parts s by (auto simp: SetNextPosID_def)
  then show "map_of (memAccounts e') u = (if u \<in> set systemUsers then Some \<lparr>Balance = 100000000, Frozen = 0\<rparr>
      else map_option memAccount (map_of (dbAccounts db) u))"
    using db by (auto simp: LoadAccount_def loadAccounts_map db_consistent_def NewAccountCache_def systemUsers_def split: option.split)
  show "nextPosID e' = (if 0 < maxID (dbPositions db) then maxID (dbPositions db) else 100000)"
    "ebook e' = SetNextID (if 0 < maxID (dbOrders db) then maxID (dbOrders db) else 1) NewBook" "eclearance e' = c" "minMargin e' = minMargin e"
    using parts s by (auto simp: SetNextPosID_def SetNextID_def NewBook_def)
qed

lemma pending_cost_loaded:
  assumes "orderCache e' = map (\<lambda>co. (coID co, co)) (List.map_filter priced (FindAllPending db))"
  shows "frozen_for c u (orderCache e') = pending_cost c u db"
  by (simp add: assms frozen_for_def al_sum_def pending_cost_def comp_def)

lemma pending_cost_absent:
  assumes "db_consistent c db" and "u \<notin> fst ` set (dbAccounts db) \<or> u \<le> 0"
  shows "pending_cost c u db = 0"
proof -
  have "\<forall>co \<in> set (List.map_filter priced (FindAllPending db)). coUserID co \<noteq> u"
    using assms by (fastforce simp: db_consistent_def)
  then show ?thesis by (simp add: pending_cost_def cong: map_cong)
qed

lemma loaded_positions_ok:
  assumes db: "db_consistent c db" and st: "started c e" and run: "LoadCachesFromDB (\<lambda>_. False) None db e = (err, e')"
  shows "positions_ok (positionCache e') (nextPosID e')" and "owners_ok (positionCache e') (memAccounts e')"
    and "- (2 ^ 63) \<le> nextPosID e'"
proof -
  note l = loaded [OF db st run]
  have ids: "distinct (map prID (FindAllActive db))" "prID ` set (FindAllActive db) \<subseteq> fst ` set (dbPositions db)"
    using FindAllActive_ids db by (auto simp: db_consistent_def)
  have "cache_ok (positionCache e')" unfolding l(2) by (rule loadPositions_ok) (use ids in \<open>simp_all add: cache_ok_new\<close>)
  moreover have row: "\<exists>p \<in> set (FindAllActive db). i = prID p \<and> x = loadedPosition p"
    if "map_of (posLive (positionCache e')) i = Some x" for i x
    using map_of_SomeD [OF that] by (auto simp: l(3))
  moreover have "pos_ok (loadedPosition p)" if "p \<in> set (FindAllActive db)" for p
    using db that by (auto simp: db_consistent_def pos_ok_def posQty_def loadedPosition_def NewCachedPosition_def)
  moreover have "prID p \<le> nextPosID e'" if "p \<in> set (FindAllActive db)" for p
    using maxID_le [of "prID p" "dbPositions db"] ids(2) that unfolding l(6) by (force split: if_splits)
  moreover have gone: "posGone (positionCache e') = []" by (simp add: l(2))
  ultimately show "positions_ok (positionCache e') (nextPosID e')" by (fastforce simp: positions_ok_def)
  have "holds_account (prUserID p) (memAccounts e')" if "p \<in> set (FindAllActive db)" for p
  proof -
    have "prUserID p \<in> fst ` set (dbAccounts db) \<union> set systemUsers" using db that by (auto simp: db_consistent_def)
    moreover have "u \<in> fst ` set al \<Longrightarrow> map_of al u \<noteq> None" for u :: int and al :: "(int \<times> account_row) list"
      by (simp add: map_of_eq_None_iff)
    ultimately show ?thesis by (auto simp: holds_account_def l(5))
  qed
  then show "owners_ok (positionCache e') (memAccounts e')"
    using row gone by (fastforce simp: owners_ok_def loadedPosition_def NewCachedPosition_def)
  show "- (2 ^ 63) \<le> nextPosID e'" by (simp add: l(6))
qed

lemma loaded_exchange_ok:
  assumes db: "db_consistent c db" and st: "started c e" and run: "LoadCachesFromDB (\<lambda>_. False) None db e = (err, e')"
  shows "exchange_ok e'"
proof -
  note l = loaded [OF db st run]
  have ids: "distinct (map coID (List.map_filter priced (FindAllPending db)))"
    "coID ` set (List.map_filter priced (FindAllPending db)) \<subseteq> fst ` set (dbOrders db)"
    using priced_ids db by (auto simp: db_consistent_def)
  have bk: "ebook e' = NewBook\<lparr>nextID := nextID (ebook e')\<rparr>" "1 \<le> nextID (ebook e')" by (simp_all add: l(7) SetNextID_def)
  have "book_ok (NewBook\<lparr>nextID := n\<rparr>)" "order_ids (NewBook\<lparr>nextID := n\<rparr>) = {}" "book_users (NewBook\<lparr>nextID := n\<rparr>) = {}" for n
    by (simp add: NewBook_ok) (simp_all add: book_users_def order_ids_def resting_def NewBook_def)
  from this [of "nextID (ebook e')", folded bk(1)] bk(2)
  have book: "book_ok (ebook e')" "ids_below (ebook e')" "book_users (ebook e') = {}" by (simp_all add: ids_below_def)
  have "orders_ok c (orderCache e') (nextID (ebook e')) (memAccounts e')"
    unfolding orders_ok_def
  proof (intro conjI allI impI)
    show "distinct (map fst (orderCache e'))" using ids(1) by (simp add: l(4) comp_def)
  next
    fix i co
    assume "map_of (orderCache e') i = Some co"
    then have co: "co \<in> set (List.map_filter priced (FindAllPending db))" "coID co = i"
      using map_of_SomeD by (fastforce simp: l(4))+
    then show "coID co = i" by simp
    have "i \<le> maxID (dbOrders db)" using ids(2) co maxID_le by blast
    then show "i \<le> nextID (ebook e')" by (simp add: l(7) SetNextID_def)
    show "0 \<le> order_cost c co" using db co(1) by (auto simp: db_consistent_def)
    have "0 < coUserID co" "coUserID co \<in> fst ` set (dbAccounts db)" using db co(1) by (auto simp: db_consistent_def)
    then show "holds_account (coUserID co) (memAccounts e')"
      by (auto simp: holds_account_def l(5) systemUsers_def map_of_eq_None_iff)
  next
    fix u
    show "frozen_of u (memAccounts e') = frozen_for c u (orderCache e')"
    proof (cases "map_of (dbAccounts db) u")
      case None
      then have "u \<notin> fst ` set (dbAccounts db)" by (simp add: map_of_eq_None_iff)
      with None pending_cost_absent [OF db, of u] show ?thesis
        by (auto simp: pending_cost_loaded [OF l(4)] frozen_of_def l(5))
    next
      case (Some a)
      then have "(u, a) \<in> set (dbAccounts db)" by (rule map_of_SomeD)
      then have "u \<notin> set systemUsers \<Longrightarrow> aFrozen a = pending_cost c u db" using db by (auto simp: db_consistent_def)
      then show ?thesis using Some pending_cost_absent [OF db, of u]
        by (auto simp: pending_cost_loaded [OF l(4)] frozen_of_def l(5) memAccount_def systemUsers_def)
    qed
  qed
  moreover have "engine_ok e'" using loaded_positions_ok [OF db st run] st by (simp add: engine_ok_def l(8) started_def)
  ultimately show ?thesis using book st by (simp add: exchange_ok_def l(8,9) started_def)
qed

subsection \<open>The reconciliation after a start\<close>







subsection \<open>What a start promises\<close>

definition fresh_engine :: "clearance \<Rightarrow> dec \<Rightarrow> engine" where
  "fresh_engine c minM =
     NewEngine NewPriceCache NewPositionCache NewOrderCache (Some NewBook) c \<lparr>events = []\<rparr>
       \<lparr>cfgMaxLeverage = 100, cfgMinMargin = minM, cfgMaxPositions = 0, cfgMaxPriceDeviation = 0\<rparr>"

lemma fresh_started: "clearance_ok c \<Longrightarrow> fee_rates c rate \<Longrightarrow> 0 < minM \<Longrightarrow> started c (fresh_engine c minM)"
  by (auto simp: started_def fresh_engine_def NewEngine_def)

definition sample_db :: database where
  "sample_db =
     \<lparr>dbAccounts = [(7, \<lparr>aBalance = 900, aFrozen = 1004 / 100, aTotalPnl = 0, aResetCount = 0\<rparr>)],
      dbPositions = [(100003, \<lparr>prID = 100003, prUserID = 7, prSide = 1, prMarginMode = 2, prLeverage = 10, prEntryPrice = 100,
          prQuantity = 2, prMargin = 20, prLiqPrice = 91, prForceTpPrice = 150, prTakeProfit = None, prStopLoss = Some 95,
          prFundingPnl = 0, prStatus = PositionStatusActive\<rparr>)],
      dbOrders = [(4, \<lparr>omID = 4, omUserID = 7, omSide = 1, omOrderType = OrderTypeLimit, omLeverage = 20, omPrice = Some 90,
          omQuantity = 2, omFilledPrice = None, omMarginCost = 10, omTakeProfit = None, omStopLoss = None,
          omStatus = OrderStatusPending, omPositionID = None\<rparr>)],
      dbTrades = [], dbSettlements = [], dbRates = []\<rparr>"

lemma sample_db_consistent: "db_consistent sample_clearance sample_db"
  by (simp add: db_consistent_def sample_db_def FindAllActive_def scanPosition_def FindAllPending_def map_filter_simps
      priced_def loadedOrder_def order_cost_def sample_clearance_def NewClearance_def CalcMakerFee_def clFee_def
      CalcFee_def GetTier_def NewCalculator_def DefaultTiers_def mk_tier_def pending_cost_def systemUsers_def)

text \<open>
  Starting on a consistent database reports no error and gives a well-formed exchange that serves
  any sequence of requests while IDs are left. Every active position is in the cache with the row's
  data and every pending order in the order cache, while the order book is empty: the restored
  orders rest nowhere and no trade can fill them.
\<close>

theorem LoadCachesFromDB_serves:
  assumes "db_consistent c db" and "started c e" and "LoadCachesFromDB (\<lambda>_. False) None db e = (err, e')"
    and "div_law D" and "room (length rs) e'"
  shows "err = None \<and> exchange_ok e' \<and> (\<exists>e''. serves D e' rs e'') \<and>
    map snd (posLive (positionCache e')) = map loadedPosition (FindAllActive db) \<and>
    map snd (orderCache e') = List.map_filter priced (FindAllPending db) \<and> resting (ebook e') = []"
proof -
  note l = loaded [OF assms(1-3)]
  have ok: "exchange_ok e'" using loaded_exchange_ok [OF assms(1-3)] .
  have "resting (ebook e') = []" by (simp add: l(7) SetNextID_def NewBook_def resting_def)
  with ok serves_progress [OF assms(4) ok assms(5)] l(1,3,4) show ?thesis by (simp add: comp_def)
qed

theorem LoadCachesFromDB_serves_witness:
  "\<exists>e'. LoadCachesFromDB (\<lambda>_. False) None sample_db (fresh_engine sample_clearance 1) = (None, e') \<and> exchange_ok e' \<and>
     (\<exists>e''. serves dec16 e' [Limit 7 1 10 20 100 None None, CloseBy 100003 7 0 0] e'')"
proof -
  obtain err e' where run: "LoadCachesFromDB (\<lambda>_. False) None sample_db (fresh_engine sample_clearance 1) = (err, e')" by force
  obtain rate where "fee_rates sample_clearance rate"
    using sample_exchange_ok unfolding exchange_ok_def by auto
  from fresh_started [OF sample_clearance_ok this, of 1] have st: "started sample_clearance (fresh_engine sample_clearance 1)" by simp
  note l = loaded [OF sample_db_consistent st run]
  have "room (Suc (Suc 0)) e'" by (simp add: room_def l(6,7) SetNextID_def maxID_def sample_db_def)
  with LoadCachesFromDB_serves [OF sample_db_consistent st run dec16_law, of "[Limit 7 1 10 20 100 None None, CloseBy 100003 7 0 0]"]
  show ?thesis using run by auto
qed



end
