(* ===== verification/Hub.thy ===== *)
theory Hub
  imports Prelude
begin

section \<open>The WebSocket hub (\<open>internal/ws\<close>)\<close>

text \<open>
  The hub owns the map from users to their connections and closes a connection's channel when it lets
  go of it; in Go, sending on a closed channel and closing it twice are panics, \<open>None\<close> here. A client is
  a pointer, the index of its object. The branches of \<open>Hub.Run\<close> are the functions \<open>onRegister\<close>,
  \<open>onUnregister\<close> and \<open>onBroadcast\<close>; they run one at a time. \<open>SendToUser\<close> runs in the goroutine of its
  caller, so besides the whole call there are its two parts, the lookup in the map and the send.
  Messages are their texts. The network connection and its deadlines are left out: what a peer does is
  when its \<open>ReadPump\<close> ends and when its \<open>WritePump\<close> takes a message.
\<close>

subsection \<open>Channels\<close>

record ws_client =
  clUser :: int
  clSend :: "string list"
  clClosed :: bool

record hub =
  hubClients :: "(int \<times> nat) list"
  hubObjects :: "ws_client list"

definition NewHub :: hub where
  "NewHub = \<lparr>hubClients = [], hubObjects = []\<rparr>"

definition sendCap :: nat where
  "sendCap = 256"

definition NewClient :: "int \<Rightarrow> hub \<Rightarrow> nat \<times> hub" where
  "NewClient userID h =
     (length (hubObjects h), h\<lparr>hubObjects := hubObjects h @ [\<lparr>clUser = userID, clSend = [], clClosed = False\<rparr>]\<rparr>)"

definition client :: "nat \<Rightarrow> hub \<Rightarrow> ws_client option" where
  "client p h = (if p < length (hubObjects h) then Some (hubObjects h ! p) else None)"

definition set_client :: "nat \<Rightarrow> ws_client \<Rightarrow> hub \<Rightarrow> hub" where
  "set_client p c h = h\<lparr>hubObjects := (hubObjects h)[p := c]\<rparr>"

text \<open>A send in a \<open>select\<close> with a default: whether the message was taken.\<close>

definition trySend :: "nat \<Rightarrow> string \<Rightarrow> hub \<Rightarrow> (bool \<times> hub) option" where
  "trySend p msg h =
     do {
       c \<leftarrow> client p h;
       (if clClosed c then None
        else if length (clSend c) < sendCap then Some (True, set_client p (c\<lparr>clSend := clSend c @ [msg]\<rparr>) h)
        else Some (False, h))
     }"

definition closeSend :: "nat \<Rightarrow> hub \<Rightarrow> hub option" where
  "closeSend p h =
     do { c \<leftarrow> client p h; if clClosed c then None else Some (set_client p (c\<lparr>clClosed := True\<rparr>) h) }"

text \<open>The receive in \<open>WritePump\<close>: the message written to the peer.\<close>

definition takeMessage :: "nat \<Rightarrow> hub \<Rightarrow> string option \<times> hub" where
  "takeMessage p h =
     (case client p h of
        None \<Rightarrow> (None, h)
      | Some c \<Rightarrow> (case clSend c of [] \<Rightarrow> (None, h) | m # ms \<Rightarrow> (Some m, set_client p (c\<lparr>clSend := ms\<rparr>) h)))"

subsection \<open>The loop\<close>

definition dropClient :: "int \<Rightarrow> hub \<Rightarrow> hub" where
  "dropClient userID h = h\<lparr>hubClients := AList.delete userID (hubClients h)\<rparr>"

definition onRegister :: "nat \<Rightarrow> hub \<Rightarrow> hub option" where
  "onRegister p h =
     do {
       c \<leftarrow> client p h;
       h1 \<leftarrow> (case map_of (hubClients h) (clUser c) of
                Some old \<Rightarrow> closeSend old (dropClient (clUser c) h)
              | None \<Rightarrow> Some h);
       Some (h1\<lparr>hubClients := AList.update (clUser c) p (hubClients h1)\<rparr>)
     }"

definition onUnregister :: "nat \<Rightarrow> hub \<Rightarrow> hub option" where
  "onUnregister p h =
     do {
       c \<leftarrow> client p h;
       (case map_of (hubClients h) (clUser c) of
          Some actual \<Rightarrow> if actual = p then closeSend p (dropClient (clUser c) h) else Some h
        | None \<Rightarrow> Some h)
     }"

fun broadcastAll :: "string \<Rightarrow> (int \<times> nat) list \<Rightarrow> hub \<Rightarrow> hub option" where
  "broadcastAll msg [] h = Some h"
| "broadcastAll msg ((key, p) # rest) h =
     do {
       (sent, h1) \<leftarrow> trySend p msg h;
       h2 \<leftarrow> (if sent then Some h1 else closeSend p (dropClient key h1));
       broadcastAll msg rest h2
     }"

definition onBroadcast :: "string \<Rightarrow> hub \<Rightarrow> hub option" where
  "onBroadcast msg h = broadcastAll msg (hubClients h) h"

definition SendToUser :: "int \<Rightarrow> string \<Rightarrow> hub \<Rightarrow> hub option" where
  "SendToUser userID msg h =
     (case map_of (hubClients h) userID of Some p \<Rightarrow> map_option snd (trySend p msg h) | None \<Rightarrow> Some h)"

subsection \<open>Runs\<close>

text \<open>
  The program's runs when a send is not interrupted: connections that were made and not yet registered,
  and those registered whose \<open>ReadPump\<close> has not ended. A handler registers the client it made once, and
  the end of the client's \<open>ReadPump\<close> unregisters it once.
\<close>

inductive hub_reach :: "hub \<Rightarrow> nat set \<Rightarrow> nat set \<Rightarrow> bool" where
  hub_new: "hub_reach NewHub {} {}"
| hub_connect: "hub_reach h made reading \<Longrightarrow> NewClient u h = (p, h') \<Longrightarrow> hub_reach h' (insert p made) reading"
| hub_register: "hub_reach h made reading \<Longrightarrow> p \<in> made \<Longrightarrow> onRegister p h = Some h' \<Longrightarrow>
    hub_reach h' (made - {p}) (insert p reading)"
| hub_unregister: "hub_reach h made reading \<Longrightarrow> p \<in> reading \<Longrightarrow> onUnregister p h = Some h' \<Longrightarrow>
    hub_reach h' made (reading - {p})"
| hub_broadcast: "hub_reach h made reading \<Longrightarrow> onBroadcast msg h = Some h' \<Longrightarrow> hub_reach h' made reading"
| hub_send: "hub_reach h made reading \<Longrightarrow> SendToUser u msg h = Some h' \<Longrightarrow> hub_reach h' made reading"
| hub_take: "hub_reach h made reading \<Longrightarrow> takeMessage p h = (m, h') \<Longrightarrow> hub_reach h' made reading"

subsection \<open>The invariant\<close>

lemma client_set [simp]: "client p (set_client q c h) = (if p = q \<and> client q h \<noteq> None then Some c else client p h)"
  by (auto simp: client_def set_client_def)

lemma client_frame [simp]:
  "client p (h\<lparr>hubClients := al\<rparr>) = client p h" "client p (dropClient u h) = client p h"
  "hubClients (set_client p c h) = hubClients h" "hubClients (dropClient u h) = AList.delete u (hubClients h)"
  by (simp_all add: client_def set_client_def dropClient_def)

lemma client_new:
  "NewClient u h = (p, h') \<Longrightarrow> hubClients h' = hubClients h \<and> client p h = None \<and>
     client q h' = (if q = p then Some \<lparr>clUser = u, clSend = [], clClosed = False\<rparr> else client q h)"
  by (auto simp: NewClient_def client_def nth_append)

text \<open>
  Every connection in the map is open, registered and stands under its user; every open channel
  belongs to a connection in the map or not yet registered.
\<close>

definition hub_ok :: "hub \<Rightarrow> nat set \<Rightarrow> nat set \<Rightarrow> bool" where
  "hub_ok h made reading \<longleftrightarrow>
     distinct (map fst (hubClients h)) \<and>
     (\<forall>u p. map_of (hubClients h) u = Some p \<longrightarrow>
        (\<exists>c. client p h = Some c \<and> clUser c = u \<and> \<not> clClosed c) \<and> p \<in> reading) \<and>
     (\<forall>p \<in> made. \<exists>c. client p h = Some c \<and> \<not> clClosed c) \<and>
     (\<forall>p \<in> reading. client p h \<noteq> None \<and> p \<notin> made) \<and>
     (\<forall>p c. client p h = Some c \<and> \<not> clClosed c \<longrightarrow> p \<in> made \<or> map_of (hubClients h) (clUser c) = Some p)"

lemma hub_ok_lookup:
  assumes "hub_ok h made reading" and "map_of (hubClients h) u = Some p"
  obtains c where "client p h = Some c" and "clUser c = u" and "\<not> clClosed c" and "p \<in> reading" and "p \<notin> made"
  using assms that unfolding hub_ok_def by metis

lemma hub_ok_open:
  "hub_ok h made reading \<Longrightarrow> client p h = Some c \<Longrightarrow> \<not> clClosed c \<Longrightarrow> p \<notin> made \<Longrightarrow> map_of (hubClients h) (clUser c) = Some p"
  unfolding hub_ok_def by blast

lemma hub_ok_queue:
  assumes ok: "hub_ok h made reading" and c: "client p h = Some c"
  shows "hub_ok (set_client p (c\<lparr>clSend := ms\<rparr>) h) made reading"
proof -
  have "clUser c = u \<and> \<not> clClosed c" if "map_of (hubClients h) u = Some p" for u
    using hub_ok_lookup [OF ok that] c by (metis option.inject)
  moreover have "\<not> clClosed c" if "p \<in> made" using ok that c unfolding hub_ok_def by (metis option.inject)
  ultimately show ?thesis using ok c unfolding hub_ok_def by (intro conjI) (auto split: if_splits)
qed

lemma trySend_ok:
  assumes ok: "hub_ok h made reading" and p: "map_of (hubClients h) u = Some p"
  shows "\<exists>sent h'. trySend p msg h = Some (sent, h') \<and> hub_ok h' made reading \<and> hubClients h' = hubClients h"
proof -
  obtain c where c: "client p h = Some c" "\<not> clClosed c" using hub_ok_lookup [OF ok p] by metis
  then show ?thesis using ok hub_ok_queue [OF ok c(1)] by (cases "length (clSend c) < sendCap") (auto simp: trySend_def)
qed

lemma evict_ok:
  assumes ok: "hub_ok h made reading" and p: "map_of (hubClients h) u = Some p" and R: "R \<subseteq> {p}"
  shows "\<exists>h'. closeSend p (dropClient u h) = Some h' \<and> hub_ok h' made (reading - R) \<and>
    hubClients h' = AList.delete u (hubClients h) \<and> client q h' = (if q = p then map_option (clClosed_update (\<lambda>_. True)) (client p h) else client q h)"
proof -
  obtain c where c: "client p h = Some c" "clUser c = u" "\<not> clClosed c" "p \<notin> made" using hub_ok_lookup [OF ok p] by metis
  have other: "v = u" if "map_of (hubClients h) v = Some p" for v using hub_ok_lookup [OF ok that] c by (metis option.inject)
  let ?h = "set_client p (c\<lparr>clClosed := True\<rparr>) (dropClient u h)"
  have "hub_ok ?h made (reading - R)"
    unfolding hub_ok_def
  proof (intro conjI allI impI ballI)
    show "distinct (map fst (hubClients ?h))" using ok by (simp add: hub_ok_def distinct_delete)
  next
    fix v q
    assume v: "map_of (hubClients ?h) v = Some q"
    then have "v \<noteq> u" "map_of (hubClients h) v = Some q" by (simp_all split: if_splits)
    moreover from this other have "q \<noteq> p" by blast
    ultimately show "\<exists>d. client q ?h = Some d \<and> clUser d = v \<and> \<not> clClosed d" "q \<in> reading - R"
      using hub_ok_lookup [OF ok, of v q] R by auto
  next
    fix q
    assume "q \<in> made"
    with c(4) ok show "\<exists>d. client q ?h = Some d \<and> \<not> clClosed d" unfolding hub_ok_def by auto
  next
    fix q
    assume "q \<in> reading - R"
    with ok show "client q ?h \<noteq> None" "q \<notin> made" unfolding hub_ok_def by auto
  next
    fix q d
    assume "client q ?h = Some d \<and> \<not> clClosed d"
    then have d: "client q h = Some d" "\<not> clClosed d" "q \<noteq> p" using c by (auto split: if_splits)
    show "q \<in> made \<or> map_of (hubClients ?h) (clUser d) = Some q"
      using hub_ok_open [OF ok d(1,2)] p d(3) by (cases "q \<in> made") auto
  qed
  with c show ?thesis by (simp add: closeSend_def)
qed

lemma register_ok:
  assumes ok: "hub_ok h made reading" and p: "p \<in> made"
  shows "\<exists>h'. onRegister p h = Some h' \<and> hub_ok h' (made - {p}) (insert p reading)"
proof -
  obtain c where c: "client p h = Some c" "\<not> clClosed c" using ok p unfolding hub_ok_def by blast
  obtain h1 where h1: "(case map_of (hubClients h) (clUser c) of Some old \<Rightarrow> closeSend old (dropClient (clUser c) h) | None \<Rightarrow> Some h) = Some h1"
    and ok1: "hub_ok h1 made reading" "map_of (hubClients h1) (clUser c) = None" and c1: "client p h1 = Some c"
  proof (cases "map_of (hubClients h) (clUser c)")
    case None
    with ok c that show thesis by simp
  next
    case (Some old)
    have "old \<noteq> p" using hub_ok_lookup [OF ok Some] p by blast
    with evict_ok [OF ok Some, of "{}" p] Some c that show thesis by auto
  qed
  let ?h = "h1\<lparr>hubClients := AList.update (clUser c) p (hubClients h1)\<rparr>"
  have "hub_ok ?h (made - {p}) (insert p reading)"
    unfolding hub_ok_def
  proof (intro conjI allI impI ballI)
    show "distinct (map fst (hubClients ?h))" using ok1(1) by (simp add: hub_ok_def distinct_update)
  next
    fix u q
    assume "map_of (hubClients ?h) u = Some q"
    then consider "u = clUser c" "q = p" | "u \<noteq> clUser c" "map_of (hubClients h1) u = Some q" by (auto split: if_splits)
    then show "\<exists>d. client q ?h = Some d \<and> clUser d = u \<and> \<not> clClosed d" "q \<in> insert p reading"
      using c c1 hub_ok_lookup [OF ok1(1), of u q] by (cases; auto)+
  next
    fix q
    assume "q \<in> made - {p}"
    with ok1(1) show "\<exists>d. client q ?h = Some d \<and> \<not> clClosed d" unfolding hub_ok_def by auto
  next
    fix q
    assume "q \<in> insert p reading"
    with ok1(1) c1 show "client q ?h \<noteq> None" "q \<notin> made - {p}" unfolding hub_ok_def by auto
  next
    fix q d
    assume "client q ?h = Some d \<and> \<not> clClosed d"
    then show "q \<in> made - {p} \<or> map_of (hubClients ?h) (clUser d) = Some q"
      using hub_ok_open [OF ok1(1), of q d] ok1(2) c1 by (cases "q \<in> made") auto
  qed
  with c h1 show ?thesis by (simp add: onRegister_def)
qed

lemma unregister_ok:
  assumes ok: "hub_ok h made reading" and p: "p \<in> reading"
  shows "\<exists>h'. onUnregister p h = Some h' \<and> hub_ok h' made (reading - {p})"
proof -
  obtain c where c: "client p h = Some c" using ok p unfolding hub_ok_def by blast
  show ?thesis
  proof (cases "map_of (hubClients h) (clUser c) = Some p")
    case True
    with c evict_ok [OF ok True, of "{p}" p] show ?thesis by (auto simp: onUnregister_def)
  next
    case False
    then have "onUnregister p h = Some h" using c by (auto simp: onUnregister_def split: option.split)
    moreover have "u = clUser c" if "map_of (hubClients h) u = Some p" for u
      using hub_ok_lookup [OF ok that] c by (metis option.inject)
    then have "hub_ok h made (reading - {p})" using ok False unfolding hub_ok_def by blast
    ultimately show ?thesis by blast
  qed
qed

lemma broadcastAll_ok:
  "hub_ok h made reading \<Longrightarrow> distinct (map fst cs) \<Longrightarrow> (\<forall>(u, p) \<in> set cs. map_of (hubClients h) u = Some p) \<Longrightarrow>
   \<exists>h'. broadcastAll msg cs h = Some h' \<and> hub_ok h' made reading"
proof (induction cs arbitrary: h)
  case (Cons x cs)
  obtain u p where x: "x = (u, p)" by force
  with Cons.prems(3) have p: "map_of (hubClients h) u = Some p" by simp
  obtain sent h1 where h1: "trySend p msg h = Some (sent, h1)" "hub_ok h1 made reading" "hubClients h1 = hubClients h"
    using trySend_ok [OF Cons.prems(1) p] by blast
  obtain h2 where h2: "(if sent then Some h1 else closeSend p (dropClient u h1)) = Some h2" "hub_ok h2 made reading"
      "\<forall>v. v \<noteq> u \<longrightarrow> map_of (hubClients h2) v = map_of (hubClients h) v"
    using h1 evict_ok [OF h1(2), of u p "{}" p] p by (cases sent) auto
  have "\<forall>(v, q) \<in> set cs. map_of (hubClients h2) v = Some q" using Cons.prems(2,3) h2(3) x by force
  from Cons.IH [OF h2(2) _ this] Cons.prems(2) h1(1) h2(1) x show ?case by auto
qed simp

lemma SendToUser_ok: "hub_ok h made reading \<Longrightarrow> \<exists>h'. SendToUser u msg h = Some h' \<and> hub_ok h' made reading"
  using trySend_ok by (fastforce simp: SendToUser_def split: option.split)

lemma takeMessage_ok: "hub_ok h made reading \<Longrightarrow> hub_ok (snd (takeMessage p h)) made reading"
  by (auto simp: takeMessage_def hub_ok_queue split: option.split list.split)

lemma onBroadcast_ok: "hub_ok h made reading \<Longrightarrow> \<exists>h'. onBroadcast msg h = Some h' \<and> hub_ok h' made reading"
  unfolding onBroadcast_def by (rule broadcastAll_ok) (auto simp: hub_ok_def)

lemma connect_ok:
  assumes "hub_ok h made reading" and "NewClient u h = (p, h')"
  shows "hub_ok h' (insert p made) reading"
proof -
  note new = client_new [OF assms(2)]
  have fresh: "p \<notin> made" "p \<notin> reading" "\<And>v. map_of (hubClients h) v \<noteq> Some p"
    using assms(1) new unfolding hub_ok_def by (metis option.distinct(1))+
  have inv: "client q h' = client q h" if "q \<in> made \<or> q \<in> reading \<or> map_of (hubClients h) v = Some q" for q v
    using new fresh that by metis
  show ?thesis
    unfolding hub_ok_def
  proof (intro conjI allI impI ballI)
    show "distinct (map fst (hubClients h'))" using assms(1) new by (simp add: hub_ok_def)
  next
    fix v q
    assume "map_of (hubClients h') v = Some q"
    then have "map_of (hubClients h) v = Some q" using new by simp
    from hub_ok_lookup [OF assms(1) this] inv [of q v] this
    show "\<exists>c. client q h' = Some c \<and> clUser c = v \<and> \<not> clClosed c" "q \<in> reading" by metis+
  next
    fix q
    assume "q \<in> insert p made"
    then show "\<exists>c. client q h' = Some c \<and> \<not> clClosed c"
      using assms(1) new inv [of q] unfolding hub_ok_def by (cases "q = p") auto
  next
    fix q
    assume "q \<in> reading"
    then show "client q h' \<noteq> None" "q \<notin> insert p made"
      using assms(1) inv [of q] fresh unfolding hub_ok_def by auto
  next
    fix q c
    assume "client q h' = Some c \<and> \<not> clClosed c"
    then show "q \<in> insert p made \<or> map_of (hubClients h') (clUser c) = Some q"
      using hub_ok_open [OF assms(1), of q c] new by (cases "q = p"; cases "q \<in> made") auto
  qed
qed

lemma hub_ok_new [simp]: "hub_ok NewHub {} {}"
  by (simp add: hub_ok_def NewHub_def client_def)

lemma hub_reach_ok: "hub_reach h made reading \<Longrightarrow> hub_ok h made reading"
proof (induction rule: hub_reach.induct)
  case hub_new
  show ?case by simp
next
  case (hub_connect h made reading u p h')
  with connect_ok [OF hub_connect.IH hub_connect.hyps(2)] show ?case by simp
next
  case (hub_register h made reading p h')
  with register_ok [OF hub_register.IH hub_register.hyps(2)] show ?case by simp
next
  case (hub_unregister h made reading p h')
  with unregister_ok [OF hub_unregister.IH hub_unregister.hyps(2)] show ?case by simp
next
  case (hub_broadcast h made reading msg h')
  with onBroadcast_ok [OF hub_broadcast.IH, of msg] show ?case by simp
next
  case (hub_send h made reading u msg h')
  with SendToUser_ok [OF hub_send.IH, of u msg] show ?case by simp
next
  case (hub_take h made reading p m h')
  with takeMessage_ok [OF hub_take.IH, of p] show ?case by simp
qed

subsection \<open>What the hub promises\<close>

text \<open>
  C17. In every run in which sends to a user are not interrupted the hub never panics: no channel is
  closed twice and nothing is sent on a closed one, whatever connections come, go or stop reading. No
  user has more than one open registered connection, and none is forgotten open.
\<close>

theorem hub_never_panics:
  assumes "hub_reach h made reading"
  shows "(\<forall>p \<in> made. onRegister p h \<noteq> None) \<and> (\<forall>p \<in> reading. onUnregister p h \<noteq> None) \<and>
    (\<forall>msg. onBroadcast msg h \<noteq> None) \<and> (\<forall>u msg. SendToUser u msg h \<noteq> None) \<and>
    (\<forall>p c. p \<notin> made \<and> client p h = Some c \<longrightarrow> (\<not> clClosed c \<longleftrightarrow> map_of (hubClients h) (clUser c) = Some p))"
proof -
  note ok = hub_reach_ok [OF assms]
  have "\<forall>p \<in> made. onRegister p h \<noteq> None" using register_ok [OF ok] by force
  moreover have "\<forall>p \<in> reading. onUnregister p h \<noteq> None" using unregister_ok [OF ok] by force
  moreover have "onBroadcast msg h \<noteq> None" "SendToUser u msg h \<noteq> None" for u msg
    using onBroadcast_ok [OF ok, of msg] SendToUser_ok [OF ok, of u msg] by auto
  moreover have "\<not> clClosed c \<longleftrightarrow> map_of (hubClients h) (clUser c) = Some p" if "p \<notin> made" "client p h = Some c" for p c
    using hub_ok_open [OF ok that(2)] hub_ok_lookup [OF ok, of "clUser c" p] that by (metis option.inject)
  ultimately show ?thesis by blast
qed

definition sample_hub :: hub where
  "sample_hub = the (onRegister 0 (snd (NewClient 7 NewHub)))"

lemma sample_hub_reach: "hub_reach (snd (NewClient 7 sample_hub)) {1} {0}"
proof -
  have "hub_reach (snd (NewClient 7 NewHub)) {0} {}"
    by (rule hub_connect [OF hub_new, of 7]) (simp add: NewClient_def NewHub_def)
  from hub_register [OF this, of 0 sample_hub] have "hub_reach sample_hub {} {0}"
    by (simp add: sample_hub_def onRegister_def NewClient_def NewHub_def client_def)
  from hub_connect [OF this, of 7 1] show ?thesis
    by (simp add: NewClient_def sample_hub_def onRegister_def NewHub_def client_def)
qed

theorem hub_never_panics_witness:
  "onRegister 1 (snd (NewClient 7 sample_hub)) \<noteq> None \<and> onUnregister 0 (snd (NewClient 7 sample_hub)) \<noteq> None \<and>
   SendToUser 7 ''pnl'' (snd (NewClient 7 sample_hub)) \<noteq> None"
  using hub_never_panics [OF sample_hub_reach] by simp

text \<open>
  C27. A send to a user is not atomic. When the hub closes the connection between the lookup and the
  send, because the user connected again or the connection ended, the send panics, in the goroutine of
  the engine that sends.
\<close>

theorem SendToUser_races:
  assumes "hub_reach h made reading" and "map_of (hubClients h) u = Some p"
    and "(q \<in> made \<and> map_option clUser (client q h) = Some u \<and> onRegister q h = Some h') \<or> onUnregister p h = Some h'"
  shows "trySend p msg h' = None"
proof -
  note ok = hub_reach_ok [OF assms(1)]
  obtain c where c: "client p h = Some c" "clUser c = u" "\<not> clClosed c" "p \<notin> made" using hub_ok_lookup [OF ok assms(2)] by metis
  have closed: "client p (set_client p (c\<lparr>clClosed := True\<rparr>) (dropClient u h)) = Some (c\<lparr>clClosed := True\<rparr>)" using c by simp
  from assms(3) show ?thesis
  proof
    assume q: "q \<in> made \<and> map_option clUser (client q h) = Some u \<and> onRegister q h = Some h'"
    with assms(2) c have "h' = (set_client p (c\<lparr>clClosed := True\<rparr>) (dropClient u h))\<lparr>hubClients := AList.update u q
        (hubClients (set_client p (c\<lparr>clClosed := True\<rparr>) (dropClient u h)))\<rparr>"
      by (auto simp: onRegister_def closeSend_def)
    with closed show ?thesis by (simp add: trySend_def)
  next
    assume "onUnregister p h = Some h'"
    with assms(2) c have "h' = set_client p (c\<lparr>clClosed := True\<rparr>) (dropClient u h)"
      by (auto simp: onUnregister_def closeSend_def)
    with closed show ?thesis by (simp add: trySend_def)
  qed
qed

theorem SendToUser_races_witness:
  "\<exists>h'. onRegister 1 (snd (NewClient 7 sample_hub)) = Some h' \<and> trySend 0 ''pnl'' h' = None"
proof -
  have start: "map_of (hubClients (snd (NewClient 7 sample_hub))) 7 = Some 0"
      "map_option clUser (client 1 (snd (NewClient 7 sample_hub))) = Some 7"
    by (simp_all add: NewClient_def sample_hub_def onRegister_def NewHub_def client_def)
  obtain h' where "onRegister 1 (snd (NewClient 7 sample_hub)) = Some h'"
    using register_ok [OF hub_reach_ok [OF sample_hub_reach], of 1] by auto
  then show ?thesis using SendToUser_races [OF sample_hub_reach start(1), of 1 h' "''pnl''"] start(2) by auto
qed

end
