(* ===== verification/Pumps.thy ===== *)
theory Pumps
  imports Hub
begin

section \<open>A connection's pumps (\<open>internal/ws/client.go\<close>)\<close>

text \<open>
  The two goroutines of a connection. \<open>ReadPump\<close> ignores what the peer sends and unregisters the client when reading
  fails; \<open>WritePump\<close> writes what the hub has queued, a ping now and then, and a close frame once the hub has
  closed the channel. A round of its loop is one function per case of the \<open>select\<close>; a receive that has to wait is
  \<open>None\<close>. Whether the network takes a frame is an argument. Deadlines only decide when a write or a read fails.
\<close>

subsection \<open>Reading\<close>

text \<open>The reads of a connection, whether each succeeds; the function ends with the first that fails.\<close>

fun ReadPump :: "nat \<Rightarrow> bool list \<Rightarrow> hub \<Rightarrow> hub option" where
  "ReadPump p [] h = Some h"
| "ReadPump p (succeeds # reads) h = (if succeeds then ReadPump p reads h else onUnregister p h)"

lemma ReadPump_once: "ReadPump p reads h = (if False \<in> set reads then onUnregister p h else Some h)"
  by (induction reads) auto

subsection \<open>Writing\<close>

datatype frame = TextFrame string | PingFrame | CloseFrame

record pump =
  pmHub :: hub
  pmWire :: "frame list"
  pmDone :: bool

definition writeFrame :: "bool \<Rightarrow> frame \<Rightarrow> pump \<Rightarrow> pump" where
  "writeFrame fails f s = (if fails then s\<lparr>pmDone := True\<rparr> else s\<lparr>pmWire := pmWire s @ [f]\<rparr>)"

text \<open>The receive. A closed channel still delivers what it holds.\<close>

definition onReceive :: "nat \<Rightarrow> bool \<Rightarrow> pump \<Rightarrow> pump option" where
  "onReceive p fails s =
     (case takeMessage p (pmHub s) of
        (Some message, h) \<Rightarrow> Some (writeFrame fails (TextFrame message) (s\<lparr>pmHub := h\<rparr>))
      | (None, h) \<Rightarrow>
          do {
            c \<leftarrow> client p h;
            (if clClosed c then Some ((writeFrame fails CloseFrame s)\<lparr>pmDone := True\<rparr>) else None)
          })"

definition onPing :: "bool \<Rightarrow> pump \<Rightarrow> pump" where
  "onPing fails s = writeFrame fails PingFrame s"

text \<open>The messages among the frames.\<close>

fun texts :: "frame list \<Rightarrow> string list" where
  "texts [] = []"
| "texts (TextFrame m # fs) = m # texts fs"
| "texts (PingFrame # fs) = texts fs"
| "texts (CloseFrame # fs) = texts fs"

lemma texts_append [simp]: "texts (fs @ gs) = texts fs @ texts gs"
  by (induction fs rule: texts.induct) simp_all

subsection \<open>The life of a connection\<close>

text \<open>What the hub and the other connections do, other than sending.\<close>

inductive hub_quiet :: "nat \<Rightarrow> hub \<Rightarrow> nat set \<Rightarrow> nat set \<Rightarrow> hub \<Rightarrow> nat set \<Rightarrow> nat set \<Rightarrow> bool" for p where
  quiet_connect: "NewClient u h = (q, h') \<Longrightarrow> hub_quiet p h M R h' (insert q M) R"
| quiet_register: "q \<in> M \<Longrightarrow> onRegister q h = Some h' \<Longrightarrow> hub_quiet p h M R h' (M - {q}) (insert q R)"
| quiet_unregister: "q \<in> R \<Longrightarrow> onUnregister q h = Some h' \<Longrightarrow> hub_quiet p h M R h' M (R - {q})"
| quiet_take: "q \<noteq> p \<Longrightarrow> takeMessage q h = (m, h') \<Longrightarrow> hub_quiet p h M R h' M R"

definition queue_of :: "nat \<Rightarrow> hub \<Rightarrow> string list" where
  "queue_of p h = (case client p h of None \<Rightarrow> [] | Some c \<Rightarrow> clSend c)"

text \<open>What a send adds to the queue of a connection it reaches.\<close>

definition queued :: "nat \<Rightarrow> string \<Rightarrow> hub \<Rightarrow> string list" where
  "queued p msg h = (if length (queue_of p h) < sendCap then [msg] else [])"

text \<open>
  The runs of one connection \<open>p\<close> from its making on, among everything else the hub does, with the messages the hub took for
  it in their order.
\<close>

inductive conn_run :: "nat \<Rightarrow> pump \<Rightarrow> string list \<Rightarrow> nat set \<Rightarrow> nat set \<Rightarrow> bool" for p where
  conn_start: "hub_reach h M R \<Longrightarrow> NewClient u h = (p, h') \<Longrightarrow>
    conn_run p \<lparr>pmHub = h', pmWire = [], pmDone = False\<rparr> [] (insert p M) R"
| conn_quiet: "conn_run p s ms M R \<Longrightarrow> hub_quiet p (pmHub s) M R h' M' R' \<Longrightarrow> conn_run p (s\<lparr>pmHub := h'\<rparr>) ms M' R'"
| conn_send: "conn_run p s ms M R \<Longrightarrow> SendToUser u msg (pmHub s) = Some h' \<Longrightarrow>
    conn_run p (s\<lparr>pmHub := h'\<rparr>)
      (ms @ (if map_of (hubClients (pmHub s)) u = Some p then queued p msg (pmHub s) else [])) M R"
| conn_broadcast: "conn_run p s ms M R \<Longrightarrow> onBroadcast msg (pmHub s) = Some h' \<Longrightarrow>
    conn_run p (s\<lparr>pmHub := h'\<rparr>)
      (ms @ (if p \<in> snd ` set (hubClients (pmHub s)) then queued p msg (pmHub s) else [])) M R"
| conn_receive: "conn_run p s ms M R \<Longrightarrow> \<not> pmDone s \<Longrightarrow> onReceive p fails s = Some s' \<Longrightarrow> conn_run p s' ms M R"
| conn_ping: "conn_run p s ms M R \<Longrightarrow> \<not> pmDone s \<Longrightarrow> conn_run p (onPing fails s) ms M R"

lemma pump_frame [simp]:
  "pmHub (writeFrame fails f s) = pmHub s" "pmHub (onPing fails s) = pmHub s"
  by (simp_all add: writeFrame_def onPing_def)

lemma onReceive_hub: "onReceive p fails s = Some s' \<Longrightarrow> \<exists>m. takeMessage p (pmHub s) = (m, pmHub s') \<or> pmHub s' = pmHub s"
  by (auto simp: onReceive_def bind_eq_Some_conv split: prod.splits option.splits if_splits)

text \<open>The hub's side of such a run is a run of the hub.\<close>

lemma conn_run_reach: "conn_run p s ms M R \<Longrightarrow> hub_reach (pmHub s) M R"
proof (induction rule: conn_run.induct)
  case (conn_start h M R u h')
  then show ?case using hub_connect by simp
next
  case (conn_quiet s ms M R h' M' R')
  from conn_quiet.hyps(2) conn_quiet.IH have "hub_reach h' M' R'"
    by cases (auto intro: hub_connect hub_register hub_unregister hub_take)
  then show ?case by simp
next
  case (conn_send s ms M R u msg h')
  then show ?case using hub_send by simp
next
  case (conn_broadcast s ms M R msg h')
  then show ?case using hub_broadcast by simp
next
  case (conn_receive s ms M R fails s')
  then show ?case using onReceive_hub [OF conn_receive.hyps(3)] hub_take by metis
qed simp

subsection \<open>What happens to a queue\<close>

definition keeps_queue :: "nat \<Rightarrow> hub \<Rightarrow> hub \<Rightarrow> bool" where
  "keeps_queue p h h' \<longleftrightarrow>
     (\<forall>c. client p h = Some c \<longrightarrow> (\<exists>c'. client p h' = Some c' \<and> clSend c' = clSend c \<and> (clClosed c \<longrightarrow> clClosed c')))"

lemma keeps_closeSend: "closeSend q h = Some h' \<Longrightarrow> keeps_queue p h h'"
  by (auto simp: keeps_queue_def closeSend_def bind_eq_Some_conv split: if_splits)

lemma keeps_closing: "closeSend q (dropClient u h) = Some h' \<Longrightarrow> keeps_queue p h h'"
  using keeps_closeSend [of q "dropClient u h" h' p] by (simp add: keeps_queue_def)

lemma keeps_quiet: "hub_quiet p h M R h' M' R' \<Longrightarrow> keeps_queue p h h'"
proof (induction rule: hub_quiet.induct)
  case (quiet_connect u h q h' M R)
  from client_new [OF quiet_connect] show ?case by (auto simp: keeps_queue_def)
next
  case (quiet_register q M h h' R)
  then show ?case
    using keeps_closing by (auto simp: onRegister_def bind_eq_Some_conv keeps_queue_def split: option.splits)
next
  case (quiet_unregister q R h h' M)
  then show ?case
    using keeps_closing by (auto simp: onUnregister_def bind_eq_Some_conv keeps_queue_def split: option.splits if_splits)
next
  case (quiet_take q h m h' M R)
  then show ?case by (auto simp: takeMessage_def keeps_queue_def split: option.splits list.splits)
qed

lemma trySend_queue:
  assumes "trySend q msg h = Some (sent, h')" and "client p h = Some c"
  shows "client p h' = Some (if q = p then c\<lparr>clSend := clSend c @ queued p msg h\<rparr> else c) \<and> (q = p \<longrightarrow> \<not> clClosed c)"
  using assms by (auto simp: trySend_def queued_def queue_of_def bind_eq_Some_conv split: if_splits)

lemma broadcastAll_queue:
  "broadcastAll msg cs h = Some h' \<Longrightarrow> distinct (map snd cs) \<Longrightarrow> client p h = Some c \<Longrightarrow>
   \<exists>c'. client p h' = Some c' \<and> clSend c' = clSend c @ (if p \<in> snd ` set cs then queued p msg h else []) \<and>
     (clClosed c \<longrightarrow> clClosed c' \<and> p \<notin> snd ` set cs)"
proof (induction cs arbitrary: h c)
  case (Cons x cs)
  obtain u q where x: "x = (u, q)" by force
  obtain sent h1 h2 where 1: "trySend q msg h = Some (sent, h1)"
    and 2: "(if sent then Some h1 else closeSend q (dropClient u h1)) = Some h2" and 3: "broadcastAll msg cs h2 = Some h'"
    using Cons.prems(1) x by (auto simp: bind_eq_Some_conv)
  let ?c1 = "if q = p then c\<lparr>clSend := clSend c @ queued p msg h\<rparr> else c"
  have c1: "client p h1 = Some ?c1" "q = p \<longrightarrow> \<not> clClosed c" using trySend_queue [OF 1 Cons.prems(3)] by simp_all
  have "keeps_queue p h1 h2" using 2 keeps_closing [of q u h1 h2 p] by (cases sent) (auto simp: keeps_queue_def)
  then obtain c2 where c2: "client p h2 = Some c2" "clSend c2 = clSend ?c1" "clClosed ?c1 \<longrightarrow> clClosed c2"
    using c1(1) unfolding keeps_queue_def by blast
  have d: "distinct (map snd cs)" "q \<notin> snd ` set cs" using Cons.prems(2) x by auto
  obtain c' where c': "client p h' = Some c'" "clSend c' = clSend c2 @ (if p \<in> snd ` set cs then queued p msg h2 else [])"
    "clClosed c2 \<longrightarrow> clClosed c' \<and> p \<notin> snd ` set cs"
    using Cons.IH [OF 3 d(1) c2(1)] by blast
  show ?case
  proof (cases "q = p")
    case True
    then show ?thesis using c' c2 c1 d(2) x by (intro exI [of _ c']) auto
  next
    case False
    then have "queued p msg h2 = queued p msg h" using c2(1,2) Cons.prems(3) by (simp add: queued_def queue_of_def)
    then show ?thesis using False c' c2 c1 x by (intro exI [of _ c']) auto
  qed
qed simp

lemma hub_ok_distinct: "hub_ok h M R \<Longrightarrow> distinct (map snd (hubClients h))"
proof -
  assume ok: "hub_ok h M R"
  have d: "distinct (map fst (hubClients h))" using ok by (simp add: hub_ok_def)
  have "u = v" if "(u, p) \<in> set (hubClients h)" "(v, p) \<in> set (hubClients h)" for u v p
    using hub_ok_lookup [OF ok map_of_is_SomeI [OF d that(1)]] hub_ok_lookup [OF ok map_of_is_SomeI [OF d that(2)]]
    by (metis option.inject)
  then have "inj_on snd (set (hubClients h))" by (auto simp: inj_on_def)
  moreover have "distinct (hubClients h)" using d by (simp add: distinct_map)
  ultimately show ?thesis by (simp add: distinct_map)
qed

subsection \<open>What the peer gets\<close>

definition conn_inv :: "nat \<Rightarrow> pump \<Rightarrow> string list \<Rightarrow> bool" where
  "conn_inv p s ms \<longleftrightarrow>
     (\<exists>c. client p (pmHub s) = Some c \<and> length (clSend c) \<le> sendCap \<and> (\<exists>rest. ms = texts (pmWire s) @ rest) \<and>
        (\<not> pmDone s \<longrightarrow> ms = texts (pmWire s) @ clSend c) \<and>
        (CloseFrame \<in> set (pmWire s) \<longrightarrow> clClosed c \<and> ms = texts (pmWire s)))"

lemma conn_inv_add:
  assumes "conn_inv p s ms" and "client p (pmHub s) = Some c" and "client p h' = Some c'"
    and "clSend c' = clSend c @ qs" and "qs \<noteq> [] \<longrightarrow> qs = queued p msg (pmHub s)"
    and "clClosed c \<longrightarrow> clClosed c' \<and> qs = []"
  shows "conn_inv p (s\<lparr>pmHub := h'\<rparr>) (ms @ qs)"
  using assms by (auto simp: conn_inv_def queued_def queue_of_def split: if_splits)

lemma conn_run_inv: "conn_run p s ms M R \<Longrightarrow> conn_inv p s ms"
proof (induction rule: conn_run.induct)
  case (conn_start h M R u h')
  from client_new [OF conn_start(2)] show ?case by (simp add: conn_inv_def)
next
  case (conn_quiet s ms M R h' M' R')
  from conn_quiet.IH obtain c where c: "client p (pmHub s) = Some c" by (auto simp: conn_inv_def)
  with keeps_quiet [OF conn_quiet.hyps(2)] obtain c' where "client p h' = Some c'" "clSend c' = clSend c" "clClosed c \<longrightarrow> clClosed c'"
    unfolding keeps_queue_def by blast
  with conn_inv_add [OF conn_quiet.IH c, of h' c' "[]"] show ?case by simp
next
  case (conn_send s ms M R u msg h')
  from conn_send.IH obtain c where c: "client p (pmHub s) = Some c" by (auto simp: conn_inv_def)
  show ?case
  proof (cases "map_of (hubClients (pmHub s)) u")
    case None
    then have "h' = pmHub s" using conn_send.hyps(2) by (simp add: SendToUser_def)
    with conn_inv_add [OF conn_send.IH c, of h' c "[]"] c None show ?thesis by simp
  next
    case (Some q)
    then obtain sent where "trySend q msg (pmHub s) = Some (sent, h')" using conn_send.hyps(2) by (auto simp: SendToUser_def)
    from trySend_queue [OF this c] have "client p h' = Some (if q = p then c\<lparr>clSend := clSend c @ queued p msg (pmHub s)\<rparr> else c)"
      "q = p \<longrightarrow> \<not> clClosed c" by simp_all
    with conn_inv_add [OF conn_send.IH c this(1), of "if q = p then queued p msg (pmHub s) else []" msg] Some show ?thesis by auto
  qed
next
  case (conn_broadcast s ms M R msg h')
  from conn_broadcast.IH obtain c where c: "client p (pmHub s) = Some c" by (auto simp: conn_inv_def)
  note d = hub_ok_distinct [OF hub_reach_ok [OF conn_run_reach [OF conn_broadcast.hyps(1)]]]
  from broadcastAll_queue [OF conn_broadcast.hyps(2) [unfolded onBroadcast_def] d c] obtain c' where
    "client p h' = Some c'"
    "clSend c' = clSend c @ (if p \<in> snd ` set (hubClients (pmHub s)) then queued p msg (pmHub s) else [])"
    "clClosed c \<longrightarrow> clClosed c' \<and> p \<notin> snd ` set (hubClients (pmHub s))" by blast
  with conn_inv_add [OF conn_broadcast.IH c this(1,2), of msg] show ?case by auto
next
  case (conn_receive s ms M R fails s')
  then show ?case
    by (auto simp: conn_inv_def onReceive_def takeMessage_def writeFrame_def bind_eq_Some_conv split: list.splits if_splits)
next
  case (conn_ping s ms M R fails)
  then show ?case by (auto simp: conn_inv_def onPing_def writeFrame_def)
qed

text \<open>
  C18. A connection delivers in order: at any time what was written to the peer is a prefix of the messages the
  hub took for it, and until a write fails the rest is exactly what still waits, at most 256 messages. So nothing that was taken is
  skipped, repeated or reordered; and a peer that got the close frame has got every message.
\<close>

theorem pump_delivers:
  assumes "conn_run p s ms M R"
  shows "(\<exists>rest. ms = texts (pmWire s) @ rest) \<and> length (queue_of p (pmHub s)) \<le> 256 \<and>
    (\<not> pmDone s \<longrightarrow> ms = texts (pmWire s) @ queue_of p (pmHub s)) \<and>
    (CloseFrame \<in> set (pmWire s) \<longrightarrow> texts (pmWire s) = ms)"
  using conn_run_inv [OF assms] by (auto simp: conn_inv_def queue_of_def sendCap_def)

text \<open>User 7 connects, is sent a message, and reads it after a ping.\<close>

theorem pump_delivers_witness:
  "\<exists>s M R. conn_run 0 s [''pnl''] M R \<and> pmWire s = [PingFrame, TextFrame ''pnl''] \<and> texts (pmWire s) = [''pnl'']"
proof -
  let ?h0 = "snd (NewClient 7 NewHub)"
  have 0: "conn_run 0 \<lparr>pmHub = ?h0, pmWire = [], pmDone = False\<rparr> [] {0} {}"
    by (rule conn_start [OF hub_new, of 7]) (simp add: NewClient_def NewHub_def)
  have "onRegister 0 ?h0 = Some sample_hub"
    by (simp add: sample_hub_def onRegister_def NewClient_def NewHub_def client_def)
  then have "hub_quiet 0 ?h0 {0} {} sample_hub ({0} - {0}) (insert 0 {})" by (intro quiet_register) simp_all
  from conn_quiet [OF 0, of sample_hub] this
  have 1: "conn_run 0 \<lparr>pmHub = sample_hub, pmWire = [], pmDone = False\<rparr> [] {} {0}" by simp
  let ?h1 = "the (SendToUser 7 ''pnl'' sample_hub)"
  have h: "SendToUser 7 ''pnl'' sample_hub = Some ?h1" "map_of (hubClients sample_hub) 7 = Some 0" "queued 0 ''pnl'' sample_hub = [''pnl'']"
    "fst (takeMessage 0 ?h1) = Some ''pnl''"
    by (simp_all add: sample_hub_def onRegister_def NewClient_def NewHub_def client_def SendToUser_def trySend_def takeMessage_def
        queued_def queue_of_def sendCap_def set_client_def)
  from conn_send [OF 1, of 7 "''pnl''" ?h1] h(1-3)
  have 2: "conn_run 0 \<lparr>pmHub = ?h1, pmWire = [], pmDone = False\<rparr> [''pnl''] {} {0}" by simp
  from conn_ping [OF 2, of False]
  have 3: "conn_run 0 \<lparr>pmHub = ?h1, pmWire = [PingFrame], pmDone = False\<rparr> [''pnl''] {} {0}" by (simp add: onPing_def writeFrame_def)
  let ?s = "\<lparr>pmHub = snd (takeMessage 0 ?h1), pmWire = [PingFrame, TextFrame ''pnl''], pmDone = False\<rparr>"
  have "onReceive 0 False \<lparr>pmHub = ?h1, pmWire = [PingFrame], pmDone = False\<rparr> = Some ?s"
    using h(4) by (cases "takeMessage 0 ?h1") (simp add: onReceive_def writeFrame_def)
  from conn_receive [OF 3 _ this] have run: "conn_run 0 ?s [''pnl''] {} {0}" by simp
  from pump_delivers [OF run] have "texts (pmWire ?s) = [''pnl'']" by auto
  with run show ?thesis by (intro exI [of _ ?s]) auto
qed

end
