(* ===== verification/Tutorial.thy ===== *)
theory Tutorial
  imports Prelude
begin

section \<open>The tutorial (\<open>internal/tutorial\<close>, \<open>internal/model/tutorial_model.go\<close>)\<close>

text \<open>
  Which card a user is shown, and the table of the topics a user has seen. The texts of a card are named
  by its topic and language, or by the numbers that are filled in.
\<close>

subsection \<open>Topics and cards\<close>

definition TopicPerpetualIntro :: string where "TopicPerpetualIntro = ''perpetual_intro''"
definition TopicLeverage :: string where "TopicLeverage = ''leverage_explained''"
definition TopicLongShort :: string where "TopicLongShort = ''long_short''"
definition TopicUnrealizedPnl :: string where "TopicUnrealizedPnl = ''unrealized_pnl''"
definition TopicTPSL :: string where "TopicTPSL = ''tp_sl_risk''"
definition TopicFundingRate :: string where "TopicFundingRate = ''funding_rate''"
definition TopicLiquidation :: string where "TopicLiquidation = ''liquidation''"
definition TopicPostLiquidation :: string where "TopicPostLiquidation = ''post_liquidation''"
definition TopicForceTpADL :: string where "TopicForceTpADL = ''force_tp_adl''"
definition TopicRealizedPnl :: string where "TopicRealizedPnl = ''realized_pnl''"
definition TopicMarketOrder :: string where "TopicMarketOrder = ''market_order''"
definition TopicLimitOrder :: string where "TopicLimitOrder = ''limit_order''"
definition TopicTradingFee :: string where "TopicTradingFee = ''trading_fee''"
definition TopicMarginMode :: string where "TopicMarginMode = ''margin_mode''"

lemmas topic_defs = TopicPerpetualIntro_def TopicLeverage_def TopicLongShort_def TopicUnrealizedPnl_def TopicTPSL_def
  TopicFundingRate_def TopicLiquidation_def TopicPostLiquidation_def TopicForceTpADL_def TopicRealizedPnl_def
  TopicMarketOrder_def TopicLimitOrder_def TopicTradingFee_def TopicMarginMode_def

definition AllTopicIDs :: "string list" where
  "AllTopicIDs =
     [TopicPerpetualIntro, TopicLeverage, TopicLongShort, TopicUnrealizedPnl, TopicTPSL, TopicFundingRate,
      TopicLiquidation, TopicPostLiquidation, TopicForceTpADL, TopicRealizedPnl, TopicMarketOrder, TopicLimitOrder,
      TopicTradingFee, TopicMarginMode]"

definition TotalTopics :: nat where
  "TotalTopics = 14"

datatype card_text =
    StandardText
  | LiquidationText dec dec
  | ForceTpText dec dec
  | RealizedPnlText dec dec dec dec dec

record tutorial_card =
  tcID :: string
  tcEnglish :: bool
  tcShowOnce :: bool
  tcText :: card_text

definition isEnglish :: "string \<Rightarrow> bool" where
  "isEnglish s \<longleftrightarrow> 2 \<le> length s \<and> (take 2 s = ''en'' \<or> take 2 s = ''EN'')"

definition ParseLang :: "string \<Rightarrow> string" where
  "ParseLang acceptLang = (if isEnglish acceptLang then ''en'' else [])"

definition topic_card :: "bool \<Rightarrow> string \<Rightarrow> tutorial_card" where
  "topic_card english t =
     \<lparr>tcID = t, tcEnglish = english, tcShowOnce = (t \<noteq> TopicPostLiquidation \<and> t \<noteq> TopicForceTpADL), tcText = StandardText\<rparr>"

definition GetTopics :: "string \<Rightarrow> (string \<times> tutorial_card) list" where
  "GetTopics lang = map (\<lambda>t. (t, topic_card (isEnglish lang) t)) AllTopicIDs"

definition ShouldShow :: "string \<Rightarrow> string list \<Rightarrow> string \<Rightarrow> tutorial_card option" where
  "ShouldShow topicID completed lang =
     (case map_of (GetTopics lang) topicID of
        None \<Rightarrow> None
      | Some cd \<Rightarrow> if tcShowOnce cd \<and> topicID \<in> set completed then None else Some cd)"

text \<open>The cards with numbers in them; a topic that is missing would be a nil dereference.\<close>

definition ForPostLiquidation :: "dec \<Rightarrow> dec \<Rightarrow> string \<Rightarrow> tutorial_card option" where
  "ForPostLiquidation liqPrice margin lang =
     map_option (tcText_update (\<lambda>_. LiquidationText liqPrice margin)) (map_of (GetTopics lang) TopicPostLiquidation)"

definition ForForceTakeProfit :: "dec \<Rightarrow> dec \<Rightarrow> string \<Rightarrow> tutorial_card option" where
  "ForForceTakeProfit price profit lang =
     map_option (tcText_update (\<lambda>_. ForceTpText price profit)) (map_of (GetTopics lang) TopicForceTpADL)"

definition ForRealizedPnl :: "dec \<Rightarrow> dec \<Rightarrow> dec \<Rightarrow> dec \<Rightarrow> dec \<Rightarrow> string \<Rightarrow> tutorial_card option" where
  "ForRealizedPnl rawPnl pnl fee funding netPnl lang =
     map_option (tcText_update (\<lambda>_. RealizedPnlText rawPnl fee pnl funding netPnl)) (map_of (GetTopics lang) TopicRealizedPnl)"

subsection \<open>Progress\<close>

type_synonym progress = "(int \<times> string) list"

definition MarkComplete :: "int \<Rightarrow> string \<Rightarrow> progress \<Rightarrow> progress" where
  "MarkComplete userID topicID pr = (if (userID, topicID) \<in> set pr then pr else pr @ [(userID, topicID)])"

definition GetCompleted :: "int \<Rightarrow> progress \<Rightarrow> string list" where
  "GetCompleted userID pr = map snd (filter (\<lambda>(u, t). u = userID) pr)"

definition GetCompletedCount :: "int \<Rightarrow> progress \<Rightarrow> nat" where
  "GetCompletedCount userID pr = length (filter (\<lambda>(u, t). u = userID) pr)"

lemma completed_MarkComplete [simp]:
  "set (GetCompleted u (MarkComplete v t pr)) = (if u = v then insert t (set (GetCompleted u pr)) else set (GetCompleted u pr))"
  by (force simp: GetCompleted_def MarkComplete_def)

lemma topics_known [simp]: "map_of (GetTopics lang) t = (if t \<in> set AllTopicIDs then Some (topic_card (isEnglish lang) t) else None)"
proof -
  have "map_of (map (\<lambda>t. (t, f t)) ts) t = (if t \<in> set ts then Some (f t) else None)" for f :: "string \<Rightarrow> tutorial_card" and ts
    by (induction ts) auto
  then show ?thesis by (simp add: GetTopics_def)
qed

lemma ForRealizedPnl_defined: "ForRealizedPnl r p f fu n lang \<noteq> None"
  by (simp add: ForRealizedPnl_def AllTopicIDs_def)

text \<open>A topic that is shown once is not shown again when it has been marked.\<close>

lemma ShouldShow_once:
  assumes "t \<noteq> TopicPostLiquidation" and "t \<noteq> TopicForceTpADL"
  shows "ShouldShow t (GetCompleted u (MarkComplete u t pr)) lang = None"
  using assms by (simp add: ShouldShow_def topic_card_def)

lemma progress_count:
  "distinct pr \<Longrightarrow> (\<forall>(u, t) \<in> set pr. t \<in> set AllTopicIDs) \<Longrightarrow> GetCompletedCount u pr \<le> TotalTopics"
proof -
  assume d: "distinct pr" and known: "\<forall>(u, t) \<in> set pr. t \<in> set AllTopicIDs"
  let ?mine = "filter (\<lambda>(v, t). v = u) pr"
  have "inj_on snd (set ?mine)" by (auto simp: inj_on_def)
  with d have "distinct (map snd ?mine)" by (simp add: distinct_map)
  then have "length ?mine = card (set (map snd ?mine))" using distinct_card by fastforce
  also have "\<dots> \<le> card (set AllTopicIDs)" using known by (intro card_mono) auto
  also have "\<dots> \<le> 14" using card_length [of AllTopicIDs] by (simp add: AllTopicIDs_def)
  finally show ?thesis by (simp add: GetCompletedCount_def TotalTopics_def)
qed

end
