(* ===== verification/Logic.thy ===== *)
theory Logic
  imports Service Tutorial ADL
begin

section \<open>The requests of users (\<open>internal/logic\<close>)\<close>

text \<open>
  Login, account, orders and positions as the HTTP handlers call them, over the engine, the tables and
  the tutorial progress. Outside the repository and so fields of a parameter \<open>env\<close>: which queries fail and
  which statements the database refuses, the conversion of text to numbers, the replies of WeChat (after
  decoding), and the signing of tokens. Numbers in responses are given before they are formatted. The
  code ignores errors of the tutorial tables; a failed query of them is an empty result.
\<close>

subsection \<open>State and environment\<close>

datatype logic_query = FindUser | InsertUser | SelectAccount | SelectPosition | SelectProgress | CountProgress | InsertProgress

datatype logic_error =
    ErrCodeRequired | ErrWeChat | ErrQuery logic_query | ErrStatement db_error | ErrToken | ErrNotANumber
  | ErrEngine engine_error | ErrAccountNotFound | ErrClosePositionsFirst | ErrCancelOrdersFirst
  | ErrPositionNotActive | ErrTakeProfitSide | ErrStopLossSide | ErrInvalidRefreshToken

datatype wx_reply = WxUnreachable | WxUnreadable | WxNotDecoded | WxSession string int

record env =
  envPg :: pg
  envFails :: "logic_query \<Rightarrow> bool"
  envInitialBalance :: dec
  envParse :: "string \<Rightarrow> dec option"
  envWeChat :: "string \<Rightarrow> wx_reply"
  envSign :: "int \<Rightarrow> int \<Rightarrow> string option"
  envVerify :: "string \<Rightarrow> int option"
  envExpire :: int
  envRefreshExpire :: int

record service =
  svEngine :: engine
  svDB :: database
  svUsers :: "(int \<times> string) list"
  svUserSeq :: int
  svProgress :: progress

text \<open>The two statements of the tutorial tables as the code uses them.\<close>

definition completedTopics :: "env \<Rightarrow> int \<Rightarrow> service \<Rightarrow> string list" where
  "completedTopics v userID s = (if envFails v SelectProgress then [] else GetCompleted userID (svProgress s))"

definition markTopic :: "env \<Rightarrow> int \<Rightarrow> string \<Rightarrow> service \<Rightarrow> service" where
  "markTopic v userID topicID s =
     (if envFails v InsertProgress then s else s\<lparr>svProgress := MarkComplete userID topicID (svProgress s)\<rparr>)"

definition showOnce :: "env \<Rightarrow> int \<Rightarrow> string \<Rightarrow> string \<Rightarrow> service \<Rightarrow> tutorial_card option \<times> service" where
  "showOnce v userID topicID lang s =
     (case ShouldShow topicID (completedTopics v userID s) lang of
        None \<Rightarrow> (None, s)
      | Some cd \<Rightarrow> (Some cd, markTopic v userID topicID s))"

subsection \<open>Login (\<open>auth_logic.go\<close>)\<close>

record login_resp =
  lrToken :: string
  lrRefreshToken :: string
  lrUserID :: int

definition getOpenID :: "env \<Rightarrow> string \<Rightarrow> string option" where
  "getOpenID v code =
     (case envWeChat v code of
        WxSession openID errCode \<Rightarrow> if errCode \<noteq> 0 then None else if openID = [] then None else Some openID
      | _ \<Rightarrow> None)"

definition isDevCode :: "string \<Rightarrow> bool" where
  "isDevCode code \<longleftrightarrow> 4 < length code \<and> take 4 code = ''dev_''"

definition FindByOpenID :: "string \<Rightarrow> service \<Rightarrow> int option" where
  "FindByOpenID openID s = map_option fst (List.find (\<lambda>(i, o'). o' = openID) (svUsers s))"

definition CreateUser :: "string \<Rightarrow> service \<Rightarrow> int \<times> service" where
  "CreateUser openID s =
     (let i = svUserSeq s + 1 in (i, s\<lparr>svUsers := svUsers s @ [(i, openID)], svUserSeq := i\<rparr>))"

text \<open>The user of an identity, with the account of a new one; whether the user is new.\<close>

definition findOrCreate :: "env \<Rightarrow> string \<Rightarrow> service \<Rightarrow> (logic_error + int \<times> bool) \<times> service" where
  "findOrCreate v openID s =
     (if envFails v FindUser then (Inl (ErrQuery FindUser), s)
      else case FindByOpenID openID s of
          Some userID \<Rightarrow> (Inr (userID, False), s)
        | None \<Rightarrow>
            if envFails v InsertUser then (Inl (ErrQuery InsertUser), s)
            else
              let (userID, s1) = CreateUser openID s
              in (case CreateAccount (envPg v) userID (envInitialBalance v) (svDB s1) of
                    Inl e \<Rightarrow> (Inl (ErrStatement e), s1)
                  | Inr db \<Rightarrow>
                      let e = svEngine s1
                      in (Inr (userID, True),
                          s1\<lparr>svDB := db,
                             svEngine := e\<lparr>memAccounts := LoadAccount userID (envInitialBalance v) 0 (memAccounts e)\<rparr>\<rparr>)))"

definition WxLogin :: "env \<Rightarrow> string \<Rightarrow> string \<Rightarrow> service \<Rightarrow> (logic_error + login_resp \<times> tutorial_card option) \<times> service" where
  "WxLogin v code lang s =
     (if code = [] then (Inl ErrCodeRequired, s)
      else case (if isDevCode code then Some code else getOpenID v code) of
          None \<Rightarrow> (Inl ErrWeChat, s)
        | Some openID \<Rightarrow>
            (case findOrCreate v openID s of
               (Inl e, s1) \<Rightarrow> (Inl e, s1)
             | (Inr (userID, isNewUser), s1) \<Rightarrow>
                 (case envSign v userID (envExpire v) of
                    None \<Rightarrow> (Inl ErrToken, s1)
                  | Some token \<Rightarrow>
                      (case envSign v userID (envRefreshExpire v) of
                         None \<Rightarrow> (Inl ErrToken, s1)
                       | Some refreshToken \<Rightarrow>
                           (Inr (\<lparr>lrToken = token, lrRefreshToken = refreshToken, lrUserID = userID\<rparr>,
                                 if isNewUser then map_of (GetTopics lang) TopicPerpetualIntro else None), s1)))))"

definition RefreshToken :: "env \<Rightarrow> string \<Rightarrow> logic_error + (string \<times> string)" where
  "RefreshToken v refreshToken0 =
     (case envVerify v refreshToken0 of
        None \<Rightarrow> Inl ErrInvalidRefreshToken
      | Some userID \<Rightarrow>
          (case envSign v userID (envExpire v) of
             None \<Rightarrow> Inl ErrToken
           | Some token \<Rightarrow>
               (case envSign v userID (envRefreshExpire v) of
                  None \<Rightarrow> Inl ErrToken
                | Some refreshToken \<Rightarrow> Inr (token, refreshToken))))"

subsection \<open>Account (\<open>account_logic.go\<close>)\<close>

record account_info =
  aiBalance :: dec
  aiFrozen :: dec
  aiTotalPnl :: dec
  aiAvailable :: dec
  aiCompleted :: nat
  aiTotal :: nat

definition GetInfo :: "env \<Rightarrow> int \<Rightarrow> service \<Rightarrow> logic_error + account_info" where
  "GetInfo v userID s =
     (if envFails v SelectAccount then Inl (ErrQuery SelectAccount)
      else case FindByUserID userID (svDB s) of
          None \<Rightarrow> Inl ErrAccountNotFound
        | Some account \<Rightarrow>
            let available = aBalance account - aFrozen account;
                completedCount = (if envFails v CountProgress then 0 else GetCompletedCount userID (svProgress s))
            in Inr \<lparr>aiBalance = aBalance account, aiFrozen = aFrozen account, aiTotalPnl = aTotalPnl account,
                    aiAvailable = available, aiCompleted = completedCount, aiTotal = TotalTopics\<rparr>)"

definition Reset :: "env \<Rightarrow> int \<Rightarrow> service \<Rightarrow> (logic_error + dec) \<times> service" where
  "Reset v userID s =
     (let e = svEngine s
      in if 0 < length (GetByUser userID (positionCache e)) then (Inl ErrClosePositionsFirst, s)
         else if 0 < length (GetOrdersByUser userID (orderCache e)) then (Inl ErrCancelOrdersFirst, s)
         else
           let initialBalance = envInitialBalance v
           in case ResetRow (envPg v) userID initialBalance (svDB s) of
                Inl err \<Rightarrow> (Inl (ErrStatement err), s)
              | Inr db \<Rightarrow>
                  (Inr initialBalance,
                   s\<lparr>svDB := db, svEngine := e\<lparr>memAccounts := ResetAccount userID initialBalance (memAccounts e)\<rparr>\<rparr>))"

subsection \<open>Orders (\<open>trade_logic.go\<close>)\<close>

record place_req =
  prqSide :: int
  prqOrderType :: int
  prqLeverage :: int
  prqMarginMode :: int
  prqMargin :: string
  prqPrice :: string
  prqTakeProfit :: string
  prqStopLoss :: string

text \<open>The engine never sets the order and the trade of its result: the ID and the fee shown are zero.\<close>

record order_detail =
  odMargin :: dec
  odLeverage :: int
  odLong :: bool
  odPositionValue :: dec
  odEntryPrice :: dec
  odQuantity :: dec
  odMaker :: bool
  odFee :: dec
  odLiqPrice :: dec
  odForceTpPrice :: dec

record place_resp =
  plOrderID :: int
  plPositionID :: int
  plStatus :: order_status
  plDetail :: "order_detail option"

text \<open>An optional price: the error of a text that is no number, or the price if there is a text.\<close>

definition parseOptional :: "env \<Rightarrow> string \<Rightarrow> dec option option" where
  "parseOptional v txt = (if txt = [] then Some None else map_option Some (envParse v txt))"

definition buildOrderDetail :: "place_req \<Rightarrow> position_row \<Rightarrow> order_detail" where
  "buildOrderDetail req pos =
     (let posValue = prMargin pos * of_int (prLeverage pos);
          fee = 0
      in \<lparr>odMargin = prMargin pos, odLeverage = prLeverage pos, odLong = (prSide pos \<noteq> - 1), odPositionValue = posValue,
          odEntryPrice = prEntryPrice pos, odQuantity = prQuantity pos, odMaker = (prqOrderType req = OrderTypeLimit),
          odFee = fee, odLiqPrice = prLiqPrice pos, odForceTpPrice = prForceTpPrice pos\<rparr>)"

definition nextTopic :: "string list \<Rightarrow> place_req \<Rightarrow> string" where
  "nextTopic completed req =
     (if TopicPerpetualIntro \<notin> set completed then TopicPerpetualIntro
      else if TopicLeverage \<notin> set completed \<and> 1 < prqLeverage req then TopicLeverage
      else if TopicLongShort \<notin> set completed then TopicLongShort
      else if TopicMarketOrder \<notin> set completed \<and> prqOrderType req = OrderTypeMarket then TopicMarketOrder
      else if TopicLimitOrder \<notin> set completed \<and> prqOrderType req = OrderTypeLimit then TopicLimitOrder
      else if TopicTradingFee \<notin> set completed then TopicTradingFee
      else [])"

definition getTutorialCard :: "env \<Rightarrow> int \<Rightarrow> place_req \<Rightarrow> string \<Rightarrow> service \<Rightarrow> tutorial_card option \<times> service" where
  "getTutorialCard v userID req lang s =
     (let topicID = nextTopic (completedTopics v userID s) req
      in if topicID = [] then (None, s) else showOnce v userID topicID lang s)"

definition PlaceOrder ::
    "decimal_lib \<Rightarrow> env \<Rightarrow> int \<Rightarrow> place_req \<Rightarrow> string \<Rightarrow> service \<Rightarrow>
     ((logic_error + place_resp \<times> tutorial_card option) \<times> service) option" where
  "PlaceOrder D v userID req lang s =
     (case envParse v (prqMargin req) of None \<Rightarrow> Some (Inl ErrNotANumber, s) | Some margin \<Rightarrow>
      (case parseOptional v (prqTakeProfit req) of None \<Rightarrow> Some (Inl ErrNotANumber, s) | Some tp \<Rightarrow>
      (case parseOptional v (prqStopLoss req) of None \<Rightarrow> Some (Inl ErrNotANumber, s) | Some sl \<Rightarrow>
      (if prqOrderType req = OrderTypeLimit \<and> envParse v (prqPrice req) = None then Some (Inl ErrNotANumber, s)
       else do {
         (result, e) \<leftarrow>
           (if prqOrderType req = OrderTypeLimit
            then PlaceLimitOrder D userID (prqSide req) (prqLeverage req) margin (the (envParse v (prqPrice req))) tp sl (svEngine s)
            else PlaceMarketOrder D userID (prqSide req) (prqLeverage req) (prqMarginMode req) margin tp sl (svEngine s));
         let s1 = s\<lparr>svEngine := e\<rparr>;
         (case result of
            Inl err \<Rightarrow> Some (Inl (ErrEngine err), s1)
          | Inr r \<Rightarrow>
              let resp = \<lparr>plOrderID = 0, plPositionID = (case poPosition r of None \<Rightarrow> 0 | Some pos \<Rightarrow> prID pos),
                          plStatus = poStatus r, plDetail = map_option (buildOrderDetail req) (poPosition r)\<rparr>;
                  (cd, s2) = getTutorialCard v userID req lang s1
              in Some (Inr (resp, cd), s2))
       }))))"

definition CancelOrderOf :: "int \<Rightarrow> int \<Rightarrow> service \<Rightarrow> (engine_error option \<times> service) option" where
  "CancelOrderOf userID orderID s =
     map_option (apsnd (\<lambda>e. s\<lparr>svEngine := e\<rparr>)) (CancelOrder orderID userID (svEngine s))"

subsection \<open>Positions (\<open>position_logic.go\<close>)\<close>

record close_resp =
  csRealizedPnl :: dec
  csFee :: dec
  csFundingPnl :: dec
  csNetPnl :: dec

definition Close ::
    "decimal_lib \<Rightarrow> env \<Rightarrow> int \<Rightarrow> int \<Rightarrow> string \<Rightarrow> string \<Rightarrow> service \<Rightarrow>
     ((logic_error + close_resp \<times> tutorial_card option) \<times> service) option" where
  "Close D v userID positionID qtyStr lang s =
     (case parseOptional v qtyStr of
        None \<Rightarrow> Some (Inl ErrNotANumber, s)
      | Some q \<Rightarrow> do {
          let closeQty = (case q of None \<Rightarrow> 0 | Some x \<Rightarrow> x);
          (result, e) \<leftarrow> ClosePosition D positionID userID CloseReasonManual closeQty (svEngine s);
          let s1 = s\<lparr>svEngine := e\<rparr>;
          (case result of
             Inl err \<Rightarrow> Some (Inl (ErrEngine err), s1)
           | Inr r \<Rightarrow>
               let resp = \<lparr>csRealizedPnl = crRealizedPnl r, csFee = crFee r, csFundingPnl = crFundingPnl r, csNetPnl = crNetPnl r\<rparr>
               in (case ShouldShow TopicRealizedPnl (completedTopics v userID s1) lang of
                     None \<Rightarrow> Some (Inr (resp, None), s1)
                   | Some _ \<Rightarrow> do {
                       cd \<leftarrow> ForRealizedPnl (crRawPnl r) (crRealizedPnl r) (crFee r) (crFundingPnl r) (crNetPnl r) lang;
                       Some (Inr (resp, Some cd), markTopic v userID TopicRealizedPnl s1)
                     }))
        })"

record tpsl_req =
  tqPositionID :: int
  tqTakeProfit :: string
  tqStopLoss :: string

definition wrongTakeProfit :: "position_row \<Rightarrow> dec \<Rightarrow> bool" where
  "wrongTakeProfit pos d \<longleftrightarrow> prSide pos = 1 \<and> d \<le> prEntryPrice pos \<or> prSide pos = - 1 \<and> prEntryPrice pos \<le> d"

definition wrongStopLoss :: "position_row \<Rightarrow> dec \<Rightarrow> bool" where
  "wrongStopLoss pos d \<longleftrightarrow> prSide pos = 1 \<and> prEntryPrice pos \<le> d \<or> prSide pos = - 1 \<and> d \<le> prEntryPrice pos"

definition UpdateTPSLOf ::
    "env \<Rightarrow> int \<Rightarrow> tpsl_req \<Rightarrow> string \<Rightarrow> service \<Rightarrow> (logic_error + tutorial_card option) \<times> service" where
  "UpdateTPSLOf v userID req lang s =
     (if envFails v SelectPosition then (Inl (ErrQuery SelectPosition), s)
      else case FindPositionByID (tqPositionID req) (svDB s) of
          None \<Rightarrow> (Inl ErrPositionNotActive, s)
        | Some pos \<Rightarrow>
            if prUserID pos \<noteq> userID \<or> prStatus pos \<noteq> PositionStatusActive then (Inl ErrPositionNotActive, s)
            else (case parseOptional v (tqTakeProfit req) of
                None \<Rightarrow> (Inl ErrNotANumber, s)
              | Some tp \<Rightarrow>
                  if \<exists>d \<in> set_option tp. wrongTakeProfit pos d then (Inl ErrTakeProfitSide, s)
                  else (case parseOptional v (tqStopLoss req) of
                      None \<Rightarrow> (Inl ErrNotANumber, s)
                    | Some sl \<Rightarrow>
                        if \<exists>d \<in> set_option sl. wrongStopLoss pos d then (Inl ErrStopLossSide, s)
                        else (case UpdateTPSL (envPg v) (tqPositionID req) tp sl (svDB s) of
                            Inl err \<Rightarrow> (Inl (ErrStatement err), s)
                          | Inr db \<Rightarrow>
                              let e = svEngine s;
                                  pc = UpdateCached (tqPositionID req) (setTPSL tp sl) (positionCache e);
                                  s1 = s\<lparr>svDB := db, svEngine := e\<lparr>positionCache := pc\<rparr>\<rparr>;
                                  (cd, s2) = showOnce v userID TopicTPSL lang s1
                              in (Inr cd, s2)))))"

record position_info =
  piPosition :: cached_position
  piMargin :: dec
  piUnrealizedPnl :: dec
  piROI :: dec
  piMarginRatio :: dec
  piFundingPnl :: dec
  piADLIndicator :: int

definition positionInfo :: "decimal_lib \<Rightarrow> dec \<Rightarrow> nat \<Rightarrow> cached_position \<Rightarrow> position_info option" where
  "positionInfo D currentPrice n cp =
     do {
       let entryPrice = NewFromString (pEntryPrice cp);
       let quantity = NewFromString (pQuantity cp);
       let margin = NewFromString (pMargin cp);
       let fundingPnl = NewFromString (pFundingPnl cp);
       let upnl = CalcUnrealizedPnL entryPrice currentPrice quantity (pSide cp);
       roi \<leftarrow> CalcROI D upnl margin;
       marginRatio \<leftarrow> CalcMarginRatio D margin upnl quantity currentPrice;
       let adlLevel = GetADLIndicator roi (int n);
       Some \<lparr>piPosition = cp, piMargin = margin, piUnrealizedPnl = upnl, piROI = roi, piMarginRatio = marginRatio,
             piFundingPnl = fundingPnl, piADLIndicator = adlLevel\<rparr>
     }"

definition listPositions :: "decimal_lib \<Rightarrow> int \<Rightarrow> service \<Rightarrow> position_info list option" where
  "listPositions D userID s =
     (let cached = GetByUser userID (positionCache (svEngine s));
          currentPrice = GetPrice (priceCache (svEngine s))
      in those (map (positionInfo D currentPrice (length cached)) cached))"

end
