(* ===== verification/Logic_Props.thy ===== *)
theory Logic_Props
  imports Logic
begin

section \<open>What the requests of users promise\<close>

text \<open>
  Every sequence of requests is answered without a panic and keeps the exchange well formed and the
  users distinct; what a reset, a login and a change of the exit prices do to memory and tables.
\<close>

subsection \<open>The invariant\<close>

text \<open>The identities of the two system users that \<open>init_db.sql\<close> inserts with IDs below 1.\<close>

definition systemOpenIDs :: "string list" where
  "systemOpenIDs = [''system_market_maker'', ''system_liquidation'']"

definition users_ok :: "service \<Rightarrow> bool" where
  "users_ok s \<longleftrightarrow>
     0 \<le> svUserSeq s \<and> distinct (map fst (svUsers s)) \<and> distinct (map snd (svUsers s)) \<and>
     (\<forall>(i, o') \<in> set (svUsers s). i \<le> svUserSeq s \<and> (1 \<le> i \<or> o' \<in> set systemOpenIDs)) \<and>
     (\<forall>u. holds_account u (memAccounts (svEngine s)) \<longrightarrow> u \<le> svUserSeq s)"

definition service_ok :: "service \<Rightarrow> bool" where
  "service_ok s \<longleftrightarrow> exchange_ok (svEngine s) \<and> users_ok s"

lemma show_frame [simp]:
  "svEngine (snd (showOnce v u t lang s)) = svEngine s" "svDB (snd (showOnce v u t lang s)) = svDB s"
  "svUsers (snd (showOnce v u t lang s)) = svUsers s" "svUserSeq (snd (showOnce v u t lang s)) = svUserSeq s"
  "svEngine (markTopic v u t s) = svEngine s" "svUsers (markTopic v u t s) = svUsers s" "svUserSeq (markTopic v u t s) = svUserSeq s"
  "svEngine (snd (getTutorialCard v u req lang s)) = svEngine s" "svUsers (snd (getTutorialCard v u req lang s)) = svUsers s"
  "svUserSeq (snd (getTutorialCard v u req lang s)) = svUserSeq s"
  by (auto simp: showOnce_def markTopic_def getTutorialCard_def Let_def split: option.split)

lemma service_ok_cong:
  "svEngine s' = svEngine s \<Longrightarrow> svUsers s' = svUsers s \<Longrightarrow> svUserSeq s' = svUserSeq s \<Longrightarrow> service_ok s' = service_ok s"
  by (simp add: service_ok_def users_ok_def)

lemma service_engine:
  assumes "service_ok s" and "exchange_ok e" and "\<And>u. holds_account u (memAccounts e) = holds_account u (memAccounts (svEngine s))"
  shows "service_ok (s\<lparr>svEngine := e\<rparr>)"
  using assms by (simp add: service_ok_def users_ok_def)

text \<open>Users and accounts are never deleted, and pointers to positions stay valid.\<close>

definition people_kept :: "service \<Rightarrow> service \<Rightarrow> bool" where
  "people_kept s s' \<longleftrightarrow>
     set (svUsers s) \<subseteq> set (svUsers s') \<and>
     (\<forall>w. holds_account w (memAccounts (svEngine s)) \<longrightarrow> holds_account w (memAccounts (svEngine s'))) \<and>
     pointers_kept (positionCache (svEngine s)) (positionCache (svEngine s'))"

lemma people_refl [simp]: "people_kept s s"
  by (simp add: people_kept_def)

lemma people_same:
  "svUsers s' = svUsers s \<Longrightarrow> accounted (svEngine s) (svEngine s') \<Longrightarrow> people_kept s s'"
  by (simp add: people_kept_def accounted_def)

text \<open>Replacing the account of a user without pending orders.\<close>

lemma exchange_account:
  assumes ok: "exchange_ok e" and none: "frozen_for (eclearance e) u (orderCache e) = 0"
  shows "exchange_ok (e\<lparr>memAccounts := AList.update u \<lparr>Balance = b, Frozen = 0\<rparr> (memAccounts e)\<rparr>)"
proof -
  let ?accs = "AList.update u \<lparr>Balance = b, Frozen = 0\<rparr> (memAccounts e)"
  have holds: "holds_account v ?accs = (v = u \<or> holds_account v (memAccounts e))" for v by (simp add: holds_account_def)
  have "frozen_of v ?accs = (if v = u then 0 else frozen_of v (memAccounts e))" for v by (simp add: frozen_of_def)
  then have "orders_ok (eclearance e) (orderCache e) (nextID (ebook e)) ?accs"
    using ok none by (auto simp: exchange_ok_def orders_ok_def holds)
  then show ?thesis using ok by (auto simp: exchange_ok_def engine_ok_def owners_ok_def holds)
qed

lemma no_orders_frozen:
  assumes "\<forall>i co. map_of oc i = Some co \<longrightarrow> coUserID co \<noteq> u" and "distinct (map fst oc)"
  shows "frozen_for c u oc = 0"
proof -
  have "\<forall>x \<in> set oc. (\<lambda>(k, co). if coUserID co = u then order_cost c co else 0) x = 0"
    using assms by (auto simp: map_of_eq_Some_iff)
  then show ?thesis unfolding frozen_for_def al_sum_def by (simp cong: map_cong)
qed

lemma reset_ok:
  assumes ok: "service_ok s" and u: "u \<le> svUserSeq s"
  shows "service_ok (snd (Reset v u s))" and "svUserSeq (snd (Reset v u s)) = svUserSeq s"
    and "uses (svEngine s) (svEngine (snd (Reset v u s)))"
proof -
  let ?e = "svEngine s"
  have ex: "exchange_ok ?e" using ok by (simp add: service_ok_def)
  have "frozen_for (eclearance ?e) u (orderCache ?e) = 0" if "GetOrdersByUser u (orderCache ?e) = []"
  proof (rule no_orders_frozen)
    show "\<forall>i co. map_of (orderCache ?e) i = Some co \<longrightarrow> coUserID co \<noteq> u"
      using that by (force simp: GetOrdersByUser_def filter_empty_conv dest: map_of_SomeD)
    show "distinct (map fst (orderCache ?e))" using ex by (simp add: exchange_ok_def orders_ok_def)
  qed
  note step = exchange_account [OF ex this]
  show "service_ok (snd (Reset v u s))"
    using ok u step by (auto simp: Reset_def Let_def service_ok_def users_ok_def ResetAccount_def holds_account_def split: sum.split)
  show "svUserSeq (snd (Reset v u s)) = svUserSeq s" "uses ?e (svEngine (snd (Reset v u s)))"
    by (auto simp: Reset_def Let_def uses_def split: sum.split)
qed

lemma findOrCreate_ok:
  assumes ok: "service_ok s"
  shows "service_ok (snd (findOrCreate v openID s))" and "svUserSeq s \<le> svUserSeq (snd (findOrCreate v openID s))"
    and "uses (svEngine s) (svEngine (snd (findOrCreate v openID s)))"
proof -
  let ?i = "svUserSeq s + 1" and ?e = "svEngine s"
  have ex: "exchange_ok ?e" and us: "users_ok s" using ok by (simp_all add: service_ok_def)
  have absent: "\<not> holds_account ?i (memAccounts ?e)" using us by (force simp: users_ok_def)
  have "frozen_for (eclearance ?e) ?i (orderCache ?e) = frozen_of ?i (memAccounts ?e)"
    using ex by (simp add: exchange_ok_def orders_ok_def)
  with absent have "frozen_for (eclearance ?e) ?i (orderCache ?e) = 0" by (simp add: frozen_of_def holds_account_def)
  note ex1 = exchange_account [OF ex this]
  have us1: "users_ok (snd (CreateUser openID s))" if "FindByOpenID openID s = None"
  proof -
    have "openID \<notin> snd ` set (svUsers s)" using that by (force simp: FindByOpenID_def find_None_iff)
    moreover have "?i \<notin> fst ` set (svUsers s)" using us by (force simp: users_ok_def)
    ultimately show ?thesis using us by (fastforce simp: CreateUser_def Let_def users_ok_def)
  qed
  show "service_ok (snd (findOrCreate v openID s))"
    using ok ex ex1 us1
    by (auto simp: findOrCreate_def CreateUser_def Let_def service_ok_def users_ok_def LoadAccount_def holds_account_def
        split: option.split sum.split)
  show "svUserSeq s \<le> svUserSeq (snd (findOrCreate v openID s))" "uses ?e (svEngine (snd (findOrCreate v openID s)))"
    by (auto simp: findOrCreate_def CreateUser_def Let_def uses_def split: option.split sum.split)
qed

lemma login_state: "snd (WxLogin v code lang s) = s \<or> (\<exists>openID. snd (WxLogin v code lang s) = snd (findOrCreate v openID s))"
proof (cases "code = [] \<or> (if isDevCode code then Some code else getOpenID v code) = None")
  case True
  then show ?thesis by (auto simp: WxLogin_def)
next
  case False
  then obtain openID where "code \<noteq> []" "(if isDevCode code then Some code else getOpenID v code) = Some openID" by blast
  moreover obtain r s1 where "findOrCreate v openID s = (r, s1)" by force
  moreover from this have "snd (findOrCreate v openID s) = s1" by simp
  ultimately have "snd (WxLogin v code lang s) = snd (findOrCreate v openID s)"
    by (cases r) (simp_all add: WxLogin_def case_prod_unfold split: option.split)
  then show ?thesis by blast
qed

lemma login_ok:
  assumes ok: "service_ok s"
  shows "service_ok (snd (WxLogin v code lang s))" and "svUserSeq s \<le> svUserSeq (snd (WxLogin v code lang s))"
    and "uses (svEngine s) (svEngine (snd (WxLogin v code lang s)))"
  using login_state [of v code lang s] findOrCreate_ok [OF ok, of v] ok by (metis order_refl uses_refl)+

lemma people_findOrCreate: "people_kept s (snd (findOrCreate v openID s))"
  by (auto simp: findOrCreate_def CreateUser_def Let_def people_kept_def LoadAccount_def holds_account_def
      split: option.split sum.split)

lemma people_login: "people_kept s (snd (WxLogin v code lang s))"
  using login_state [of v code lang s] people_findOrCreate [of s v] by (metis people_refl)

lemma people_reset: "people_kept s (snd (Reset v u s))"
  by (auto simp: Reset_def Let_def people_kept_def ResetAccount_def holds_account_def split: sum.split)

text \<open>The outcomes of a change of the exit prices.\<close>

lemma tpsl_error: "fst (UpdateTPSLOf v u req lang s) = Inl err \<Longrightarrow> snd (UpdateTPSLOf v u req lang s) = s"
  by (fastforce simp: UpdateTPSLOf_def Let_def case_prod_unfold split: option.split_asm sum.split_asm if_split_asm)

lemma tpsl_success:
  assumes "fst (UpdateTPSLOf v u req lang s) = Inr cd"
  obtains pos tp sl db where "FindPositionByID (tqPositionID req) (svDB s) = Some pos" and "prUserID pos = u"
    and "prStatus pos = PositionStatusActive" and "parseOptional v (tqTakeProfit req) = Some tp"
    and "parseOptional v (tqStopLoss req) = Some sl" and "\<forall>d \<in> set_option tp. \<not> wrongTakeProfit pos d"
    and "\<forall>d \<in> set_option sl. \<not> wrongStopLoss pos d" and "UpdateTPSL (envPg v) (tqPositionID req) tp sl (svDB s) = Inr db"
    and "snd (UpdateTPSLOf v u req lang s) = snd (showOnce v u TopicTPSL lang (s\<lparr>svDB := db, svEngine :=
        svEngine s\<lparr>positionCache := UpdateCached (tqPositionID req) (setTPSL tp sl) (positionCache (svEngine s))\<rparr>\<rparr>))"
  using assms by (simp add: UpdateTPSLOf_def Let_def case_prod_unfold split: option.split_asm sum.split_asm if_split_asm)

lemma tpsl_ok:
  assumes ok: "service_ok s"
  shows "service_ok (snd (UpdateTPSLOf v u req lang s))" and "svUserSeq (snd (UpdateTPSLOf v u req lang s)) = svUserSeq s"
    and "uses (svEngine s) (svEngine (snd (UpdateTPSLOf v u req lang s)))"
proof -
  let ?e = "svEngine s"
  have ex: "exchange_ok ?e" using ok by (simp add: service_ok_def)
  have ex1: "exchange_ok (?e\<lparr>positionCache := UpdateCached i (setTPSL tp sl) (positionCache ?e)\<rparr>)" for i tp sl
    by (rule exchange_update [OF ex]) (rule setTPSL_keeps)
  consider "snd (UpdateTPSLOf v u req lang s) = s"
    | db tp sl where "snd (UpdateTPSLOf v u req lang s) = snd (showOnce v u TopicTPSL lang (s\<lparr>svDB := db,
        svEngine := ?e\<lparr>positionCache := UpdateCached (tqPositionID req) (setTPSL tp sl) (positionCache ?e)\<rparr>\<rparr>))"
  proof (cases "fst (UpdateTPSLOf v u req lang s)")
    case (Inl err)
    then have "snd (UpdateTPSLOf v u req lang s) = s" by (rule tpsl_error)
    with that show thesis by blast
  next
    case (Inr cd)
    from tpsl_success [OF this] that show thesis by metis
  qed
  then have "service_ok (snd (UpdateTPSLOf v u req lang s)) \<and> svUserSeq (snd (UpdateTPSLOf v u req lang s)) = svUserSeq s \<and>
      uses (svEngine s) (svEngine (snd (UpdateTPSLOf v u req lang s)))"
    by cases (use ok ex1 in \<open>simp_all add: service_ok_def users_ok_def uses_def\<close>)
  then show "service_ok (snd (UpdateTPSLOf v u req lang s))" "svUserSeq (snd (UpdateTPSLOf v u req lang s)) = svUserSeq s"
    "uses (svEngine s) (svEngine (snd (UpdateTPSLOf v u req lang s)))" by blast+
qed

lemma people_tpsl: "people_kept s (snd (UpdateTPSLOf v u req lang s))"
proof (cases "fst (UpdateTPSLOf v u req lang s)")
  case (Inl err)
  then have "snd (UpdateTPSLOf v u req lang s) = s" by (rule tpsl_error)
  then show ?thesis by simp
next
  case (Inr cd)
  from tpsl_success [OF this] obtain db i tp sl where
    "snd (UpdateTPSLOf v u req lang s) = snd (showOnce v u TopicTPSL lang
      (s\<lparr>svDB := db, svEngine := svEngine s\<lparr>positionCache := UpdateCached i (setTPSL tp sl) (positionCache (svEngine s))\<rparr>\<rparr>))"
    by metis
  moreover have "pointers_kept c (UpdateCached i (setTPSL tp sl) c)" for c
    by (rule pointers_Update) simp
  ultimately show ?thesis by (simp add: people_kept_def)
qed

lemma order_ok:
  assumes law: "div_law D" and ok: "service_ok s" and rm: "room (Suc k) (svEngine s)"
  shows "\<exists>res s'. PlaceOrder D v u req lang s = Some (res, s') \<and> service_ok s' \<and> svUserSeq s' = svUserSeq s \<and>
    uses (svEngine s) (svEngine s') \<and> people_kept s s'"
proof -
  let ?e = "svEngine s"
  have ex: "exchange_ok ?e" using ok by (simp add: service_ok_def)
  have rejected: ?thesis if "PlaceOrder D v u req lang s = Some (Inl ErrNotANumber, s)" using that ok by simp
  show ?thesis
  proof (cases "envParse v (prqMargin req) = None \<or> parseOptional v (prqTakeProfit req) = None \<or>
      parseOptional v (prqStopLoss req) = None \<or> prqOrderType req = OrderTypeLimit \<and> envParse v (prqPrice req) = None")
    case True
    then show ?thesis by (intro rejected) (auto simp: PlaceOrder_def split: option.split)
  next
    case False
    then obtain m tp sl where arg: "envParse v (prqMargin req) = Some m" "parseOptional v (prqTakeProfit req) = Some tp"
      "parseOptional v (prqStopLoss req) = Some sl" "\<not> (prqOrderType req = OrderTypeLimit \<and> envParse v (prqPrice req) = None)"
      by auto
    obtain res e' where run: "(if prqOrderType req = OrderTypeLimit
        then PlaceLimitOrder D u (prqSide req) (prqLeverage req) m (the (envParse v (prqPrice req))) tp sl ?e
        else PlaceMarketOrder D u (prqSide req) (prqLeverage req) (prqMarginMode req) m tp sl ?e) = Some (res, e')"
      and e': "exchange_ok e'" "accounted ?e e'" "uses ?e e'"
      using PlaceLimitOrder_ok [OF law ex rm, of u "prqSide req" "prqLeverage req" m "the (envParse v (prqPrice req))" tp sl]
        PlaceMarketOrder_ok [OF law ex rm, of u "prqSide req" "prqLeverage req" "prqMarginMode req" m tp sl]
      by (cases "prqOrderType req = OrderTypeLimit") auto
    have s1: "service_ok (s\<lparr>svEngine := e'\<rparr>)" using service_engine [OF ok e'(1)] accounted_holds [OF e'(2)] by blast
    show ?thesis
    proof (cases res)
      case (Inl err)
      with arg run s1 e'(2,3) show ?thesis by (auto simp: PlaceOrder_def intro: people_same)
    next
      case (Inr r)
      let ?s2 = "snd (getTutorialCard v u req lang (s\<lparr>svEngine := e'\<rparr>))"
      have "service_ok ?s2" using s1 service_ok_cong [of ?s2 "s\<lparr>svEngine := e'\<rparr>"] by simp
      with arg run Inr e'(2,3) show ?thesis by (auto simp: PlaceOrder_def Let_def case_prod_unfold intro: people_same)
    qed
  qed
qed

lemma cancel_ok:
  assumes ok: "service_ok s"
  shows "\<exists>res s'. CancelOrderOf u i s = Some (res, s') \<and> service_ok s' \<and> svUserSeq s' = svUserSeq s \<and>
    uses (svEngine s) (svEngine s') \<and> people_kept s s'"
proof -
  have ex: "exchange_ok (svEngine s)" using ok by (simp add: service_ok_def)
  obtain res e' where "CancelOrder i u (svEngine s) = Some (res, e')" "exchange_ok e'" "accounted (svEngine s) e'" "uses (svEngine s) e'"
    using CancelOrder_ok [OF ex, of i u] by blast
  then show ?thesis using service_engine [OF ok, of e'] accounted_holds by (auto simp: CancelOrderOf_def intro: people_same)
qed

lemma close_ok:
  assumes law: "div_law D" and ok: "service_ok s" and rm: "room (Suc k) (svEngine s)"
  shows "\<exists>res s'. Close D v u i qty lang s = Some (res, s') \<and> service_ok s' \<and> svUserSeq s' = svUserSeq s \<and>
    uses (svEngine s) (svEngine s') \<and> people_kept s s'"
proof (cases "parseOptional v qty")
  case None
  with ok show ?thesis by (simp add: Close_def)
next
  case (Some q)
  let ?q = "case q of None \<Rightarrow> 0 | Some x \<Rightarrow> x"
  have ex: "exchange_ok (svEngine s)" using ok by (simp add: service_ok_def)
  obtain res e' where run: "ClosePosition D i u CloseReasonManual ?q (svEngine s) = Some (res, e')"
    and e': "exchange_ok e'" "accounted (svEngine s) e'" "uses (svEngine s) e'"
    using ClosePosition_ok [OF law ex rm, of i u CloseReasonManual ?q] by blast
  have s1: "service_ok (s\<lparr>svEngine := e'\<rparr>)" using service_engine [OF ok e'(1)] accounted_holds [OF e'(2)] by blast
  have s2: "service_ok (markTopic v u TopicRealizedPnl (s\<lparr>svEngine := e'\<rparr>))"
    using s1 service_ok_cong [of "markTopic v u TopicRealizedPnl (s\<lparr>svEngine := e'\<rparr>)" "s\<lparr>svEngine := e'\<rparr>"] by simp
  show ?thesis
  proof (cases res)
    case (Inl err)
    with Some run s1 e'(2,3) show ?thesis by (auto simp: Close_def intro: people_same)
  next
    case (Inr r)
    obtain cd where "ForRealizedPnl (crRawPnl r) (crRealizedPnl r) (crFee r) (crFundingPnl r) (crNetPnl r) lang = Some cd"
      using ForRealizedPnl_defined by blast
    then show ?thesis using Inr Some run s1 s2 e'(2,3)
      by (cases "ShouldShow TopicRealizedPnl (completedTopics v u (s\<lparr>svEngine := e'\<rparr>)) lang")
        (simp_all add: Close_def Let_def people_same)
  qed
qed

subsection \<open>Every sequence of requests\<close>

datatype api =
    ApiLogin string string
  | ApiReset int
  | ApiOrder int place_req string
  | ApiCancel int int
  | ApiClose int int string string
  | ApiTPSL int tpsl_req string

fun api_user :: "api \<Rightarrow> int" where
  "api_user (ApiLogin code lang) = 0"
| "api_user (ApiReset u) = u"
| "api_user (ApiOrder u req lang) = u"
| "api_user (ApiCancel u i) = u"
| "api_user (ApiClose u i qty lang) = u"
| "api_user (ApiTPSL u req lang) = u"

fun api_step :: "decimal_lib \<Rightarrow> env \<Rightarrow> api \<Rightarrow> service \<Rightarrow> service option" where
  "api_step D v (ApiLogin code lang) s = Some (snd (WxLogin v code lang s))"
| "api_step D v (ApiReset u) s = Some (snd (Reset v u s))"
| "api_step D v (ApiOrder u req lang) s = map_option snd (PlaceOrder D v u req lang s)"
| "api_step D v (ApiCancel u i) s = map_option snd (CancelOrderOf u i s)"
| "api_step D v (ApiClose u i qty lang) s = map_option snd (Close D v u i qty lang s)"
| "api_step D v (ApiTPSL u req lang) s = Some (snd (UpdateTPSLOf v u req lang s))"

text \<open>
  Requests one after another, each with the outside world it meets. The user of a request comes from a
  signed token, so it is one that was handed out.
\<close>

inductive api_run :: "decimal_lib \<Rightarrow> service \<Rightarrow> (env \<times> api) list \<Rightarrow> service \<Rightarrow> bool" for D where
  api_none: "api_run D s [] s"
| api_some: "api_user r \<le> svUserSeq s \<Longrightarrow> api_step D v r s = Some s1 \<Longrightarrow> api_run D s1 rs s2 \<Longrightarrow> api_run D s ((v, r) # rs) s2"

lemma api_step_ok:
  assumes law: "div_law D" and ok: "service_ok s" and rm: "room (Suc k) (svEngine s)" and u: "api_user r \<le> svUserSeq s"
  shows "\<exists>s'. api_step D v r s = Some s' \<and> service_ok s' \<and> svUserSeq s \<le> svUserSeq s' \<and> room k (svEngine s') \<and>
    people_kept s s'"
proof -
  have "\<exists>s'. api_step D v r s = Some s' \<and> service_ok s' \<and> svUserSeq s \<le> svUserSeq s' \<and> 
      uses (svEngine s) (svEngine s') \<and> people_kept s s'"
  proof (cases r)
    case (ApiLogin code lang)
    with login_ok [OF ok] people_login show ?thesis by simp
  next
    case (ApiReset w)
    with reset_ok [OF ok, of w] people_reset u show ?thesis by simp
  next
    case (ApiOrder w req lang)
    with order_ok [OF law ok rm, of v w req lang] show ?thesis by auto
  next
    case (ApiCancel w i)
    with cancel_ok [OF ok, of w i] show ?thesis by auto
  next
    case (ApiClose w i qty lang)
    with close_ok [OF law ok rm, of v w i qty lang] show ?thesis by auto
  next
    case (ApiTPSL w req lang)
    with tpsl_ok [OF ok] people_tpsl show ?thesis by simp
  qed
  with room_uses [OF rm] show ?thesis by blast
qed

lemma api_run_ok:
  "api_run D s rs s' \<Longrightarrow> div_law D \<Longrightarrow> service_ok s \<Longrightarrow> room (length rs + k) (svEngine s) \<Longrightarrow>
   service_ok s' \<and> room k (svEngine s') \<and> svUserSeq s \<le> svUserSeq s'"
proof (induction rule: api_run.induct)
  case (api_some r s v s1 rs s2)
  have "service_ok s1 \<and> svUserSeq s \<le> svUserSeq s1 \<and> room (length rs + k) (svEngine s1)"
    using api_step_ok [OF api_some.prems(1,2), of "length rs + k" r v] api_some.prems(3) api_some.hyps(1,2) by auto
  with api_some.IH api_some.prems(1) show ?case by auto
qed simp

text \<open>
  In every state reached by any sequence of logins, resets, orders, cancellations, closes and changes
  of exit prices, whatever queries and statements fail and whatever texts users send, the exchange is well
  formed, every WeChat identity has one user, and the next request is answered without a panic.
\<close>

theorem api_safe:
  assumes "api_run D s rs s'" and "div_law D" and "service_ok s" and "room (Suc (length rs)) (svEngine s)"
  shows "exchange_ok (svEngine s') \<and> distinct (map fst (svUsers s')) \<and> distinct (map snd (svUsers s')) \<and>
    (\<forall>v r. api_user r \<le> svUserSeq s' \<longrightarrow> api_step D v r s' \<noteq> None)"
proof -
  have "room (length rs + 1) (svEngine s)" using assms(4) by simp
  from api_run_ok [OF assms(1-3) this] have ok: "service_ok s'" and rm: "room (Suc 0) (svEngine s')" by simp_all
  have "api_step D v r s' \<noteq> None" if "api_user r \<le> svUserSeq s'" for v r
    using api_step_ok [OF assms(2) ok rm that, of v] by auto
  with ok show ?thesis by (simp add: service_ok_def users_ok_def)
qed

definition sample_env :: env where
  "sample_env =
     \<lparr>envPg = exact_pg, envFails = (\<lambda>q. False), envInitialBalance = 10000,
      envParse = (\<lambda>t. if t = ''10'' then Some 10 else if t = ''90'' then Some 90 else if t = ''120'' then Some 120 else None),
      envWeChat = (\<lambda>c. WxUnreachable), envSign = (\<lambda>u t. Some ''t''), envVerify = (\<lambda>t. Some 7), envExpire = 3600,
      envRefreshExpire = 7200\<rparr>"

definition sample_service :: service where
  "sample_service =
     \<lparr>svEngine = sample_engine,
      svDB = \<lparr>dbAccounts = [(7, \<lparr>aBalance = 1000, aFrozen = 0, aTotalPnl = 0, aResetCount = 0\<rparr>)], dbPositions = [],
              dbOrders = [], dbTrades = [], dbSettlements = [], dbRates = []\<rparr>,
      svUsers = [(7, ''dev_a''), (8, ''dev_b'')], svUserSeq = 8, svProgress = []\<rparr>"

lemma sample_service_ok: "service_ok sample_service"
proof -
  have "u \<le> 8" if "holds_account u (memAccounts sample_engine)" for u
    using that by (auto simp: holds_account_def sample_engine_def NewEngine_def LoadAccount_def NewAccountCache_def split: if_splits)
  then show ?thesis using sample_exchange_ok by (simp add: service_ok_def users_ok_def sample_service_def)
qed

lemma sample_service_seq [simp]: "svUserSeq sample_service = 8"
  by (simp add: sample_service_def)

theorem api_safe_witness:
  "\<exists>s'. api_run dec16 sample_service [(sample_env, ApiLogin ''dev_c'' ''en''), (sample_env, ApiReset 7)] s' \<and> exchange_ok (svEngine s')"
proof -
  have rm: "room (Suc (length [(sample_env, ApiLogin ''dev_c'' ''en''), (sample_env, ApiReset 7)])) (svEngine sample_service)"
    using sample_room by (simp add: sample_service_def)
  let ?s1 = "snd (WxLogin sample_env ''dev_c'' ''en'' sample_service)"
  have "8 \<le> svUserSeq ?s1" using login_ok(2) [OF sample_service_ok] by (simp add: sample_service_def)
  then have run: "api_run dec16 sample_service [(sample_env, ApiLogin ''dev_c'' ''en''), (sample_env, ApiReset 7)] (snd (Reset sample_env 7 ?s1))"
    by (intro api_some [OF _ _ api_some [OF _ _ api_none]]) simp_all
  then show ?thesis using api_safe [OF run dec16_law sample_service_ok rm] by blast
qed

subsection \<open>Single requests\<close>

lemma find_append: "List.find P xs = None \<Longrightarrow> List.find P (xs @ ys) = List.find P ys"
  by (induction xs) (auto split: if_splits)

text \<open>
  C28. A login that creates a user and then fails to create the account leaves a user without one: every
  later login of the same identity succeeds and hands out tokens, but the user has no account in memory or
  in the tables. A reset then gives the user the initial balance in memory alone, so that the user trades
  with money the tables do not know.
\<close>

theorem WxLogin_orphans:
  assumes ok: "service_ok s" and code: "isDevCode code" and new: "FindByOpenID code s = None"
    and first: "\<not> envFails v FindUser" "\<not> envFails v InsertUser"
    and row: "FindByUserID (svUserSeq s + 1) (svDB s) = None"
    and fails: "CreateAccount (envPg v) (svUserSeq s + 1) (envInitialBalance v) (svDB s) = Inl err"
    and later: "\<not> envFails v' FindUser" "\<forall>u t. envSign v' u t \<noteq> None" "\<forall>st db. \<not> pgRefuses (envPg v') st db"
  shows "let (r1, s1) = WxLogin v code lang s; (r2, s2) = WxLogin v' code lang' s1; (r3, s3) = Reset v' (svUserSeq s + 1) s2
    in r1 = Inl (ErrStatement err) \<and> (\<exists>resp. r2 = Inr (resp, None) \<and> lrUserID resp = svUserSeq s + 1) \<and>
       \<not> holds_account (svUserSeq s + 1) (memAccounts (svEngine s2)) \<and>
       r3 = Inr (envInitialBalance v') \<and> GetBalance (svUserSeq s + 1) (memAccounts (svEngine s3)) = envInitialBalance v' \<and>
       FindByUserID (svUserSeq s + 1) (svDB s3) = None"
proof -
  let ?u = "svUserSeq s + 1"
  let ?s1 = "s\<lparr>svUsers := svUsers s @ [(?u, code)], svUserSeq := ?u\<rparr>"
  have ne: "code \<noteq> []" using code by (auto simp: isDevCode_def)
  have l1: "WxLogin v code lang s = (Inl (ErrStatement err), ?s1)"
    using code new first fails ne by (simp add: WxLogin_def findOrCreate_def CreateUser_def Let_def)
  have "List.find (\<lambda>(i, o'). o' = code) (svUsers s) = None" using new by (simp add: FindByOpenID_def)
  then have "List.find (\<lambda>(i, o'). o' = code) (svUsers s @ [(?u, code)]) = Some (?u, code)"
    by (simp add: find_append)
  then have found: "FindByOpenID code ?s1 = Some ?u" by (simp add: FindByOpenID_def)
  obtain t1 t2 where "envSign v' ?u (envExpire v') = Some t1" "envSign v' ?u (envRefreshExpire v') = Some t2"
    using later(2) by (metis not_None_eq)
  then have l2: "WxLogin v' code lang' ?s1 = (Inr (\<lparr>lrToken = t1, lrRefreshToken = t2, lrUserID = ?u\<rparr>, None), ?s1)"
    using code found later(1) ne by (simp add: WxLogin_def findOrCreate_def)
  let ?e = "svEngine s"
  have absent: "\<not> holds_account ?u (memAccounts ?e)" using ok by (force simp: service_ok_def users_ok_def)
  have ex: "exchange_ok ?e" using ok by (simp add: service_ok_def)
  have "pUserID p \<noteq> ?u" if "map_of (posLive (positionCache ?e)) i = Some p" for i p
    using exchange_owner [OF ex] absent that by (metis GetPosition_def)
  moreover have "\<exists>p. map_of (posLive (positionCache ?e)) i = Some p \<and> pUserID p = ?u" if "i \<in> set (user_ids ?u (positionCache ?e))" for i
    using ex that by (auto simp: exchange_ok_def engine_ok_def positions_ok_def cache_ok_def)
  ultimately have "user_ids ?u (positionCache ?e) = []" by (metis list.set_sel(1))
  then have p: "GetByUser ?u (positionCache ?e) = []" by (simp add: GetByUser_def map_filter_simps)
  have q: "GetOrdersByUser ?u (orderCache ?e) = []"
    using ex absent by (fastforce simp: exchange_ok_def orders_ok_def GetOrdersByUser_def filter_empty_conv map_of_eq_Some_iff)
  have "Reset v' ?u ?s1 = (Inr (envInitialBalance v'), ?s1\<lparr>svEngine := ?e\<lparr>memAccounts := ResetAccount ?u (envInitialBalance v') (memAccounts ?e)\<rparr>\<rparr>)"
    using p q later(3) row by (simp add: Reset_def Let_def ResetRow_def update_account_def exec_def on_row_def FindByUserID_def)
  then show ?thesis using l1 l2 absent row
    by (simp add: ResetAccount_def GetBalance_def)
qed

definition refusing_env :: env where
  "refusing_env = sample_env\<lparr>envPg := \<lparr>pgCol = (\<lambda>x. x), pgRefuses = (\<lambda>st db. True)\<rparr>\<rparr>"

definition accepting_env :: env where
  "accepting_env = sample_env\<lparr>envPg := \<lparr>pgCol = (\<lambda>x. x), pgRefuses = (\<lambda>st db. False)\<rparr>\<rparr>"

lemma accepting_fields [simp]: "envInitialBalance accepting_env = 10000"
  by (simp add: accepting_env_def sample_env_def)

theorem WxLogin_orphans_witness:
  "let (r1, s1) = WxLogin refusing_env ''dev_c'' [] sample_service; (r2, s2) = WxLogin accepting_env ''dev_c'' [] s1;
      (r3, s3) = Reset accepting_env 9 s2
   in \<not> holds_account 9 (memAccounts (svEngine s2)) \<and> GetBalance 9 (memAccounts (svEngine s3)) = 10000 \<and> FindByUserID 9 (svDB s3) = None"
proof -
  have "CreateAccount (envPg refusing_env) 9 (envInitialBalance refusing_env) (svDB sample_service) = Inl (StatementFailed (InsertAccount 9 10000))"
    by (simp add: refusing_env_def sample_env_def CreateAccount_def exec_new_def)
  with WxLogin_orphans [OF sample_service_ok, of "''dev_c''" refusing_env _ accepting_env "[]" "[]"] show ?thesis
    by (auto simp: refusing_env_def accepting_env_def sample_env_def isDevCode_def FindByOpenID_def FindByUserID_def
        sample_service_def case_prod_unfold Let_def)
qed

text \<open>
  C29. A reset does not wait for the settlement queue. It sets the balance in memory to the initial one, and
  when the queue has been drained the balance in the tables is the initial one plus the deltas of the events
  that were still waiting, up to column rounding: the two differ by what the user did just before the reset.
\<close>

theorem Reset_overtaken:
  assumes "col_law (envPg v)" and "0 < u" and "has_row u (svDB s)" and "Reset v u s = (Inr b, s')"
    and "evts = events (esettler (svEngine s'))"
  shows "GetBalance u (memAccounts (svEngine s')) = envInitialBalance v \<and>
    \<bar>db_balance u (drain (envPg v) evts (svDB s')) -
      (GetBalance u (memAccounts (svEngine s')) + sum_list (map (balance_delta u) (committed (envPg v) evts (svDB s'))))\<bar>
    \<le> of_nat (2 * length (committed (envPg v) evts (svDB s')) + 1) * half_digit"
proof -
  let ?c = "committed (envPg v) evts (svDB s')"
  obtain db where db: "ResetRow (envPg v) u (envInitialBalance v) (svDB s) = Inr db"
    and s': "s' = s\<lparr>svDB := db, svEngine := svEngine s\<lparr>memAccounts := ResetAccount u (envInitialBalance v) (memAccounts (svEngine s))\<rparr>\<rparr>"
    using assms(4) by (auto simp: Reset_def Let_def split: if_splits sum.splits)
  have mem: "GetBalance u (memAccounts (svEngine s')) = envInitialBalance v" by (simp add: s' ResetAccount_def GetBalance_def)
  have row: "has_row u (svDB s')" "db_balance u (svDB s') = pgCol (envPg v) (envInitialBalance v)"
    using db assms(3) by (auto simp: s' ResetRow_def update_account_def exec_def has_row_def db_balance_def split: if_splits)
  have "\<bar>db_balance u (drain (envPg v) evts (svDB s')) - (db_balance u (svDB s') + sum_list (map (balance_delta u) ?c))\<bar>
      \<le> of_nat (2 * length ?c) * half_digit"
    using drain_adds [OF assms(1,2) row(1)] by blast
  moreover have "\<bar>pgCol (envPg v) (envInitialBalance v) - envInitialBalance v\<bar> \<le> half_digit" using assms(1) by (simp add: col_law_def)
  moreover have "of_nat (2 * length ?c + 1) * half_digit = of_nat (2 * length ?c) * half_digit + half_digit" by (simp add: algebra_simps)
  ultimately show ?thesis using mem row(2) by linarith
qed

text \<open>A user who was paid 50 a moment ago.\<close>

definition paid_service :: service where
  "paid_service = sample_service\<lparr>svEngine := sample_engine\<lparr>esettler := \<lparr>events = [pay_event 7 50]\<rparr>\<rparr>\<rparr>"

theorem Reset_overtaken_witness:
  "let s' = snd (Reset accepting_env 7 paid_service)
   in GetBalance 7 (memAccounts (svEngine s')) = 10000 \<and>
      \<bar>db_balance 7 (drain (envPg accepting_env) (events (esettler (svEngine s'))) (svDB s')) - 10050\<bar> \<le> 3 * half_digit"
proof -
  obtain r s' where run: "Reset accepting_env 7 paid_service = (r, s')" by force
  have fields: "esettler (svEngine paid_service) = \<lparr>events = [pay_event 7 50]\<rparr>" "orderCache (svEngine paid_service) = []"
    "positionCache (svEngine paid_service) = NewPositionCache"
    "svDB paid_service = \<lparr>dbAccounts = [(7, \<lparr>aBalance = 1000, aFrozen = 0, aTotalPnl = 0, aResetCount = 0\<rparr>)], dbPositions = [],
        dbOrders = [], dbTrades = [], dbSettlements = [], dbRates = []\<rparr>"
    by (simp_all add: paid_service_def sample_service_def)
  have "GetByUser 7 NewPositionCache = []" by (simp add: GetByUser_def user_ids_def NewPositionCache_def map_filter_simps)
  with run have r: "r = Inr 10000" and s': "events (esettler (svEngine s')) = [pay_event 7 50]"
      "svDB s' = svDB paid_service\<lparr>dbAccounts := [(7, \<lparr>aBalance = 10000, aFrozen = 0, aTotalPnl = 0, aResetCount = 1\<rparr>)]\<rparr>"
    by (auto simp: Reset_def Let_def fields GetOrdersByUser_def accepting_env_def sample_env_def ResetRow_def update_account_def
        exec_def on_row_def)
  have "committed (envPg accepting_env) [pay_event 7 50] (svDB s') = [pay_event 7 50]"
    by (simp add: s' fields event_tx_def pay_event_def empty_event_def txBalanceUpdate_def when_stmt_def stmt_defs accepting_env_def
        sample_env_def on_row_def)
  moreover have "col_law (envPg accepting_env)" "has_row 7 (svDB paid_service)"
    by (simp_all add: col_law_def accepting_env_def has_row_def fields)
  moreover have "balance_delta 7 (pay_event 7 50) = 50" by (simp add: balance_delta_def pay_event_def empty_event_def Let_def)
  ultimately show ?thesis
    using Reset_overtaken [of accepting_env 7 paid_service "10000" s' "[pay_event 7 50]"] run r s'(1) by auto
qed

text \<open>
  C30. A change of the exit prices that is accepted has them on the profitable and on the losing side of the
  stored entry price, replaces both in the table and, in the cache the risk monitor reads, only those that were
  given: a price that is left out is deleted from the table and still triggers. A change that is refused
  changes nothing.
\<close>

theorem UpdateTPSL_effect:
  assumes "UpdateTPSLOf v u req lang s = (r, s')" and "parseOptional v (tqTakeProfit req) = Some tp"
    and "parseOptional v (tqStopLoss req) = Some sl"
  shows "case r of
      Inl err \<Rightarrow> s' = s
    | Inr cd \<Rightarrow> \<exists>pos. FindPositionByID (tqPositionID req) (svDB s) = Some pos \<and> prUserID pos = u \<and>
        (\<forall>x. tp = Some x \<longrightarrow> (prSide pos = 1 \<longrightarrow> prEntryPrice pos < x) \<and> (prSide pos = - 1 \<longrightarrow> x < prEntryPrice pos)) \<and>
        (\<forall>x. sl = Some x \<longrightarrow> (prSide pos = 1 \<longrightarrow> x < prEntryPrice pos) \<and> (prSide pos = - 1 \<longrightarrow> prEntryPrice pos < x)) \<and>
        FindPositionByID (tqPositionID req) (svDB s') =
          Some (pos\<lparr>prTakeProfit := map_option (pgCol (envPg v)) tp, prStopLoss := map_option (pgCol (envPg v)) sl\<rparr>) \<and>
        (\<forall>cp. GetPosition (tqPositionID req) (positionCache (svEngine s)) = Some cp \<longrightarrow>
           (\<exists>cp'. GetPosition (tqPositionID req) (positionCache (svEngine s')) = Some cp' \<and>
              pTakeProfit cp' = (case tp of None \<Rightarrow> pTakeProfit cp | Some x \<Rightarrow> Shown x) \<and>
              pStopLoss cp' = (case sl of None \<Rightarrow> pStopLoss cp | Some x \<Rightarrow> Shown x)))"
proof (cases r)
  case (Inl err)
  with tpsl_error [of v u req lang s err] assms(1) show ?thesis by simp
next
  case (Inr cd)
  then have "fst (UpdateTPSLOf v u req lang s) = Inr cd" using assms(1) by simp
  then obtain pos db where pos: "FindPositionByID (tqPositionID req) (svDB s) = Some pos" "prUserID pos = u" "prStatus pos = PositionStatusActive"
    and sides: "\<forall>d \<in> set_option tp. \<not> wrongTakeProfit pos d" "\<forall>d \<in> set_option sl. \<not> wrongStopLoss pos d"
    and db: "UpdateTPSL (envPg v) (tqPositionID req) tp sl (svDB s) = Inr db"
    and s': "s' = snd (showOnce v u TopicTPSL lang (s\<lparr>svDB := db, svEngine :=
        svEngine s\<lparr>positionCache := UpdateCached (tqPositionID req) (setTPSL tp sl) (positionCache (svEngine s))\<rparr>\<rparr>))"
    using assms by (elim tpsl_success) auto
  have "FindPositionByID (tqPositionID req) db =
      Some (pos\<lparr>prTakeProfit := map_option (pgCol (envPg v)) tp, prStopLoss := map_option (pgCol (envPg v)) sl\<rparr>)"
    using db pos by (auto simp: UpdateTPSL_def update_position_def exec_def FindPositionByID_def scanPosition_def split: if_splits)
  moreover have "GetPosition (tqPositionID req) (UpdateCached (tqPositionID req) (setTPSL tp sl) pc) = Some (setTPSL tp sl cp)"
    if "GetPosition (tqPositionID req) pc = Some cp" for pc cp
    using that by (simp add: GetPosition_def UpdateCached_def)
  moreover have "pTakeProfit (setTPSL tp sl cp) = (case tp of None \<Rightarrow> pTakeProfit cp | Some x \<Rightarrow> Shown x)"
    "pStopLoss (setTPSL tp sl cp) = (case sl of None \<Rightarrow> pStopLoss cp | Some x \<Rightarrow> Shown x)" for cp
    by (simp_all add: setTPSL_def Let_def split: option.split)
  ultimately show ?thesis using Inr pos(1,2) sides s' by (auto simp: wrongTakeProfit_def wrongStopLoss_def not_le)
qed

text \<open>Deleting the stop loss of the position the sample database holds.\<close>

definition tpsl_service :: service where
  "tpsl_service = sample_service\<lparr>svDB := sample_db,
     svEngine := sample_engine\<lparr>positionCache := loadPositions (FindAllActive sample_db) NewPositionCache\<rparr>\<rparr>"

theorem UpdateTPSL_effect_witness:
  "let req = \<lparr>tqPositionID = 100003, tqTakeProfit = ''120'', tqStopLoss = []\<rparr>;
       s' = snd (UpdateTPSLOf accepting_env 7 req [] tpsl_service)
   in map_option prStopLoss (FindPositionByID 100003 (svDB s')) = Some None \<and>
      map_option pStopLoss (GetPosition 100003 (positionCache (svEngine s'))) = Some (Shown 95)"
proof -
  let ?req = "\<lparr>tqPositionID = 100003, tqTakeProfit = ''120'', tqStopLoss = []\<rparr>"
  obtain r s' where run: "UpdateTPSLOf accepting_env 7 ?req [] tpsl_service = (r, s')" by force
  have row: "FindPositionByID 100003 (svDB tpsl_service) = Some (scanPosition (snd (hd (dbPositions sample_db))))"
    by (simp add: FindPositionByID_def tpsl_service_def sample_db_def)
  have args: "parseOptional accepting_env (tqTakeProfit ?req) = Some (Some 120)" "parseOptional accepting_env (tqStopLoss ?req) = Some None"
    by (simp_all add: parseOptional_def accepting_env_def sample_env_def)
  have "\<exists>cd. r = Inr cd"
    using run row args
    by (auto simp: UpdateTPSLOf_def accepting_env_def sample_env_def wrongTakeProfit_def scanPosition_def sample_db_def
        UpdateTPSL_def update_position_def exec_def Let_def case_prod_unfold)
  moreover have "map_option pStopLoss (GetPosition 100003 (positionCache (svEngine tpsl_service))) = Some (Shown 95)"
    by (simp add: tpsl_service_def GetPosition_def loadPositions_live loadedPosition_def NewCachedPosition_def FindAllActive_def
        scanPosition_def sample_db_def decimalPtrToString_def)
  ultimately show ?thesis using UpdateTPSL_effect [OF run args] run by auto
qed

end
