(* ===== verification/Price_Feed.thy ===== *)
theory Price_Feed
  imports Monitor_Props Mark_Price Kline_Props
begin

section \<open>The price feed (\<open>internal/engine/pricefeed/manager.go\<close>, \<open>internal/svc/service_context.go\<close>)\<close>

text \<open>
  What a message of the exchange's stream does: the price goes to the price cache, then the service's
  callback passes it to the mark price, the candlesticks and the risk monitor, and broadcasts a ticker
  at most once per interval. A message is given by the outcomes of its two decodings by \<open>encoding/json\<close>
  (\<open>None\<close> is an error), times are nanoseconds, and \<open>None\<close> is the zero time before the first broadcast. The
  clock of the \<open>k\<close>-th trade of a message is its reading by the liquidation engine and by the throttle.
\<close>

subsection \<open>Connecting\<close>

definition contains :: "string \<Rightarrow> string \<Rightarrow> bool" where
  "contains s substr \<longleftrightarrow>
     (\<exists>i \<in> set [0..int (length s) - int (length substr)]. take (length substr) (drop (nat i) s) = substr)"

definition isGateIO :: "string \<Rightarrow> bool" where
  "isGateIO url \<longleftrightarrow> 0 < length url \<and> (contains url ''gate.io'' \<or> contains url ''gateio'')"

text \<open>
  The delay in seconds. The code computes it in \<open>float64\<close>: a power of two times a small integer
  is exact, and what overflows is above the limit, if the base is positive.
\<close>

definition calcDelay :: "int \<Rightarrow> int \<Rightarrow> nat \<Rightarrow> int" where
  "calcDelay reconnectBaseDelay reconnectMaxDelay attempt =
     (let delay = reconnectBaseDelay * 2 ^ (attempt - 1)
      in if reconnectMaxDelay < delay then reconnectMaxDelay else delay)"

subsection \<open>The service's callback\<close>

record ticker_msg =
  tmTicker :: ticker
  tmBars :: "(string \<times> kline_bar) list"

record feed =
  fdMark :: mark_engine
  fdKlines :: aggregator
  fdMonitor :: monitor
  fdLastBroadcast :: "int option"
  fdSent :: "ticker_msg list"

definition klineSnap :: "aggregator \<Rightarrow> (string \<times> kline_bar) list" where
  "klineSnap a = List.map_filter (\<lambda>cfg. map_option (Pair (icName cfg)) (GetCurrentBar (icName cfg) a)) Intervals"

definition broadcastTicker :: "int \<Rightarrow> int \<Rightarrow> feed \<Rightarrow> feed" where
  "broadcastTicker publishIntervalMs now s =
     (if (case fdLastBroadcast s of None \<Rightarrow> True | Some t \<Rightarrow> publishIntervalMs * 10 ^ 6 \<le> now - t)
      then s\<lparr>fdLastBroadcast := Some now,
             fdSent := fdSent s @ [\<lparr>tmTicker = GetTicker (priceCache (mEngine (fdMonitor s))), tmBars = klineSnap (fdKlines s)\<rparr>]\<rparr>
      else s)"

definition publishInterval :: "int \<Rightarrow> int" where
  "publishInterval configured = (if configured \<le> 0 then 200 else configured)"

definition onPrice ::
    "decimal_lib \<Rightarrow> ranked_position slice_sort \<Rightarrow> int \<Rightarrow> int \<Rightarrow> int \<times> int \<Rightarrow> dec \<Rightarrow> int \<Rightarrow> feed \<Rightarrow> feed option" where
  "onPrice D sortSlice zone configured clock price ts s =
     do {
       mk \<leftarrow> UpdateLastPrice D price (fdMark s);
       let ka = OnTrade zone price ts (fdKlines s);
       m \<leftarrow> OnPriceUpdate D sortSlice (fst clock) (Some (GetMarkPrice mk)) price (fdMonitor s);
       Some (broadcastTicker (publishInterval configured) (snd clock) (s\<lparr>fdMark := mk, fdKlines := ka, fdMonitor := m\<rparr>))
     }"

subsection \<open>Messages\<close>

definition setFeedPrice :: "decimal_lib \<Rightarrow> dec \<Rightarrow> feed \<Rightarrow> feed option" where
  "setFeedPrice D price s =
     do {
       let m = fdMonitor s;
       pc \<leftarrow> SetPrice D price (priceCache (mEngine m));
       Some (s\<lparr>fdMonitor := m\<lparr>mEngine := (mEngine m)\<lparr>priceCache := pc\<rparr>\<rparr>\<rparr>)
     }"

definition handlePrice ::
    "decimal_lib \<Rightarrow> ranked_position slice_sort \<Rightarrow> int \<Rightarrow> int \<Rightarrow> int \<times> int \<Rightarrow> dec \<Rightarrow> int \<Rightarrow> feed \<Rightarrow> feed option" where
  "handlePrice D sortSlice zone configured clock price ts s =
     do { s1 \<leftarrow> setFeedPrice D price s; onPrice D sortSlice zone configured clock price ts s1 }"

record gate_msg =
  gmChannel :: string
  gmEvent :: string
  gmResult :: "(string \<times> int) list"

fun gateTrades ::
    "decimal_lib \<Rightarrow> ranked_position slice_sort \<Rightarrow> (string \<Rightarrow> dec option) \<Rightarrow> int \<Rightarrow> int \<Rightarrow> (nat \<Rightarrow> int \<times> int) \<Rightarrow>
     nat \<Rightarrow> (string \<times> int) list \<Rightarrow> feed \<Rightarrow> feed option" where
  "gateTrades D sortSlice parse zone configured clock k [] s = Some s"
| "gateTrades D sortSlice parse zone configured clock k ((priceText, createTime) # trades) s =
     (case parse priceText of
        None \<Rightarrow> gateTrades D sortSlice parse zone configured clock (Suc k) trades s
      | Some price \<Rightarrow> do {
          s1 \<leftarrow> handlePrice D sortSlice zone configured (clock k) price (createTime * second) s;
          gateTrades D sortSlice parse zone configured clock (Suc k) trades s1
        })"

definition handleMessage ::
    "decimal_lib \<Rightarrow> ranked_position slice_sort \<Rightarrow> (string \<Rightarrow> dec option) \<Rightarrow> int \<Rightarrow> int \<Rightarrow> (nat \<Rightarrow> int \<times> int) \<Rightarrow>
     gate_msg option \<Rightarrow> (string \<times> int) option \<Rightarrow> feed \<Rightarrow> feed option" where
  "handleMessage D sortSlice parse zone configured clock gate binance s =
     (let asBinance = (case binance of
            None \<Rightarrow> Some s
          | Some (priceText, tradeTime) \<Rightarrow>
              if priceText = [] then Some s
              else (case parse priceText of
                  None \<Rightarrow> Some s
                | Some price \<Rightarrow> handlePrice D sortSlice zone configured (clock 0) price (tradeTime * (second div 1000)) s))
      in (case gate of
            None \<Rightarrow> asBinance
          | Some msg \<Rightarrow>
              if gmChannel msg = ''futures.trades'' \<and> gmEvent msg = ''update''
              then gateTrades D sortSlice parse zone configured clock 0 (gmResult msg) s
              else asBinance))"

subsection \<open>Connections\<close>

text \<open>
  A message with the clocks of its trades, and a connection: whether the handshake and the writing of the
  subscription succeed, the messages read, and whether it ends because the feed is stopped. It
  returns whether it failed. The deadlines and pings only decide when the reading fails.
\<close>

record stream_message =
  smClock :: "nat \<Rightarrow> int \<times> int"
  smGate :: "gate_msg option"
  smBinance :: "(string \<times> int) option"

record connection =
  cnDials :: bool
  cnWrites :: bool
  cnMessages :: "stream_message list"
  cnStopped :: bool

text \<open>The frame that subscribes, if the source needs one; a number is given by its text.\<close>

definition subscribe :: "string \<Rightarrow> string \<Rightarrow> json option" where
  "subscribe url unixTime =
     (if isGateIO url
      then Some (JObj [(''time'', JNum unixTime), (''channel'', JStr ''futures.trades''), (''event'', JStr ''subscribe''),
                       (''payload'', JArr [JStr ''BTC_USDT''])])
      else None)"

fun readMessages ::
    "decimal_lib \<Rightarrow> ranked_position slice_sort \<Rightarrow> (string \<Rightarrow> dec option) \<Rightarrow> int \<Rightarrow> int \<Rightarrow> stream_message list \<Rightarrow> feed \<Rightarrow> feed option" where
  "readMessages D sortSlice parse zone configured [] s = Some s"
| "readMessages D sortSlice parse zone configured (msg # msgs) s = do {
     s1 \<leftarrow> handleMessage D sortSlice parse zone configured (smClock msg) (smGate msg) (smBinance msg) s;
     readMessages D sortSlice parse zone configured msgs s1
   }"

definition connectAndListen ::
    "decimal_lib \<Rightarrow> ranked_position slice_sort \<Rightarrow> (string \<Rightarrow> dec option) \<Rightarrow> int \<Rightarrow> int \<Rightarrow> string \<Rightarrow> string \<Rightarrow> connection \<Rightarrow>
     feed \<Rightarrow> (bool \<times> feed) option" where
  "connectAndListen D sortSlice parse zone configured url unixTime c s =
     (if \<not> cnDials c then Some (True, s)
      else if subscribe url unixTime \<noteq> None \<and> \<not> cnWrites c then Some (True, s)
      else do {
        s1 \<leftarrow> readMessages D sortSlice parse zone configured (cnMessages c) s;
        Some (\<not> cnStopped c, s1)
      })"

text \<open>
  The loop over the connections, with the delays it waits. A connection that ends without an error was
  stopped, and then the loop returns.
\<close>

fun connectLoop ::
    "(connection \<Rightarrow> feed \<Rightarrow> (bool \<times> feed) option) \<Rightarrow> int \<Rightarrow> int \<Rightarrow> nat \<Rightarrow> connection list \<Rightarrow> feed \<Rightarrow> (int list \<times> feed) option" where
  "connectLoop listen base mx attempt [] s = Some ([], s)"
| "connectLoop listen base mx attempt (c # cs) s = do {
     (failed, s1) \<leftarrow> listen c s;
     (if failed then do {
        (delays, s2) \<leftarrow> connectLoop listen base mx (attempt + 1) cs s1;
        Some (calcDelay base mx (attempt + 1) # delays, s2)
      }
      else Some ([], s1))
   }"

subsection \<open>Delays and broadcasts\<close>

lemma connectLoop_delays:
  "connectLoop listen base mx a cs s = Some (delays, s') \<Longrightarrow> delays = map (calcDelay base mx) [Suc a..<Suc a + length delays]"
proof (induction cs arbitrary: a s delays)
  case (Cons c cs)
  show ?case
  proof (cases "delays = []")
    case False
    with Cons.prems obtain s1 rest where run: "connectLoop listen base mx (Suc a) cs s1 = Some (rest, s')"
      and d: "delays = calcDelay base mx (Suc a) # rest" by (auto split: bind_splits if_splits)
    have "[Suc a..<Suc a + length delays] = Suc a # [Suc (Suc a)..<Suc (Suc a) + length rest]"
      unfolding d by (subst upt_conv_Cons) simp_all
    with Cons.IH [OF run] d show ?thesis by simp
  qed simp
qed simp

text \<open>
  C34. The feed never forgets a lost connection. The delay before the \<open>k\<close>-th reconnection is the base delay
  doubled \<open>k - 1\<close> times and cut at the maximum, however long the connections in between lasted and however many
  prices they brought; so the delays never decrease, lie between zero and the maximum, and stay at the maximum once they
  have reached it.
\<close>

theorem reconnect_delays:
  assumes "connectLoop (connectAndListen D srt parse zone configured url unixTime) base mx 0 cs s = Some (delays, s')"
    and "0 < base" and "0 \<le> mx"
  shows "delays = map (\<lambda>k. min mx (base * 2 ^ k)) [0..<length delays] \<and> sorted delays \<and> (\<forall>d \<in> set delays. 0 \<le> d \<and> d \<le> mx)"
proof -
  have "delays = map (calcDelay base mx) (map Suc [0..<length delays])"
    using connectLoop_delays [OF assms(1)] unfolding map_Suc_upt by simp
  then have "delays = map (calcDelay base mx \<circ> Suc) [0..<length delays]" by (simp del: map_Suc_upt)
  also have "\<dots> = map (\<lambda>k. min mx (base * 2 ^ k)) [0..<length delays]"
    by (simp add: calcDelay_def Let_def min_def)
  finally have d: "delays = map (\<lambda>k. min mx (base * 2 ^ k)) [0..<length delays]" .
  have "mono (\<lambda>k. min mx (base * 2 ^ k))"
    using assms(2) by (intro monoI min.mono mult_left_mono power_increasing) auto
  then have "sorted (map (\<lambda>k. min mx (base * 2 ^ k)) [0..<length delays])"
    by (intro sorted_map_mono) (auto simp: mono_on_def mono_def)
  moreover have "\<forall>x \<in> set (map (\<lambda>k. min mx (base * 2 ^ k)) [0..<length delays]). 0 \<le> x \<and> x \<le> mx" using assms(2,3) by auto
  ultimately show ?thesis using d by metis
qed

lemma broadcast_frame [simp]:
  "fdMark (broadcastTicker i now s) = fdMark s" "fdKlines (broadcastTicker i now s) = fdKlines s"
  "fdMonitor (broadcastTicker i now s) = fdMonitor s"
  by (simp_all add: broadcastTicker_def)

subsection \<open>What a price does\<close>

lemma setFeedPrice_ok:
  assumes "div_law D" and "exchange_ok (mEngine (fdMonitor s))"
  obtains s1 where "setFeedPrice D price s = Some s1" and "exchange_ok (mEngine (fdMonitor s1))"
    and "GetPrice (priceCache (mEngine (fdMonitor s1))) = price" and "fdMark s1 = fdMark s" and "fdKlines s1 = fdKlines s"
    and "fdSent s1 = fdSent s" and "fdLastBroadcast s1 = fdLastBroadcast s"
    and "mEngine (fdMonitor s1) = (mEngine (fdMonitor s))\<lparr>priceCache := priceCache (mEngine (fdMonitor s1))\<rparr>"
proof -
  let ?e = "mEngine (fdMonitor s)"
  obtain pc where pc: "SetPrice D price (priceCache ?e) = Some pc" using decimal.SetPrice_total [OF decimal.intro [OF assms(1)]] by blast
  then have "GetPrice pc = price" by (auto simp: SetPrice_def GetPrice_def Let_def bind_eq_Some_conv split: if_splits)
  moreover have "exchange_ok (?e\<lparr>priceCache := pc\<rparr>)" using assms(2) by (simp add: exchange_ok_def engine_ok_def)
  ultimately show thesis
    using that [of "s\<lparr>fdMonitor := (fdMonitor s)\<lparr>mEngine := ?e\<lparr>priceCache := pc\<rparr>\<rparr>\<rparr>"] pc by (simp add: setFeedPrice_def Let_def)
qed

text \<open>
  What a price needs: IDs for the liquidations and the disposals it may cause, and a fund, if there is one, that
  pays for them. A mark price of zero counts as none.
\<close>

definition price_fits :: "decimal_lib \<Rightarrow> ranked_position slice_sort \<Rightarrow> dec \<Rightarrow> mark_engine \<Rightarrow> monitor \<Rightarrow> bool" where
  "price_fits D srt price mk m \<longleftrightarrow>
     (let ps = GetAll (positionCache (mEngine m)); mp = mark_or_last (Some (GetMarkPrice mk)) price
      in \<exists>cross n N. crossTotals (GetMaintRate (eclearance (mEngine m))) price ps (positionCache (mEngine m)) [] = Some cross \<and>
           room (length ps * (length ps * Suc N) + n) (mEngine m) \<and>
           few_in_pass D srt N mp price (int (length ps)) cross ps (m, []) \<and>
           (\<forall>m1 seen. checkAll D srt mp price (int (length ps)) cross ps (m, []) = Some (m1, seen) \<longrightarrow>
              length (GetByUser LiquidationUserID (positionCache (mEngine m1))) \<le> n))"

lemma handlePrice_ok:
  assumes law: "div_law D" "sort_law srt" and ok: "exchange_ok (mEngine (fdMonitor s))" "mark_ok (fdMark s)"
    and acc: "holds_account LiquidationUserID (memAccounts (mEngine (fdMonitor s)))"
    and run: "setFeedPrice D price s = Some s1" "UpdateLastPrice D price (fdMark s) = Some mk"
    and fits: "price_fits D srt price mk (fdMonitor s1)"
  obtains (handled) m' where
    "OnPriceUpdate D srt (fst clock) (Some (GetMarkPrice mk)) price (fdMonitor s1) = Some m'" and
    "handlePrice D srt zone configured clock price ts s =
       Some (broadcastTicker (publishInterval configured) (snd clock)
         (s1\<lparr>fdMark := mk, fdKlines := OnTrade zone price ts (fdKlines s), fdMonitor := m'\<rparr>))"
    and "exchange_ok (mEngine m')" and "accounted (mEngine (fdMonitor s)) (mEngine m')" and "mark_ok mk"
    and "GetPrice (priceCache (mEngine (fdMonitor s1))) = price"
    and "fdSent s1 = fdSent s" and "fdLastBroadcast s1 = fdLastBroadcast s"
proof -
  obtain s2 where s2: "setFeedPrice D price s = Some s2" "exchange_ok (mEngine (fdMonitor s2))"
    "GetPrice (priceCache (mEngine (fdMonitor s2))) = price" "fdMark s2 = fdMark s" "fdKlines s2 = fdKlines s"
    "fdSent s2 = fdSent s" "fdLastBroadcast s2 = fdLastBroadcast s"
    "mEngine (fdMonitor s2) = (mEngine (fdMonitor s))\<lparr>priceCache := priceCache (mEngine (fdMonitor s2))\<rparr>"
    using setFeedPrice_ok [OF law(1) ok(1), of price] by metis
  let ?e = "mEngine (fdMonitor s)" and ?e2 = "mEngine (fdMonitor s2)"
  have s1: "s2 = s1" using s2(1) run(1) by simp
  have mem: "memAccounts ?e2 = memAccounts ?e" "esettler ?e2 = esettler ?e" "positionCache ?e2 = positionCache ?e"
    by (subst s2(8), simp)+
  have acct: "accounted ?e ?e2" using mem by (intro accounted_same) simp_all
  let ?ps = "GetAll (positionCache (mEngine (fdMonitor s1)))"
  obtain cross n N where f: "crossTotals (GetMaintRate (eclearance (mEngine (fdMonitor s1)))) price ?ps
      (positionCache (mEngine (fdMonitor s1))) [] = Some cross" "room (length ?ps * (length ?ps * Suc N) + n) (mEngine (fdMonitor s1))"
    "few_in_pass D srt N (mark_or_last (Some (GetMarkPrice mk)) price) price (int (length ?ps)) cross ?ps (fdMonitor s1, [])"
    "\<And>m1 seen. checkAll D srt (mark_or_last (Some (GetMarkPrice mk)) price) price (int (length ?ps)) cross ?ps (fdMonitor s1, []) =
        Some (m1, seen) \<Longrightarrow> length (GetByUser LiquidationUserID (positionCache (mEngine m1))) \<le> n"
    using fits by (auto simp: price_fits_def Let_def)
  have "exchange_ok (mEngine (fdMonitor s1))" "holds_account LiquidationUserID (memAccounts (mEngine (fdMonitor s1)))"
    using s2(2) acc mem s1 by simp_all
  from OnPriceUpdate_ok [OF law this refl f(1-3), of "fst clock"] f(4)
  obtain m' where m': "OnPriceUpdate D srt (fst clock) (Some (GetMarkPrice mk)) price (fdMonitor s1) = Some m'"
    "exchange_ok (mEngine m')" "accounted (mEngine (fdMonitor s1)) (mEngine m')" by blast
  have "mark_ok mk" using decimal.applyUpdate_mark_ok [OF decimal.intro [OF law(1)], of "LastUpdate price" "fdMark s" mk] ok(2) run(2) by simp
  with m' s2(3-7) s1 run acct show thesis
    by (intro handled [of m']) (auto simp: handlePrice_def onPrice_def Let_def intro: accounted_trans)
qed

text \<open>
  C15. A price from the stream is handled to the end without a panic: the engine sees it in the price cache
  when the risk check runs, the exchange stays well formed, the mark price follows and stays consistent with its
  basis, every candlestick stays aligned and within the range of the prices, and a ticker is sent exactly
  when the publishing interval has passed since the last one.
\<close>

theorem handlePrice_safe:
  assumes "div_law D" and "sort_law srt" and "exchange_ok (mEngine (fdMonitor s))" and "mark_ok (fdMark s)"
    and "klines_ok zone lo hi (fdKlines s)" and "lo \<le> price" and "price \<le> hi"
    and "holds_account LiquidationUserID (memAccounts (mEngine (fdMonitor s)))"
    and "setFeedPrice D price s = Some s1" and "UpdateLastPrice D price (fdMark s) = Some mk"
    and "price_fits D srt price mk (fdMonitor s1)"
  shows "GetPrice (priceCache (mEngine (fdMonitor s1))) = price \<and>
    (\<exists>s'. handlePrice D srt zone configured clock price ts s = Some s' \<and> exchange_ok (mEngine (fdMonitor s')) \<and>
       mkLast (fdMark s') = price \<and> mark_ok (fdMark s') \<and> klines_ok zone lo hi (fdKlines s') \<and>
       (length (fdSent s') = length (fdSent s) + 1 \<longleftrightarrow>
          fdLastBroadcast s = None \<or> publishInterval configured * 10 ^ 6 \<le> snd clock - the (fdLastBroadcast s)) \<and>
       (fdSent s' = fdSent s \<or> fdLastBroadcast s' = Some (snd clock)))"
proof (rule handlePrice_ok [OF assms(1-4,8-11), where clock = clock and zone = zone and configured = configured and ts = ts])
  fix m'
  assume h: "handlePrice D srt zone configured clock price ts s =
      Some (broadcastTicker (publishInterval configured) (snd clock)
        (s1\<lparr>fdMark := mk, fdKlines := OnTrade zone price ts (fdKlines s), fdMonitor := m'\<rparr>))"
    "exchange_ok (mEngine m')" "mark_ok mk" "GetPrice (priceCache (mEngine (fdMonitor s1))) = price"
    "fdSent s1 = fdSent s" "fdLastBroadcast s1 = fdLastBroadcast s"
  have "mkLast mk = price"
    using assms(10) decimal.recalculate_Some(1) [OF decimal.intro [OF assms(1)], of _ mk]
    by (auto simp: UpdateLastPrice_def Let_def split: if_splits)
  moreover have "klines_ok zone lo hi (OnTrade zone price ts (fdKlines s))" by (rule klines_OnTrade [OF assms(5-7)])
  ultimately show ?thesis using h by (auto simp: broadcastTicker_def split: option.split)
qed

text \<open>A feed that has seen no price, over an exchange without positions.\<close>

definition sample_feed :: feed where
  "sample_feed =
     \<lparr>fdMark = NewMarkEngine (1 / 10) [], fdKlines = NewKlineAggregator True,
      fdMonitor = NewMonitor (sample_risky\<lparr>positionCache := NewPositionCache\<rparr>) None, fdLastBroadcast = None, fdSent = []\<rparr>"

lemma sample_feed_ok: "exchange_ok (mEngine (fdMonitor sample_feed))"
proof -
  have "positions_ok NewPositionCache (nextPosID sample_risky)" "owners_ok NewPositionCache (memAccounts sample_risky)"
    by (simp_all add: positions_ok_def owners_ok_def cache_ok_new)
  from exchange_positions [OF sample_risky_ok this] show ?thesis by (simp add: sample_feed_def NewMonitor_def)
qed

theorem handlePrice_safe_witness:
  "\<exists>s'. handlePrice dec16 insertion 0 200 (5, 6) 100 0 sample_feed = Some s' \<and> mkLast (fdMark s') = 100 \<and>
     klines_ok 0 99 101 (fdKlines s') \<and> length (fdSent s') = 1"
proof -
  obtain s1 where s1: "setFeedPrice dec16 100 sample_feed = Some s1" "exchange_ok (mEngine (fdMonitor s1))"
    "mEngine (fdMonitor s1) = (mEngine (fdMonitor sample_feed))\<lparr>priceCache := priceCache (mEngine (fdMonitor s1))\<rparr>"
    using setFeedPrice_ok [OF dec16_law sample_feed_ok, of 100] by metis
  have eng: "positionCache (mEngine (fdMonitor s1)) = NewPositionCache" "room n (mEngine (fdMonitor s1)) = room n sample_risky" for n
    by (subst s1(3), simp add: sample_feed_def NewMonitor_def room_def)+
  obtain mk where mk: "UpdateLastPrice dec16 100 (fdMark sample_feed) = Some mk"
    by (simp add: UpdateLastPrice_def sample_feed_def NewMarkEngine_def Let_def)
  have empty: "GetAll NewPositionCache = []" "GetByUser LiquidationUserID NewPositionCache = []"
    by (simp_all add: GetAll_def GetByUser_def user_ids_def NewPositionCache_def map_filter_simps)
  have "price_fits dec16 insertion 100 mk (fdMonitor s1)"
    unfolding price_fits_def Let_def eng empty by (intro exI [of _ "[]"] exI [of _ "0 :: nat"]) (use eng empty sample_risky_room [of 0] in simp)
  moreover have "mark_ok (fdMark sample_feed)" "klines_ok 0 99 101 (fdKlines sample_feed)"
    "holds_account LiquidationUserID (memAccounts (mEngine (fdMonitor sample_feed)))"
    using mark_ok_new klines_new by (simp_all add: sample_feed_def NewMonitor_def)
  ultimately show ?thesis
    using handlePrice_safe [OF dec16_law insertion.law sample_feed_ok _ _ _ _ _ s1(1) mk, of 0 99 101 200 "(5, 6)" 0]
    by (auto simp: sample_feed_def)
qed

definition sample_connections :: "connection list" where
  "sample_connections =
     (let lost = \<lparr>cnDials = False, cnWrites = True, cnMessages = [], cnStopped = False\<rparr>;
          good = \<lparr>cnDials = True, cnWrites = True,
            cnMessages = [\<lparr>smClock = (\<lambda>k. (0, 0)), smGate = None, smBinance = Some (''?'', 0)\<rparr>], cnStopped = False\<rparr>
      in [lost, good, lost])"

theorem reconnect_delays_witness:
  "\<exists>delays. connectLoop (connectAndListen dec16 insertion (\<lambda>t. None) 0 200 ''wss://fx-ws.gateio.ws'' ''0'') 1 60 0 sample_connections sample_feed =
     Some (delays, sample_feed) \<and> sorted delays \<and> (\<forall>d \<in> set delays. 0 \<le> d \<and> d \<le> 60)"
proof -
  have "\<exists>delays. connectLoop (connectAndListen dec16 insertion (\<lambda>t. None) 0 200 ''wss://fx-ws.gateio.ws'' ''0'') 1 60 0 sample_connections sample_feed =
     Some (delays, sample_feed)"
    by (simp add: sample_connections_def connectAndListen_def handleMessage_def Let_def)
  then obtain delays where "connectLoop (connectAndListen dec16 insertion (\<lambda>t. None) 0 200 ''wss://fx-ws.gateio.ws'' ''0'') 1 60 0
      sample_connections sample_feed = Some (delays, sample_feed)" by blast
  from reconnect_delays [OF this] this show ?thesis by auto
qed

end
