(* ===== verification/Queries.thy ===== *)
theory Queries
  imports Database ADL Kline
begin

section \<open>Queries for the pages of the client (\<open>internal/model\<close>)\<close>

text \<open>
  The paged listings, the leaderboard and the stored candlesticks. The order in which PostgreSQL returns
  rows with equal keys is open: a query that sorts by a column of a row takes the sorting as an argument, with
  the law \<open>sort_law\<close> of a descending sort. \<open>created_at\<close> and \<open>opened_at\<close> are the times of insertion, and a table
  lists its rows in that order, so sorting by them, newest first, is the reverse. \<open>LIMIT\<close> and \<open>OFFSET\<close> with a
  negative number are errors, \<open>None\<close> here.
\<close>

subsection \<open>Listings\<close>

definition page_of :: "int \<Rightarrow> int \<Rightarrow> 'a list \<Rightarrow> 'a list option" where
  "page_of offset limit rows = (if offset < 0 \<or> limit < 0 then None else Some (take (nat limit) (drop (nat offset) rows)))"

definition FindPendingByUser :: "int \<Rightarrow> database \<Rightarrow> order_row list" where
  "FindPendingByUser userID db =
     rev (filter (\<lambda>r. omUserID r = userID \<and> omStatus r = OrderStatusPending) (map snd (dbOrders db)))"

definition FindOrdersByUserPaged :: "int \<Rightarrow> int \<Rightarrow> int \<Rightarrow> database \<Rightarrow> order_row list option" where
  "FindOrdersByUserPaged userID offset limit db =
     page_of offset limit (rev (filter (\<lambda>r. omUserID r = userID) (map snd (dbOrders db))))"

definition FindOrderByID :: "int \<Rightarrow> database \<Rightarrow> order_row option" where
  "FindOrderByID i db = map_of (dbOrders db) i"

definition FindActiveByUser :: "int \<Rightarrow> database \<Rightarrow> position_row list" where
  "FindActiveByUser userID db =
     map scanPosition (rev (filter (\<lambda>p. prUserID p = userID \<and> prStatus p = PositionStatusActive) (map snd (dbPositions db))))"

definition FindTradesByUserPaged :: "int \<Rightarrow> int \<Rightarrow> int \<Rightarrow> database \<Rightarrow> trade_row list option" where
  "FindTradesByUserPaged userID offset limit db =
     page_of offset limit (rev (filter (\<lambda>t. trUserID t = userID) (dbTrades db)))"

definition FindSettlementsByUser ::
    "settlement_row slice_sort \<Rightarrow> int \<Rightarrow> int \<Rightarrow> int \<Rightarrow> database \<Rightarrow> settlement_row list option" where
  "FindSettlementsByUser S userID offset limit db =
     page_of offset limit (S (\<lambda>x y. (of_int (fsSettleTime y) :: dec) < of_int (fsSettleTime x))
       (filter (\<lambda>s. fsUserID s = userID) (dbSettlements db)))"

definition GetLatestRate :: "rate_row slice_sort \<Rightarrow> database \<Rightarrow> rate_row option" where
  "GetLatestRate S db =
     (case S (\<lambda>x y. (of_int (frSettleTime y) :: dec) < of_int (frSettleTime x)) (dbRates db) of [] \<Rightarrow> None | r # _ \<Rightarrow> Some r)"

subsection \<open>The leaderboard (\<open>leaderboard_model.go\<close>)\<close>

text \<open>Rows of \<open>accounts\<close> joined with the nicknames of \<open>users\<close>; \<open>W\<close> sorts for the row numbers, \<open>S\<close> the result.\<close>

record pnl_row =
  plUserID :: int
  plNickname :: string
  plTotalPnl :: dec

record leaderboard_entry =
  leRank :: nat
  leUserID :: int
  leNickname :: string
  leValue :: dec

definition joinUsers :: "(int \<times> string) list \<Rightarrow> database \<Rightarrow> pnl_row list" where
  "joinUsers users db =
     List.map_filter (\<lambda>(u, a). map_option (\<lambda>n. \<lparr>plUserID = u, plNickname = n, plTotalPnl = aTotalPnl a\<rparr>) (map_of users u))
       (dbAccounts db)"

definition rowNumbers :: "pnl_row slice_sort \<Rightarrow> pnl_row list \<Rightarrow> (nat \<times> pnl_row) list" where
  "rowNumbers W rows = enumerate 1 (W (\<lambda>x y. plTotalPnl y < plTotalPnl x) rows)"

definition scanEntry :: "(pnl_row \<Rightarrow> dec) \<Rightarrow> nat \<times> pnl_row \<Rightarrow> leaderboard_entry" where
  "scanEntry val kr =
     \<lparr>leRank = fst kr, leUserID = plUserID (snd kr), leNickname = plNickname (snd kr), leValue = val (snd kr)\<rparr>"

definition GetPnlRanking ::
    "pnl_row slice_sort \<Rightarrow> (nat \<times> pnl_row) slice_sort \<Rightarrow> nat \<Rightarrow> (int \<times> string) list \<Rightarrow> database \<Rightarrow> leaderboard_entry list" where
  "GetPnlRanking W S limit users db =
     (let rows = filter (\<lambda>r. plTotalPnl r \<noteq> 0) (joinUsers users db)
      in map (scanEntry plTotalPnl) (take limit (S (\<lambda>x y. plTotalPnl (snd y) < plTotalPnl (snd x)) (rowNumbers W rows))))"

text \<open>\<open>Q\<close> is the division of the database.\<close>

definition roi_of :: "(dec \<Rightarrow> dec \<Rightarrow> dec) \<Rightarrow> dec \<Rightarrow> pnl_row \<Rightarrow> dec" where
  "roi_of Q initialBalance r = (if 0 < initialBalance then Q (plTotalPnl r) initialBalance * 100 else 0)"

definition GetROIRanking ::
    "pnl_row slice_sort \<Rightarrow> (nat \<times> pnl_row) slice_sort \<Rightarrow> (dec \<Rightarrow> dec \<Rightarrow> dec) \<Rightarrow> nat \<Rightarrow> dec \<Rightarrow> (int \<times> string) list \<Rightarrow>
     database \<Rightarrow> leaderboard_entry list" where
  "GetROIRanking W S Q limit initialBalance users db =
     (let rows = filter (\<lambda>r. plTotalPnl r \<noteq> 0) (joinUsers users db)
      in map (scanEntry (roi_of Q initialBalance))
           (take limit (S (\<lambda>x y. roi_of Q initialBalance (snd y) < roi_of Q initialBalance (snd x)) (rowNumbers W rows))))"

definition GetUserPnlRank :: "pnl_row slice_sort \<Rightarrow> int \<Rightarrow> (int \<times> string) list \<Rightarrow> database \<Rightarrow> leaderboard_entry option" where
  "GetUserPnlRank W userID users db =
     map_option (scanEntry plTotalPnl) (List.find (\<lambda>kr. plUserID (snd kr) = userID) (rowNumbers W (joinUsers users db)))"

subsection \<open>Stored candlesticks (\<open>kline_model.go\<close>)\<close>

text \<open>The table by its unique key; a conflict keeps the stored opening price.\<close>

type_synonym kline_table = "((string \<times> int) \<times> kline_bar) list"

definition storedBar :: "pg \<Rightarrow> kline_bar \<Rightarrow> kline_bar" where
  "storedBar P k =
     k\<lparr>kbOpen := pgCol P (kbOpen k), kbHigh := pgCol P (kbHigh k), kbLow := pgCol P (kbLow k),
       kbClose := pgCol P (kbClose k), kbVolume := pgCol P (kbVolume k)\<rparr>"

definition UpsertKline :: "pg \<Rightarrow> kline_bar \<Rightarrow> kline_table \<Rightarrow> kline_table" where
  "UpsertKline P k t =
     (let key = (kbInterval k, kbOpenTime k)
      in AList.update key
           (case map_of t key of
              None \<Rightarrow> storedBar P k
            | Some old \<Rightarrow> (storedBar P k)\<lparr>kbOpen := kbOpen old\<rparr>) t)"

definition FindKlines :: "kline_bar slice_sort \<Rightarrow> string \<Rightarrow> int \<Rightarrow> kline_table \<Rightarrow> kline_bar list" where
  "FindKlines S interval limit t =
     take (nat limit) (S (\<lambda>x y. (of_int (kbOpenTime y) :: dec) < of_int (kbOpenTime x))
       (filter (\<lambda>k. kbInterval k = interval) (map snd t)))"

end
