(* ===== verification/Queries_Props.thy ===== *)
theory Queries_Props
  imports Queries
begin

section \<open>Pages and ranks\<close>

text \<open>
  The pages of a listing partition it, and a place on the leaderboard is one more than the number of
  better results, counted over different rows by the two queries.
\<close>

subsection \<open>Pages\<close>

lemma page_of_take: "page_of (int (k * n)) (int n) rows = Some (take n (drop (k * n) rows))"
  by (simp add: page_of_def nat_mult_distrib mult_less_0_iff)

lemma pages_concat: "concat (map (\<lambda>k. take n (drop (k * n) rows)) [0..<m]) = take (m * n) rows"
proof (induction m)
  case (Suc m)
  have "take (Suc m * n) rows = take (m * n + n) rows" by (simp add: add.commute)
  also have "\<dots> = take (m * n) rows @ take n (drop (m * n) rows)" by (rule take_add)
  finally show ?case using Suc by simp
qed simp

lemma pages_cover:
  assumes "0 < n" and "length rows \<le> m * n"
  shows "concat (map (\<lambda>k. the (page_of (int (k * n)) (int n) rows)) [0..<m]) = rows"
  unfolding page_of_take using pages_concat [of n rows m] assms(2) by simp

subsection \<open>Positions in a sorted list\<close>

lemma sorted_position:
  assumes "sorted_wrt (\<lambda>x y. key y \<le> (key x :: dec)) xs" and "i < length xs"
    and "length (filter (\<lambda>y. key y = key (xs ! i)) xs) = 1"
  shows "length (filter (\<lambda>y. key (xs ! i) < key y) xs) = i"
proof -
  let ?x = "xs ! i"
  have xs: "xs = take i xs @ ?x # drop (Suc i) xs" using assms(2) by (rule id_take_nth_drop)
  have srt: "\<forall>y \<in> set (take i xs). key ?x \<le> key y" "\<forall>y \<in> set (drop (Suc i) xs). key y \<le> key ?x"
    using assms(1) by (subst (asm) xs, simp add: sorted_wrt_append)+
  have "length (filter (\<lambda>y. key y = key ?x) (take i xs @ ?x # drop (Suc i) xs)) = 1"
    using assms(3) xs by simp
  then have "filter (\<lambda>y. key y = key ?x) (take i xs) = []" by simp
  with srt(1) have "\<forall>y \<in> set (take i xs). key ?x < key y" by (force simp: filter_empty_conv order.strict_iff_order)
  then have "filter (\<lambda>y. key ?x < key y) (take i xs) = take i xs" by (simp add: filter_id_conv)
  moreover have "filter (\<lambda>y. key ?x < key y) (drop (Suc i) xs) = []"
    using srt(2) by (simp add: filter_empty_conv not_less)
  ultimately have "filter (\<lambda>y. key ?x < key y) (take i xs @ ?x # drop (Suc i) xs) = take i xs" by simp
  then show ?thesis using xs assms(2) by (metis length_take min.absorb4)
qed

lemma mset_filter_length: "mset xs = mset ys \<Longrightarrow> length (filter P xs) = length (filter P ys)"
  by (metis mset_filter size_mset)

definition better :: "dec \<Rightarrow> pnl_row list \<Rightarrow> nat" where
  "better v rows = length (filter (\<lambda>r. v < plTotalPnl r) rows)"

definition alone :: "pnl_row \<Rightarrow> pnl_row list \<Rightarrow> bool" where
  "alone r rows \<longleftrightarrow> length (filter (\<lambda>x. plTotalPnl x = plTotalPnl r) rows) = 1"

lemma rowNumber_counts:
  assumes "sort_law W" and "(k, r) \<in> set (rowNumbers W rows)" and "alone r rows"
  shows "k = better (plTotalPnl r) rows + 1"
proof -
  let ?xs = "W (\<lambda>x y. plTotalPnl y < plTotalPnl x) rows"
  note srt = slice_sorter.sorts_permutes [OF slice_sorter.intro [OF assms(1)], of plTotalPnl rows]
    slice_sorter.sorts_descending [OF slice_sorter.intro [OF assms(1)], of plTotalPnl rows]
  from assms(2) obtain i where i: "i < length ?xs" "k = i + 1" "r = ?xs ! i"
    by (auto simp: rowNumbers_def in_set_enumerate_eq intro!: that [of "k - 1"])
  have "length (filter (\<lambda>y. plTotalPnl y = plTotalPnl (?xs ! i)) ?xs) = 1"
    using assms(3) mset_filter_length [OF srt(1)] i(3) by (simp add: alone_def)
  from sorted_position [OF srt(2) i(1) this] show ?thesis
    using i(2,3) mset_filter_length [OF srt(1)] by (simp add: better_def)
qed

lemma rowNumbers_rows:
  assumes "sort_law W"
  shows "snd ` set (rowNumbers W rows) = set rows"
proof -
  have "snd ` set (enumerate n xs) = set xs" for n and xs :: "pnl_row list"
    by (metis list.set_map map_snd_enumerate)
  then show ?thesis
    using slice_sorter.sorts_same_set [OF slice_sorter.intro [OF assms], of plTotalPnl rows] by (simp add: rowNumbers_def)
qed

lemma better_split:
  "v < 0 \<Longrightarrow> better v rows = better v (filter (\<lambda>r. plTotalPnl r \<noteq> 0) rows) + length (filter (\<lambda>r. plTotalPnl r = 0) rows)"
  "0 \<le> v \<Longrightarrow> better v rows = better v (filter (\<lambda>r. plTotalPnl r \<noteq> 0) rows)"
  by (induction rows) (auto simp: better_def)

lemma joinUsers_distinct:
  assumes "distinct (map fst (dbAccounts db))"
  shows "distinct (map plUserID (joinUsers users db))"
proof -
  have "map plUserID (List.map_filter (\<lambda>(u, a). map_option (\<lambda>n. \<lparr>plUserID = u, plNickname = n, plTotalPnl = aTotalPnl a\<rparr>) (map_of users u)) al) =
      map fst (filter (\<lambda>x. map_of users (fst x) \<noteq> None) al)" for al
    by (induction al) (auto simp: map_filter_simps split: option.splits)
  from this [of "dbAccounts db"] show ?thesis
    unfolding joinUsers_def using assms by (simp only: distinct_map_filter)
qed

subsection \<open>The two ranks of a user\<close>

text \<open>
  For a user on the leaderboard whose result no other user has, the rank shown in the list is one more
  than the number of users with a better result. The user's own rank, shown below it, is computed over all accounts: it is
  the same for a user in profit, and larger by the number of users without any result for a user at a loss.
\<close>

theorem own_rank_differs:
  assumes "sort_law W" and "sort_law S" and "sort_law W'" and "distinct (map fst (dbAccounts db))"
    and "e \<in> set (GetPnlRanking W S limit users db)" and "r \<in> set (joinUsers users db)" and "plUserID r = leUserID e"
    and "length (filter (\<lambda>x. plTotalPnl x = plTotalPnl r) (joinUsers users db)) = 1"
  shows "leValue e = plTotalPnl r \<and>
    leRank e = length (filter (\<lambda>x. plTotalPnl r < plTotalPnl x \<and> plTotalPnl x \<noteq> 0) (joinUsers users db)) + 1 \<and>
    GetUserPnlRank W' (leUserID e) users db =
      Some (e\<lparr>leRank := leRank e +
        (if plTotalPnl r < 0 then length (filter (\<lambda>x. plTotalPnl x = 0) (joinUsers users db)) else 0)\<rparr>)"
proof -
  let ?all = "joinUsers users db"
  let ?rows = "filter (\<lambda>r. plTotalPnl r \<noteq> 0) ?all"
  have inj: "x = y" if "x \<in> set ?all" "y \<in> set ?all" "plUserID x = plUserID y" for x y
    using joinUsers_distinct [OF assms(4), of users] that by (simp add: distinct_map inj_on_def)
  have "set (S (\<lambda>x y. plTotalPnl (snd y) < plTotalPnl (snd x)) (rowNumbers W ?rows)) = set (rowNumbers W ?rows)"
    using slice_sorter.sorts_same_set [OF slice_sorter.intro [OF assms(2)], of "plTotalPnl \<circ> snd"] by simp
  then obtain k x where kx: "(k, x) \<in> set (rowNumbers W ?rows)" "e = scanEntry plTotalPnl (k, x)"
    using assms(5) by (auto simp: GetPnlRanking_def Let_def dest!: in_set_takeD)
  then have "x \<in> set ?rows" using rowNumbers_rows [OF assms(1), of ?rows] by force
  then have x: "x = r" "r \<in> set ?rows" using inj [of x r] assms(6,7) kx(2) by (simp_all add: scanEntry_def)
  have al: "alone r ?all" using assms(8) by (simp add: alone_def)
  moreover have "filter (\<lambda>y. plTotalPnl y = plTotalPnl r) ?rows = filter (\<lambda>y. plTotalPnl y = plTotalPnl r) ?all"
    unfolding filter_filter using x(2) by (intro filter_cong) auto
  ultimately have "alone r ?rows" by (simp add: alone_def)
  with rowNumber_counts [OF assms(1)] kx x have k: "k = better (plTotalPnl r) ?rows + 1" by simp
  have "r \<in> snd ` set (rowNumbers W' ?all)" using rowNumbers_rows [OF assms(3)] assms(6) by simp
  then obtain k' where "(k', r) \<in> set (rowNumbers W' ?all)" by force
  then obtain kr where kr: "List.find (\<lambda>kr. plUserID (snd kr) = leUserID e) (rowNumbers W' ?all) = Some kr"
    using assms(7) by (cases "List.find (\<lambda>kr. plUserID (snd kr) = leUserID e) (rowNumbers W' ?all)") (auto simp: find_None_iff)
  then have "kr \<in> set (rowNumbers W' ?all)" "plUserID (snd kr) = leUserID e" using find_SomeD by fastforce+
  moreover from this have "snd kr \<in> set ?all" using rowNumbers_rows [OF assms(3), of ?all] by force
  ultimately have "snd kr = r" using inj [of "snd kr" r] assms(6,7) by simp
  with \<open>kr \<in> set (rowNumbers W' ?all)\<close>
  have in': "(fst kr, r) \<in> set (rowNumbers W' ?all)" and r: "snd kr = r" by (metis prod.collapse)+
  have "fst kr = better (plTotalPnl r) ?all + 1" by (rule rowNumber_counts [OF assms(3) in' al])
  moreover have "better (plTotalPnl r) ?rows = length (filter (\<lambda>x. plTotalPnl r < plTotalPnl x \<and> plTotalPnl x \<noteq> 0) ?all)"
    unfolding better_def filter_filter by (intro arg_cong [where f = length] filter_cong) auto
  ultimately show ?thesis
    using kr k kx(2) x(1) r better_split [of "plTotalPnl r" ?all] by (auto simp: GetUserPnlRank_def scanEntry_def)
qed

definition ranked_db :: database where
  "ranked_db =
     \<lparr>dbAccounts = map (\<lambda>(u, p). (u, \<lparr>aBalance = 0, aFrozen = 0, aTotalPnl = p, aResetCount = 0\<rparr>)) [(1, 30), (2, 0), (3, - 5), (4, 0)],
      dbPositions = [], dbOrders = [], dbTrades = [], dbSettlements = [], dbRates = []\<rparr>"

theorem own_rank_differs_witness:
  "let users = map (\<lambda>u. (u, [])) [1, 2, 3, 4];
       e = \<lparr>leRank = 2, leUserID = 3, leNickname = [], leValue = - 5\<rparr>
   in e \<in> set (GetPnlRanking insertion insertion 50 users ranked_db) \<and>
      GetUserPnlRank insertion 3 users ranked_db = Some (e\<lparr>leRank := 4\<rparr>)"
proof -
  let ?users = "map (\<lambda>u. (u, [])) [1, 2, 3, 4 :: int]"
  let ?e = "\<lparr>leRank = 2, leUserID = 3, leNickname = [], leValue = - 5\<rparr>"
  let ?r = "\<lparr>plUserID = 3, plNickname = [], plTotalPnl = - 5\<rparr>"
  have e: "?e \<in> set (GetPnlRanking insertion insertion 50 ?users ranked_db)"
    by (simp add: GetPnlRanking_def joinUsers_def ranked_db_def map_filter_simps rowNumbers_def insertion_def scanEntry_def)
  have "?r \<in> set (joinUsers ?users ranked_db)"
    "length (filter (\<lambda>x. plTotalPnl x = plTotalPnl ?r) (joinUsers ?users ranked_db)) = 1"
    "length (filter (\<lambda>x. plTotalPnl x = 0) (joinUsers ?users ranked_db)) = 2"
    "distinct (map fst (dbAccounts ranked_db))"
    by (simp_all add: joinUsers_def ranked_db_def map_filter_simps)
  with own_rank_differs [OF insertion.law insertion.law insertion.law _ e, of ?r] e show ?thesis by (simp add: Let_def)
qed

end
