(* ===== verification/Web.thy ===== *)
theory Web
  imports Logic Queries Price_Feed Funding Market_Maker Hub
begin

section \<open>The HTTP interface (\<open>internal/handler\<close>, \<open>internal/middleware\<close>, \<open>pkg\<close>, \<open>cmd/server\<close>)\<close>

text \<open>
  Every route of the server from the request to the response, over the state of the whole service. A
  request is given after \<open>net/http\<close> has parsed it, its body as the JSON tree it holds (\<open>None\<close> is no JSON).
  \<open>encoding/json\<close> decodes a tree into a struct as in theory \<open>Json\<close>, a number into an integer field when its text is
  one. The router is go-zero's: what it answers without a route is \<open>NoRoute\<close>. A response carries its values
  before they are formatted. What the database does beyond \<open>env\<close>, and the time, are fields of \<open>web_env\<close>.
\<close>

subsection \<open>Requests\<close>

record http_request =
  rqMethod :: string
  rqPath :: string
  rqHeader :: "(string \<times> string) list"
  rqQuery :: "(string \<times> string) list"
  rqBody :: "json option"

definition getValue :: "string \<Rightarrow> (string \<times> string) list \<Rightarrow> string" where
  "getValue k al = (case map_of al k of None \<Rightarrow> [] | Some x \<Rightarrow> x)"

text \<open>\<open>strconv.Atoi\<close>.\<close>

fun decimalDigits :: "int \<Rightarrow> string \<Rightarrow> int option" where
  "decimalDigits n [] = Some n"
| "decimalDigits n (c # cs) =
     (let d = (of_char c :: int) in if 48 \<le> d \<and> d \<le> 57 then decimalDigits (10 * n + (d - 48)) cs else None)"

definition signed :: "string \<Rightarrow> bool \<times> string" where
  "signed s =
     (case s of
        [] \<Rightarrow> (False, [])
      | c # cs \<Rightarrow> if c = CHR ''-'' then (True, cs) else if c = CHR ''+'' then (False, cs) else (False, s))"

definition Atoi :: "string \<Rightarrow> int option" where
  "Atoi s =
     (let (neg, ds) = signed s
      in if ds = [] then None
         else case decimalDigits 0 ds of
             None \<Rightarrow> None
           | Some n \<Rightarrow>
               let x = (if neg then - n else n)
               in if - (2 ^ 63) \<le> x \<and> x < 2 ^ 63 then Some x else None)"

definition positiveUpTo :: "int option \<Rightarrow> int \<Rightarrow> int \<Rightarrow> int" where
  "positiveUpTo mx x d = (if 0 < x \<and> (case mx of None \<Rightarrow> True | Some m \<Rightarrow> x \<le> m) then x else d)"

definition queryNumber :: "string \<Rightarrow> int option \<Rightarrow> int \<Rightarrow> http_request \<Rightarrow> int" where
  "queryNumber k mx d r = (case Atoi (getValue k (rqQuery r)) of None \<Rightarrow> d | Some x \<Rightarrow> positiveUpTo mx x d)"

definition parsePagination :: "http_request \<Rightarrow> int \<times> int" where
  "parsePagination r = (queryNumber ''page'' None 1 r, queryNumber ''page_size'' (Some 100) 20 r)"

definition pageOffset :: "int \<times> int \<Rightarrow> int" where
  "pageOffset p = (let (page, pageSize) = p in wrap64 (wrap64 (page - 1) * pageSize))"

subsubsection \<open>Bodies\<close>

fun readInt :: "string \<Rightarrow> (string \<times> json) list \<Rightarrow> bool \<times> int \<Rightarrow> bool \<times> int" where
  "readInt f [] r = r"
| "readInt f ((k, j) # kvs) (ok, n) =
     readInt f kvs
       (if same_name f k
        then (case j of JNum t \<Rightarrow> (case Atoi t of Some x \<Rightarrow> (ok, x) | None \<Rightarrow> (False, n)) | JNull \<Rightarrow> (ok, n) | _ \<Rightarrow> (False, n))
        else (ok, n))"

definition unmarshalInt :: "string \<Rightarrow> json \<Rightarrow> bool \<times> int" where
  "unmarshalInt f j = (case j of JObj kvs \<Rightarrow> readInt f kvs (True, 0) | JNull \<Rightarrow> (True, 0) | _ \<Rightarrow> (False, 0))"

definition decodeString :: "string \<Rightarrow> json \<Rightarrow> string option" where
  "decodeString f j = (let r = unmarshalStruct f j in if fst r then Some (snd r) else None)"

definition decodeInt :: "string \<Rightarrow> json \<Rightarrow> int option" where
  "decodeInt f j = (let r = unmarshalInt f j in if fst r then Some (snd r) else None)"

definition decodePlaceOrder :: "json \<Rightarrow> place_req option" where
  "decodePlaceOrder j =
     do {
       side \<leftarrow> decodeInt ''side'' j;
       typ \<leftarrow> decodeInt ''order_type'' j;
       lev \<leftarrow> decodeInt ''leverage'' j;
       mode \<leftarrow> decodeInt ''margin_mode'' j;
       margin \<leftarrow> decodeString ''margin'' j;
       price \<leftarrow> decodeString ''price'' j;
       tp \<leftarrow> decodeString ''take_profit'' j;
       sl \<leftarrow> decodeString ''stop_loss'' j;
       Some \<lparr>prqSide = side, prqOrderType = typ, prqLeverage = lev, prqMarginMode = mode, prqMargin = margin,
             prqPrice = price, prqTakeProfit = tp, prqStopLoss = sl\<rparr>
     }"

definition decodeClose :: "json \<Rightarrow> (int \<times> string) option" where
  "decodeClose j = do { i \<leftarrow> decodeInt ''position_id'' j; q \<leftarrow> decodeString ''quantity'' j; Some (i, q) }"

definition decodeTPSL :: "json \<Rightarrow> tpsl_req option" where
  "decodeTPSL j =
     do {
       i \<leftarrow> decodeInt ''position_id'' j;
       tp \<leftarrow> decodeString ''take_profit'' j;
       sl \<leftarrow> decodeString ''stop_loss'' j;
       Some \<lparr>tqPositionID = i, tqTakeProfit = tp, tqStopLoss = sl\<rparr>
     }"

definition langOf :: "http_request \<Rightarrow> string" where
  "langOf r = ParseLang (getValue ''Accept-Language'' (rqHeader r))"

subsection \<open>Responses\<close>

record order_history =
  ohID :: int
  ohSide :: int
  ohOrderType :: int
  ohLeverage :: int
  ohPrice :: "dec option"
  ohFilledPrice :: "dec option"
  ohQuantity :: dec
  ohMarginCost :: dec
  ohStatus :: int

record trade_history =
  thSide :: int
  thPrice :: dec
  thQuantity :: dec
  thFee :: dec
  thRealizedPnl :: dec
  thIsClose :: bool
  thCloseReason :: int

record funding_history =
  fhRate :: dec
  fhPositionValue :: dec
  fhPayment :: dec
  fhSettleTime :: int

record pending_info =
  pdID :: int
  pdSide :: int
  pdPrice :: dec
  pdQuantity :: dec
  pdMarginCost :: dec
  pdLeverage :: int

datatype payload =
    LoginData login_resp
  | TokenData string string
  | AccountData account_info
  | ResetData dec
  | PlaceData place_resp
  | CloseData close_resp
  | PositionsData "position_info list"
  | PendingData "pending_info list"
  | OrdersData "order_history list"
  | TradesData "trade_history list"
  | FundingsData "funding_history list"
  | PnlData pnl_summary dec dec
  | LeaderboardData "leaderboard_entry list" "leaderboard_entry option"
  | PriceData ticker
  | KlinesData "kline_bar list"
  | FundingRateData dec int
  | MarkPriceData dec dec dec dec
  | InsuranceData dec
  | DepthData "depth_level list" "depth_level list"
  | ProgressData nat nat "string list"

datatype page_query =
    PageOrders | PageTrades | PageSettlements | SummaryRow | FundingSum | PnlRankingRows | ROIRankingRows | UserRankRow | KlineRows

datatype message =
    OkText | Message string | LogicText logic_error | EngineText engine_error | QueryText page_query | ProgressText logic_query

record envelope =
  reCode :: int
  reMessage :: message
  reData :: "payload option"
  reTutorial :: "tutorial_card option"

datatype answer = Enveloped int envelope | Plain int string | Upgraded nat | NoRoute

definition writeJSON :: "int \<Rightarrow> envelope \<Rightarrow> answer" where
  "writeJSON statusCode resp = Enveloped statusCode resp"

definition Success :: "payload option \<Rightarrow> answer" where
  "Success data = writeJSON 200 \<lparr>reCode = 0, reMessage = OkText, reData = data, reTutorial = None\<rparr>"

definition SuccessWithTutorial :: "payload option \<Rightarrow> tutorial_card option \<Rightarrow> answer" where
  "SuccessWithTutorial data tut = writeJSON 200 \<lparr>reCode = 0, reMessage = OkText, reData = data, reTutorial = tut\<rparr>"

definition Error :: "int \<Rightarrow> message \<Rightarrow> answer" where
  "Error code msg = writeJSON 200 \<lparr>reCode = code, reMessage = msg, reData = None, reTutorial = None\<rparr>"

definition Unauthorized :: "string \<Rightarrow> answer" where
  "Unauthorized msg = writeJSON 401 \<lparr>reCode = 401, reMessage = Message msg, reData = None, reTutorial = None\<rparr>"

definition invalidRequest :: answer where
  "invalidRequest = Error 400 (Message ''invalid request'')"

end
