(* ===== verification/Handlers.thy ===== *)
theory Handlers
  imports Web
begin

section \<open>The handlers and routes (\<open>internal/handler\<close>, \<open>internal/middleware\<close>, \<open>cmd/server/main.go\<close>)\<close>

text \<open>
  The state of the service context: the parts that trade and answer users (\<open>siService\<close>), those the price
  drives (\<open>siFeed\<close>), the funding scheduler, the bot, the hub and the table of candlesticks. The engine and the
  database are shared by pointers: they are the ones of \<open>siService\<close>, and \<open>feedOf\<close> and \<open>schedulerOf\<close> are the other
  parts seen with them.
\<close>

subsection \<open>State\<close>

record site =
  siService :: service
  siFeed :: feed
  siScheduler :: scheduler
  siBot :: bot
  siHub :: hub
  siBars :: kline_table

definition feedOf :: "site \<Rightarrow> feed" where
  "feedOf st = (siFeed st)\<lparr>fdMonitor := (fdMonitor (siFeed st))\<lparr>mEngine := svEngine (siService st)\<rparr>\<rparr>"

definition schedulerOf :: "site \<Rightarrow> scheduler" where
  "schedulerOf st = (siScheduler st)\<lparr>schEngine := svEngine (siService st), schDB := svDB (siService st)\<rparr>"

definition onService :: "(service \<Rightarrow> service) \<Rightarrow> site \<Rightarrow> site" where
  "onService f st = st\<lparr>siService := f (siService st)\<rparr>"

record web_env =
  weEnv :: env
  weFails :: "page_query \<Rightarrow> bool"
  weSettled :: "settlement_row slice_sort"
  weNumber :: "pnl_row slice_sort"
  weRank :: "(nat \<times> pnl_row) slice_sort"
  weBars :: "kline_bar slice_sort"
  weQuot :: "dec \<Rightarrow> dec \<Rightarrow> dec"
  weUpgrades :: bool
  weNow :: int

text \<open>A handler: the user the middleware found (0 without it), the request and the state; \<open>None\<close> is a panic.\<close>

type_synonym handler = "web_env \<Rightarrow> int \<Rightarrow> http_request \<Rightarrow> site \<Rightarrow> (answer \<times> site) option"

text \<open>A handler that decodes a body first, and a query whose error is shown.\<close>

definition decoding :: "(json \<Rightarrow> 'a option) \<Rightarrow> http_request \<Rightarrow> site \<Rightarrow> ('a \<Rightarrow> (answer \<times> site) option) \<Rightarrow> (answer \<times> site) option" where
  "decoding dec r st k =
     (case Option.bind (rqBody r) dec of None \<Rightarrow> Some (invalidRequest, st) | Some req \<Rightarrow> k req)"

definition querying :: "web_env \<Rightarrow> page_query \<Rightarrow> site \<Rightarrow> 'a option \<Rightarrow> ('a \<Rightarrow> payload) \<Rightarrow> (answer \<times> site) option" where
  "querying v q st result f =
     (if weFails v q then Some (Error 500 (QueryText q), st)
      else case result of
          None \<Rightarrow> Some (Error 500 (QueryText q), st)
        | Some x \<Rightarrow> Some (Success (Some (f x)), st))"

subsection \<open>Login (\<open>auth_handler.go\<close>)\<close>

definition WxLoginHandler :: handler where
  "WxLoginHandler v u r st =
     decoding (decodeString ''code'') r st (\<lambda>code.
       (case WxLogin (weEnv v) code (langOf r) (siService st) of
          (Inl err, s) \<Rightarrow> Some (Error 500 (LogicText err), st\<lparr>siService := s\<rparr>)
        | (Inr (resp, tut), s) \<Rightarrow> Some (SuccessWithTutorial (Some (LoginData resp)) tut, st\<lparr>siService := s\<rparr>)))"

definition RefreshTokenHandler :: handler where
  "RefreshTokenHandler v u r st =
     decoding (decodeString ''refresh_token'') r st (\<lambda>token.
       (case RefreshToken (weEnv v) token of
          Inl err \<Rightarrow> Some (Error 401 (LogicText err), st)
        | Inr (t, rt) \<Rightarrow> Some (Success (Some (TokenData t rt)), st)))"

subsection \<open>Account (\<open>account_handler.go\<close>)\<close>

definition AccountInfoHandler :: handler where
  "AccountInfoHandler v userID r st =
     (case GetInfo (weEnv v) userID (siService st) of
        Inl err \<Rightarrow> Some (Error 500 (LogicText err), st)
      | Inr resp \<Rightarrow> Some (Success (Some (AccountData resp)), st))"

definition ResetAccountHandler :: handler where
  "ResetAccountHandler v userID r st =
     (case Reset (weEnv v) userID (siService st) of
        (Inl err, s) \<Rightarrow> Some (Error 500 (LogicText err), st\<lparr>siService := s\<rparr>)
      | (Inr b, s) \<Rightarrow> Some (Success (Some (ResetData b)), st\<lparr>siService := s\<rparr>))"

subsection \<open>Orders (\<open>trade_handler.go\<close>)\<close>

definition PlaceOrderHandler :: "decimal_lib \<Rightarrow> handler" where
  "PlaceOrderHandler D v userID r st =
     decoding decodePlaceOrder r st (\<lambda>req. do {
       (result, s) \<leftarrow> PlaceOrder D (weEnv v) userID req (langOf r) (siService st);
       (case result of
          Inl err \<Rightarrow> Some (Error 500 (LogicText err), st\<lparr>siService := s\<rparr>)
        | Inr (resp, tut) \<Rightarrow> Some (SuccessWithTutorial (Some (PlaceData resp)) tut, st\<lparr>siService := s\<rparr>))
     })"

definition CancelOrderHandler :: handler where
  "CancelOrderHandler v userID r st =
     decoding (decodeInt ''order_id'') r st (\<lambda>orderID. do {
       (result, s) \<leftarrow> CancelOrderOf userID orderID (siService st);
       (case result of
          Some err \<Rightarrow> Some (Error 500 (EngineText err), st\<lparr>siService := s\<rparr>)
        | None \<Rightarrow> Some (Success None, st\<lparr>siService := s\<rparr>))
     })"

subsection \<open>Positions (\<open>position_handler.go\<close>)\<close>

definition ClosePositionHandler :: "decimal_lib \<Rightarrow> handler" where
  "ClosePositionHandler D v userID r st =
     decoding decodeClose r st (\<lambda>(positionID, quantity). do {
       (result, s) \<leftarrow> Close D (weEnv v) userID positionID quantity (langOf r) (siService st);
       (case result of
          Inl err \<Rightarrow> Some (Error 500 (LogicText err), st\<lparr>siService := s\<rparr>)
        | Inr (resp, tut) \<Rightarrow> Some (SuccessWithTutorial (Some (CloseData resp)) tut, st\<lparr>siService := s\<rparr>))
     })"

definition UpdateTPSLHandler :: handler where
  "UpdateTPSLHandler v userID r st =
     decoding decodeTPSL r st (\<lambda>req.
       (case UpdateTPSLOf (weEnv v) userID req (langOf r) (siService st) of
          (Inl err, s) \<Rightarrow> Some (Error 500 (LogicText err), st\<lparr>siService := s\<rparr>)
        | (Inr tut, s) \<Rightarrow> Some (SuccessWithTutorial None tut, st\<lparr>siService := s\<rparr>)))"

definition PositionListHandler :: "decimal_lib \<Rightarrow> handler" where
  "PositionListHandler D v userID r st =
     do { resp \<leftarrow> listPositions D userID (siService st); Some (Success (Some (PositionsData resp)), st) }"

definition pendingInfo :: "cached_order \<Rightarrow> pending_info" where
  "pendingInfo ord =
     \<lparr>pdID = coID ord, pdSide = coSide ord, pdPrice = coPrice ord, pdQuantity = coQuantity ord,
      pdMarginCost = coMarginCost ord, pdLeverage = coLeverage ord\<rparr>"

definition PendingOrdersHandler :: handler where
  "PendingOrdersHandler v userID r st =
     Some (Success (Some (PendingData (map pendingInfo (GetOrdersByUser userID (orderCache (svEngine (siService st))))))), st)"

subsection \<open>History (\<open>history_handler.go\<close>)\<close>

definition orderHistory :: "order_row \<Rightarrow> order_history" where
  "orderHistory x =
     \<lparr>ohID = omID x, ohSide = omSide x, ohOrderType = omOrderType x, ohLeverage = omLeverage x, ohPrice = omPrice x,
      ohFilledPrice = omFilledPrice x, ohQuantity = omQuantity x, ohMarginCost = omMarginCost x, ohStatus = omStatus x\<rparr>"

definition HistoryOrdersHandler :: handler where
  "HistoryOrdersHandler v userID r st =
     (let p = parsePagination r
      in querying v PageOrders st (FindOrdersByUserPaged userID (pageOffset p) (snd p) (svDB (siService st)))
           (\<lambda>rows. OrdersData (map orderHistory rows)))"

definition tradeHistory :: "trade_row \<Rightarrow> trade_history" where
  "tradeHistory t =
     \<lparr>thSide = trSide t, thPrice = trPrice t, thQuantity = trQuantity t, thFee = trFee t, thRealizedPnl = trRealizedPnl t,
      thIsClose = trIsClose t, thCloseReason = trCloseReason t\<rparr>"

definition HistoryTradesHandler :: handler where
  "HistoryTradesHandler v userID r st =
     (let p = parsePagination r
      in querying v PageTrades st (FindTradesByUserPaged userID (pageOffset p) (snd p) (svDB (siService st)))
           (\<lambda>rows. TradesData (map tradeHistory rows)))"

definition fundingHistory :: "settlement_row \<Rightarrow> funding_history" where
  "fundingHistory s =
     \<lparr>fhRate = fsRate s, fhPositionValue = fsPositionValue s, fhPayment = fsPayment s, fhSettleTime = fsSettleTime s div second\<rparr>"

definition HistoryFundingHandler :: handler where
  "HistoryFundingHandler v userID r st =
     (let p = parsePagination r
      in querying v PageSettlements st (FindSettlementsByUser (weSettled v) userID (pageOffset p) (snd p) (svDB (siService st)))
           (\<lambda>rows. FundingsData (map fundingHistory rows)))"

text \<open>The rate of winning trades is a quotient of \<open>float64\<close> shown with one digit; here it is exact.\<close>

definition winRate :: "pnl_summary \<Rightarrow> dec" where
  "winRate s =
     (let n = psWinCount s + psLossCount s in if 0 < n then of_nat (psWinCount s) / of_nat n * 100 else 0)"

definition PnlSummaryHandler :: handler where
  "PnlSummaryHandler v userID r st =
     (let db = svDB (siService st);
          totalFunding = (if weFails v FundingSum then 0 else GetTotalFunding userID db)
      in querying v SummaryRow st (Some (GetPnlSummary userID db)) (\<lambda>summary. PnlData summary totalFunding (winRate summary)))"

subsection \<open>Leaderboard (\<open>leaderboard_handler.go\<close>)\<close>

text \<open>The nicknames: \<open>init_db.sql\<close> names the two system users, a login leaves the name empty.\<close>

definition nicknames :: "service \<Rightarrow> (int \<times> string) list" where
  "nicknames s =
     map (\<lambda>(i, o'). (i, if i = 0 then ''MarketMaker'' else if i = - 1 then ''LiquidationEngine'' else [])) (svUsers s)"

text \<open>A failed query for the own rank leaves the zero entry, which is shown.\<close>

definition noEntry :: leaderboard_entry where
  "noEntry = \<lparr>leRank = 0, leUserID = 0, leNickname = [], leValue = 0\<rparr>"

definition LeaderboardPnlHandler :: handler where
  "LeaderboardPnlHandler v userID r st =
     (let s = siService st;
          my = (if weFails v UserRankRow then Some noEntry else GetUserPnlRank (weNumber v) userID (nicknames s) (svDB s))
      in querying v PnlRankingRows st (Some (GetPnlRanking (weNumber v) (weRank v) 50 (nicknames s) (svDB s)))
           (\<lambda>entries. LeaderboardData entries my))"

definition LeaderboardROIHandler :: handler where
  "LeaderboardROIHandler v userID r st =
     (let s = siService st
      in querying v ROIRankingRows st
           (Some (GetROIRanking (weNumber v) (weRank v) (weQuot v) 50 (envInitialBalance (weEnv v)) (nicknames s) (svDB s)))
           (\<lambda>entries. LeaderboardData entries None))"

subsection \<open>Market (\<open>market_handler.go\<close>)\<close>

definition PriceHandler :: handler where
  "PriceHandler v u r st = Some (Success (Some (PriceData (GetTicker (priceCache (svEngine (siService st)))))), st)"

definition KlinesHandler :: handler where
  "KlinesHandler v u r st =
     (let q = getValue ''interval'' (rqQuery r);
          interval = (if q = [] then ''1m'' else q);
          limit = queryNumber ''limit'' (Some 1500) 100 r;
          isSecondLevel = (interval = ''1s'' \<or> interval = ''5s'' \<or> interval = ''15s'');
          bars = GetCachedKlines interval limit (fdKlines (siFeed st))
      in if limit \<le> int (length bars) \<or> isSecondLevel then Some (Success (Some (KlinesData bars)), st)
         else querying v KlineRows st (Some (FindKlines (weBars v) interval limit (siBars st))) KlinesData)"

definition MarkPriceHandler :: handler where
  "MarkPriceHandler v u r st =
     (let mk = fdMark (siFeed st); (lastPrice, mark, index) = GetPrices mk; basis = GetBasis mk
      in Some (Success (Some (MarkPriceData lastPrice mark index basis)), st))"

text \<open>A service without a fund does not exist: the pointer is never nil.\<close>

definition InsuranceFundHandler :: handler where
  "InsuranceFundHandler v u r st =
     (case mFund (fdMonitor (siFeed st)) of
        None \<Rightarrow> None
      | Some f \<Rightarrow> Some (Success (Some (InsuranceData (GetFundBalance f))), st))"

definition DepthHandler :: handler where
  "DepthHandler v u r st =
     do {
       (bs, as) \<leftarrow> Depth (queryNumber ''limit'' (Some 100) 20 r) (ebook (svEngine (siService st)));
       Some (Success (Some (DepthData bs as)), st)
     }"

definition FundingRateHandler :: handler where
  "FundingRateHandler v u r st =
     do {
       nextSettle \<leftarrow> GetNextSettleTime (weNow v) (siScheduler st);
       Some (Success (Some (FundingRateData (GetCurrentRate (siScheduler st)) (nextSettle div second))), st)
     }"

subsection \<open>Tutorial (\<open>tutorial_handler.go\<close>)\<close>

definition TutorialProgressHandler :: handler where
  "TutorialProgressHandler v userID r st =
     (if envFails (weEnv v) SelectProgress then Some (Error 500 (ProgressText SelectProgress), st)
      else
        let completed = GetCompleted userID (svProgress (siService st))
        in Some (Success (Some (ProgressData (length completed) TotalTopics completed)), st))"

definition CompleteTutorialHandler :: handler where
  "CompleteTutorialHandler v userID r st =
     decoding (decodeString ''topic_id'') r st (\<lambda>topicID.
       (if map_of (GetTopics []) topicID = None then Some (Error 400 (Message ''invalid topic_id''), st)
        else if envFails (weEnv v) InsertProgress then Some (Error 500 (ProgressText InsertProgress), st)
        else Some (Success None, onService (\<lambda>s. s\<lparr>svProgress := MarkComplete userID topicID (svProgress s)\<rparr>) st)))"

subsection \<open>WebSocket (\<open>ws_handler.go\<close>)\<close>

text \<open>The connection is registered by the hub's loop; \<open>Upgraded\<close> names it.\<close>

definition WebSocketHandler :: handler where
  "WebSocketHandler v u r st =
     (let token = getValue ''token'' (rqQuery r)
      in if token = [] then Some (Plain 401 ''missing token'', st)
         else case envVerify (weEnv v) token of
             None \<Rightarrow> Some (Plain 401 ''invalid token'', st)
           | Some userID \<Rightarrow>
               if \<not> weUpgrades v then Some (Plain 400 [], st)
               else
                 let (p, h) = NewClient userID (siHub st)
                 in do { h' \<leftarrow> onRegister p h; Some (Upgraded p, st\<lparr>siHub := h'\<rparr>) })"

subsection \<open>Authentication (\<open>auth_middleware.go\<close>)\<close>

definition extractToken :: "http_request \<Rightarrow> string" where
  "extractToken r =
     (let auth = getValue ''Authorization'' (rqHeader r)
      in if take 7 auth = ''Bearer '' then drop 7 auth else getValue ''token'' (rqQuery r))"

definition AuthMiddleware :: "handler \<Rightarrow> handler" where
  "AuthMiddleware handle v u r st =
     (let token = extractToken r
      in if token = [] then Some (Unauthorized ''missing token'', st)
         else case envVerify (weEnv v) token of
             None \<Rightarrow> Some (Unauthorized ''invalid token'', st)
           | Some userID \<Rightarrow> handle v userID r st)"

subsection \<open>Routes (\<open>main.go\<close>)\<close>

datatype endpoint =
    WxLoginE | RefreshTokenE | PriceE | KlinesE | FundingRateE | MarkPriceE | InsuranceFundE | DepthE | WebSocketE | HealthE
  | AccountInfoE | ResetAccountE | PlaceOrderE | CancelOrderE | ClosePositionE | UpdateTPSLE | PositionListE | PendingOrdersE
  | HistoryOrdersE | HistoryTradesE | HistoryFundingE | PnlSummaryE | LeaderboardPnlE | LeaderboardROIE
  | TutorialProgressE | CompleteTutorialE

fun handlerOf :: "decimal_lib \<Rightarrow> endpoint \<Rightarrow> handler" where
  "handlerOf D WxLoginE = WxLoginHandler"
| "handlerOf D RefreshTokenE = RefreshTokenHandler"
| "handlerOf D PriceE = PriceHandler"
| "handlerOf D KlinesE = KlinesHandler"
| "handlerOf D FundingRateE = FundingRateHandler"
| "handlerOf D MarkPriceE = MarkPriceHandler"
| "handlerOf D InsuranceFundE = InsuranceFundHandler"
| "handlerOf D DepthE = DepthHandler"
| "handlerOf D WebSocketE = WebSocketHandler"
| "handlerOf D HealthE = (\<lambda>v u r st. Some (Plain 200 ''{\"status\":\"ok\"}'', st))"
| "handlerOf D AccountInfoE = AccountInfoHandler"
| "handlerOf D ResetAccountE = ResetAccountHandler"
| "handlerOf D PlaceOrderE = PlaceOrderHandler D"
| "handlerOf D CancelOrderE = CancelOrderHandler"
| "handlerOf D ClosePositionE = ClosePositionHandler D"
| "handlerOf D UpdateTPSLE = UpdateTPSLHandler"
| "handlerOf D PositionListE = PositionListHandler D"
| "handlerOf D PendingOrdersE = PendingOrdersHandler"
| "handlerOf D HistoryOrdersE = HistoryOrdersHandler"
| "handlerOf D HistoryTradesE = HistoryTradesHandler"
| "handlerOf D HistoryFundingE = HistoryFundingHandler"
| "handlerOf D PnlSummaryE = PnlSummaryHandler"
| "handlerOf D LeaderboardPnlE = LeaderboardPnlHandler"
| "handlerOf D LeaderboardROIE = LeaderboardROIHandler"
| "handlerOf D TutorialProgressE = TutorialProgressHandler"
| "handlerOf D CompleteTutorialE = CompleteTutorialHandler"

definition publicRoutes :: "((string \<times> string) \<times> endpoint) list" where
  "publicRoutes =
     [((''POST'', ''/api/v1/auth/wx-login''), WxLoginE), ((''POST'', ''/api/v1/auth/refresh''), RefreshTokenE),
      ((''GET'', ''/api/v1/market/price''), PriceE), ((''GET'', ''/api/v1/market/klines''), KlinesE),
      ((''GET'', ''/api/v1/market/funding-rate''), FundingRateE), ((''GET'', ''/api/v1/market/mark-price''), MarkPriceE),
      ((''GET'', ''/api/v1/market/insurance-fund''), InsuranceFundE), ((''GET'', ''/api/v1/market/depth''), DepthE),
      ((''GET'', ''/ws''), WebSocketE), ((''GET'', ''/health''), HealthE)]"

definition authenticatedRoutes :: "((string \<times> string) \<times> endpoint) list" where
  "authenticatedRoutes =
     [((''GET'', ''/api/v1/account/info''), AccountInfoE), ((''POST'', ''/api/v1/account/reset''), ResetAccountE),
      ((''POST'', ''/api/v1/order/place''), PlaceOrderE), ((''POST'', ''/api/v1/order/cancel''), CancelOrderE),
      ((''POST'', ''/api/v1/position/close''), ClosePositionE), ((''POST'', ''/api/v1/position/update-tpsl''), UpdateTPSLE),
      ((''GET'', ''/api/v1/position/list''), PositionListE), ((''GET'', ''/api/v1/order/pending''), PendingOrdersE),
      ((''GET'', ''/api/v1/history/orders''), HistoryOrdersE), ((''GET'', ''/api/v1/history/trades''), HistoryTradesE),
      ((''GET'', ''/api/v1/history/funding''), HistoryFundingE), ((''GET'', ''/api/v1/history/pnl''), PnlSummaryE),
      ((''GET'', ''/api/v1/leaderboard/pnl''), LeaderboardPnlE), ((''GET'', ''/api/v1/leaderboard/roi''), LeaderboardROIE),
      ((''GET'', ''/api/v1/tutorial/progress''), TutorialProgressE), ((''POST'', ''/api/v1/tutorial/complete''), CompleteTutorialE)]"

text \<open>A registered route, and the server with all of them: a request takes the route of its method and path.\<close>

definition registerRoutes :: "decimal_lib \<Rightarrow> ((string \<times> string) \<times> handler) list" where
  "registerRoutes D =
     map (apsnd (handlerOf D)) publicRoutes @ map (apsnd (\<lambda>ep. AuthMiddleware (handlerOf D ep))) authenticatedRoutes"

definition serveHTTP :: "decimal_lib \<Rightarrow> web_env \<Rightarrow> http_request \<Rightarrow> site \<Rightarrow> (answer \<times> site) option" where
  "serveHTTP D v r st =
     (case map_of (registerRoutes D) (rqMethod r, rqPath r) of
        None \<Rightarrow> Some (NoRoute, st)
      | Some handle \<Rightarrow> handle v 0 r st)"

end
