(* ===== verification/Handlers_Props.thy ===== *)
theory Handlers_Props
  imports Handlers Queries_Props Logic_Props
begin

section \<open>What requests can do\<close>

text \<open>
  The handlers sorted by their effect: those that only read, the six that make one call of the logic
  layer, the one that marks a topic and the one that opens a connection; then who may cause these
  effects, that no request makes the server panic, and what the pages show.
\<close>

subsection \<open>Numbers from requests\<close>

lemma positiveUpTo_range: "1 \<le> d \<Longrightarrow> 1 \<le> positiveUpTo mx x d"
  by (simp add: positiveUpTo_def)

lemma queryNumber_range:
  "1 \<le> d \<Longrightarrow> 1 \<le> queryNumber k mx d r"
  "d \<le> m \<Longrightarrow> queryNumber k (Some m) d r \<le> m"
  by (auto simp: queryNumber_def positiveUpTo_def split: option.split)

lemma decimalDigits_grow: "0 \<le> n \<Longrightarrow> decimalDigits n s = Some m \<Longrightarrow> 0 \<le> m"
  by (induction n s rule: decimalDigits.induct) (auto simp: Let_def split: if_splits)

lemma Atoi_range: "Atoi s = Some x \<Longrightarrow> - (2 ^ 63) \<le> x \<and> x < 2 ^ 63"
  by (auto simp: Atoi_def Let_def split: prod.splits if_splits option.splits)

lemma queryNumber_int: "d < 2 ^ 63 \<Longrightarrow> queryNumber k mx d r < 2 ^ 63"
  using Atoi_range by (auto simp: queryNumber_def positiveUpTo_def split: option.split)

lemma pageOffset_exact:
  assumes "1 \<le> p" and "p < 2 ^ 63" and "(p - 1) * n < 2 ^ 63" and "1 \<le> n"
  shows "pageOffset (p, n) = (p - 1) * n"
proof -
  have "0 \<le> (p - 1) * n" using assms by simp
  then show ?thesis using assms by (simp add: pageOffset_def wrap64_def)
qed

subsection \<open>Readers\<close>

definition changing :: "endpoint list" where
  "changing = [WxLoginE, ResetAccountE, PlaceOrderE, CancelOrderE, ClosePositionE, UpdateTPSLE, CompleteTutorialE, WebSocketE]"

lemma decoding_state:
  "decoding dec r st k = Some (a, st') \<Longrightarrow> (\<And>x a st'. k x = Some (a, st') \<Longrightarrow> st' = st) \<Longrightarrow> st' = st"
  by (auto simp: decoding_def split: option.splits)

lemma querying_state: "querying v q st x f = Some (a, st') \<Longrightarrow> st' = st"
  by (auto simp: querying_def split: if_splits option.splits)

lemma querying_answers: "\<exists>a st'. querying v q st x f = Some (a, st')"
  by (auto simp: querying_def split: option.splits)

text \<open>A page only reads, and is always answered.\<close>

definition reads :: "handler \<Rightarrow> bool" where
  "reads h \<longleftrightarrow> (\<forall>v u r st a st'. h v u r st = Some (a, st') \<longrightarrow> st' = st)"

lemma readsI: "(\<And>v u r st a st'. h v u r st = Some (a, st') \<Longrightarrow> st' = st) \<Longrightarrow> reads h"
  by (simp add: reads_def)

lemma pages_read:
  "reads HistoryOrdersHandler" "reads HistoryTradesHandler" "reads HistoryFundingHandler" "reads PnlSummaryHandler"
  "reads LeaderboardPnlHandler" "reads LeaderboardROIHandler"
  unfolding reads_def HistoryOrdersHandler_def HistoryTradesHandler_def HistoryFundingHandler_def PnlSummaryHandler_def
    LeaderboardPnlHandler_def LeaderboardROIHandler_def Let_def
  by (blast dest: querying_state)+

lemma market_read:
  "reads PriceHandler" "reads KlinesHandler" "reads MarkPriceHandler" "reads InsuranceFundHandler" "reads DepthHandler"
  "reads FundingRateHandler"
  unfolding reads_def PriceHandler_def KlinesHandler_def MarkPriceHandler_def InsuranceFundHandler_def DepthHandler_def
    FundingRateHandler_def Let_def
  by (auto dest: querying_state split: if_splits option.splits bind_splits prod.splits)

lemma user_read:
  "reads RefreshTokenHandler" "reads AccountInfoHandler" "reads (PositionListHandler D)" "reads PendingOrdersHandler"
  "reads TutorialProgressHandler"
  unfolding reads_def RefreshTokenHandler_def AccountInfoHandler_def PositionListHandler_def PendingOrdersHandler_def
    TutorialProgressHandler_def Let_def decoding_def
  by (auto split: if_splits sum.splits option.splits bind_splits prod.splits)

lemma reader_state: "ep \<notin> set changing \<Longrightarrow> reads (handlerOf D ep)"
  by (cases ep) (simp_all add: changing_def pages_read market_read user_read, simp add: reads_def)

subsection \<open>Answers\<close>

definition site_ok :: "site \<Rightarrow> nat set \<Rightarrow> bool" where
  "site_ok st reading \<longleftrightarrow>
     service_ok (siService st) \<and> hub_ok (siHub st) {} reading \<and> schHours (siScheduler st) \<noteq> [] \<and>
     mFund (fdMonitor (siFeed st)) \<noteq> None"

lemma those_total: "\<forall>x \<in> set xs. f x \<noteq> None \<Longrightarrow> those (map f xs) \<noteq> None"
  by (induction xs) auto

lemma listPositions_total:
  assumes "div_law D"
  shows "listPositions D u s \<noteq> None"
proof -
  note tot = decimal.CalcMarginRatio_total [OF decimal.intro [OF assms]] decimal.CalcROI_total [OF decimal.intro [OF assms]]
  have "positionInfo D price n cp \<noteq> None" for price n cp
  proof -
    obtain x where "CalcROI D (CalcUnrealizedPnL (NewFromString (pEntryPrice cp)) price (NewFromString (pQuantity cp)) (pSide cp))
        (NewFromString (pMargin cp)) = Some x" using tot(2) by blast
    moreover obtain y where "CalcMarginRatio D (NewFromString (pMargin cp))
        (CalcUnrealizedPnL (NewFromString (pEntryPrice cp)) price (NewFromString (pQuantity cp)) (pSide cp))
        (NewFromString (pQuantity cp)) price = Some y" using tot(1) by blast
    ultimately show ?thesis by (simp add: positionInfo_def Let_def)
  qed
  then show ?thesis unfolding listPositions_def Let_def by (intro those_total) blast
qed

lemma reader_answers:
  assumes "div_law D" and "site_ok st reading" and "ep \<notin> set changing"
  shows "handlerOf D ep v u r st \<noteq> None"
proof -
  have depth: "Depth (queryNumber ''limit'' (Some 100) 20 r) b \<noteq> None" for b
    using queryNumber_range(1) [of 20 "''limit''" "Some 100" r] by (simp add: Depth_def)
  have pages: "handlerOf D ep v u r st \<noteq> None"
    if "ep \<in> {HistoryOrdersE, HistoryTradesE, HistoryFundingE, PnlSummaryE, LeaderboardPnlE, LeaderboardROIE, KlinesE}"
    using that
    by (auto simp: HistoryOrdersHandler_def HistoryTradesHandler_def HistoryFundingHandler_def PnlSummaryHandler_def
        LeaderboardPnlHandler_def LeaderboardROIHandler_def KlinesHandler_def Let_def querying_answers)
  have market: "handlerOf D ep v u r st \<noteq> None" if "ep \<in> {PriceE, FundingRateE, MarkPriceE, InsuranceFundE, DepthE, HealthE}"
    using that assms(2) depth
    by (auto simp: PriceHandler_def FundingRateHandler_def MarkPriceHandler_def InsuranceFundHandler_def DepthHandler_def
        GetNextSettleTime_def site_ok_def GetPrices_def Let_def split: option.split list.split bind_splits)
  have user: "handlerOf D ep v u r st \<noteq> None"
    if "ep \<in> {RefreshTokenE, AccountInfoE, PositionListE, PendingOrdersE, TutorialProgressE}"
    using that listPositions_total [OF assms(1), of u "siService st"]
    by (auto simp: RefreshTokenHandler_def AccountInfoHandler_def PositionListHandler_def PendingOrdersHandler_def
        TutorialProgressHandler_def decoding_def Let_def split: option.split sum.split)
  show ?thesis using pages market user assms(3) by (cases ep) (simp_all add: changing_def)
qed

subsection \<open>Calls of the logic layer\<close>

text \<open>The call an endpoint makes for a user, if the body decodes.\<close>

fun apiOf :: "endpoint \<Rightarrow> int \<Rightarrow> http_request \<Rightarrow> api option" where
  "apiOf WxLoginE u r = map_option (\<lambda>code. ApiLogin code (langOf r)) (Option.bind (rqBody r) (decodeString ''code''))"
| "apiOf ResetAccountE u r = Some (ApiReset u)"
| "apiOf PlaceOrderE u r = map_option (\<lambda>req. ApiOrder u req (langOf r)) (Option.bind (rqBody r) decodePlaceOrder)"
| "apiOf CancelOrderE u r = map_option (ApiCancel u) (Option.bind (rqBody r) (decodeInt ''order_id''))"
| "apiOf ClosePositionE u r = map_option (\<lambda>(i, q). ApiClose u i q (langOf r)) (Option.bind (rqBody r) decodeClose)"
| "apiOf UpdateTPSLE u r = map_option (\<lambda>req. ApiTPSL u req (langOf r)) (Option.bind (rqBody r) decodeTPSL)"
| "apiOf _ u r = None"

definition calling :: "endpoint list" where
  "calling = [WxLoginE, ResetAccountE, PlaceOrderE, CancelOrderE, ClosePositionE, UpdateTPSLE]"

lemma api_user_of: "apiOf ep u r = Some x \<Longrightarrow> api_user x = (if ep = WxLoginE then 0 else u)"
  by (cases ep) auto

lemma calling_step:
  assumes "ep \<in> set calling"
  shows "case apiOf ep u r of
      None \<Rightarrow> handlerOf D ep v u r st = Some (invalidRequest, st)
    | Some x \<Rightarrow> map_option snd (handlerOf D ep v u r st) =
        map_option (\<lambda>s. st\<lparr>siService := s\<rparr>) (api_step D (weEnv v) x (siService st))"
  using assms
  by (cases ep)
    (auto simp: calling_def WxLoginHandler_def ResetAccountHandler_def PlaceOrderHandler_def CancelOrderHandler_def
      ClosePositionHandler_def UpdateTPSLHandler_def decoding_def split: option.splits sum.splits prod.splits bind_splits)

subsection \<open>Handlers keep the service well formed\<close>

lemma site_ok_cong:
  "siHub st' = siHub st \<Longrightarrow> siScheduler st' = siScheduler st \<Longrightarrow> siFeed st' = siFeed st \<Longrightarrow> site_ok st reading \<Longrightarrow>
   service_ok (siService st') \<Longrightarrow> site_ok st' reading"
  by (simp add: site_ok_def)

text \<open>The connections a step opened: the new client objects.\<close>

definition opened :: "hub \<Rightarrow> hub \<Rightarrow> nat set" where
  "opened h h' = {length (hubObjects h)..<length (hubObjects h')}"

lemma opened_same [simp]: "opened h h = {}"
  by (simp add: opened_def)

lemma onRegister_objects: "onRegister p h = Some h' \<Longrightarrow> length (hubObjects h') = length (hubObjects h)"
  by (auto simp: onRegister_def closeSend_def set_client_def dropClient_def split: option.splits bind_splits if_splits)

lemma hub_connects:
  assumes "hub_ok h {} reading" and "NewClient u h = (p, h1)"
  shows "\<exists>h2. onRegister p h1 = Some h2 \<and> hub_ok h2 {} (reading \<union> opened h h2) \<and> length (hubObjects h) \<le> length (hubObjects h2)"
proof -
  obtain h2 where h2: "onRegister p h1 = Some h2" "hub_ok h2 {} (insert p reading)"
    using register_ok [OF connect_ok [OF assms], of p] by auto
  have "opened h h2 = {p}" "length (hubObjects h) \<le> length (hubObjects h2)"
    using assms(2) onRegister_objects [OF h2(1)] by (auto simp: opened_def NewClient_def)
  with h2 show ?thesis by auto
qed

text \<open>What a request leaves alone, and what it keeps.\<close>

definition handled :: "nat set \<Rightarrow> site \<Rightarrow> site \<Rightarrow> bool" where
  "handled reading st st' \<longleftrightarrow>
     site_ok st' (reading \<union> opened (siHub st) (siHub st')) \<and> people_kept (siService st) (siService st') \<and>
     length (hubObjects (siHub st)) \<le> length (hubObjects (siHub st')) \<and>
     siFeed st' = siFeed st \<and> siScheduler st' = siScheduler st \<and> siBot st' = siBot st"

lemma handler_ok:
  assumes law: "div_law D" and ok: "site_ok st reading" and rm: "room (Suc 0) (svEngine (siService st))"
    and u: "ep = WxLoginE \<or> u \<le> svUserSeq (siService st)"
  shows "\<exists>a st'. handlerOf D ep v u r st = Some (a, st') \<and> handled reading st st'"
proof -
  have svc: "service_ok (siService st)" using ok by (simp add: site_ok_def)
  have same: "handled reading st st" using ok by (auto simp: handled_def)
  consider "ep \<notin> set changing" | "ep \<in> set calling" | "ep = CompleteTutorialE" | "ep = WebSocketE"
    by (cases ep) (auto simp: changing_def calling_def)
  then show ?thesis
  proof cases
    case 1
    obtain a st' where "handlerOf D ep v u r st = Some (a, st')" using reader_answers [OF law ok 1, of v u r] by auto
    moreover from this have "st' = st" using reader_state [OF 1, of D] unfolding reads_def by blast
    ultimately show ?thesis using same by blast
  next
    case 2
    show ?thesis
    proof (cases "apiOf ep u r")
      case None
      with calling_step [OF 2, of D v u r st] same show ?thesis by simp
    next
      case (Some x)
      have "api_user x \<le> svUserSeq (siService st)"
        using api_user_of [OF Some] u svc by (auto simp: service_ok_def users_ok_def)
      from api_step_ok [OF law svc rm this] obtain s' where s': "api_step D (weEnv v) x (siService st) = Some s'" "service_ok s'"
        "people_kept (siService st) s'" by blast
      with calling_step [OF 2, of D v u r st] Some
      obtain a where "handlerOf D ep v u r st = Some (a, st\<lparr>siService := s'\<rparr>)" by (auto split: prod.splits)
      moreover have "site_ok (st\<lparr>siService := s'\<rparr>) reading" by (rule site_ok_cong [OF _ _ _ ok]) (simp_all add: s'(2))
      ultimately show ?thesis using s'(3) by (auto simp: handled_def)
    qed
  next
    case 3
    have "handled reading st (onService (\<lambda>s. s\<lparr>svProgress := pr s\<rparr>) st)" for pr
    proof -
      have "site_ok (onService (\<lambda>s. s\<lparr>svProgress := pr s\<rparr>) st) reading"
        by (rule site_ok_cong [OF _ _ _ ok]) (use svc in \<open>simp_all add: onService_def service_ok_def users_ok_def\<close>)
      then show ?thesis by (auto simp: handled_def people_kept_def onService_def)
    qed
    with 3 same show ?thesis by (auto simp: CompleteTutorialHandler_def decoding_def split: option.split)
  next
    case 4
    have hub: "hub_ok (siHub st) {} reading" using ok by (simp add: site_ok_def)
    have "\<exists>h'. onRegister p h = Some h' \<and> handled reading st (st\<lparr>siHub := h'\<rparr>)" if "NewClient w (siHub st) = (p, h)" for w p h
      using hub_connects [OF hub that] ok by (auto simp: handled_def site_ok_def)
    then have "\<exists>a st'. (case NewClient w (siHub st) of (p, h) \<Rightarrow>
        do { h' \<leftarrow> onRegister p h; Some (Upgraded p, st\<lparr>siHub := h'\<rparr>) }) = Some (a, st') \<and> handled reading st st'" for w
      by (cases "NewClient w (siHub st)") fastforce
    with 4 same show ?thesis by (auto simp: WebSocketHandler_def Let_def split: option.split)
  qed
qed

subsection \<open>Routes\<close>

definition routeOf :: "http_request \<Rightarrow> string \<times> string" where
  "routeOf r = (rqMethod r, rqPath r)"

lemma map_of_apsnd: "map_of (map (apsnd f) al) k = map_option f (map_of al k)"
  by (induction al) auto

lemma serve_route:
  "serveHTTP D v r st =
     (case map_of authenticatedRoutes (routeOf r) of
        Some ep \<Rightarrow> AuthMiddleware (handlerOf D ep) v 0 r st
      | None \<Rightarrow> (case map_of publicRoutes (routeOf r) of
          Some ep \<Rightarrow> handlerOf D ep v 0 r st
        | None \<Rightarrow> Some (NoRoute, st)))"
proof -
  have "list_all (\<lambda>(k, ep). map_of authenticatedRoutes k = None) publicRoutes" by code_simp
  then have "map_of authenticatedRoutes k = None" if "map_of publicRoutes k = Some ep" for k ep
    using map_of_SomeD [OF that] by (auto simp: list_all_iff)
  then show ?thesis
    by (auto simp: serveHTTP_def registerRoutes_def map_of_apsnd routeOf_def map_add_def split: option.split)
qed

lemma authenticated_endpoints: "map_of authenticatedRoutes k = Some ep \<Longrightarrow> ep \<noteq> WxLoginE \<and> ep \<noteq> WebSocketE \<and> ep \<noteq> RefreshTokenE"
proof -
  have "list_all (\<lambda>(k, ep). ep \<noteq> WxLoginE \<and> ep \<noteq> WebSocketE \<and> ep \<noteq> RefreshTokenE) authenticatedRoutes" by code_simp
  then show "map_of authenticatedRoutes k = Some ep \<Longrightarrow> ep \<noteq> WxLoginE \<and> ep \<noteq> WebSocketE \<and> ep \<noteq> RefreshTokenE"
    by (auto simp: list_all_iff dest: map_of_SomeD)
qed

lemma public_endpoints:
  "map_of publicRoutes k = Some ep \<Longrightarrow> ep \<in> set changing \<Longrightarrow> ep = WxLoginE \<or> ep = WebSocketE"
proof -
  have "list_all (\<lambda>(k, ep). ep \<in> set changing \<longrightarrow> ep = WxLoginE \<or> ep = WebSocketE) publicRoutes" by code_simp
  then show "map_of publicRoutes k = Some ep \<Longrightarrow> ep \<in> set changing \<Longrightarrow> ep = WxLoginE \<or> ep = WebSocketE"
    by (auto simp: list_all_iff dest: map_of_SomeD)
qed

subsection \<open>Tokens\<close>

text \<open>
  The tokens handed out, each with its user. The signature promises that no other token verifies, and
  WeChat that no person has the identity of a system user.
\<close>

type_synonym tokens = "(string \<times> int) list"

definition unforgeable :: "env \<Rightarrow> tokens \<Rightarrow> bool" where
  "unforgeable v tk \<longleftrightarrow> (\<forall>t u. envVerify v t = Some u \<longrightarrow> (t, u) \<in> set tk)"

definition honest_wechat :: "env \<Rightarrow> bool" where
  "honest_wechat v \<longleftrightarrow> (\<forall>code openID. getOpenID v code = Some openID \<longrightarrow> openID \<notin> set systemOpenIDs)"

definition tokens_ok :: "tokens \<Rightarrow> service \<Rightarrow> bool" where
  "tokens_ok tk s \<longleftrightarrow> (\<forall>(t, u) \<in> set tk. u \<in> fst ` set (svUsers s) \<and> 1 \<le> u)"

text \<open>The tokens in an answer; only the responses of the two public routes have a field for one.\<close>

definition granted :: "web_env \<Rightarrow> http_request \<Rightarrow> answer \<Rightarrow> tokens" where
  "granted v r a =
     (case a of
        Enveloped status en \<Rightarrow>
          (case reData en of
             Some (LoginData resp) \<Rightarrow> [(lrToken resp, lrUserID resp), (lrRefreshToken resp, lrUserID resp)]
           | Some (TokenData t rt) \<Rightarrow>
               (case Option.bind (Option.bind (rqBody r) (decodeString ''refresh_token'')) (envVerify (weEnv v)) of
                  None \<Rightarrow> []
                | Some u \<Rightarrow> [(t, u), (rt, u)])
           | _ \<Rightarrow> [])
      | _ \<Rightarrow> [])"

lemma envelopes [simp]:
  "Success d = Enveloped 200 \<lparr>reCode = 0, reMessage = OkText, reData = d, reTutorial = None\<rparr>"
  "SuccessWithTutorial d tut = Enveloped 200 \<lparr>reCode = 0, reMessage = OkText, reData = d, reTutorial = tut\<rparr>"
  "Error c m = Enveloped 200 \<lparr>reCode = c, reMessage = m, reData = None, reTutorial = None\<rparr>"
  "invalidRequest = Enveloped 200 \<lparr>reCode = 400, reMessage = Message ''invalid request'', reData = None, reTutorial = None\<rparr>"
  "Unauthorized txt = Enveloped 401 \<lparr>reCode = 401, reMessage = Message txt, reData = None, reTutorial = None\<rparr>"
  by (simp_all add: Success_def SuccessWithTutorial_def Error_def Unauthorized_def invalidRequest_def writeJSON_def)

lemma findOrCreate_user:
  assumes "findOrCreate v openID s = (Inr (u, new), s')"
  shows "(u, openID) \<in> set (svUsers s')"
proof (cases "FindByOpenID openID s")
  case (Some i)
  then have "(i, openID) \<in> set (svUsers s)"
    by (auto simp: FindByOpenID_def dest: find_SomeD)
  with Some assms show ?thesis by (auto simp: findOrCreate_def split: if_splits)
next
  case None
  with assms show ?thesis by (auto simp: findOrCreate_def CreateUser_def Let_def split: if_splits sum.splits)
qed

lemma login_user:
  assumes "WxLogin v code lang s = (Inr (resp, tut), s')" and "users_ok s'" and "honest_wechat v"
  shows "lrUserID resp \<in> fst ` set (svUsers s') \<and> 1 \<le> lrUserID resp"
proof -
  obtain openID where o': "(if isDevCode code then Some code else getOpenID v code) = Some openID"
    using assms(1) by (auto simp: WxLogin_def split: if_splits option.splits)
  obtain r s1 where run: "findOrCreate v openID s = (r, s1)" by force
  with assms(1) o' obtain u new where "r = Inr (u, new)" "s1 = s'" "lrUserID resp = u"
    by (auto simp: WxLogin_def split: if_splits option.splits sum.splits)
  then have "(lrUserID resp, openID) \<in> set (svUsers s')" using findOrCreate_user [of v openID s] run by blast
  moreover have "openID \<notin> set systemOpenIDs"
    using o' assms(3) by (auto simp: honest_wechat_def isDevCode_def systemOpenIDs_def split: if_splits)
  ultimately show ?thesis using assms(2) by (force simp: users_ok_def)
qed

text \<open>Only the two public routes hand out tokens.\<close>

definition silent :: "handler \<Rightarrow> bool" where
  "silent h \<longleftrightarrow> (\<forall>v u r st a st'. h v u r st = Some (a, st') \<longrightarrow> granted v r a = [])"

lemma querying_silent:
  "querying v q st x f = Some (a, st') \<Longrightarrow> (\<And>y. granted v r (Success (Some (f y))) = []) \<Longrightarrow> granted v r a = []"
  by (auto simp: querying_def granted_def split: if_splits option.splits)

lemma silent_pages:
  "silent HistoryOrdersHandler" "silent HistoryTradesHandler" "silent HistoryFundingHandler" "silent PnlSummaryHandler"
  "silent LeaderboardPnlHandler" "silent LeaderboardROIHandler"
  unfolding silent_def HistoryOrdersHandler_def HistoryTradesHandler_def HistoryFundingHandler_def PnlSummaryHandler_def
    LeaderboardPnlHandler_def LeaderboardROIHandler_def Let_def
  by (intro allI impI, erule querying_silent, simp add: granted_def)+

lemma silent_klines: "silent KlinesHandler"
proof -
  have "granted v r (Success (Some (KlinesData bars))) = []" for v r bars by (simp add: granted_def)
  then show ?thesis
    unfolding silent_def KlinesHandler_def Let_def by (auto simp del: envelopes elim: querying_silent split: if_splits)
qed

lemma silent_market:
  "silent PriceHandler" "silent MarkPriceHandler" "silent InsuranceFundHandler" "silent DepthHandler"
  "silent FundingRateHandler" "silent WebSocketHandler"
  unfolding silent_def PriceHandler_def MarkPriceHandler_def InsuranceFundHandler_def DepthHandler_def
    FundingRateHandler_def WebSocketHandler_def Let_def
  by (auto simp: granted_def split: if_splits option.splits bind_splits prod.splits)

lemma silent_user:
  "silent AccountInfoHandler" "silent (PositionListHandler D)" "silent PendingOrdersHandler" "silent TutorialProgressHandler"
  "silent CompleteTutorialHandler"
  unfolding silent_def AccountInfoHandler_def PositionListHandler_def PendingOrdersHandler_def TutorialProgressHandler_def
    CompleteTutorialHandler_def Let_def decoding_def
  by (auto simp: granted_def split: if_splits sum.splits option.splits bind_splits prod.splits)

lemma silent_trade:
  "silent ResetAccountHandler" "silent (PlaceOrderHandler D)" "silent CancelOrderHandler" "silent (ClosePositionHandler D)"
  "silent UpdateTPSLHandler"
  unfolding silent_def ResetAccountHandler_def PlaceOrderHandler_def CancelOrderHandler_def ClosePositionHandler_def
    UpdateTPSLHandler_def decoding_def
  by (auto simp: granted_def split: sum.splits option.splits bind_splits prod.splits)

lemma silent_others: "ep \<noteq> WxLoginE \<Longrightarrow> ep \<noteq> RefreshTokenE \<Longrightarrow> silent (handlerOf D ep)"
  by (cases ep) (simp_all add: silent_pages silent_klines silent_market silent_user silent_trade, simp add: silent_def granted_def)

lemma tokens_mono: "tokens_ok tk s \<Longrightarrow> people_kept s s' \<Longrightarrow> tokens_ok tk s'"
  by (fastforce simp: tokens_ok_def people_kept_def)

lemma verified_user:
  assumes "unforgeable v tk" and "tokens_ok tk s" and "envVerify v t = Some u"
  shows "u \<in> fst ` set (svUsers s) \<and> 1 \<le> u"
proof -
  have "(t, u) \<in> set tk" using assms(1,3) by (simp add: unforgeable_def)
  with assms(2) show ?thesis unfolding tokens_ok_def by fastforce
qed

lemma granted_ok:
  assumes "handlerOf D ep v u r st = Some (a, st')" and "service_ok (siService st')" and "honest_wechat (weEnv v)"
    and "unforgeable (weEnv v) tk" and "tokens_ok tk (siService st')"
  shows "tokens_ok (granted v r a) (siService st')"
proof -
  consider "ep = WxLoginE" | "ep = RefreshTokenE" | "ep \<noteq> WxLoginE" "ep \<noteq> RefreshTokenE" by blast
  then show ?thesis
  proof cases
    case 1
    have "tokens_ok (granted v r a) (siService st')"
      if "WxLogin (weEnv v) code lang (siService st) = (Inr (resp, tut), siService st')"
        "a = SuccessWithTutorial (Some (LoginData resp)) tut" for code lang resp tut
      using login_user [OF that(1) _ assms(3)] that(2) assms(2) by (simp add: granted_def tokens_ok_def service_ok_def)
    with 1 assms(1) show ?thesis
      by (auto simp: WxLoginHandler_def decoding_def granted_def tokens_ok_def split: option.splits prod.splits sum.splits)
  next
    case 2
    have "u' \<in> fst ` set (svUsers (siService st')) \<and> 1 \<le> u'" if "envVerify (weEnv v) t = Some u'" for t u'
      by (rule verified_user [OF assms(4,5) that])
    with 2 assms(1) show ?thesis
      by (auto simp: RefreshTokenHandler_def decoding_def granted_def tokens_ok_def split: option.splits sum.splits)
  next
    case 3
    with silent_others assms(1) have "granted v r a = []" unfolding silent_def by blast
    then show ?thesis by (simp add: tokens_ok_def)
  qed
qed

subsection \<open>The server\<close>

lemma verified_below:
  "unforgeable v tk \<Longrightarrow> tokens_ok tk s \<Longrightarrow> service_ok s \<Longrightarrow> envVerify v t = Some u \<Longrightarrow> u \<le> svUserSeq s"
  using verified_user [of v tk s t u] by (force simp: service_ok_def users_ok_def)

lemma serve_ok:
  assumes law: "div_law D" and ok: "site_ok st reading" and rm: "room (Suc 0) (svEngine (siService st))"
    and tk: "tokens_ok tk (siService st)" and env: "unforgeable (weEnv v) tk" "honest_wechat (weEnv v)"
  obtains (found) a st' where "serveHTTP D v r st = Some (a, st')" and "handled reading st st'"
    and "tokens_ok (granted v r a @ tk) (siService st')"
proof -
  have svc: "service_ok (siService st)" "0 \<le> svUserSeq (siService st)" using ok by (simp_all add: site_ok_def service_ok_def users_ok_def)
  have kept: "tokens_ok tk (siService st')" if "handled reading st st'" for st'
    using tk that by (auto simp: handled_def intro: tokens_mono)
  have step: thesis
    if route: "serveHTTP D v r st = handlerOf D ep v u r st" "ep = WxLoginE \<or> u \<le> svUserSeq (siService st)" for ep u
  proof -
    obtain a st' where run: "handlerOf D ep v u r st = Some (a, st')" "handled reading st st'"
      using handler_ok [OF law ok rm route(2), of v r] by blast
    have "service_ok (siService st')" using run(2) by (auto simp: handled_def site_ok_def)
    from granted_ok [OF run(1) this env(2,1) kept [OF run(2)]] kept [OF run(2)]
    have "tokens_ok (granted v r a @ tk) (siService st')" by (auto simp: tokens_ok_def)
    moreover have "serveHTTP D v r st = Some (a, st')" using route(1) run(1) by simp
    ultimately show thesis using found run(2) by blast
  qed
  have still: thesis if quiet: "serveHTTP D v r st = Some (a, st)" "granted v r a = []" for a
  proof (rule found [OF quiet(1)])
    show "handled reading st st" using ok by (auto simp: handled_def)
    show "tokens_ok (granted v r a @ tk) (siService st)" using quiet(2) tk by simp
  qed
  show thesis
  proof (cases "map_of authenticatedRoutes (routeOf r)")
    case (Some ep)
    show thesis
    proof (cases "extractToken r = [] \<or> envVerify (weEnv v) (extractToken r) = None")
      case True
      with Some obtain why where "serveHTTP D v r st = Some (Unauthorized why, st)"
        by (cases "extractToken r = []") (simp_all add: serve_route AuthMiddleware_def del: envelopes)
      then show thesis by (rule still) (simp add: granted_def)
    next
      case False
      then obtain u where u: "extractToken r \<noteq> []" "envVerify (weEnv v) (extractToken r) = Some u" by auto
      with Some step [of ep u] verified_below [OF env(1) tk svc(1) u(2)] show thesis
        by (simp add: serve_route AuthMiddleware_def)
    qed
  next
    case None
    with still [of NoRoute] step [of _ 0] svc(2) show thesis
      by (cases "map_of publicRoutes (routeOf r)") (simp_all add: serve_route granted_def)
  qed
qed

subsection \<open>Who may change what\<close>

text \<open>The effects a request can have for a user.\<close>

definition acts_for :: "decimal_lib \<Rightarrow> web_env \<Rightarrow> int \<Rightarrow> site \<Rightarrow> site \<Rightarrow> bool" where
  "acts_for D v u st st' \<longleftrightarrow>
     (\<exists>x. api_user x = u \<and> api_step D (weEnv v) x (siService st) = Some (siService st') \<and>
        st' = st\<lparr>siService := siService st'\<rparr>) \<or>
     (\<exists>topic \<in> set AllTopicIDs. st' = onService (\<lambda>s. s\<lparr>svProgress := MarkComplete u topic (svProgress s)\<rparr>) st) \<or>
     (\<exists>p h h'. NewClient u (siHub st) = (p, h) \<and> onRegister p h = Some h' \<and> st' = st\<lparr>siHub := h'\<rparr>)"

lemma calling_effect:
  assumes "ep \<in> set calling" and "handlerOf D ep v u r st = Some (a, st')" and "st' \<noteq> st"
  obtains x where "apiOf ep u r = Some x" and "api_step D (weEnv v) x (siService st) = Some (siService st')"
    and "st' = st\<lparr>siService := siService st'\<rparr>"
proof (cases "apiOf ep u r")
  case None
  with calling_step [OF assms(1), of D v u r st] assms(2,3) show thesis by simp
next
  case (Some x)
  with calling_step [OF assms(1), of D v u r st] assms(2)
  obtain s' where "api_step D (weEnv v) x (siService st) = Some s'" "st' = st\<lparr>siService := s'\<rparr>"
    by (cases "api_step D (weEnv v) x (siService st)") simp_all
  with Some that show thesis by simp
qed

lemma user_effect:
  assumes "handlerOf D ep v u r st = Some (a, st')" and "st' \<noteq> st" and "ep \<noteq> WxLoginE" and "ep \<noteq> WebSocketE"
  shows "acts_for D v u st st'"
proof -
  have "ep \<in> set changing" using reader_state [of ep D] assms(1,2) unfolding reads_def by blast
  then consider "ep \<in> set calling" | "ep = CompleteTutorialE"
    using assms(3,4) by (auto simp: changing_def calling_def)
  then show ?thesis
  proof cases
    case 1
    from calling_effect [OF 1 assms(1,2)] show ?thesis using api_user_of [of ep u r] assms(3) by (auto simp: acts_for_def)
  next
    case 2
    with assms(1,2) show ?thesis
      by (auto simp: CompleteTutorialHandler_def decoding_def acts_for_def split: option.splits if_splits)
  qed
qed

lemma socket_effect:
  assumes "WebSocketHandler v u r st = Some (a, st')" and "st' \<noteq> st"
  obtains w where "envVerify (weEnv v) (getValue ''token'' (rqQuery r)) = Some w" and "acts_for D v w st st'"
proof -
  obtain w where w: "envVerify (weEnv v) (getValue ''token'' (rqQuery r)) = Some w" "weUpgrades v"
    using assms by (auto simp: WebSocketHandler_def Let_def split: if_splits option.splits)
  obtain p h where "NewClient w (siHub st) = (p, h)" by force
  with w assms show thesis
    by (intro that [OF w(1)]) (auto simp: WebSocketHandler_def acts_for_def Let_def split: if_splits bind_splits)
qed

lemma route_endpoints:
  "map_of publicRoutes k = Some WxLoginE \<Longrightarrow> k = (''POST'', ''/api/v1/auth/wx-login'')"
proof -
  have "list_all (\<lambda>(k, ep). ep = WxLoginE \<longrightarrow> k = (''POST'', ''/api/v1/auth/wx-login'')) publicRoutes" by code_simp
  then show "map_of publicRoutes k = Some WxLoginE \<Longrightarrow> k = (''POST'', ''/api/v1/auth/wx-login'')"
    by (auto simp: list_all_iff dest: map_of_SomeD)
qed

definition loginRoute :: "string \<times> string" where
  "loginRoute = (''POST'', ''/api/v1/auth/wx-login'')"

text \<open>Whose token a request carries.\<close>

definition carries :: "tokens \<Rightarrow> http_request \<Rightarrow> service \<Rightarrow> int \<Rightarrow> bool" where
  "carries tk r s u \<longleftrightarrow>
     (\<exists>t \<in> {extractToken r, getValue ''token'' (rqQuery r)}. (t, u) \<in> set tk) \<and> u \<in> fst ` set (svUsers s) \<and> 1 \<le> u"

lemma carriesI:
  assumes "unforgeable v tk" and "tokens_ok tk s" and "envVerify v t = Some u"
    and "t = extractToken r \<or> t = getValue ''token'' (rqQuery r)"
  shows "carries tk r s u"
  using verified_user [OF assms(1-3)] assms(1,3,4) by (auto simp: carries_def unforgeable_def)

lemma protected_request:
  assumes "serveHTTP D v r st = Some (a, st')" and "map_of authenticatedRoutes (routeOf r) = Some ep"
    and "unforgeable (weEnv v) tk" and "tokens_ok tk (siService st)"
  shows "(extractToken r = [] \<or> envVerify (weEnv v) (extractToken r) = None \<longrightarrow> st' = st \<and> (\<exists>why. a = Unauthorized why)) \<and>
    (st' \<noteq> st \<longrightarrow> (\<exists>u. carries tk r (siService st) u \<and> acts_for D v u st st'))"
proof (cases "envVerify (weEnv v) (extractToken r)")
  case None
  with assms(1,2) show ?thesis by (auto simp: serve_route AuthMiddleware_def Let_def simp del: envelopes split: if_splits)
next
  case (Some u)
  have run: "extractToken r = [] \<and> st' = st \<and> a = Unauthorized ''missing token'' \<or>
      extractToken r \<noteq> [] \<and> handlerOf D ep v u r st = Some (a, st')"
    using assms(1,2) Some by (auto simp: serve_route AuthMiddleware_def Let_def simp del: envelopes split: if_splits)
  have "acts_for D v u st st'" if "st' \<noteq> st"
    using user_effect [of D ep v u r st a st'] authenticated_endpoints [OF assms(2)] run that by blast
  with run carriesI [OF assms(3,4) Some] Some show ?thesis by auto
qed

lemma login_request:
  assumes "handlerOf D WxLoginE v 0 r st = Some (a, st')" and "st' \<noteq> st"
  shows "\<exists>code. st' = st\<lparr>siService := snd (WxLogin (weEnv v) code (langOf r) (siService st))\<rparr>"
proof -
  from calling_effect [OF _ assms] obtain x where x: "apiOf WxLoginE 0 r = Some x"
    "api_step D (weEnv v) x (siService st) = Some (siService st')" "st' = st\<lparr>siService := siService st'\<rparr>"
    by (auto simp: calling_def)
  then obtain code where "snd (WxLogin (weEnv v) code (langOf r) (siService st)) = siService st'" by auto
  with x(3) show ?thesis by metis
qed

lemma public_request:
  assumes "serveHTTP D v r st = Some (a, st')" and "map_of authenticatedRoutes (routeOf r) = None"
    and "unforgeable (weEnv v) tk" and "tokens_ok tk (siService st)" and "st' \<noteq> st"
  shows "(\<exists>code. routeOf r = loginRoute \<and> st' = st\<lparr>siService := snd (WxLogin (weEnv v) code (langOf r) (siService st))\<rparr>) \<or>
    (\<exists>u. carries tk r (siService st) u \<and> acts_for D v u st st')"
proof -
  obtain ep where ep: "map_of publicRoutes (routeOf r) = Some ep" "handlerOf D ep v 0 r st = Some (a, st')"
    using assms(1,2,5) by (auto simp: serve_route split: option.splits)
  then have "ep \<in> set changing" using reader_state [of ep D] assms(5) unfolding reads_def by blast
  then consider "ep = WxLoginE" | "ep = WebSocketE" using public_endpoints [OF ep(1)] by blast
  then show ?thesis
  proof cases
    case 1
    with login_request [of D v r st a st'] ep assms(5) route_endpoints show ?thesis by (simp add: loginRoute_def)
  next
    case 2
    with ep(2) have "WebSocketHandler v 0 r st = Some (a, st')" by simp
    from socket_effect [OF this assms(5)] obtain w where "envVerify (weEnv v) (getValue ''token'' (rqQuery r)) = Some w"
      "acts_for D v w st st'" .
    with carriesI [OF assms(3,4)] show ?thesis by blast
  qed
qed

text \<open>
  C6. A request to a protected route without a valid token is answered 401 and changes nothing. Any request that
  changes the state of the service is either a login, or carries a token that was handed out to a registered user who
  is not one of the system users, and its whole effect is one call of the logic layer by that user, one of the
  user's topics marked, or one connection opened for that user.
\<close>

theorem requests_authorised:
  assumes "serveHTTP D v r st = Some (a, st')" and "unforgeable (weEnv v) tk" and "tokens_ok tk (siService st)"
  shows "(routeOf r \<in> fst ` set authenticatedRoutes \<and> (extractToken r = [] \<or> envVerify (weEnv v) (extractToken r) = None) \<longrightarrow>
      st' = st \<and> (\<exists>why. a = Unauthorized why)) \<and>
    (st' \<noteq> st \<longrightarrow>
      (\<exists>code. routeOf r = loginRoute \<and>
         st' = st\<lparr>siService := snd (WxLogin (weEnv v) code (langOf r) (siService st))\<rparr>) \<or>
      (\<exists>u. carries tk r (siService st) u \<and> acts_for D v u st st'))"
proof (cases "map_of authenticatedRoutes (routeOf r)")
  case (Some ep)
  from protected_request [OF assms(1) Some assms(2,3)] show ?thesis by blast
next
  case None
  then have "routeOf r \<notin> fst ` set authenticatedRoutes" by (simp add: map_of_eq_None_iff)
  with public_request [OF assms(1) None assms(2,3)] show ?thesis by blast
qed

subsubsection \<open>A site with one user logged in\<close>

definition sample_web :: web_env where
  "sample_web =
     \<lparr>weEnv = sample_env\<lparr>envVerify := (\<lambda>t. if t = ''t'' then Some 7 else None)\<rparr>, weFails = (\<lambda>q. False), weSettled = insertion,
      weNumber = insertion, weRank = insertion, weBars = insertion, weQuot = (\<lambda>x y. x / y), weUpgrades = True, weNow = 0\<rparr>"

definition sample_site :: site where
  "sample_site =
     \<lparr>siService = sample_service, siFeed = sample_feed\<lparr>fdMonitor := NewMonitor sample_engine (Some (NewFund 50))\<rparr>,
      siScheduler = NewScheduler [0, 8, 16] [] sample_engine (svDB sample_service) (1 / 200), siBot = NewBot DefaultConfig,
      siHub = NewHub, siBars = []\<rparr>"

definition marking :: http_request where
  "marking =
     \<lparr>rqMethod = ''POST'', rqPath = ''/api/v1/tutorial/complete'', rqHeader = [(''Authorization'', ''Bearer t'')], rqQuery = [],
      rqBody = Some (JObj [(''topic_id'', JStr TopicLeverage)])\<rparr>"

lemma sample_tokens:
  "unforgeable (weEnv sample_web) [(''t'', 7)]" "tokens_ok [(''t'', 7)] sample_service" "honest_wechat (weEnv sample_web)"
  by (simp_all add: unforgeable_def sample_web_def tokens_ok_def sample_service_def honest_wechat_def getOpenID_def sample_env_def)

lemma marking_runs:
  "serveHTTP dec16 sample_web marking sample_site =
     Some (Success None, onService (\<lambda>s. s\<lparr>svProgress := [(7, TopicLeverage)]\<rparr>) sample_site)"
  by (simp add: serve_route routeOf_def marking_def authenticatedRoutes_def AuthMiddleware_def extractToken_def getValue_def
      sample_web_def sample_env_def CompleteTutorialHandler_def decoding_def decodeString_def unmarshalStruct_def AllTopicIDs_def
      onService_def sample_site_def sample_service_def MarkComplete_def)

theorem requests_authorised_witness:
  "\<exists>a st'. serveHTTP dec16 sample_web marking sample_site = Some (a, st') \<and>
     (\<exists>u. carries [(''t'', 7)] marking sample_service u \<and> acts_for dec16 sample_web u sample_site st')"
proof -
  have "routeOf marking \<noteq> loginRoute" by (simp add: routeOf_def marking_def loginRoute_def)
  moreover have "onService (\<lambda>s. s\<lparr>svProgress := [(7, TopicLeverage)]\<rparr>) sample_site \<noteq> sample_site"
    by (simp add: onService_def sample_site_def sample_service_def)
  moreover have "siService sample_site = sample_service" by (simp add: sample_site_def)
  ultimately show ?thesis
    using requests_authorised [OF marking_runs sample_tokens(1)] sample_tokens(2) marking_runs by auto
qed

subsection \<open>Pages of the history\<close>

definition ordersShown :: "(answer \<times> site) option \<Rightarrow> order_history list" where
  "ordersShown x =
     (case x of
        Some (Enveloped status en, st) \<Rightarrow> (case reData en of Some (OrdersData l) \<Rightarrow> l | _ \<Rightarrow> [])
      | _ \<Rightarrow> [])"

lemma page_shown:
  assumes "\<not> weFails v PageOrders" and "0 < n" and "int (Suc k * n) < 2 ^ 63" and "parsePagination r = (int k + 1, int n)"
  shows "ordersShown (HistoryOrdersHandler v u r st) =
    map orderHistory (take n (drop (k * n) (rev (filter (\<lambda>x. omUserID x = u) (map snd (dbOrders (svDB (siService st))))))))"
proof -
  have "Suc k \<le> Suc k * n" using assms(2) mult_le_mono2 [of 1 n "Suc k"] by simp
  then have "int (Suc k) \<le> int (Suc k * n)" by (rule of_nat_mono)
  then have "int k + 1 \<le> int (Suc k * n)" by (simp add: add.commute)
  moreover have "int k * int n \<le> int (Suc k * n)" by simp
  ultimately have "pageOffset (int k + 1, int n) = int (k * n)"
    using pageOffset_exact [of "int k + 1" "int n"] assms(2,3) by simp
  with assms(1,4) show ?thesis
    by (simp add: HistoryOrdersHandler_def FindOrdersByUserPaged_def querying_def ordersShown_def page_of_take del: of_nat_mult)
qed

text \<open>
  C31. Whatever a request asks for, the page number is at least 1 and the page size between 1 and 100. The
  pages of a size, put together in order, are all orders of the user that asks and no others, newest first, each once.
\<close>

theorem history_pages:
  assumes "\<not> weFails v PageOrders" and "0 < n" and "int (m * n) < 2 ^ 63"
    and "\<forall>k < m. parsePagination (rs k) = (int k + 1, int n)"
    and "length (filter (\<lambda>x. omUserID x = u) (map snd (dbOrders (svDB (siService st))))) \<le> m * n"
  shows "(\<forall>r. 1 \<le> fst (parsePagination r) \<and> 1 \<le> snd (parsePagination r) \<and> snd (parsePagination r) \<le> 100) \<and>
    concat (map (\<lambda>k. ordersShown (HistoryOrdersHandler v u (rs k) st)) [0..<m]) =
      map orderHistory (rev (filter (\<lambda>x. omUserID x = u) (map snd (dbOrders (svDB (siService st))))))"
proof -
  let ?rows = "rev (filter (\<lambda>x. omUserID x = u) (map snd (dbOrders (svDB (siService st)))))"
  have shown: "ordersShown (HistoryOrdersHandler v u (rs k) st) = map orderHistory (take n (drop (k * n) ?rows))" if "k < m" for k
  proof -
    have "Suc k * n \<le> m * n" using that by (intro mult_le_mono1) simp
    then have "int (Suc k * n) < 2 ^ 63" using assms(3) by linarith
    from page_shown [OF assms(1,2) this] assms(4) that show ?thesis by simp
  qed
  have "concat (map (\<lambda>k. ordersShown (HistoryOrdersHandler v u (rs k) st)) [0..<m]) =
      concat (map (\<lambda>k. map orderHistory (take n (drop (k * n) ?rows))) [0..<m])"
    by (intro arg_cong [where f = concat] map_cong refl) (simp add: shown)
  also have "\<dots> = map orderHistory (concat (map (\<lambda>k. take n (drop (k * n) ?rows)) [0..<m]))"
    by (simp add: map_concat comp_def)
  also have "\<dots> = map orderHistory ?rows" using pages_concat [of n ?rows m] assms(5) by simp
  finally show ?thesis by (simp add: parsePagination_def queryNumber_range)
qed

definition asking :: "string \<Rightarrow> string \<Rightarrow> http_request" where
  "asking p n = \<lparr>rqMethod = ''GET'', rqPath = ''/api/v1/history/orders'', rqHeader = [], rqQuery = [(''page'', p), (''page_size'', n)], rqBody = None\<rparr>"

lemma asking_pages: "parsePagination (asking ''1'' ''1'') = (1, 1)" "parsePagination (asking ''2'' ''1'') = (2, 1)"
  by code_simp+

theorem history_pages_witness:
  "let st = onService (\<lambda>s. s\<lparr>svDB := sample_db\<rparr>) sample_site; rs = (\<lambda>k. asking (if k = 0 then ''1'' else ''2'') ''1'')
   in map ohID (concat (map (\<lambda>k. ordersShown (HistoryOrdersHandler sample_web 7 (rs k) st)) [0..<2])) = [4]"
proof -
  let ?st = "onService (\<lambda>s. s\<lparr>svDB := sample_db\<rparr>) sample_site" and ?rs = "\<lambda>k. asking (if k = 0 then ''1'' else ''2'') ''1''"
  have rows: "filter (\<lambda>x. omUserID x = 7) (map snd (dbOrders (svDB (siService ?st)))) = map snd (dbOrders sample_db)"
    "length (dbOrders sample_db) = 1" "map (ohID \<circ> orderHistory) (rev (map snd (dbOrders sample_db))) = [4]"
    by (simp_all add: onService_def sample_db_def orderHistory_def)
  have "\<forall>k < 2. parsePagination (?rs k) = (int k + 1, int 1)" using asking_pages by (auto simp: less_2_cases_iff)
  from history_pages [of sample_web 1 2 ?rs 7 ?st, OF _ _ _ this] rows show ?thesis
    by (simp add: sample_web_def)
qed

end
