(* ===== verification/Tokens.thy ===== *)
theory Tokens
  imports Handlers_Props
begin

section \<open>Tokens (\<open>pkg/jwt/jwt.go\<close>)\<close>

text \<open>
  The claims the program signs and how it reads them back. Signing and verifying belong to the JWT library, a
  parameter with the law \<open>jwt_law\<close>: a signed text can be read with the same secret while it is valid, is reported as
  expired afterwards, and nothing else is read. Times are nanoseconds; the library keeps dates in whole seconds.
\<close>

subsection \<open>Claims\<close>

record claims =
  clmUserID :: int
  clmExpiresAt :: int
  clmIssuedAt :: int
  clmNotBefore :: int

datatype parse_outcome = Parsed claims | Expired | Rejected

datatype token_error = TokenExpired | TokenInvalid

record jwt_lib =
  jwtSign :: "claims \<Rightarrow> string \<Rightarrow> string option"
  jwtParse :: "string \<Rightarrow> string \<Rightarrow> int \<Rightarrow> parse_outcome"

definition GenerateToken :: "jwt_lib \<Rightarrow> int \<Rightarrow> int \<Rightarrow> string \<Rightarrow> int \<Rightarrow> string option" where
  "GenerateToken L now userID secret expireSeconds =
     jwtSign L
       \<lparr>clmUserID = userID, clmExpiresAt = (now + wrap64 (expireSeconds * second)) div second, clmIssuedAt = now div second,
        clmNotBefore = now div second\<rparr> secret"

definition ParseToken :: "jwt_lib \<Rightarrow> int \<Rightarrow> string \<Rightarrow> string \<Rightarrow> token_error + claims" where
  "ParseToken L now tokenString secret =
     (case jwtParse L tokenString secret now of
        Parsed c \<Rightarrow> Inr c
      | Expired \<Rightarrow> Inl TokenExpired
      | Rejected \<Rightarrow> Inl TokenInvalid)"

text \<open>The environment of the requests at a time, with these tokens.\<close>

definition tokenEnv :: "jwt_lib \<Rightarrow> string \<Rightarrow> int \<Rightarrow> env \<Rightarrow> env" where
  "tokenEnv L secret now v =
     v\<lparr>envSign := (\<lambda>userID expireSeconds. GenerateToken L now userID secret expireSeconds),
       envVerify := (\<lambda>t. case ParseToken L now t secret of Inl er \<Rightarrow> None | Inr c \<Rightarrow> Some (clmUserID c))\<rparr>"

subsection \<open>The library's law\<close>

definition jwt_law :: "jwt_lib \<Rightarrow> bool" where
  "jwt_law L \<longleftrightarrow>
     (\<forall>c s t. jwtSign L c s = Some t \<longrightarrow> t \<noteq> [] \<and>
        (\<forall>now. jwtParse L t s now =
           (if clmExpiresAt c * second \<le> now then Expired
            else if now < clmNotBefore c * second then Rejected else Parsed c)))"

text \<open>The end of a token's life: its expiry cut to whole seconds.\<close>

definition life_end :: "int \<Rightarrow> int \<Rightarrow> int" where
  "life_end t0 expireSeconds = (t0 + expireSeconds * second) div second * second"

lemma second_pos [simp]: "0 < second" "second \<noteq> 0"
  by (simp_all add: second_def)

lemma life_end_bounds: "t0 + expireSeconds * second - second < life_end t0 expireSeconds" "life_end t0 expireSeconds \<le> t0 + expireSeconds * second"
proof -
  let ?x = "t0 + expireSeconds * second"
  have "?x div second * second + ?x mod second = ?x" by (rule div_mult_mod_eq)
  moreover have "0 \<le> ?x mod second" "?x mod second < second" by simp_all
  ultimately show "?x - second < life_end t0 expireSeconds" "life_end t0 expireSeconds \<le> ?x" unfolding life_end_def by linarith+
qed

lemma wrap64_small: "0 \<le> x \<Longrightarrow> x < 2 ^ 63 \<Longrightarrow> wrap64 x = x"
  by (simp add: wrap64_def)

text \<open>
  A token is read back exactly while it lives: until the end of its life it yields the user it was made for, and
  afterwards it is reported as expired, never as invalid.
\<close>

lemma token_roundtrip:
  assumes "jwt_law L" and "GenerateToken L t0 userID secret e = Some t" and "0 \<le> e" and "e * second < 2 ^ 63" and "t0 \<le> now"
  shows "(now < life_end t0 e \<longrightarrow> (\<exists>c. ParseToken L now t secret = Inr c \<and> clmUserID c = userID)) \<and>
    (life_end t0 e \<le> now \<longrightarrow> ParseToken L now t secret = Inl TokenExpired)"
proof -
  let ?c = "\<lparr>clmUserID = userID, clmExpiresAt = (t0 + e * second) div second, clmIssuedAt = t0 div second, clmNotBefore = t0 div second\<rparr>"
  have "wrap64 (e * second) = e * second" using assms(3,4) by (intro wrap64_small) (simp_all add: second_def)
  then have "jwtSign L ?c secret = Some t" using assms(2) by (simp add: GenerateToken_def)
  with assms(1) have p: "jwtParse L t secret now = (if life_end t0 e \<le> now then Expired
      else if now < t0 div second * second then Rejected else Parsed ?c)"
    by (simp add: jwt_law_def life_end_def)
  have "t0 div second * second + t0 mod second = t0" "0 \<le> t0 mod second" by simp_all
  then have "\<not> now < t0 div second * second" using assms(5) by linarith
  with p show ?thesis by (auto simp: ParseToken_def)
qed

text \<open>A library that signs what user 7 gets at a login and at a refresh a second later.\<close>

definition sample_claims :: "(claims \<times> string) list" where
  "sample_claims =
     (let c = (\<lambda>e t. \<lparr>clmUserID = 7, clmExpiresAt = e, clmIssuedAt = t, clmNotBefore = t\<rparr>)
      in [(c 3600 0, ''a''), (c 7200 0, ''b''), (c 3601 1, ''c''), (c 7201 1, ''d'')])"

definition sample_jwt :: jwt_lib where
  "sample_jwt =
     \<lparr>jwtSign = (\<lambda>c s. map_of sample_claims c),
      jwtParse = (\<lambda>t s now. case map_of (map prod.swap sample_claims) t of
          None \<Rightarrow> Rejected
        | Some c \<Rightarrow> if clmExpiresAt c * second \<le> now then Expired
            else if now < clmNotBefore c * second then Rejected else Parsed c)\<rparr>"

lemma sample_jwt_law: "jwt_law sample_jwt"
  by (auto simp: jwt_law_def sample_jwt_def sample_claims_def Let_def split: if_splits)

lemma sample_tokens_made:
  "GenerateToken sample_jwt 0 7 k 3600 = Some ''a''" "GenerateToken sample_jwt 0 7 k 7200 = Some ''b''"
  "GenerateToken sample_jwt second 7 k 3600 = Some ''c''" "GenerateToken sample_jwt second 7 k 7200 = Some ''d''"
  by (simp_all add: GenerateToken_def sample_jwt_def sample_claims_def second_def wrap64_def Let_def)

subsection \<open>Access and refresh tokens\<close>

lemma verify_token:
  assumes "jwt_law L" and "GenerateToken L t0 u secret e = Some t" and "0 \<le> e" and "e * second < 2 ^ 63" and "t0 \<le> now"
    and "now < life_end t0 e"
  shows "envVerify (tokenEnv L secret now v) t = Some u" and "t \<noteq> []"
proof -
  show "envVerify (tokenEnv L secret now v) t = Some u"
    using token_roundtrip [OF assms(1-5)] assms(6) by (auto simp: tokenEnv_def)
  show "t \<noteq> []" using assms(1,2) by (auto simp: jwt_law_def GenerateToken_def)
qed

lemma tokenEnv_simps [simp]:
  "envExpire (tokenEnv L secret now v) = envExpire v" "envRefreshExpire (tokenEnv L secret now v) = envRefreshExpire v"
  "envSign (tokenEnv L secret now v) u e = GenerateToken L now u secret e"
  by (simp_all add: tokenEnv_def)

lemma login_tokens:
  assumes "WxLogin (tokenEnv L secret t0 v) code lang x = (Inr (resp, tut), x')"
  shows "GenerateToken L t0 (lrUserID resp) secret (envExpire v) = Some (lrToken resp)"
    and "GenerateToken L t0 (lrUserID resp) secret (envRefreshExpire v) = Some (lrRefreshToken resp)"
  using assms by (auto simp: WxLogin_def split: if_splits option.splits sum.splits prod.splits)

text \<open>
  C35. The two tokens of a login can stand in for each other. As long as it lives, either of them lets its holder through
  the middleware as the user of the login, and either of them can be traded for a new pair, the access token with
  its short life as well as the refresh token that was meant for it; so a session can be kept alive for ever.
\<close>

theorem tokens_interchangeable:
  assumes "jwt_law L" and "\<forall>e \<in> {envExpire v', envRefreshExpire v'}. GenerateToken L now (lrUserID resp) secret e \<noteq> None"
    and "WxLogin (tokenEnv L secret t0 v) code lang x = (Inr (resp, tut), x')"
    and "(tok, e) \<in> {(lrToken resp, envExpire v), (lrRefreshToken resp, envRefreshExpire v)}"
    and "0 \<le> e" and "e * second < 2 ^ 63" and "t0 \<le> now" and "now < life_end t0 e"
    and "weEnv w = tokenEnv L secret now v'" and "rqHeader r = [(''Authorization'', ''Bearer '' @ tok)]"
  shows "AuthMiddleware h w u r st = h w (lrUserID resp) r st \<and>
    (\<exists>t rt. RefreshToken (tokenEnv L secret now v') tok = Inr (t, rt) \<and>
       GenerateToken L now (lrUserID resp) secret (envExpire v') = Some t)"
proof -
  have "GenerateToken L t0 (lrUserID resp) secret e = Some tok" using login_tokens [OF assms(3)] assms(4) by auto
  note tok = verify_token [OF assms(1) this assms(5-8)]
  have "extractToken r = tok" by (simp add: extractToken_def assms(10) getValue_def)
  then have "AuthMiddleware h w u r st = h w (lrUserID resp) r st" using tok assms(9) by (simp add: AuthMiddleware_def)
  moreover obtain t rt where "GenerateToken L now (lrUserID resp) secret (envExpire v') = Some t"
    "GenerateToken L now (lrUserID resp) secret (envRefreshExpire v') = Some rt"
    using assms(2) by auto
  ultimately show ?thesis using tok by (simp add: RefreshToken_def)
qed

theorem tokens_interchangeable_witness:
  "let v = tokenEnv sample_jwt ''key'' second sample_env;
       r = \<lparr>rqMethod = ''GET'', rqPath = [], rqHeader = [(''Authorization'', ''Bearer b'')], rqQuery = [], rqBody = None\<rparr>
   in AuthMiddleware ResetAccountHandler (sample_web\<lparr>weEnv := v\<rparr>) 0 r sample_site =
        ResetAccountHandler (sample_web\<lparr>weEnv := v\<rparr>) 7 r sample_site \<and>
      (\<exists>t rt. RefreshToken v ''a'' = Inr (t, rt))"
proof -
  have x: "envExpire sample_env = 3600" "envRefreshExpire sample_env = 7200" by (simp_all add: sample_env_def)
  have login: "WxLogin (tokenEnv sample_jwt ''key'' 0 sample_env) ''dev_a'' ''en'' sample_service =
      (Inr (\<lparr>lrToken = ''a'', lrRefreshToken = ''b'', lrUserID = 7\<rparr>, None), sample_service)"
    using sample_tokens_made x
    by (simp add: WxLogin_def isDevCode_def findOrCreate_def FindByOpenID_def sample_service_def)
      (simp add: tokenEnv_def sample_env_def)
  have life: "life_end 0 3600 = 3600 * second" "life_end 0 7200 = 7200 * second" by (simp_all add: life_end_def)
  note both = tokens_interchangeable [OF sample_jwt_law _ login, where v' = sample_env and now = second and u = 0 and st = sample_site
      and h = ResetAccountHandler and w = "sample_web\<lparr>weEnv := tokenEnv sample_jwt ''key'' second sample_env\<rparr>"]
  show ?thesis
    using both [of "''a''" 3600 "\<lparr>rqMethod = ''GET'', rqPath = [], rqHeader = [(''Authorization'', ''Bearer a'')], rqQuery = [], rqBody = None\<rparr>"]
      both [of "''b''" 7200 "\<lparr>rqMethod = ''GET'', rqPath = [], rqHeader = [(''Authorization'', ''Bearer b'')], rqQuery = [], rqBody = None\<rparr>"]
      x life sample_tokens_made
    by (auto simp: Let_def second_def)
qed

end
