(* ===== verification/Settler_Stop.thy ===== *)
theory Settler_Stop
  imports Settler
begin

section \<open>Stopping the settler (\<open>internal/engine/clearing/settler.go\<close>)\<close>

text \<open>
  \<open>Stop\<close> closes \<open>done\<close> and then receives from the channel of the events, beside the worker that receives
  from the same channel until its \<open>select\<close> happens to choose \<open>done\<close>, and beside the goroutines that still
  submit. An event is first received and then written, in one transaction: between the two it is held by its receiver. The
  steps of the three come in any order; a step that is not possible in a state is \<open>None\<close>. The tables are those that
  these two writers leave: other statements on them in the meantime are left out.
\<close>

subsection \<open>Steps\<close>

record draining =
  drQueue :: "settle_event list"
  drHeld :: "settle_event option"
  drExited :: bool
  drTaken :: "settle_event option"
  drDB :: database

datatype stop_step = WorkerTakes | WorkerWrites | WorkerExits | StopTakes | StopWrites | Submitted settle_event

text \<open>\<open>Stop\<close> after \<open>close(s.done)\<close>; the worker may have received an event before.\<close>

definition StopSettler :: "settle_event option \<Rightarrow> settler \<Rightarrow> database \<Rightarrow> draining" where
  "StopSettler held s db = \<lparr>drQueue = events s, drHeld = held, drExited = False, drTaken = None, drDB = db\<rparr>"

text \<open>The \<open>default\<close> branch of the loop in \<open>Stop\<close>.\<close>

definition StopReturns :: "draining \<Rightarrow> bool" where
  "StopReturns d \<longleftrightarrow> drTaken d = None \<and> drQueue d = []"

fun stopStep :: "pg \<Rightarrow> stop_step \<Rightarrow> draining \<Rightarrow> draining option" where
  "stopStep P WorkerTakes d =
     (case drQueue d of
        [] \<Rightarrow> None
      | evt # q \<Rightarrow> if drExited d \<or> drHeld d \<noteq> None then None else Some (d\<lparr>drQueue := q, drHeld := Some evt\<rparr>))"
| "stopStep P WorkerWrites d =
     (case drHeld d of None \<Rightarrow> None | Some evt \<Rightarrow> Some (d\<lparr>drHeld := None, drDB := processEvent P evt (drDB d)\<rparr>))"
| "stopStep P WorkerExits d = (if drExited d \<or> drHeld d \<noteq> None then None else Some (d\<lparr>drExited := True\<rparr>))"
| "stopStep P StopTakes d =
     (case drQueue d of
        [] \<Rightarrow> None
      | evt # q \<Rightarrow> if drTaken d \<noteq> None then None else Some (d\<lparr>drQueue := q, drTaken := Some evt\<rparr>))"
| "stopStep P StopWrites d =
     (case drTaken d of None \<Rightarrow> None | Some evt \<Rightarrow> Some (d\<lparr>drTaken := None, drDB := processEvent P evt (drDB d)\<rparr>))"
| "stopStep P (Submitted evt) d = Some (d\<lparr>drQueue := drQueue d @ [evt]\<rparr>)"

fun stopRun :: "pg \<Rightarrow> stop_step list \<Rightarrow> draining \<Rightarrow> draining option" where
  "stopRun P [] d = Some d"
| "stopRun P (a # as) d = do { d1 \<leftarrow> stopStep P a d; stopRun P as d1 }"

fun submissions :: "stop_step list \<Rightarrow> settle_event list" where
  "submissions [] = []"
| "submissions (Submitted evt # as) = evt # submissions as"
| "submissions (_ # as) = submissions as"

lemma stopRun_append: "stopRun P (as @ bs) d = do { d1 \<leftarrow> stopRun P as d; stopRun P bs d1 }"
  by (induction as arbitrary: d) (simp_all split: bind_split)

lemma drain_append: "drain P (xs @ ys) db = drain P ys (drain P xs db)"
  by (induction xs arbitrary: db) simp_all

subsection \<open>Who receives and who writes an event\<close>

text \<open>The event in a receiver's hands.\<close>

abbreviation in_hand :: "settle_event option \<Rightarrow> settle_event list" where
  "in_hand x \<equiv> (case x of None \<Rightarrow> [] | Some evt \<Rightarrow> [evt])"

text \<open>
  The events received by the worker (\<open>wt\<close>) and by \<open>Stop\<close> (\<open>st\<close>) are the queue in order, those each of them writes
  (\<open>wr\<close>, \<open>sr\<close>) are those it holds and receives, in order, without the one in its hands; the tables have the writes of both,
  interleaved.
\<close>

definition shares :: "pg \<Rightarrow> stop_step list \<Rightarrow> draining \<Rightarrow> draining \<Rightarrow>
    settle_event list \<Rightarrow> settle_event list \<Rightarrow> settle_event list \<Rightarrow> settle_event list \<Rightarrow> settle_event list \<Rightarrow> bool" where
  "shares P as d d' wt st wr sr written \<longleftrightarrow>
     (\<exists>received. drQueue d @ submissions as = received @ drQueue d' \<and> received \<in> shuffles wt st) \<and>
     in_hand (drHeld d) @ wt = wr @ in_hand (drHeld d') \<and> in_hand (drTaken d) @ st = sr @ in_hand (drTaken d') \<and>
     written \<in> shuffles wr sr \<and> drDB d' = drain P written (drDB d)"

lemma shares_step:
  assumes "stopStep P a d = Some d1" and "shares P as d1 d' wt st wr sr written"
  obtains wt' st' wr' sr' written' where "shares P (a # as) d d' wt' st' wr' sr' written'"
proof (cases a)
  case WorkerTakes
  then obtain evt q where "drQueue d = evt # q" "drHeld d = None" "d1 = d\<lparr>drQueue := q, drHeld := Some evt\<rparr>"
    using assms(1) by (auto split: list.splits if_splits)
  moreover obtain received where "drQueue d1 @ submissions as = received @ drQueue d'" "received \<in> shuffles wt st"
    using assms(2) by (auto simp: shares_def)
  ultimately have "shares P (a # as) d d' (evt # wt) st wr sr written"
    using assms(2) WorkerTakes unfolding shares_def by (intro conjI exI [of _ "evt # received"] Cons_in_shuffles_leftI) auto
  then show thesis by (rule that)
next
  case WorkerWrites
  then obtain evt where "drHeld d = Some evt" "d1 = d\<lparr>drHeld := None, drDB := processEvent P evt (drDB d)\<rparr>"
    using assms(1) by (auto split: option.splits)
  with assms(2) WorkerWrites have "shares P (a # as) d d' wt st (evt # wr) sr (evt # written)"
    by (auto simp: shares_def intro: Cons_in_shuffles_leftI)
  then show thesis by (rule that)
next
  case WorkerExits
  with assms have "shares P (a # as) d d' wt st wr sr written" by (auto simp: shares_def split: if_splits)
  then show thesis by (rule that)
next
  case StopTakes
  then obtain evt q where "drQueue d = evt # q" "drTaken d = None" "d1 = d\<lparr>drQueue := q, drTaken := Some evt\<rparr>"
    using assms(1) by (auto split: list.splits if_splits)
  moreover obtain received where "drQueue d1 @ submissions as = received @ drQueue d'" "received \<in> shuffles wt st"
    using assms(2) by (auto simp: shares_def)
  ultimately have "shares P (a # as) d d' wt (evt # st) wr sr written"
    using assms(2) StopTakes unfolding shares_def by (intro conjI exI [of _ "evt # received"] Cons_in_shuffles_rightI) auto
  then show thesis by (rule that)
next
  case StopWrites
  then obtain evt where "drTaken d = Some evt" "d1 = d\<lparr>drTaken := None, drDB := processEvent P evt (drDB d)\<rparr>"
    using assms(1) by (auto split: option.splits)
  with assms(2) StopWrites have "shares P (a # as) d d' wt st wr (evt # sr) (evt # written)"
    by (auto simp: shares_def intro: Cons_in_shuffles_rightI)
  then show thesis by (rule that)
next
  case (Submitted evt)
  with assms have "shares P (a # as) d d' wt st wr sr written" by (auto simp: shares_def)
  then show thesis by (rule that)
qed

lemma stopRun_shares:
  assumes "stopRun P as d = Some d'"
  shows "\<exists>wt st wr sr written. shares P as d d' wt st wr sr written"
  using assms
proof (induction as arbitrary: d)
  case Nil
  then have "shares P [] d d' [] [] [] [] []" by (simp add: shares_def)
  then show ?case by blast
next
  case (Cons a as)
  then obtain d1 where d1: "stopStep P a d = Some d1" "stopRun P as d1 = Some d'" by (auto split: bind_splits)
  obtain wt st wr sr written where sh: "shares P as d1 d' wt st wr sr written"
    using Cons.IH [OF d1(2)] by (elim exE)
  show ?case by (rule shares_step [OF d1(1) sh]) (intro exI)
qed

text \<open>When \<open>Stop\<close> returns.\<close>

lemma stop_shares:
  assumes "stopRun P as (StopSettler held s db) = Some d'" and "StopReturns d'"
  obtains wt wr ss written where "events s @ submissions as \<in> shuffles wt ss" and "in_hand held @ wt = wr @ in_hand (drHeld d')"
    and "written \<in> shuffles wr ss" and "drDB d' = drain P written db"
    and "mset (in_hand held @ events s @ submissions as) = mset (written @ in_hand (drHeld d'))"
proof -
  obtain wt ss wr sr written where sh: "shares P as (StopSettler held s db) d' wt ss wr sr written"
    using stopRun_shares [OF assms(1)] by blast
  have ret: "drTaken d' = None" "drQueue d' = []" using assms(2) by (simp_all add: StopReturns_def)
  have w: "events s @ submissions as \<in> shuffles wt ss" "in_hand held @ wt = wr @ in_hand (drHeld d')"
    "written \<in> shuffles wr ss" "drDB d' = drain P written db"
    using sh unfolding shares_def ret by (auto simp: StopSettler_def)
  have "mset (in_hand held @ events s @ submissions as) = mset (in_hand held @ wt) + mset ss"
    using mset_shuffles [OF w(1)] by simp
  also have "\<dots> = mset (written @ in_hand (drHeld d'))" using mset_shuffles [OF w(3)] w(2) by simp
  finally show thesis using w that by blast
qed

text \<open>
  \<open>Stop\<close> alone empties the queue: it can return from every state, with what is left written in order, while the worker
  keeps what it holds.
\<close>

fun stopAlone :: "nat \<Rightarrow> stop_step list" where
  "stopAlone 0 = []"
| "stopAlone (Suc n) = StopTakes # StopWrites # stopAlone n"

lemma stopAlone_run:
  "stopRun P (stopAlone (length q)) \<lparr>drQueue = q, drHeld = held, drExited = x, drTaken = None, drDB = db\<rparr> =
   Some \<lparr>drQueue = [], drHeld = held, drExited = x, drTaken = None, drDB = drain P q db\<rparr>"
  by (induction q arbitrary: db) simp_all

lemma stop_can_return: "\<exists>as d'. stopRun P as d = Some d' \<and> StopReturns d'"
proof -
  define d1 where "d1 = (case drTaken d of None \<Rightarrow> d | Some evt \<Rightarrow> d\<lparr>drTaken := None, drDB := processEvent P evt (drDB d)\<rparr>)"
  define as where "as = (if drTaken d = None then [] else [StopWrites])"
  have run: "stopRun P as d = Some d1" by (auto simp: as_def d1_def)
  have d1: "drTaken d1 = None" by (simp add: d1_def split: option.split)
  have "stopRun P (stopAlone (length (drQueue d1))) d1 = Some (d1\<lparr>drQueue := [], drDB := drain P (drQueue d1) (drDB d1)\<rparr>)"
    using stopAlone_run [of P "drQueue d1" "drHeld d1" "drExited d1" "drDB d1"] d1 by (cases d1) simp
  with run d1 show ?thesis
    by (intro exI [of _ "as @ stopAlone (length (drQueue d1))"]) (simp add: stopRun_append StopReturns_def)
qed

text \<open>
  The worker receives the first event and is slow: \<open>Stop\<close> writes all the others and returns before it is written, so
  that it is lost when the process ends, or written after the others.
\<close>

lemma stop_overtakes:
  assumes "in_hand held @ events s = evt # q"
  obtains as d' where "stopRun P as (StopSettler held s db) = Some d'" and "StopReturns d'" and "submissions as = []"
    and "drHeld d' = Some evt" and "drDB d' = drain P q db"
    and "stopStep P WorkerWrites d' = Some (d'\<lparr>drHeld := None, drDB := drain P (q @ [evt]) db\<rparr>)"
proof -
  define d where "d = \<lparr>drQueue = q, drHeld = Some evt, drExited = False, drTaken = None, drDB = db\<rparr>"
  define as where "as = (if held = None then [WorkerTakes] else [])"
  let ?d' = "d\<lparr>drQueue := [], drDB := drain P q db\<rparr>"
  have "stopRun P as (StopSettler held s db) = Some d"
    using assms by (auto simp: as_def d_def StopSettler_def split: option.splits)
  moreover have "stopRun P (stopAlone (length q)) d = Some ?d'" using stopAlone_run by (simp add: d_def)
  ultimately have "stopRun P (as @ stopAlone (length q)) (StopSettler held s db) = Some ?d'" by (simp add: stopRun_append)
  moreover have "submissions (stopAlone n) = []" for n by (induction n) simp_all
  then have "submissions (as @ stopAlone (length q)) = []" by (simp add: as_def)
  ultimately show thesis
    by (intro that [of "as @ stopAlone (length q)" ?d']) (simp_all add: d_def StopReturns_def drain_append)
qed

end
