(* ===== verification/Funding_Rounds.thy ===== *)
theory Funding_Rounds
  imports Funding_Props
begin

section \<open>A funding settlement step by step (\<open>internal/engine/funding/scheduler.go\<close>)\<close>

text \<open>
  \<open>settle\<close> holds the engine's lock only while it changes the memory of one position. Before, between and after these
  sections, at the network, in the database and in the pauses between attempts, the other goroutines run. So the loop of the
  scheduler is also given as steps: where it stands (\<open>funding_phase\<close>) with the values it keeps meanwhile, in particular
  the pointers to the positions, which others may close, and the payment of an attempt, computed before the lock is
  taken. Run without interruption, the steps are \<open>settle\<close>.
\<close>

subsection \<open>One attempt in two halves\<close>

text \<open>The rows of the attempt: the size and the payment it goes on with.\<close>

definition settleRows :: "pg \<Rightarrow> cached_position \<Rightarrow> dec \<Rightarrow> int \<Rightarrow> scheduler \<Rightarrow> (funding_error + dec \<times> dec) \<times> scheduler" where
  "settleRows P pos currentPrice now s =
     (let quantity = NewFromString (pQuantity pos);
          payment = CalcFundingPayment quantity currentPrice (schRate s) (pSide pos);
          posValue = quantity * currentPrice;
          settlement = \<lparr>fsUserID = pUserID pos, fsPositionID = pID pos, fsRate = schRate s,
            fsPositionValue = posValue, fsPayment = payment, fsSettleTime = now\<rparr>
      in case CreateSettlementTx P settlement (schDB s) of
           Inl er \<Rightarrow> (Inl (CreateSettlementError er), s)
         | Inr db1 \<Rightarrow>
             (let s1 = s\<lparr>schDB := db1\<rparr>
              in case UpdateFundingPnlTx P (pID pos) payment (schDB s1) of
                  Inl er \<Rightarrow> (Inl (UpdateFundingPnlError er), s1)
                | Inr db2 \<Rightarrow> (Inr (quantity, payment), s1\<lparr>schDB := db2\<rparr>)))"

text \<open>The section under the lock, and the message.\<close>

definition settleLocked :: "decimal_lib \<Rightarrow> pg \<Rightarrow> cached_position \<Rightarrow> dec \<Rightarrow> dec \<Rightarrow> scheduler \<Rightarrow> outcome option" where
  "settleLocked D P pos payment quantity s = do {
     r \<leftarrow> settleMemory D P pos payment quantity s;
     (case r of
        (Some er, s3) \<Rightarrow> Some (Some er, s3)
      | (None, s3) \<Rightarrow> Some (None, s3\<lparr>schHub := schHub s3 @ [(pUserID pos, schRate s3, Round D 4 payment)]\<rparr>))
   }"

lemma settlePosition_halves:
  "settlePosition D P ptr price now s = do {
     pos \<leftarrow> deref ptr (positionCache (schEngine s));
     (case settleRows P pos price now s of
        (Inl er, s1) \<Rightarrow> Some (Some er, s1)
      | (Inr (quantity, payment), s1) \<Rightarrow> settleLocked D P pos payment quantity s1)
   }"
  by (auto simp: settlePosition_def settleRows_def settleLocked_def Let_def split: bind_splits sum.splits)

lemma settleRows_only_db: "settleRows P pos price now s = (r, s1) \<Longrightarrow> only_db s s1"
  by (auto simp: settleRows_def Let_def split: sum.splits intro: only_db_trans [OF only_db_upd])

lemma settleLocked_Some:
  assumes "settleLocked D P pos pay q s = Some (er, s')"
  shows "(er \<noteq> None \<longrightarrow> only_db s s') \<and> (er = None \<longrightarrow> settled pos pay s s')"
  using assms
  by (auto simp: settleLocked_def split: bind_splits option.splits prod.splits dest!: settleMemory_Some intro: settled_hub)

subsection \<open>The loop as steps\<close>

text \<open>
  Waiting for the time; with the rate fetched; with the price read and the rate's row written; paying the positions
  from a list of pointers, between attempts or after the rows of an attempt for the first of them.
\<close>

datatype funding_phase =
    Resting
  | Fetched
  | Rated dec int
  | Paying "int list" dec int "(dec \<times> dec) option"

text \<open>What the outside gives to a step: the time, the answer of the source and the database.\<close>

record funding_input =
  fiNow :: int
  fiReply :: reply
  fiDB :: pg

fun fundingStep ::
    "decimal_lib \<Rightarrow> (string \<Rightarrow> dec option) \<Rightarrow> funding_input \<Rightarrow> funding_phase \<Rightarrow> scheduler \<Rightarrow> (funding_phase \<times> scheduler) option" where
  "fundingStep D parse v Resting s = Some (Fetched, fetchRate parse (fiReply v) s)"
| "fundingStep D parse v Fetched s =
     (if schRate s = 0 then Some (Resting, s)
      else let currentPrice = GetPrice (priceCache (schEngine s))
           in if currentPrice = 0 then Some (Resting, s)
              else case CreateRate (fiDB v) \<lparr>frRate = schRate s, frSettleTime = fiNow v\<rparr> (schDB s) of
                  Inl er \<Rightarrow> Some (Resting, s)
                | Inr db1 \<Rightarrow> Some (Rated currentPrice (fiNow v), s\<lparr>schDB := db1\<rparr>))"
| "fundingStep D parse v (Rated currentPrice now) s = Some (Paying (GetAll (positionCache (schEngine s))) currentPrice now None, s)"
| "fundingStep D parse v (Paying [] currentPrice now owed) s = Some (Resting, s)"
| "fundingStep D parse v (Paying (ptr # ptrs) currentPrice now None) s = do {
     pos \<leftarrow> deref ptr (positionCache (schEngine s));
     (if pUserID pos = 0 then Some (Paying ptrs currentPrice now None, settleMaker pos currentPrice s)
      else case settleRows (fiDB v) pos currentPrice now s of
          (Inl er, s1) \<Rightarrow> Some (Paying (ptr # ptrs) currentPrice now None, s1)
        | (Inr owed, s1) \<Rightarrow> Some (Paying (ptr # ptrs) currentPrice now (Some owed), s1))
   }"
| "fundingStep D parse v (Paying (ptr # ptrs) currentPrice now (Some (quantity, payment))) s = do {
     pos \<leftarrow> deref ptr (positionCache (schEngine s));
     r \<leftarrow> settleLocked D (fiDB v) pos payment quantity s;
     (case r of
        (Some er, s1) \<Rightarrow> Some (Paying (ptr # ptrs) currentPrice now None, s1)
      | (None, s1) \<Rightarrow> Some (Paying ptrs currentPrice now None, s1))
   }"

fun fundingRun ::
    "decimal_lib \<Rightarrow> (string \<Rightarrow> dec option) \<Rightarrow> funding_input list \<Rightarrow> funding_phase \<times> scheduler \<Rightarrow> (funding_phase \<times> scheduler) option" where
  "fundingRun D parse [] c = Some c"
| "fundingRun D parse (v # vs) c = do { c1 \<leftarrow> fundingStep D parse v (fst c) (snd c); fundingRun D parse vs c1 }"

lemma fundingRun_append: "fundingRun D parse (vs @ ws) c = do { c1 \<leftarrow> fundingRun D parse vs c; fundingRun D parse ws c1 }"
  by (induction vs arbitrary: c) (simp_all split: bind_split)

subsection \<open>Uninterrupted, the steps are \<open>settle\<close>\<close>

lemma attempt_steps:
  assumes "settlePosition D P ptr price now s = Some (er, s')" and "deref ptr (positionCache (schEngine s)) = Some pos" and "pUserID pos \<noteq> 0"
  shows "\<exists>vs. fundingRun D parse vs (Paying (ptr # ptrs) price now None, s) =
    Some (Paying (if er = None then ptrs else ptr # ptrs) price now None, s')"
proof -
  let ?v = "\<lparr>fiNow = now, fiReply = NoReply, fiDB = P\<rparr>"
  obtain r s1 where rows: "settleRows P pos price now s = (r, s1)" by force
  then have e: "schEngine s1 = schEngine s" using settleRows_only_db only_dbD by blast
  show ?thesis
  proof (cases r)
    case (Inl x)
    with rows assms show ?thesis by (intro exI [of _ "[?v]"]) (auto simp: settlePosition_halves)
  next
    case (Inr owed)
    obtain q pay where owed: "owed = (q, pay)" by force
    with Inr rows assms have "settleLocked D P pos pay q s1 = Some (er, s')" by (simp add: settlePosition_halves)
    with Inr owed rows assms(2,3) e show ?thesis by (intro exI [of _ "[?v, ?v]"]) (cases er; simp)
  qed
qed

lemma settlePosition_owner:
  assumes "settlePosition D P ptr price now s = Some (er, s')" and "er \<noteq> None"
  shows "deref ptr (positionCache (schEngine s')) = deref ptr (positionCache (schEngine s))"
  using assms only_dbD(1) by (metis settlePosition_Some)

lemma retry_steps:
  assumes "settleRetry D Ps k ptr price now s = Some s'" and "deref ptr (positionCache (schEngine s)) = Some pos" and "pUserID pos \<noteq> 0"
  shows "\<exists>vs. fundingRun D parse vs (Paying (ptr # ptrs) price now None, s) = Some (Paying ptrs price now None, s')"
proof -
  have "deref ptr (positionCache (schEngine s)) = Some pos \<longrightarrow>
      (\<exists>vs. fundingRun D parse vs (Paying (ptr # ptrs) price now None, s) = Some (Paying ptrs price now None, s'))"
    using assms(1)
  proof (rule settleRetry.raw_induct [where P = "\<lambda>D Ps k ptr price now s s'. deref ptr (positionCache (schEngine s)) = Some pos \<longrightarrow>
        (\<exists>vs. fundingRun D parse vs (Paying (ptr # ptrs) price now None, s) = Some (Paying ptrs price now None, s'))", rotated],
      goal_cases)
    case (1 retry D Ps k ptr price now s s')
    show ?case
    proof
      assume pos: "deref ptr (positionCache (schEngine s)) = Some pos"
      obtain er s1 where s1: "settlePosition D (Ps k) ptr price now s = Some (er, s1)"
        and rest: "er = None \<and> s' = s1 \<or> er \<noteq> None \<and> retry D Ps (Suc k) ptr price now s1 = Some s'"
        using 1(2) by (auto split: bind_splits option.splits)
      obtain vs where vs: "fundingRun D parse vs (Paying (ptr # ptrs) price now None, s) =
          Some (Paying (if er = None then ptrs else ptr # ptrs) price now None, s1)"
        using attempt_steps [OF s1 pos assms(3)] by blast
      show "\<exists>vs. fundingRun D parse vs (Paying (ptr # ptrs) price now None, s) = Some (Paying ptrs price now None, s')"
      proof (cases er)
        case None
        with vs rest show ?thesis by auto
      next
        case (Some x)
        with rest have "retry D Ps (Suc k) ptr price now s1 = Some s'" by simp
        from 1(1) [OF this] settlePosition_owner [OF s1] Some pos
        obtain ws where "fundingRun D parse ws (Paying (ptr # ptrs) price now None, s1) = Some (Paying ptrs price now None, s')" by auto
        with vs Some show ?thesis by (intro exI [of _ "vs @ ws"]) (simp add: fundingRun_append)
      qed
    qed
  qed
  with assms(2) show ?thesis by blast
qed

lemma settleAll_steps:
  assumes "settleAll D Ps price now ptrs s = Some s'"
  shows "\<exists>vs. fundingRun D parse vs (Paying ptrs price now None, s) = Some (Resting, s')"
  using assms
proof (induction ptrs arbitrary: s)
  case Nil
  then have "fundingRun D parse [undefined] (Paying [] price now None, s) = Some (Resting, s')" by simp
  then show ?case by blast
next
  case (Cons ptr ptrs)
  from Cons.prems obtain pos s1 where pos: "deref ptr (positionCache (schEngine s)) = Some pos"
    and s1: "(if pUserID pos = 0 then Some (settleMaker pos price s) else settleRetry D (Ps ptr) 0 ptr price now s) = Some s1"
    and run: "settleAll D Ps price now ptrs s1 = Some s'"
    by (auto split: bind_splits)
  have "\<exists>vs. fundingRun D parse vs (Paying (ptr # ptrs) price now None, s) = Some (Paying ptrs price now None, s1)"
  proof (cases "pUserID pos = 0")
    case True
    with s1 pos show ?thesis by (intro exI [of _ "[undefined]"]) simp
  next
    case False
    with s1 pos retry_steps show ?thesis by auto
  qed
  then obtain vs where "fundingRun D parse vs (Paying (ptr # ptrs) price now None, s) = Some (Paying ptrs price now None, s1)" ..
  moreover obtain ws where "fundingRun D parse ws (Paying ptrs price now None, s1) = Some (Resting, s')" using Cons.IH [OF run] ..
  ultimately show ?case by (intro exI [of _ "vs @ ws"]) (simp add: fundingRun_append)
qed

lemma settle_steps:
  assumes "settle D parse resp P0 Ps now s = Some s'"
  shows "\<exists>vs. fundingRun D parse vs (Resting, s) = Some (Resting, s')"
proof -
  let ?v = "\<lparr>fiNow = now, fiReply = resp, fiDB = P0\<rparr>"
  let ?s1 = "fetchRate parse resp s" and ?price = "GetPrice (priceCache (schEngine s))"
  let ?row = "CreateRate P0 \<lparr>frRate = schRate ?s1, frSettleTime = now\<rparr> (schDB s)"
  show ?thesis
  proof (cases "schRate ?s1 = 0 \<or> ?price = 0 \<or> isl ?row")
    case True
    with assms show ?thesis by (intro exI [of _ "[?v, ?v]"]) (auto simp: settle_def Let_def isl_def split: if_splits)
  next
    case False
    then obtain db1 where row: "?row = Inr db1" by (cases ?row) auto
    with False assms obtain vs where
      "fundingRun D parse vs (Paying (GetAll (positionCache (schEngine s))) ?price now None, ?s1\<lparr>schDB := db1\<rparr>) = Some (Resting, s')"
      using settleAll_steps [of D Ps ?price now "GetAll (positionCache (schEngine s))" "?s1\<lparr>schDB := db1\<rparr>" s' parse]
      by (auto simp: settle_def Let_def)
    with False row show ?thesis by (intro exI [of _ "[?v, ?v, ?v] @ vs"]) simp
  qed
qed

subsection \<open>Every step succeeds and keeps the exchange well formed\<close>

definition funding_frame :: "scheduler \<Rightarrow> scheduler \<Rightarrow> bool" where
  "funding_frame s s' \<longleftrightarrow>
     schHours s' = schHours s \<and> schMaintRate s' = schMaintRate s \<and> schDone s' = schDone s \<and>
     (\<forall>u. holds_account u (memAccounts (schEngine s')) = holds_account u (memAccounts (schEngine s)))"

lemma frame_refl [simp]: "funding_frame s s"
  by (simp add: funding_frame_def)

lemma frame_parts [simp]:
  "funding_frame s (s'\<lparr>schDB := db\<rparr>) = funding_frame s s'" "funding_frame (s\<lparr>schDB := db\<rparr>) s' = funding_frame s s'"
  "funding_frame s (s'\<lparr>schHub := h\<rparr>) = funding_frame s s'" "funding_frame s (withPositions f s') = funding_frame s s'"
  "funding_frame s (withAccounts (AddPnl u x) s') = funding_frame s s'" "funding_frame s (fetchRate parse resp s') = funding_frame s s'"
  by (auto simp: funding_frame_def withPositions_def withAccounts_def fetchRate_def split: reply.split option.split)

lemma settleInsufficientBalance_frame:
  "settleInsufficientBalance D P pos pay bal q s = Some (er, s') \<Longrightarrow> funding_frame s s'"
  by (auto simp: settleInsufficientBalance_def Let_def split: sum.splits bind_splits if_splits)

lemma settleLocked_frame: "settleLocked D P pos pay q s = Some (er, s') \<Longrightarrow> funding_frame s s'"
  by (auto simp: settleLocked_def settleMemory_def Let_def split: bind_splits option.splits prod.splits sum.splits if_splits
      dest: settleInsufficientBalance_frame)

text \<open>A payment through any pointer, also one to a position that was removed meanwhile, and computed at any time.\<close>

lemma writes_exchange:
  assumes "writes pos pay s s'" and "exchange_ok (schEngine s)"
  shows "exchange_ok (schEngine s')" and "pointers_kept (positionCache (schEngine s)) (positionCache (schEngine s'))"
proof -
  obtain fn a where fn: "\<And>p. same_size p (fn p)"
    and e': "schEngine s' = (schEngine s)\<lparr>memAccounts := a, positionCache := UpdateCached (pID pos) fn (positionCache (schEngine s))\<rparr>"
    and ok: "exchange_ok ((schEngine s)\<lparr>memAccounts := a\<rparr>)"
    using assms unfolding writes_def by blast
  show "exchange_ok (schEngine s')" using exchange_update [OF ok, of fn "pID pos"] fn e' by (simp add: same_size_def)
  have "pointers_kept (positionCache (schEngine s)) (UpdateCached (pID pos) fn (positionCache (schEngine s)))"
    by (rule pointers_Update) (use fn in \<open>simp add: same_size_def same_identity_def\<close>)
  then show "pointers_kept (positionCache (schEngine s)) (positionCache (schEngine s'))" by (simp add: e')
qed

lemma settleLocked_total:
  assumes "div_law D" and "pLeverage pos \<noteq> 0" and "price_defined (schMaintRate s)"
  shows "\<exists>r. settleLocked D P pos pay q s = Some r"
proof -
  obtain r where r: "settleInsufficientBalance D P pos pay (GetBalance (pUserID pos) (memAccounts (schEngine s))) q s = Some r"
    using decimal.settleInsufficientBalance_total [OF decimal.intro [OF assms(1)] assms(2,3)] by blast
  then show ?thesis
    by (cases "fst r"; cases r) (auto simp: settleLocked_def settleMemory_def Let_def split: sum.split)
qed

fun phase_pointers :: "funding_phase \<Rightarrow> int list" where
  "phase_pointers (Paying ptrs price now owed) = ptrs"
| "phase_pointers _ = []"

definition phase_ok :: "funding_phase \<Rightarrow> position_cache \<Rightarrow> bool" where
  "phase_ok ph c \<longleftrightarrow> (\<forall>i \<in> set (phase_pointers ph). deref i c \<noteq> None)"

lemma phase_kept: "phase_ok ph c \<Longrightarrow> pointers_kept c c' \<Longrightarrow> phase_ok ph c'"
  using pointers_keptD by (auto simp: phase_ok_def)

lemma phase_Resting [simp]: "phase_ok Resting c"
  by (simp add: phase_ok_def)

text \<open>What holds of a step.\<close>

definition step_keeps :: "scheduler \<Rightarrow> funding_phase \<times> scheduler \<Rightarrow> bool" where
  "step_keeps s c \<longleftrightarrow> exchange_ok (schEngine (snd c)) \<and> funding_frame s (snd c) \<and>
     pointers_kept (positionCache (schEngine s)) (positionCache (schEngine (snd c))) \<and> phase_ok (fst c) (positionCache (schEngine (snd c)))"

lemma step_same_engine:
  assumes "exchange_ok (schEngine s)" and "schEngine s' = schEngine s" and "funding_frame s s'" and "phase_ok ph (positionCache (schEngine s))"
  shows "step_keeps s (ph, s')"
  using assms by (simp add: step_keeps_def)

lemma step_writes:
  assumes "exchange_ok (schEngine s)" and "writes pos pay s s'" and "funding_frame s s'" and "phase_ok ph (positionCache (schEngine s))"
  shows "step_keeps s (ph, s')"
  using writes_exchange [OF assms(2,1)] phase_kept [OF assms(4)] assms(3) by (simp add: step_keeps_def)

lemma fundingStep_ok:
  assumes law: "div_law D" and ok: "exchange_ok (schEngine s)" and mr: "price_defined (schMaintRate s)"
    and ph: "phase_ok ph (positionCache (schEngine s))"
  shows "\<exists>c. fundingStep D parse v ph s = Some c \<and> step_keeps s c"
proof (cases ph)
  case Resting
  with ok show ?thesis by (auto intro!: step_same_engine simp: phase_ok_def)
next
  case Fetched
  have keeps: "step_keeps s (Resting, s)" "step_keeps s (Rated x y, s\<lparr>schDB := db\<rparr>)" for x y db
    using ok by (auto intro!: step_same_engine simp: phase_ok_def)
  with Fetched show ?thesis by (auto simp: Let_def split: sum.split)
next
  case (Rated price now)
  have "phase_ok (Paying (GetAll (positionCache (schEngine s))) price now None) (positionCache (schEngine s))"
    using GetAll_pointers by (simp add: phase_ok_def)
  with Rated ok show ?thesis by (auto intro!: step_same_engine)
next
  case (Paying ptrs price now owed)
  show ?thesis
  proof (cases ptrs)
    case Nil
    with Paying ok show ?thesis by (auto intro!: step_same_engine)
  next
    case (Cons ptr rest)
    have all: "phase_ok (Paying (ptr # rest) price now x) (positionCache (schEngine s))"
      "phase_ok (Paying rest price now x) (positionCache (schEngine s))" for x
      using ph Paying Cons by (simp_all add: phase_ok_def)
    obtain pos where pos: "deref ptr (positionCache (schEngine s)) = Some pos" using all(1) by (auto simp: phase_ok_def)
    have lev: "pLeverage pos \<noteq> 0" using exchange_pointer(1) [OF ok pos] by (simp add: pos_ok_def)
    show ?thesis
    proof (cases owed)
      case None
      show ?thesis
      proof (cases "pUserID pos = 0")
        case True
        have "funding_frame s (settleMaker pos price s)" by (simp add: settleMaker_def Let_def)
        with step_writes [OF ok settleMaker_writes _ all(2)] True None Cons Paying pos show ?thesis by simp
      next
        case False
        obtain r s1 where r: "settleRows (fiDB v) pos price now s = (r, s1)" by force
        then have s1: "only_db s s1" by (rule settleRows_only_db)
        then have "funding_frame s s1" by (auto simp: only_db_def)
        with step_same_engine [OF ok only_dbD(1) [OF s1] _ all(1)] False None Cons Paying pos r show ?thesis
          by (cases r) simp_all
      qed
    next
      case (Some o')
      obtain q pay where o': "o' = (q, pay)" by force
      obtain er s1 where r: "settleLocked D (fiDB v) pos pay q s = Some (er, s1)"
        using settleLocked_total [OF law lev mr] by fastforce
      have fr: "funding_frame s s1" by (rule settleLocked_frame [OF r])
      show ?thesis
      proof (cases er)
        case None
        with settleLocked_Some [OF r] have "writes pos pay s s1" by (simp add: settled_writes)
        from step_writes [OF ok this fr all(2)] None Some o' Cons Paying pos r show ?thesis by simp
      next
        case (Some x)
        with settleLocked_Some [OF r] have "only_db s s1" by simp
        from step_same_engine [OF ok only_dbD(1) [OF this] fr all(1)] Some \<open>owed = Some o'\<close> o' Cons Paying pos r show ?thesis by simp
      qed
    qed
  qed
qed

end
