(* ===== verification/Boot.thy ===== *)
theory Boot
  imports Handlers_Props Service Reconcile Funding_Rounds Settler_Stop
begin

section \<open>Building, starting and stopping the service (\<open>svc/service_context.go\<close>, \<open>cmd/server/main.go\<close>)\<close>

text \<open>
  \<open>NewServiceContext\<close> makes the parts from the configuration and connects them, \<open>main\<close> loads the caches and starts
  the goroutines. A start that ends with \<open>log.Fatalf\<close> is \<open>None\<close>. The database at the start is a \<open>disk\<close>: the
  tables of the exchange, the users with the sequence of their IDs, the progress of the tutorial and the candlesticks.
\<close>

subsection \<open>Configuration (\<open>internal/config\<close>)\<close>

text \<open>
  The fields the program reads itself, without those of the HTTP server, the connection pool, the
  deadlines of the feed and the keys of the token and WeChat libraries.
\<close>

record config =
  cnExpire :: int
  cnRefreshExpire :: int
  cnWsURL :: string
  cnSpotURL :: string
  cnReconnectBaseDelay :: int
  cnReconnectMaxDelay :: int
  cnPublishInterval :: int
  cnFeeRate :: string
  cnMaintenanceMarginRate :: string
  cnMaxLeverage :: int
  cnMinMargin :: string
  cnInitialBalance :: string
  cnForceTpROI :: string
  cnSettleHours :: "int list"
  cnFetchURL :: string
  cnAlert :: alert_config

text \<open>What the requests read from it; a balance that is no number is zero.\<close>

definition configuredEnv :: "config \<Rightarrow> env \<Rightarrow> env" where
  "configuredEnv c v =
     v\<lparr>envInitialBalance := (case envParse v (cnInitialBalance c) of None \<Rightarrow> 0 | Some x \<Rightarrow> x),
       envExpire := cnExpire c, envRefreshExpire := cnRefreshExpire c\<rparr>"

record disk =
  dkDB :: database
  dkUsers :: "(int \<times> string) list"
  dkUserSeq :: int
  dkProgress :: progress
  dkBars :: kline_table

subsection \<open>The parts\<close>

definition NewServiceContext :: "(string \<Rightarrow> dec option) \<Rightarrow> config \<Rightarrow> bool \<Rightarrow> disk \<Rightarrow> site option" where
  "NewServiceContext parse c reachable dk =
     (if \<not> reachable then None
      else do {
        feeRate' \<leftarrow> parse (cnFeeRate c);
        maintRate' \<leftarrow> parse (cnMaintenanceMarginRate c);
        forceTpROI' \<leftarrow> parse (cnForceTpROI c);
        minMargin' \<leftarrow> parse (cnMinMargin c);
        let feeCalculator = NewCalculator [];
        let ob = NewBook;
        let cl = NewClearance feeCalculator feeRate' maintRate' forceTpROI';
        let tradingEngine = NewEngine NewPriceCache NewPositionCache NewOrderCache (Some ob) cl \<lparr>events = []\<rparr>
              \<lparr>cfgMaxLeverage = cnMaxLeverage c, cfgMinMargin = minMargin', cfgMaxPositions = 0, cfgMaxPriceDeviation = 0\<rparr>;
        let mmBot = NewBot DefaultConfig;
        let markPriceEngine = NewMarkEngine (1 / 10) (cnSpotURL c);
        let insuranceFund = NewFund 1000000;
        let e = tradingEngine\<lparr>onMakerFill := Some []\<rparr>;
        let tradeMonitor = NewMonitor e (Some insuranceFund);
        let klineAggregator = NewKlineAggregator True;
        let fundingScheduler = NewScheduler (cnSettleHours c) (cnFetchURL c) e (dkDB dk) maintRate';
        Some
          \<lparr>siService = \<lparr>svEngine = e, svDB = dkDB dk, svUsers = dkUsers dk, svUserSeq = dkUserSeq dk, svProgress = dkProgress dk\<rparr>,
           siFeed = \<lparr>fdMark = markPriceEngine, fdKlines = klineAggregator, fdMonitor = tradeMonitor,
                     fdLastBroadcast = None, fdSent = []\<rparr>,
           siScheduler = fundingScheduler, siBot = mmBot, siHub = NewHub, siBars = dkBars dk\<rparr>
      })"

text \<open>
  Starting fetches the funding rate; the goroutines it starts have no state of their own but that of their parts, and
  what they do are the steps of the theory \<open>System\<close>.
\<close>

definition StartEngines :: "(string \<Rightarrow> dec option) \<Rightarrow> reply \<Rightarrow> site \<Rightarrow> site" where
  "StartEngines parse resp st = st\<lparr>siScheduler := fetchRate parse resp (siScheduler st)\<rparr>"

text \<open>
  Stopping: closing a channel twice is a panic. The last part to stop is the settler, from where on its worker, which may
  hold an event, and \<open>Stop\<close> itself empty the queue (\<open>stopRun\<close>); the reconciliation is not stopped.
\<close>

definition StopEngines :: "settle_event option \<Rightarrow> site \<Rightarrow> (site \<times> draining) option" where
  "StopEngines held st = do {
     b \<leftarrow> StopBot (siBot st);
     sch \<leftarrow> StopScheduler (siScheduler st);
     let mk = StopFetching (fdMark (siFeed st));
     Some (st\<lparr>siBot := b, siScheduler := sch, siFeed := (siFeed st)\<lparr>fdMark := mk\<rparr>\<rparr>,
           StopSettler held (esettler (svEngine (siService st))) (svDB (siService st)))
   }"

definition boot ::
    "(string \<Rightarrow> dec option) \<Rightarrow> config \<Rightarrow> bool \<Rightarrow> (load_query \<Rightarrow> bool) \<Rightarrow> nat option \<Rightarrow> reply \<Rightarrow> disk \<Rightarrow> site option" where
  "boot parse c reachable fails broken resp dk = do {
     st \<leftarrow> NewServiceContext parse c reachable dk;
     (case LoadCachesFromDB fails broken (dkDB dk) (svEngine (siService st)) of
        (Some failed, e) \<Rightarrow> None
      | (None, e) \<Rightarrow> Some (StartEngines parse resp (onService (\<lambda>s. s\<lparr>svEngine := e\<rparr>) st)))
   }"

subsection \<open>The reconciliation's timer (\<open>engine/reconcile/reconcile.go\<close>)\<close>

text \<open>The first run is a minute after the start, the next one at four o'clock of the day after.\<close>

definition firstReconcile :: "int \<Rightarrow> int" where
  "firstReconcile started_at = started_at + 60 * second"

definition nextReconcile :: "int \<Rightarrow> int" where
  "nextReconcile now = dateAt now 1 4"

fun reconcileTimes :: "nat \<Rightarrow> int \<Rightarrow> int list" where
  "reconcileTimes 0 t = []"
| "reconcileTimes (Suc n) t = t # reconcileTimes n (nextReconcile t)"

lemma nextReconcile_after: "now + 4 * hourNs < nextReconcile now" "nextReconcile now \<le> now + 28 * hourNs"
proof -
  have "dayNs * (now div dayNs) + now mod dayNs = now" "0 \<le> now mod dayNs" "now mod dayNs < dayNs"
    by (simp_all add: dayNs_def hourNs_def)
  then show "now + 4 * hourNs < nextReconcile now" "nextReconcile now \<le> now + 28 * hourNs"
    by (simp_all add: nextReconcile_def dateAt_def dayNs_def hourNs_def algebra_simps)
qed

subsection \<open>Starts\<close>

text \<open>
  A database a start can continue from, and a configuration that can be used: the trading
  parameters are numbers in range and there is a settlement hour.
\<close>

definition disk_ok :: "clearance \<Rightarrow> disk \<Rightarrow> bool" where
  "disk_ok c dk \<longleftrightarrow>
     db_consistent c (dkDB dk) \<and> 0 \<le> dkUserSeq dk \<and> distinct (map fst (dkUsers dk)) \<and> distinct (map snd (dkUsers dk)) \<and>
     (\<forall>(i, o') \<in> set (dkUsers dk). i \<le> dkUserSeq dk \<and> (1 \<le> i \<or> o' \<in> set systemOpenIDs)) \<and>
     (\<forall>(u, a) \<in> set (dbAccounts (dkDB dk)). u \<le> dkUserSeq dk)"

definition config_ok :: "(string \<Rightarrow> dec option) \<Rightarrow> config \<Rightarrow> clearance \<Rightarrow> bool" where
  "config_ok parse c cl \<longleftrightarrow>
     (\<exists>fr mr roi mm. parse (cnFeeRate c) = Some fr \<and> parse (cnMaintenanceMarginRate c) = Some mr \<and>
        parse (cnForceTpROI c) = Some roi \<and> parse (cnMinMargin c) = Some mm \<and>
        0 \<le> mr \<and> mr < 1 \<and> 0 < mm \<and> cl = NewClearance (NewCalculator []) fr mr roi) \<and>
     cnSettleHours c \<noteq> []"

lemma config_clearance:
  assumes "config_ok parse c cl"
  shows "clearance_ok cl" and "\<exists>rate. fee_rates cl rate"
proof -
  obtain fr mr roi where cl: "cl = NewClearance (NewCalculator []) fr mr roi" "0 \<le> mr" "mr < 1"
    using assms by (auto simp: config_ok_def)
  then show "clearance_ok cl" by (simp add: clearance_ok_def NewClearance_def NewCalculator_def DefaultTiers_def)
  have "fee_rates cl 1"
    using cl(1) by (auto simp: fee_rates_def NewClearance_def GetTier_def NewCalculator_def DefaultTiers_def mk_tier_def)
  then show "\<exists>rate. fee_rates cl rate" by blast
qed

text \<open>What a start leaves: the parts in order and every goroutine's state new.\<close>

definition fresh_site :: "config \<Rightarrow> site \<Rightarrow> bool" where
  "fresh_site c st \<longleftrightarrow>
     fdMark (siFeed st) = NewMarkEngine (1 / 10) (cnSpotURL c) \<and> fdKlines (siFeed st) = NewKlineAggregator True \<and>
     mFund (fdMonitor (siFeed st)) = Some (NewFund 1000000) \<and> siBot st = NewBot DefaultConfig \<and> siHub st = NewHub \<and>
     schHours (siScheduler st) = cnSettleHours c \<and> \<not> schDone (siScheduler st)"

lemma built:
  assumes "config_ok parse c cl"
  obtains st where "NewServiceContext parse c True dk = Some st" and "started cl (svEngine (siService st))" and "fresh_site c st"
    and "svDB (siService st) = dkDB dk" and "svUsers (siService st) = dkUsers dk" and "svUserSeq (siService st) = dkUserSeq dk"
    and "schMaintRate (siScheduler st) = maintRate cl"
proof -
  obtain fr mr roi mm where p: "parse (cnFeeRate c) = Some fr" "parse (cnMaintenanceMarginRate c) = Some mr"
    "parse (cnForceTpROI c) = Some roi" "parse (cnMinMargin c) = Some mm" "0 < mm"
    "cl = NewClearance (NewCalculator []) fr mr roi"
    using assms by (auto simp: config_ok_def)
  obtain rate where "clearance_ok cl" "fee_rates cl rate" using config_clearance [OF assms] by blast
  then show thesis
    using p by (intro that [of "the (NewServiceContext parse c True dk)"])
      (auto simp: NewServiceContext_def started_def fresh_site_def NewEngine_def NewMonitor_def NewScheduler_def
        NewClearance_def Let_def)
qed

definition system_ok :: "site \<Rightarrow> nat set \<Rightarrow> bool" where
  "system_ok st reading \<longleftrightarrow>
     site_ok st reading \<and> mark_ok (fdMark (siFeed st)) \<and> price_defined (schMaintRate (siScheduler st)) \<and>
     holds_account SystemUserID (memAccounts (svEngine (siService st))) \<and>
     holds_account LiquidationUserID (memAccounts (svEngine (siService st)))"

lemma fetchRate_schedule [simp]:
  "schHours (fetchRate parse resp s) = schHours s" "schMaintRate (fetchRate parse resp s) = schMaintRate s"
  "schDone (fetchRate parse resp s) = schDone s"
  by (auto simp: fetchRate_def split: reply.split option.split)

lemma loading_fails:
  "fst (LoadCachesFromDB fails broken db e) = None \<longleftrightarrow> (\<forall>q. \<not> fails q) \<and> broken = None"
proof -
  have "(\<forall>q. \<not> fails q) \<longleftrightarrow>
      \<not> fails ActivePositions \<and> \<not> fails PendingOrders \<and> \<not> fails AccountRows \<and> \<not> fails MaxPositionID \<and> \<not> fails MaxOrderID"
    by (metis load_query.exhaust)
  then show ?thesis by (auto simp: LoadCachesFromDB_def loadAccountsToMemory_def Let_def)
qed

lemma loaded_users:
  assumes disk: "disk_ok cl dk" and st: "started cl e" and run: "LoadCachesFromDB (\<lambda>_. False) None (dkDB dk) e = (err, e')"
    and s: "svEngine s = e'" "svUsers s = dkUsers dk" "svUserSeq s = dkUserSeq dk"
  shows "users_ok s" and "holds_account SystemUserID (memAccounts e')" and "holds_account LiquidationUserID (memAccounts e')"
proof -
  have db: "db_consistent cl (dkDB dk)" using disk by (simp add: disk_ok_def)
  note l = loaded [OF db st run]
  have "u \<le> dkUserSeq dk" if "holds_account u (memAccounts e')" for u
  proof (cases "u \<in> set systemUsers")
    case True
    then show ?thesis using disk by (auto simp: disk_ok_def systemUsers_def)
  next
    case False
    with that obtain a where "map_of (dbAccounts (dkDB dk)) u = Some a" by (auto simp: holds_account_def l(5))
    then show ?thesis using disk by (auto simp: disk_ok_def dest: map_of_SomeD)
  qed
  then show "users_ok s" using disk s by (simp add: users_ok_def disk_ok_def)
  show "holds_account SystemUserID (memAccounts e')" "holds_account LiquidationUserID (memAccounts e')"
    by (simp_all add: holds_account_def l(5) systemUsers_def)
qed

lemma boot_ok:
  assumes conf: "config_ok parse c cl" and disk: "disk_ok cl dk"
  shows "boot parse c reachable fails broken resp dk = None \<longleftrightarrow> \<not> reachable \<or> (\<exists>q. fails q) \<or> broken \<noteq> None"
    and "boot parse c reachable fails broken resp dk = Some st \<Longrightarrow> system_ok st {} \<and> fresh_site c st \<and>
      svUsers (siService st) = dkUsers dk \<and>
      (\<exists>e. started cl e \<and> LoadCachesFromDB (\<lambda>_. False) None (dkDB dk) e = (None, svEngine (siService st)))"
proof -
  obtain st0 where st0: "NewServiceContext parse c True dk = Some st0" "started cl (svEngine (siService st0))" "fresh_site c st0"
    "svDB (siService st0) = dkDB dk" "svUsers (siService st0) = dkUsers dk" "svUserSeq (siService st0) = dkUserSeq dk"
    "schMaintRate (siScheduler st0) = maintRate cl"
    using built [OF conf] by metis
  obtain err e where run: "LoadCachesFromDB fails broken (dkDB dk) (svEngine (siService st0)) = (err, e)" by force
  show "boot parse c reachable fails broken resp dk = None \<longleftrightarrow> \<not> reachable \<or> (\<exists>q. fails q) \<or> broken \<noteq> None"
  proof (cases reachable)
    case True
    with st0(1) run loading_fails [of fails broken "dkDB dk" "svEngine (siService st0)"] show ?thesis
      by (auto simp: boot_def Let_def split: option.splits)
  qed (simp add: boot_def NewServiceContext_def)
  assume b: "boot parse c reachable fails broken resp dk = Some st"
  have "reachable" using b by (auto simp: boot_def NewServiceContext_def split: if_splits)
  with b st0(1) run have st: "err = None"
    "st = (onService (\<lambda>s. s\<lparr>svEngine := e\<rparr>) st0)\<lparr>siScheduler := fetchRate parse resp (siScheduler st0)\<rparr>"
    by (auto simp: boot_def StartEngines_def onService_def split: option.splits)
  then have "(\<forall>q. \<not> fails q) \<and> broken = None" using run loading_fails [of fails broken "dkDB dk" "svEngine (siService st0)"] by simp
  then have "fails = (\<lambda>_. False)" "broken = None" by auto
  with run st(1) have load: "LoadCachesFromDB (\<lambda>_. False) None (dkDB dk) (svEngine (siService st0)) = (None, e)" by simp
  have "exchange_ok e" using loaded_exchange_ok [OF _ st0(2) load] disk by (simp add: disk_ok_def)
  moreover have "users_ok (siService st)" "holds_account SystemUserID (memAccounts e)" "holds_account LiquidationUserID (memAccounts e)"
    using loaded_users [OF disk st0(2) load, of "siService st"] st0(5,6) by (simp_all add: st(2) onService_def)
  moreover have "price_defined (maintRate cl)" using config_clearance(1) [OF conf] by (auto simp: clearance_ok_def price_defined_def)
  moreover have "cnSettleHours c \<noteq> []" using conf by (simp add: config_ok_def)
  ultimately have "system_ok st {}"
    using st0(3,7) hub_ok_new
    by (simp add: system_ok_def site_ok_def service_ok_def st(2) onService_def fresh_site_def mark_ok_new)
  moreover have "fresh_site c st" using st0(3) by (simp add: st(2) onService_def fresh_site_def)
  moreover have "svEngine (siService st) = e" "svUsers (siService st) = dkUsers dk" using st0(5) by (simp_all add: st(2) onService_def)
  ultimately show "system_ok st {} \<and> fresh_site c st \<and> svUsers (siService st) = dkUsers dk \<and>
      (\<exists>e. started cl e \<and> LoadCachesFromDB (\<lambda>_. False) None (dkDB dk) e = (None, svEngine (siService st)))"
    using st0(2) load by blast
qed

text \<open>What a start that succeeds has run.\<close>

lemma boot_Some:
  assumes "boot parse c reachable fails broken resp dk = Some st"
  obtains st0 e where "NewServiceContext parse c True dk = Some st0" and "\<forall>q. \<not> fails q" and "broken = None"
    and "LoadCachesFromDB (\<lambda>_. False) None (dkDB dk) (svEngine (siService st0)) = (None, e)"
    and "st = StartEngines parse resp (onService (\<lambda>s. s\<lparr>svEngine := e\<rparr>) st0)"
proof -
  have "reachable" using assms by (auto simp: boot_def NewServiceContext_def split: if_splits)
  then obtain st0 where st0: "NewServiceContext parse c True dk = Some st0" using assms by (auto simp: boot_def split: bind_splits)
  obtain err e where run: "LoadCachesFromDB fails broken (dkDB dk) (svEngine (siService st0)) = (err, e)" by force
  have st: "err = None" "st = StartEngines parse resp (onService (\<lambda>s. s\<lparr>svEngine := e\<rparr>) st0)"
    using assms \<open>reachable\<close> st0 run by (auto simp: boot_def split: option.splits)
  then have none: "\<forall>q. \<not> fails q" "broken = None"
    using run loading_fails [of fails broken "dkDB dk" "svEngine (siService st0)"] by simp_all
  then have "fails = (\<lambda>_. False)" by auto
  with that [OF st0 none] run st none show thesis by simp
qed

lemma NewServiceContext_None:
  "NewServiceContext parse c reachable dk = None \<longleftrightarrow> \<not> reachable \<or> parse (cnFeeRate c) = None \<or>
     parse (cnMaintenanceMarginRate c) = None \<or> parse (cnForceTpROI c) = None \<or> parse (cnMinMargin c) = None"
  by (auto simp: NewServiceContext_def Let_def split: bind_splits)

lemma boot_None:
  "boot parse c reachable fails broken resp dk = None \<longleftrightarrow>
     NewServiceContext parse c reachable dk = None \<or> (\<exists>q. fails q) \<or> broken \<noteq> None"
proof (cases "NewServiceContext parse c reachable dk")
  case (Some st0)
  obtain err e where "LoadCachesFromDB fails broken (dkDB dk) (svEngine (siService st0)) = (err, e)" by force
  with Some loading_fails [of fails broken "dkDB dk" "svEngine (siService st0)"] show ?thesis
    by (auto simp: boot_def split: option.split)
qed (simp add: boot_def)

lemma LoadCachesFromDB_frame:
  assumes "LoadCachesFromDB fails broken db e = (err, e')"
  shows "resting (ebook e') = resting (ebook e)" and "esettler e' = esettler e"
  using assms
  by (auto simp: LoadCachesFromDB_def loadAccountsToMemory_def Let_def SetNextPosID_def SetNextID_def resting_def split: if_splits)

text \<open>
  C13. A start is all or nothing: it ends without a running service exactly when the database cannot be reached, one of the
  four trading parameters is no number, or a loading query fails. Every start that succeeds has written nothing, has the
  users of the database, an empty book and queue, no connection, and a fund of a million. If moreover the parameters are in
  range (\<open>config_ok\<close>) and the database is consistent (\<open>disk_ok\<close>), the exchange is well formed, the caches hold exactly
  the active positions and the pending orders with a price, in the order of the rows, and every account has the
  memory of its row, the two system accounts a hundred million.
\<close>

theorem boot_ready:
  "(boot parse c reachable fails broken resp dk = None \<longleftrightarrow>
      \<not> reachable \<or> parse (cnFeeRate c) = None \<or> parse (cnMaintenanceMarginRate c) = None \<or> parse (cnForceTpROI c) = None \<or>
      parse (cnMinMargin c) = None \<or> (\<exists>q. fails q) \<or> broken \<noteq> None) \<and>
   (\<forall>st. boot parse c reachable fails broken resp dk = Some st \<longrightarrow>
      svDB (siService st) = dkDB dk \<and> svUsers (siService st) = dkUsers dk \<and> resting (ebook (svEngine (siService st))) = [] \<and>
      events (esettler (svEngine (siService st))) = [] \<and> siHub st = NewHub \<and> mFund (fdMonitor (siFeed st)) = Some (NewFund 1000000) \<and>
      (\<forall>cl. config_ok parse c cl \<and> disk_ok cl dk \<longrightarrow>
         exchange_ok (svEngine (siService st)) \<and>
         posLive (positionCache (svEngine (siService st))) = map (\<lambda>p. (prID p, loadedPosition p)) (FindAllActive (dkDB dk)) \<and>
         orderCache (svEngine (siService st)) = map (\<lambda>co. (coID co, co)) (List.map_filter priced (FindAllPending (dkDB dk))) \<and>
         (\<forall>u. map_of (memAccounts (svEngine (siService st))) u =
            (if u \<in> set systemUsers then Some \<lparr>Balance = 100000000, Frozen = 0\<rparr>
             else map_option memAccount (map_of (dbAccounts (dkDB dk)) u)))))"
proof (intro conjI allI impI)
  show "boot parse c reachable fails broken resp dk = None \<longleftrightarrow>
      \<not> reachable \<or> parse (cnFeeRate c) = None \<or> parse (cnMaintenanceMarginRate c) = None \<or> parse (cnForceTpROI c) = None \<or>
      parse (cnMinMargin c) = None \<or> (\<exists>q. fails q) \<or> broken \<noteq> None"
    by (simp add: boot_None NewServiceContext_None disj_assoc)
next
  fix st
  assume b: "boot parse c reachable fails broken resp dk = Some st"
  obtain st0 e where st0: "NewServiceContext parse c True dk = Some st0"
    and load: "LoadCachesFromDB (\<lambda>_. False) None (dkDB dk) (svEngine (siService st0)) = (None, e)"
    and st: "st = StartEngines parse resp (onService (\<lambda>s. s\<lparr>svEngine := e\<rparr>) st0)"
    by (rule boot_Some [OF b])
  have parts: "svDB (siService st0) = dkDB dk" "svUsers (siService st0) = dkUsers dk" "siHub st0 = NewHub"
    "ebook (svEngine (siService st0)) = NewBook" "events (esettler (svEngine (siService st0))) = []"
    "mFund (fdMonitor (siFeed st0)) = Some (NewFund 1000000)"
    using st0 by (auto simp: NewServiceContext_def NewEngine_def NewMonitor_def Let_def split: bind_splits)
  have e: "svEngine (siService st) = e" by (simp add: st StartEngines_def onService_def)
  show "svDB (siService st) = dkDB dk" "svUsers (siService st) = dkUsers dk" "siHub st = NewHub"
    "mFund (fdMonitor (siFeed st)) = Some (NewFund 1000000)"
    using parts by (simp_all add: st StartEngines_def onService_def)
  show "resting (ebook (svEngine (siService st))) = []" "events (esettler (svEngine (siService st))) = []"
    using LoadCachesFromDB_frame [OF load] parts(4,5) by (simp_all add: e NewBook_def resting_def)
  fix cl
  assume ok: "config_ok parse c cl \<and> disk_ok cl dk"
  then have db: "db_consistent cl (dkDB dk)" by (simp add: disk_ok_def)
  obtain st1 where "NewServiceContext parse c True dk = Some st1" "started cl (svEngine (siService st1))"
    using built [of parse c cl dk] ok by metis
  with st0 have run: "started cl (svEngine (siService st0))" by simp
  note l = loaded [OF db run load]
  show "exchange_ok (svEngine (siService st))" unfolding e by (rule loaded_exchange_ok [OF db run load])
  show "posLive (positionCache (svEngine (siService st))) = map (\<lambda>p. (prID p, loadedPosition p)) (FindAllActive (dkDB dk))"
    "orderCache (svEngine (siService st)) = map (\<lambda>co. (coID co, co)) (List.map_filter priced (FindAllPending (dkDB dk)))"
    unfolding e by (rule l(3), rule l(4))
  show "map_of (memAccounts (svEngine (siService st))) u =
      (if u \<in> set systemUsers then Some \<lparr>Balance = 100000000, Frozen = 0\<rparr>
       else map_option memAccount (map_of (dbAccounts (dkDB dk)) u))" for u
    unfolding e by (rule l(5))
qed

definition sample_config :: config where
  "sample_config =
     \<lparr>cnExpire = 86400, cnRefreshExpire = 604800, cnWsURL = [], cnSpotURL = [], cnReconnectBaseDelay = 1,
      cnReconnectMaxDelay = 60, cnPublishInterval = 200, cnFeeRate = ''0.0004'', cnMaintenanceMarginRate = ''0.01'',
      cnMaxLeverage = 125, cnMinMargin = ''1'', cnInitialBalance = ''10000'', cnForceTpROI = ''5'', cnSettleHours = [0, 8, 16],
      cnFetchURL = [], cnAlert = \<lparr>acHost = [], acPort = ''587'', acUser = [], acPass = [], acTo = []\<rparr>\<rparr>"

definition sample_numbers :: "string \<Rightarrow> dec option" where
  "sample_numbers =
     map_of [(''0.0004'', 4 / 10000), (''0.01'', 1 / 100), (''1'', 1), (''10000'', 10000), (''5'', 5)]"

definition sample_disk :: disk where
  "sample_disk =
     \<lparr>dkDB = sample_db, dkUsers = [(0, ''system_market_maker''), (- 1, ''system_liquidation''), (7, ''dev_a'')], dkUserSeq = 7,
      dkProgress = [], dkBars = []\<rparr>"

lemma sample_disk_db: "dkDB sample_disk = sample_db"
  by (simp add: sample_disk_def)

lemma sample_config_ok: "config_ok sample_numbers sample_config sample_clearance"
  unfolding config_ok_def
  by (intro conjI exI [of _ "4 / 10000"] exI [of _ "1 / 100"] exI [of _ 5] exI [of _ 1])
    (simp_all add: sample_numbers_def sample_config_def sample_clearance_def)

lemma sample_disk_ok: "disk_ok sample_clearance sample_disk"
  by (simp add: disk_ok_def sample_disk_def sample_db_consistent systemOpenIDs_def) (simp add: sample_db_def)

text \<open>
  No start while the orders cannot be read or with a fee rate that is no number, and one that loads the position and
  the order of the sample database.
\<close>

theorem boot_ready_witness:
  "boot sample_numbers sample_config True (\<lambda>q. q = PendingOrders) None NoReply sample_disk = None \<and>
   boot sample_numbers (sample_config\<lparr>cnFeeRate := ''low''\<rparr>) True (\<lambda>q. False) None NoReply sample_disk = None \<and>
   (\<exists>st. boot sample_numbers sample_config True (\<lambda>q. False) None NoReply sample_disk = Some st \<and>
      exchange_ok (svEngine (siService st)) \<and> map fst (posLive (positionCache (svEngine (siService st)))) = [100003] \<and>
      map fst (orderCache (svEngine (siService st))) = [4] \<and> resting (ebook (svEngine (siService st))) = [])"
proof -
  have "boot sample_numbers sample_config True (\<lambda>q. q = PendingOrders) None NoReply sample_disk = None"
    using conjunct1 [OF boot_ready [of sample_numbers sample_config True "\<lambda>q. q = PendingOrders" None NoReply sample_disk]] by simp
  moreover have "sample_numbers ''low'' = None" by (simp add: sample_numbers_def)
  then have "boot sample_numbers (sample_config\<lparr>cnFeeRate := ''low''\<rparr>) True (\<lambda>q. False) None NoReply sample_disk = None"
    using conjunct1 [OF boot_ready [of sample_numbers "sample_config\<lparr>cnFeeRate := ''low''\<rparr>" True "\<lambda>q. False" None NoReply sample_disk]]
    by simp
  moreover obtain st where st: "boot sample_numbers sample_config True (\<lambda>q. False) None NoReply sample_disk = Some st"
    using boot_ok(1) [OF sample_config_ok sample_disk_ok, of True "\<lambda>q. False" None NoReply] by auto
  moreover note loads = conjunct2 [OF boot_ready, rule_format, OF st]
  have "exchange_ok (svEngine (siService st)) \<and> resting (ebook (svEngine (siService st))) = [] \<and>
      posLive (positionCache (svEngine (siService st))) = map (\<lambda>p. (prID p, loadedPosition p)) (FindAllActive sample_db) \<and>
      orderCache (svEngine (siService st)) = map (\<lambda>co. (coID co, co)) (List.map_filter priced (FindAllPending sample_db))"
    using loads sample_config_ok sample_disk_ok by (auto simp: sample_disk_db)
  moreover have "map prID (FindAllActive sample_db) = [100003]" "map coID (List.map_filter priced (FindAllPending sample_db)) = [4]"
    by (simp_all add: sample_db_def FindAllActive_def scanPosition_def FindAllPending_def map_filter_simps priced_def loadedOrder_def)
  ultimately show ?thesis by (simp add: comp_def)
qed

end
