(* ===== verification/System.thy ===== *)
theory System
  imports Boot Market_Maker_Props
begin

section \<open>The running system\<close>

text \<open>
  The goroutines that \<open>main\<close> starts, together, taking their steps in any order on the shared state. What the code does
  outside its locks with the others running in between is split into steps: a message to a user into the lookup of the
  connection and the send, the settler's work into receiving an event and writing it, a funding settlement into the steps of
  \<open>fundingStep\<close> around its locked section. A request, a price, a spot price and a tick of the bot are each one step. That
  is an assumption and no lock's doing: the engine's mutex covers one update of a position
  (\<open>UpdatePosition\<close>), not the whole of an order, a cancellation or a closing, and what two of them do to each other
  halfway is not covered here.
\<close>

subsection \<open>State and steps\<close>

text \<open>What is fixed for a run.\<close>

record params =
  paLib :: decimal_lib
  paSort :: "ranked_position slice_sort"
  paParse :: "string \<Rightarrow> dec option"
  paZone :: int
  paConfig :: config

text \<open>
  The service with what its goroutines hold between their steps: where the funding scheduler is, the event the settler has
  received, and the messages whose connection was looked up.
\<close>

record running =
  ruSite :: site
  ruFunding :: funding_phase
  ruHeld :: "settle_event option"
  ruSends :: "(nat \<times> string) list"

datatype event =
    Request web_env http_request
  | Priced "int \<times> int" dec int pg "kline_bar \<Rightarrow> bool"
  | SpotFetched reply
  | MakerTick
  | FundingStep int funding_input
  | EventTaken
  | EventWritten pg
  | ReadEnded nat
  | MessageTaken nat
  | LookedUp int string
  | Delivered nat
  | Broadcasted string

text \<open>The close callback of the candlesticks stores each bar when it closes, if the statement succeeds.\<close>

definition storeBars :: "pg \<Rightarrow> (kline_bar \<Rightarrow> bool) \<Rightarrow> kline_bar list \<Rightarrow> kline_table \<Rightarrow> kline_table" where
  "storeBars P fails = fold (\<lambda>bar t. if fails bar then t else UpsertKline P bar t)"

definition closedBars :: "aggregator \<Rightarrow> kline_bar list" where
  "closedBars a = (case kaPersisted a of None \<Rightarrow> [] | Some bars \<Rightarrow> bars)"

definition newlyClosed :: "aggregator \<Rightarrow> aggregator \<Rightarrow> kline_bar list" where
  "newlyClosed a a' = drop (length (closedBars a)) (closedBars a')"

definition putEngine :: "engine \<Rightarrow> site \<Rightarrow> site" where
  "putEngine e = onService (\<lambda>s. s\<lparr>svEngine := e\<rparr>)"

definition onFeedPrice :: "params \<Rightarrow> int \<times> int \<Rightarrow> dec \<Rightarrow> int \<Rightarrow> pg \<Rightarrow> (kline_bar \<Rightarrow> bool) \<Rightarrow> site \<Rightarrow> site option" where
  "onFeedPrice g clock price ts P fails st = do {
     fd \<leftarrow> handlePrice (paLib g) (paSort g) (paZone g) (cnPublishInterval (paConfig g)) clock price ts (feedOf st);
     Some ((putEngine (mEngine (fdMonitor fd)) st)
       \<lparr>siFeed := fd, siBars := storeBars P fails (newlyClosed (fdKlines (siFeed st)) (fdKlines fd)) (siBars st)\<rparr>)
   }"

definition onSpotTick :: "params \<Rightarrow> reply \<Rightarrow> site \<Rightarrow> site option" where
  "onSpotTick g resp st =
     (if mkURL (fdMark (siFeed st)) = [] then Some st
      else do {
        mk \<leftarrow> fetchSpotPrice (paLib g) (paParse g) resp (fdMark (siFeed st));
        Some (st\<lparr>siFeed := (siFeed st)\<lparr>fdMark := mk\<rparr>\<rparr>)
      })"

definition onMakerTick :: "params \<Rightarrow> site \<Rightarrow> site option" where
  "onMakerTick g st = do {
     (b, e) \<leftarrow> mmTick (paLib g) (Some (mmTrades (paLib g))) (siBot st) (svEngine (siService st));
     Some ((putEngine e st)\<lparr>siBot := b\<rparr>)
   }"

text \<open>The scheduler waits for the next settlement hour before a settlement.\<close>

definition onFunding :: "params \<Rightarrow> int \<Rightarrow> funding_input \<Rightarrow> running \<Rightarrow> running option" where
  "onFunding g waited v ru = do {
     let st = ruSite ru;
     nextSettle \<leftarrow> (if ruFunding ru = Resting then GetNextSettleTime waited (siScheduler st) else Some waited);
     (ph, sch) \<leftarrow> fundingStep (paLib g) (paParse g) v (ruFunding ru) (schedulerOf st);
     Some (ru\<lparr>ruSite := (onService (\<lambda>s. s\<lparr>svEngine := schEngine sch, svDB := schDB sch\<rparr>) st)\<lparr>siScheduler := sch\<rparr>, ruFunding := ph\<rparr>)
   }"

text \<open>The settler's worker receives the next event, then writes it.\<close>

definition onEventTaken :: "running \<Rightarrow> running" where
  "onEventTaken ru =
     (case events (esettler (svEngine (siService (ruSite ru)))) of
        [] \<Rightarrow> ru
      | evt # evts \<Rightarrow>
          if ruHeld ru \<noteq> None then ru
          else ru\<lparr>ruSite := onService (\<lambda>s. s\<lparr>svEngine := (svEngine s)\<lparr>esettler := (esettler (svEngine s))\<lparr>events := evts\<rparr>\<rparr>\<rparr>) (ruSite ru),
                  ruHeld := Some evt\<rparr>)"

definition onEventWritten :: "pg \<Rightarrow> running \<Rightarrow> running" where
  "onEventWritten P ru =
     (case ruHeld ru of
        None \<Rightarrow> ru
      | Some evt \<Rightarrow> ru\<lparr>ruSite := onService (\<lambda>s. s\<lparr>svDB := processEvent P evt (svDB s)\<rparr>) (ruSite ru), ruHeld := None\<rparr>)"

text \<open>\<open>SendToUser\<close>: the lookup, and the send on the connection that was found.\<close>

definition onLookup :: "int \<Rightarrow> string \<Rightarrow> running \<Rightarrow> running" where
  "onLookup userID msg ru =
     (case map_of (hubClients (siHub (ruSite ru))) userID of
        None \<Rightarrow> ru
      | Some p \<Rightarrow> ru\<lparr>ruSends := ruSends ru @ [(p, msg)]\<rparr>)"

definition putHub :: "hub \<Rightarrow> running \<Rightarrow> running" where
  "putHub h ru = ru\<lparr>ruSite := (ruSite ru)\<lparr>siHub := h\<rparr>\<rparr>"

definition onDeliver :: "nat \<Rightarrow> running \<Rightarrow> running option" where
  "onDeliver k ru =
     (if k < length (ruSends ru) then
        let (p, msg) = ruSends ru ! k
        in do {
          (sent, h) \<leftarrow> trySend p msg (siHub (ruSite ru));
          Some (putHub h (ru\<lparr>ruSends := take k (ruSends ru) @ drop (Suc k) (ruSends ru)\<rparr>))
        }
      else Some ru)"

definition onSite :: "(site \<Rightarrow> site option) \<Rightarrow> running \<Rightarrow> running option" where
  "onSite f ru = map_option (\<lambda>st. ru\<lparr>ruSite := st\<rparr>) (f (ruSite ru))"

fun system_step :: "params \<Rightarrow> event \<Rightarrow> running \<Rightarrow> running option" where
  "system_step g (Request v r) ru = onSite (\<lambda>st. map_option snd (serveHTTP (paLib g) v r st)) ru"
| "system_step g (Priced clock price ts P fails) ru = onSite (onFeedPrice g clock price ts P fails) ru"
| "system_step g (SpotFetched resp) ru = onSite (onSpotTick g resp) ru"
| "system_step g MakerTick ru = onSite (onMakerTick g) ru"
| "system_step g (FundingStep waited v) ru = onFunding g waited v ru"
| "system_step g EventTaken ru = Some (onEventTaken ru)"
| "system_step g (EventWritten P) ru = Some (onEventWritten P ru)"
| "system_step g (ReadEnded p) ru = map_option (\<lambda>h. putHub h ru) (onUnregister p (siHub (ruSite ru)))"
| "system_step g (MessageTaken p) ru = Some (putHub (snd (takeMessage p (siHub (ruSite ru)))) ru)"
| "system_step g (LookedUp u msg) ru = Some (onLookup u msg ru)"
| "system_step g (Delivered k) ru = onDeliver k ru"
| "system_step g (Broadcasted msg) ru = map_option (\<lambda>h. putHub h ru) (onBroadcast msg (siHub (ruSite ru)))"

text \<open>The one step that panics: a send on a connection that was closed since its lookup.\<close>

fun late_send :: "event \<Rightarrow> running \<Rightarrow> bool" where
  "late_send (Delivered k) ru \<longleftrightarrow> k < length (ruSends ru) \<and>
     (case client (fst (ruSends ru ! k)) (siHub (ruSite ru)) of None \<Rightarrow> False | Some c \<Rightarrow> clClosed c)"
| "late_send _ ru \<longleftrightarrow> False"

subsection \<open>The insurance fund stays installed\<close>

lemma settleDisposal_fund: "\<exists>fd'. settleDisposal ep side ts (Some fd) = Some fd'"
  by (induction ts arbitrary: fd) (simp_all add: Let_def)

lemma disposeOne_fund: "disposeOne D le mid p f e = Some (f', e') \<Longrightarrow> f \<noteq> None \<Longrightarrow> f' \<noteq> None"
  by (auto simp: disposeOne_def Let_def settleDisposal_fund split: bind_splits if_splits prod.splits)

lemma disposeAll_fund: "disposeAll D le mid ps f e = Some (f', e') \<Longrightarrow> f \<noteq> None \<Longrightarrow> f' \<noteq> None"
proof (induction D le mid ps f e rule: disposeAll.induct)
  case (2 D le mid p ps f e)
  from "2.prems"(1) obtain f1 e1 where s: "disposeOne D le mid p f e = Some (f1, e1)" "disposeAll D le mid ps f1 e1 = Some (f', e')"
    by (auto split: bind_splits)
  from disposeOne_fund [OF s(1) "2.prems"(2)] "2.IH" [of "(f1, e1)" f1 e1] s show ?case by simp
qed simp

lemma OnTick_fund: "OnTick D now mid le f e = Some (le', f', e') \<Longrightarrow> f \<noteq> None \<Longrightarrow> f' \<noteq> None"
  by (auto simp: OnTick_def Let_def split: if_splits bind_splits dest: disposeAll_fund)

lemma notify_fund [simp]:
  "mFund (Monitor.SendToUser u msg m) = mFund m" "mFund (notifyClose u i r reason m) = mFund m"
  "mFund (updateCachedPosition i fn m) = mFund m"
  by (auto simp: Monitor.SendToUser_def notifyClose_def updateCachedPosition_def split: option.split)

lemma reduceOne_fund: "reduceOne D s price r m = Some m' \<Longrightarrow> mFund m' = mFund m"
  by (auto simp: reduceOne_def Let_def split: bind_splits prod.splits)

lemma reduceAll_fund: "reduceAll D s price rs m = Some m' \<Longrightarrow> mFund m' = mFund m"
  by (induction D s price rs m rule: reduceAll.induct) (auto simp: reduceOne_fund split: bind_splits)

lemma triggerADL_fund: "triggerADL D srt s deficit b price m = Some m' \<Longrightarrow> mFund m' = mFund m"
  by (auto simp: triggerADL_def Let_def reduceAll_fund split: bind_splits if_splits)

lemma handleLiquidation_fund: "handleLiquidation D srt i lp ep q mg m = Some m' \<Longrightarrow> mFund m \<noteq> None \<Longrightarrow> mFund m' \<noteq> None"
  by (auto simp: handleLiquidation_def Let_def split: bind_splits if_splits prod.splits dest!: triggerADL_fund)

lemma handleForceTP_fund: "handleForceTP D i lp m = Some m' \<Longrightarrow> mFund m' = mFund m"
  by (auto simp: handleForceTP_def Let_def split: bind_splits sum.splits)

lemma handleClose_fund: "handleClose D i lp reason m = Some m' \<Longrightarrow> mFund m' = mFund m"
  by (auto simp: handleClose_def Let_def split: bind_splits sum.splits if_splits)

lemma checkTriggers_fund: "checkTriggers D lp n i pos m = Some m' \<Longrightarrow> mFund m' = mFund m"
  by (auto simp: checkTriggers_def pushPnl_def Let_def split: bind_splits if_splits dest!: handleForceTP_fund handleClose_fund)

lemma liquidateAll_fund: "liquidateAll D srt lp ps m = Some m' \<Longrightarrow> mFund m \<noteq> None \<Longrightarrow> mFund m' \<noteq> None"
proof (induction ps arbitrary: m)
  case (Cons i ps)
  from Cons.prems(1) obtain ep q mg m1 where "handleLiquidation D srt i lp ep q mg m = Some m1" "liquidateAll D srt lp ps m1 = Some m'"
    by (auto simp: Let_def split: bind_splits)
  with Cons.IH Cons.prems(2) handleLiquidation_fund show ?case by blast
qed simp

lemma checkPosition_fund:
  "Monitor.checkPosition D srt mp lp n cross i (m, seen) = Some (m', seen') \<Longrightarrow> mFund m \<noteq> None \<Longrightarrow> mFund m' \<noteq> None"
  by (auto simp: Monitor.checkPosition_def Let_def split: bind_splits if_splits
      dest: handleLiquidation_fund liquidateAll_fund checkTriggers_fund)

lemma checkAll_fund:
  "checkAll D srt mp lp n cross ps (m, seen) = Some (m', seen') \<Longrightarrow> mFund m \<noteq> None \<Longrightarrow> mFund m' \<noteq> None"
proof (induction ps arbitrary: m seen)
  case (Cons i ps)
  from Cons.prems(1) obtain m1 seen1 where "Monitor.checkPosition D srt mp lp n cross i (m, seen) = Some (m1, seen1)"
    "checkAll D srt mp lp n cross ps (m1, seen1) = Some (m', seen')" by (auto split: bind_splits)
  with Cons.IH Cons.prems(2) checkPosition_fund show ?case by blast
qed simp

lemma OnPriceUpdate_fund: "OnPriceUpdate D srt now mk price m = Some m' \<Longrightarrow> mFund m \<noteq> None \<Longrightarrow> mFund m' \<noteq> None"
  by (auto simp: OnPriceUpdate_def Let_def split: bind_splits dest!: OnTick_fund checkAll_fund)

subsection \<open>Every step keeps the service in order\<close>

text \<open>
  What a step needs from outside: IDs left, tokens that cannot be forged and honest identities, and connections
  that end once.
\<close>

fun affords :: "params \<Rightarrow> tokens \<Rightarrow> nat set \<Rightarrow> event \<Rightarrow> site \<Rightarrow> bool" where
  "affords g tk reading (Request v r) st \<longleftrightarrow>
     room (Suc 0) (svEngine (siService st)) \<and> unforgeable (weEnv v) tk \<and> honest_wechat (weEnv v)"
| "affords g tk reading (Priced clock price ts P fails) st \<longleftrightarrow>
     (\<forall>s1 mk. setFeedPrice (paLib g) price (feedOf st) = Some s1 \<longrightarrow>
        UpdateLastPrice (paLib g) price (fdMark (siFeed st)) = Some mk \<longrightarrow> price_fits (paLib g) (paSort g) price mk (fdMonitor s1))"
| "affords g tk reading MakerTick st \<longleftrightarrow> room (4 * mm_levels (siBot st)) (svEngine (siService st))"
| "affords g tk reading (ReadEnded p) st \<longleftrightarrow> p \<in> reading"
| "affords g tk reading _ st \<longleftrightarrow> True"

text \<open>The tokens handed out and the connections being read after a step.\<close>

fun tokens_after :: "params \<Rightarrow> event \<Rightarrow> site \<Rightarrow> tokens \<Rightarrow> tokens" where
  "tokens_after g (Request v r) st tk = (case serveHTTP (paLib g) v r st of None \<Rightarrow> tk | Some (a, st') \<Rightarrow> granted v r a @ tk)"
| "tokens_after g _ st tk = tk"

fun reading_after :: "event \<Rightarrow> site \<Rightarrow> site \<Rightarrow> nat set \<Rightarrow> nat set" where
  "reading_after (Request v r) st st' reading = reading \<union> opened (siHub st) (siHub st')"
| "reading_after (ReadEnded p) st st' reading = reading - {p}"
| "reading_after _ st st' reading = reading"

text \<open>What the goroutines hold stays usable: pointers to positions and connections remain pointers to objects.\<close>

definition usable :: "site \<Rightarrow> site \<Rightarrow> bool" where
  "usable st st' \<longleftrightarrow>
     pointers_kept (positionCache (svEngine (siService st))) (positionCache (svEngine (siService st'))) \<and>
     length (hubObjects (siHub st)) \<le> length (hubObjects (siHub st'))"

lemma usable_refl [simp]: "usable st st"
  by (simp add: usable_def)

definition stays :: "nat set \<Rightarrow> tokens \<Rightarrow> site \<Rightarrow> site \<Rightarrow> bool" where
  "stays reading tk st st' \<longleftrightarrow> system_ok st' reading \<and> tokens_ok tk (siService st') \<and> usable st st'"

text \<open>A step that replaces the engine by one with the same accounts.\<close>

lemma engine_step:
  assumes ok: "system_ok st reading" and tk: "tokens_ok tk (siService st)" and e: "exchange_ok e"
    and acc: "\<And>u. holds_account u (memAccounts e) = holds_account u (memAccounts (svEngine (siService st)))"
    and ptr: "pointers_kept (positionCache (svEngine (siService st))) (positionCache e)"
    and svc: "siService st' = (siService st)\<lparr>svEngine := e, svDB := db\<rparr>" and hub: "siHub st' = siHub st"
    and feed: "mark_ok (fdMark (siFeed st'))" "mFund (fdMonitor (siFeed st')) \<noteq> None"
    and sch: "schHours (siScheduler st') = schHours (siScheduler st)" "schMaintRate (siScheduler st') = schMaintRate (siScheduler st)"
  shows "stays reading tk st st'"
  using assms
  by (auto simp: stays_def usable_def system_ok_def site_ok_def service_ok_def users_ok_def tokens_ok_def)

lemma hub_step:
  assumes "system_ok st reading" and "tokens_ok tk (siService st)" and "hub_ok h {} reading'"
    and "length (hubObjects h) = length (hubObjects (siHub st))"
  shows "stays reading' tk st (st\<lparr>siHub := h\<rparr>)"
  using assms by (simp add: stays_def usable_def system_ok_def site_ok_def)

lemma request_step:
  assumes law: "div_law (paLib g)" and ok: "system_ok st reading" and tk: "tokens_ok tk (siService st)"
    and aff: "affords g tk reading (Request v r) st"
  obtains (found) st' where "map_option snd (serveHTTP (paLib g) v r st) = Some st'"
    and "stays (reading_after (Request v r) st st' reading) (tokens_after g (Request v r) st tk) st st'"
proof -
  have site: "site_ok st reading" using ok by (simp add: system_ok_def)
  have aff': "room (Suc 0) (svEngine (siService st))" "unforgeable (weEnv v) tk" "honest_wechat (weEnv v)"
    using aff by simp_all
  obtain a st' where run: "serveHTTP (paLib g) v r st = Some (a, st')" "handled reading st st'"
    "tokens_ok (granted v r a @ tk) (siService st')"
    using serve_ok [OF law site aff'(1) tk aff'(2,3)] by blast
  have "holds_account u (memAccounts (svEngine (siService st')))" if "holds_account u (memAccounts (svEngine (siService st)))" for u
    using run(2) that by (simp add: handled_def people_kept_def)
  with ok run(2) have "system_ok st' (reading \<union> opened (siHub st) (siHub st'))" by (simp add: system_ok_def handled_def)
  moreover have "usable st st'" using run(2) by (simp add: handled_def people_kept_def usable_def)
  ultimately show thesis using run by (intro found [of st']) (simp_all add: stays_def)
qed

lemma price_step:
  assumes law: "div_law (paLib g)" and srt: "sort_law (paSort g)" and ok: "system_ok st reading" and tk: "tokens_ok tk (siService st)"
    and aff: "affords g tk reading (Priced clock price ts P fails) st"
  obtains (found) st' where "onFeedPrice g clock price ts P fails st = Some st'" and "stays reading tk st st'"
proof -
  let ?fd = "feedOf st" and ?e = "svEngine (siService st)"
  have fd: "mEngine (fdMonitor ?fd) = ?e" "fdMark ?fd = fdMark (siFeed st)" "mFund (fdMonitor ?fd) = mFund (fdMonitor (siFeed st))"
    by (simp_all add: feedOf_def)
  have ex: "exchange_ok (mEngine (fdMonitor ?fd))" and mk_ok: "mark_ok (fdMark ?fd)"
    and acc: "holds_account LiquidationUserID (memAccounts (mEngine (fdMonitor ?fd)))" and fund: "mFund (fdMonitor ?fd) \<noteq> None"
    using ok by (simp_all add: fd system_ok_def site_ok_def service_ok_def)
  obtain s1 where s1: "setFeedPrice (paLib g) price ?fd = Some s1" using setFeedPrice_ok [OF law ex] by blast
  obtain mk where mk: "UpdateLastPrice (paLib g) price (fdMark ?fd) = Some mk"
    using decimal.applyUpdate_total [OF decimal.intro [OF law], of "LastUpdate price"] by auto
  have fits: "price_fits (paLib g) (paSort g) price mk (fdMonitor s1)" using aff s1 mk by (simp add: fd)
  have fund1: "mFund (fdMonitor s1) \<noteq> None" using s1 fund by (auto simp: setFeedPrice_def Let_def split: bind_splits)
  show thesis
  proof (rule handlePrice_ok [OF law srt ex mk_ok acc s1 mk fits, where clock = clock and zone = "paZone g"
        and configured = "cnPublishInterval (paConfig g)" and ts = ts])
    fix m'
    assume h: "OnPriceUpdate (paLib g) (paSort g) (fst clock) (Some (GetMarkPrice mk)) price (fdMonitor s1) = Some m'"
      "handlePrice (paLib g) (paSort g) (paZone g) (cnPublishInterval (paConfig g)) clock price ts ?fd =
        Some (broadcastTicker (publishInterval (cnPublishInterval (paConfig g))) (snd clock)
          (s1\<lparr>fdMark := mk, fdKlines := OnTrade (paZone g) price ts (fdKlines ?fd), fdMonitor := m'\<rparr>))"
      "exchange_ok (mEngine m')" "accounted (mEngine (fdMonitor ?fd)) (mEngine m')" "mark_ok mk"
    let ?st' = "the (onFeedPrice g clock price ts P fails st)"
    have same: "holds_account u (memAccounts (mEngine m')) = holds_account u (memAccounts ?e)" for u
      using accounted_holds [OF h(4)] by (simp add: fd)
    have st': "onFeedPrice g clock price ts P fails st = Some ?st'" "siService ?st' = (siService st)\<lparr>svEngine := mEngine m'\<rparr>"
      "siHub ?st' = siHub st" "siScheduler ?st' = siScheduler st" "fdMark (siFeed ?st') = mk" "fdMonitor (siFeed ?st') = m'"
      using h(2) by (simp_all add: onFeedPrice_def putEngine_def onService_def)
    have "mFund m' \<noteq> None" by (rule OnPriceUpdate_fund [OF h(1) fund1])
    have "pointers_kept (positionCache ?e) (positionCache (mEngine m'))" using h(4) by (simp add: fd accounted_def)
    with engine_step [OF ok tk h(3) same this, where st' = ?st' and db = "svDB (siService st)"] st' h(5) \<open>mFund m' \<noteq> None\<close>
    show thesis by (intro found [OF st'(1)]) simp_all
  qed
qed

lemma spot_step:
  assumes law: "div_law (paLib g)" and ok: "system_ok st reading"
  obtains (found) st' where "onSpotTick g resp st = Some st'" and "system_ok st' reading" and "siService st' = siService st" and "siHub st' = siHub st"
proof (cases "mkURL (fdMark (siFeed st)) = []")
  case True
  with ok show thesis by (intro found [of st]) (simp_all add: onSpotTick_def)
next
  case False
  let ?mk = "fdMark (siFeed st)"
  have mk_ok: "mark_ok ?mk" using ok by (simp add: system_ok_def)
  have "\<exists>mk. fetchSpotPrice (paLib g) (paParse g) resp ?mk = Some mk \<and> mark_ok mk"
  proof -
    have "\<exists>mk. UpdateIndexPrice (paLib g) p ?mk = Some mk \<and> mark_ok mk" for p
      using decimal.applyUpdate_total [OF decimal.intro [OF law], of "IndexUpdate p" ?mk]
        decimal.applyUpdate_mark_ok [OF decimal.intro [OF law], of "IndexUpdate p" ?mk] mk_ok by auto
    with mk_ok show ?thesis by (cases resp) (simp_all add: fetchSpotPrice_def Let_def)
  qed
  then obtain mk where "fetchSpotPrice (paLib g) (paParse g) resp ?mk = Some mk" "mark_ok mk" by blast
  with False ok show thesis
    by (intro found [of "st\<lparr>siFeed := (siFeed st)\<lparr>fdMark := mk\<rparr>\<rparr>"]) (simp_all add: onSpotTick_def system_ok_def site_ok_def)
qed

lemma maker_step:
  assumes law: "div_law (paLib g)" and ok: "system_ok st reading" and tk: "tokens_ok tk (siService st)"
    and rm: "room (4 * mm_levels (siBot st)) (svEngine (siService st))"
  obtains (found) st' where "onMakerTick g st = Some st'" and "stays reading tk st st'"
proof -
  have "exchange_ok (svEngine (siService st))" "holds_account SystemUserID (memAccounts (svEngine (siService st)))"
    using ok by (simp_all add: system_ok_def site_ok_def service_ok_def)
  from mmTick_ok [OF law this(1) rm this(2)] obtain b e
    where run: "mmTick (paLib g) (Some (mmTrades (paLib g))) (siBot st) (svEngine (siService st)) = Some (b, e)" "exchange_ok e"
      "accounted (svEngine (siService st)) e" by blast
  let ?st' = "(putEngine e st)\<lparr>siBot := b\<rparr>"
  have st': "siService ?st' = (siService st)\<lparr>svEngine := e\<rparr>" "siHub ?st' = siHub st" "siFeed ?st' = siFeed st"
    "siScheduler ?st' = siScheduler st" by (simp_all add: putEngine_def onService_def)
  have feed: "mark_ok (fdMark (siFeed st))" "mFund (fdMonitor (siFeed st)) \<noteq> None" using ok by (simp_all add: system_ok_def site_ok_def)
  have ptr: "pointers_kept (positionCache (svEngine (siService st))) (positionCache e)" using run(3) by (simp add: accounted_def)
  show thesis
    using engine_step [OF ok tk run(2) accounted_holds [OF run(3)] ptr, where st' = ?st' and db = "svDB (siService st)"] st' run(1) feed
    by (intro found [of ?st']) (simp_all add: onMakerTick_def)
qed

lemma funding_step:
  assumes law: "div_law (paLib g)" and ok: "system_ok (ruSite ru) reading" and tk: "tokens_ok tk (siService (ruSite ru))"
    and ph: "phase_ok (ruFunding ru) (positionCache (svEngine (siService (ruSite ru))))"
  obtains (found) ru' where "onFunding g waited v ru = Some ru'" and "stays reading tk (ruSite ru) (ruSite ru')"
    and "phase_ok (ruFunding ru') (positionCache (svEngine (siService (ruSite ru'))))" and "ruSends ru' = ruSends ru"
proof -
  let ?st = "ruSite ru" and ?s = "schedulerOf (ruSite ru)"
  have s: "schEngine ?s = svEngine (siService ?st)" "schMaintRate ?s = schMaintRate (siScheduler ?st)" "schHours ?s = schHours (siScheduler ?st)"
    by (simp_all add: schedulerOf_def)
  have ex: "exchange_ok (schEngine ?s)" "price_defined (schMaintRate ?s)" "schHours (siScheduler ?st) \<noteq> []"
    using ok by (simp_all add: s system_ok_def site_ok_def service_ok_def)
  obtain ph' s' where run: "fundingStep (paLib g) (paParse g) v (ruFunding ru) ?s = Some (ph', s')" "step_keeps ?s (ph', s')"
    using fundingStep_ok [OF law ex(1,2), of "ruFunding ru" "paParse g" v] ph s(1) by fastforce
  have "\<exists>t. (if ruFunding ru = Resting then GetNextSettleTime waited (siScheduler ?st) else Some waited) = Some t"
    using ex(3) by (auto simp: GetNextSettleTime_def split: option.split list.split)
  then obtain t where wait: "(if ruFunding ru = Resting then GetNextSettleTime waited (siScheduler ?st) else Some waited) = Some t" ..
  note k = run(2) [unfolded step_keeps_def fst_conv snd_conv funding_frame_def s]
  let ?st' = "(onService (\<lambda>x. x\<lparr>svEngine := schEngine s', svDB := schDB s'\<rparr>) ?st)\<lparr>siScheduler := s'\<rparr>"
  have st': "siService ?st' = (siService ?st)\<lparr>svEngine := schEngine s', svDB := schDB s'\<rparr>" "siHub ?st' = siHub ?st"
    "siFeed ?st' = siFeed ?st" "siScheduler ?st' = s'" by (simp_all add: onService_def)
  have feed: "mark_ok (fdMark (siFeed ?st))" "mFund (fdMonitor (siFeed ?st)) \<noteq> None" using ok by (simp_all add: system_ok_def site_ok_def)
  have same: "holds_account u (memAccounts (schEngine s')) = holds_account u (memAccounts (svEngine (siService ?st)))" for u
    using k by simp
  have stays: "stays reading tk ?st ?st'"
    by (rule engine_step [OF ok tk _ same _ st'(1,2)]) (use k st' feed in simp_all)
  have "onFunding g waited v ru = Some (ru\<lparr>ruSite := ?st', ruFunding := ph'\<rparr>)" using run(1) wait by (simp add: onFunding_def)
  from found [OF this] stays k st'(1) show thesis by simp
qed

lemma exchange_settler: "exchange_ok (e\<lparr>esettler := s\<rparr>) = exchange_ok e"
  by (simp add: exchange_ok_def engine_ok_def)

lemma settler_step:
  assumes ok: "system_ok (ruSite ru) reading" and tk: "tokens_ok tk (siService (ruSite ru))"
  shows "stays reading tk (ruSite ru) (ruSite (onEventTaken ru))" and "stays reading tk (ruSite ru) (ruSite (onEventWritten P ru))"
proof -
  show "stays reading tk (ruSite ru) (ruSite (onEventTaken ru))"
    using ok tk
    by (simp add: onEventTaken_def onService_def stays_def usable_def system_ok_def site_ok_def service_ok_def users_ok_def
        tokens_ok_def exchange_settler split: list.split)
  show "stays reading tk (ruSite ru) (ruSite (onEventWritten P ru))"
    using ok tk
    by (simp add: onEventWritten_def onService_def stays_def usable_def system_ok_def site_ok_def service_ok_def users_ok_def
        tokens_ok_def split: option.split)
qed

subsection \<open>The invariant of the running system\<close>

definition running_ok :: "running \<Rightarrow> nat set \<Rightarrow> tokens \<Rightarrow> bool" where
  "running_ok ru reading tk \<longleftrightarrow>
     system_ok (ruSite ru) reading \<and> tokens_ok tk (siService (ruSite ru)) \<and>
     phase_ok (ruFunding ru) (positionCache (svEngine (siService (ruSite ru)))) \<and>
     (\<forall>(p, msg) \<in> set (ruSends ru). p < length (hubObjects (siHub (ruSite ru))))"

lemma running_site:
  assumes "running_ok ru reading tk" and "stays reading' tk' (ruSite ru) st'"
  shows "running_ok (ru\<lparr>ruSite := st'\<rparr>) reading' tk'"
  using assms by (fastforce simp: running_ok_def stays_def usable_def dest: phase_kept)

lemma running_deliver:
  assumes ok: "running_ok ru reading tk"
  shows "onDeliver k ru = None \<longleftrightarrow> late_send (Delivered k) ru"
    and "onDeliver k ru = Some ru' \<Longrightarrow> running_ok ru' reading tk"
proof -
  have hub: "hub_ok (siHub (ruSite ru)) {} reading" using ok by (simp add: running_ok_def system_ok_def site_ok_def)
  have c: "\<exists>c. client p (siHub (ruSite ru)) = Some c" if "k < length (ruSends ru)" "ruSends ru ! k = (p, msg)" for p msg
    using ok that nth_mem [OF that(1)] by (auto simp: running_ok_def client_def)
  show "onDeliver k ru = None \<longleftrightarrow> late_send (Delivered k) ru"
  proof (cases "k < length (ruSends ru)")
    case True
    obtain p msg where p: "ruSends ru ! k = (p, msg)" by force
    obtain c where "client p (siHub (ruSite ru)) = Some c" using c [OF True p] by blast
    with True p show ?thesis by (cases "clClosed c"; cases "length (clSend c) < sendCap") (simp_all add: onDeliver_def trySend_def)
  qed (simp add: onDeliver_def)
  assume run: "onDeliver k ru = Some ru'"
  show "running_ok ru' reading tk"
  proof (cases "k < length (ruSends ru)")
    case True
    obtain p msg where p: "ruSends ru ! k = (p, msg)" by force
    obtain sent h where h: "trySend p msg (siHub (ruSite ru)) = Some (sent, h)"
      "ru' = putHub h (ru\<lparr>ruSends := take k (ruSends ru) @ drop (Suc k) (ruSends ru)\<rparr>)"
      using run True p by (auto simp: onDeliver_def split: bind_splits)
    have h_ok: "hub_ok h {} reading" "length (hubObjects h) = length (hubObjects (siHub (ruSite ru)))"
      using h(1) hub hub_ok_queue [OF hub] by (auto simp: trySend_def set_client_def split: bind_splits if_splits)
    have "stays reading tk (ruSite ru) ((ruSite ru)\<lparr>siHub := h\<rparr>)"
      by (rule hub_step [where reading = reading, OF _ _ h_ok]) (use ok in \<open>simp_all add: running_ok_def\<close>)
    from running_site [OF ok this] h(2) show ?thesis
      by (auto simp: putHub_def running_ok_def dest: in_set_takeD in_set_dropD)
  next
    case False
    with run ok show ?thesis by (simp add: onDeliver_def)
  qed
qed

lemma hub_lengths:
  "onUnregister p h = Some h' \<Longrightarrow> length (hubObjects h') = length (hubObjects h)"
  "length (hubObjects (snd (takeMessage p h))) = length (hubObjects h)"
  "onBroadcast msg h = Some h' \<Longrightarrow> length (hubObjects h') = length (hubObjects h)"
proof -
  have send: "trySend p msg h = Some (sent, h') \<Longrightarrow> length (hubObjects h') = length (hubObjects h)" for p msg h sent h'
    by (auto simp: trySend_def set_client_def split: bind_splits if_splits)
  have close: "closeSend p h = Some h' \<Longrightarrow> length (hubObjects h') = length (hubObjects h)" for p h h'
    by (auto simp: closeSend_def set_client_def split: bind_splits if_splits)
  have drop: "hubObjects (dropClient u h) = hubObjects h" for u h by (simp add: dropClient_def)
  show "onUnregister p h = Some h' \<Longrightarrow> length (hubObjects h') = length (hubObjects h)"
    using drop by (auto simp: onUnregister_def split: bind_splits option.splits if_splits dest!: close)
  show "length (hubObjects (snd (takeMessage p h))) = length (hubObjects h)"
    by (simp add: takeMessage_def set_client_def split: option.split list.split)
  have "broadcastAll msg al h = Some h' \<Longrightarrow> length (hubObjects h') = length (hubObjects h)" for al
  proof (induction al arbitrary: h)
    case (Cons x al)
    obtain key p where x: "x = (key, p)" by force
    from Cons.prems x obtain sent h1 h2 where "trySend p msg h = Some (sent, h1)"
      "(if sent then Some h1 else closeSend p (dropClient key h1)) = Some h2" "broadcastAll msg al h2 = Some h'"
      by (auto split: bind_splits)
    with Cons.IH send close drop show ?case by (metis option.inject)
  qed simp
  then show "onBroadcast msg h = Some h' \<Longrightarrow> length (hubObjects h') = length (hubObjects h)" by (simp add: onBroadcast_def)
qed

lemma system_step_ok:
  assumes law: "div_law (paLib g)" and srt: "sort_law (paSort g)" and ok: "running_ok ru reading tk"
    and aff: "affords g tk reading ev (ruSite ru)" and live: "\<not> late_send ev ru"
  shows "\<exists>ru'. system_step g ev ru = Some ru' \<and>
    running_ok ru' (reading_after ev (ruSite ru) (ruSite ru') reading) (tokens_after g ev (ruSite ru) tk)"
proof -
  let ?st = "ruSite ru"
  have st: "system_ok ?st reading" "tokens_ok tk (siService ?st)"
    and ph: "phase_ok (ruFunding ru) (positionCache (svEngine (siService ?st)))" using ok by (simp_all add: running_ok_def)
  have hub: "hub_ok (siHub ?st) {} reading" using st by (simp add: system_ok_def site_ok_def)
  have put: "running_ok (putHub h ru) reading' tk" if "hub_ok h {} reading'" "length (hubObjects h) = length (hubObjects (siHub ?st))" for h reading'
    using running_site [OF ok hub_step [OF st that]] by (simp add: putHub_def)
  show ?thesis
  proof (cases ev)
    case (Request v r)
    obtain st' where "map_option snd (serveHTTP (paLib g) v r ?st) = Some st'"
      "stays (reading_after (Request v r) ?st st' reading) (tokens_after g (Request v r) ?st tk) ?st st'"
      by (rule request_step [OF law st aff [unfolded Request]])
    with running_site [OF ok this(2)] Request show ?thesis by (intro exI [of _ "ru\<lparr>ruSite := st'\<rparr>"]) (auto simp: onSite_def)
  next
    case (Priced clock price ts P fails)
    obtain st' where "onFeedPrice g clock price ts P fails ?st = Some st'" "stays reading tk ?st st'"
      by (rule price_step [OF law srt st aff [unfolded Priced]])
    with running_site [OF ok this(2)] Priced show ?thesis by (simp add: onSite_def)
  next
    case (SpotFetched resp)
    obtain st' where s: "onSpotTick g resp ?st = Some st'" "system_ok st' reading" "siService st' = siService ?st" "siHub st' = siHub ?st"
      by (rule spot_step [OF law st(1)])
    then have "stays reading tk ?st st'" using st(2) by (simp add: stays_def usable_def)
    with running_site [OF ok this] s(1) SpotFetched show ?thesis by (simp add: onSite_def)
  next
    case MakerTick
    with aff have rm: "room (4 * mm_levels (siBot ?st)) (svEngine (siService ?st))" by simp
    obtain st' where "onMakerTick g ?st = Some st'" "stays reading tk ?st st'"
      by (rule maker_step [OF law st rm])
    with running_site [OF ok this(2)] MakerTick show ?thesis by (simp add: onSite_def)
  next
    case (FundingStep waited v)
    obtain ru' where r: "onFunding g waited v ru = Some ru'" "stays reading tk ?st (ruSite ru')"
      "phase_ok (ruFunding ru') (positionCache (svEngine (siService (ruSite ru'))))" "ruSends ru' = ruSends ru"
      by (rule funding_step [OF law st ph])
    from running_site [OF ok r(2)] r(3,4) have "running_ok ru' reading tk" by (simp add: running_ok_def)
    with r(1) FundingStep show ?thesis by simp
  next
    case EventTaken
    have "ruFunding (onEventTaken ru) = ruFunding ru" "ruSends (onEventTaken ru) = ruSends ru"
      by (simp_all add: onEventTaken_def split: list.split)
    with running_site [OF ok settler_step(1) [OF st]] EventTaken show ?thesis by (simp add: running_ok_def)
  next
    case (EventWritten P)
    have "ruFunding (onEventWritten P ru) = ruFunding ru" "ruSends (onEventWritten P ru) = ruSends ru"
      by (simp_all add: onEventWritten_def split: option.split)
    with running_site [OF ok settler_step(2) [OF st]] EventWritten show ?thesis by (simp add: running_ok_def)
  next
    case (ReadEnded p)
    obtain h where h: "onUnregister p (siHub ?st) = Some h" "hub_ok h {} (reading - {p})"
      using unregister_ok [OF hub, of p] aff ReadEnded by auto
    with ReadEnded put [OF h(2) hub_lengths(1) [OF h(1)]] show ?thesis by simp
  next
    case (MessageTaken p)
    with put [OF takeMessage_ok [OF hub, of p] hub_lengths(2)] show ?thesis by simp
  next
    case (LookedUp u msg)
    have "running_ok (onLookup u msg ru) reading tk"
      using ok hub_ok_lookup [OF hub, of u]
      by (fastforce simp: onLookup_def running_ok_def client_def split: option.split if_splits)
    with LookedUp show ?thesis by simp
  next
    case (Delivered k)
    obtain ru' where "onDeliver k ru = Some ru'" using running_deliver(1) [OF ok, of k] live Delivered by auto
    with running_deliver(2) [OF ok this] Delivered show ?thesis by simp
  next
    case (Broadcasted msg)
    obtain h where h: "onBroadcast msg (siHub ?st) = Some h" "hub_ok h {} reading" using onBroadcast_ok [OF hub] by blast
    with Broadcasted put [OF h(2) hub_lengths(3) [OF h(1)]] show ?thesis by simp
  qed
qed

subsection \<open>Runs\<close>

text \<open>The states the program reaches from a start, with the tokens handed out and the open connections.\<close>

definition started_system :: "site \<Rightarrow> running" where
  "started_system st = \<lparr>ruSite = st, ruFunding = Resting, ruHeld = None, ruSends = []\<rparr>"

inductive system_reach :: "params \<Rightarrow> disk \<Rightarrow> tokens \<Rightarrow> running \<Rightarrow> tokens \<Rightarrow> nat set \<Rightarrow> bool" for g dk tk0 where
  sys_start: "boot (paParse g) (paConfig g) True (\<lambda>_. False) None resp dk = Some st \<Longrightarrow> system_reach g dk tk0 (started_system st) tk0 {}"
| sys_step: "system_reach g dk tk0 ru tk reading \<Longrightarrow> affords g tk reading ev (ruSite ru) \<Longrightarrow> system_step g ev ru = Some ru' \<Longrightarrow>
    system_reach g dk tk0 ru' (tokens_after g ev (ruSite ru) tk) (reading_after ev (ruSite ru) (ruSite ru') reading)"

definition old_tokens_ok :: "tokens \<Rightarrow> disk \<Rightarrow> bool" where
  "old_tokens_ok tk dk \<longleftrightarrow> (\<forall>(t, u) \<in> set tk. u \<in> fst ` set (dkUsers dk) \<and> 1 \<le> u)"

lemma system_reach_ok:
  assumes "system_reach g dk tk0 ru tk reading" and law: "div_law (paLib g)" "sort_law (paSort g)" and conf: "config_ok (paParse g) (paConfig g) cl"
    and disk: "disk_ok cl dk" and old: "old_tokens_ok tk0 dk"
  shows "running_ok ru reading tk"
  using assms(1)
proof (induction rule: system_reach.induct)
  case (sys_start resp st)
  from boot_ok(2) [OF conf disk sys_start] old show ?case
    by (simp add: running_ok_def started_system_def tokens_ok_def old_tokens_ok_def)
next
  case (sys_step ru tk reading ev ru')
  have "\<not> late_send ev ru"
  proof
    assume late: "late_send ev ru"
    then obtain k where "ev = Delivered k" by (cases ev) simp_all
    with late running_deliver(1) [OF sys_step.IH, of k] sys_step.hyps(3) show False by (simp del: late_send.simps)
  qed
  from system_step_ok [OF law sys_step.IH sys_step.hyps(2) this] obtain ru2 where "system_step g ev ru = Some ru2"
    "running_ok ru2 (reading_after ev (ruSite ru) (ruSite ru2) reading) (tokens_after g ev (ruSite ru) tk)" by (elim exE conjE)
  with sys_step.hyps(3) show ?case by (simp only: option.inject)
qed


text \<open>
  C1. From a start on a consistent database, in every order of the steps (requests, prices, spot prices and ticks of the bot
  each as a whole; funding settlements, the settler's work and messages cut where the code lets others run in
  between), the service stays in order: the exchange is well formed, every user and every identity
  stands once, every token handed out belongs to a registered user, the hub's connections are those it may write to, and the
  positions that a settlement still has to pay are objects, closed or not. A next step that the outside affords panics in
  exactly one case: a message is sent on a connection that the hub closed after it was looked up.
\<close>

theorem system_safe:
  assumes "system_reach g dk tk0 ru tk reading" and "div_law (paLib g)" and "sort_law (paSort g)" and "config_ok (paParse g) (paConfig g) cl"
    and "disk_ok cl dk" and "old_tokens_ok tk0 dk"
  shows "exchange_ok (svEngine (siService (ruSite ru))) \<and> distinct (map fst (svUsers (siService (ruSite ru)))) \<and>
    distinct (map snd (svUsers (siService (ruSite ru)))) \<and> tokens_ok tk (siService (ruSite ru)) \<and>
    hub_ok (siHub (ruSite ru)) {} reading \<and> phase_ok (ruFunding ru) (positionCache (svEngine (siService (ruSite ru)))) \<and>
    (\<forall>ev. affords g tk reading ev (ruSite ru) \<longrightarrow> (system_step g ev ru = None \<longleftrightarrow> late_send ev ru))"
proof -
  have ok: "running_ok ru reading tk" using system_reach_ok [OF assms] .
  have "system_step g ev ru = None \<longleftrightarrow> late_send ev ru" if "affords g tk reading ev (ruSite ru)" for ev
  proof (cases "late_send ev ru")
    case True
    then obtain k where "ev = Delivered k" by (cases ev) simp_all
    with True running_deliver(1) [OF ok, of k] show ?thesis by simp
  next
    case False
    with system_step_ok [OF assms(2,3) ok that] show ?thesis by auto
  qed
  with ok show ?thesis by (auto simp: running_ok_def system_ok_def site_ok_def service_ok_def users_ok_def)
qed

definition sample_params :: params where
  "sample_params =
     \<lparr>paLib = dec16, paSort = insertion, paParse = sample_numbers, paZone = 0, paConfig = sample_config\<rparr>"

text \<open>User 7 connects.\<close>

definition joining :: http_request where
  "joining = \<lparr>rqMethod = ''GET'', rqPath = ''/ws'', rqHeader = [], rqQuery = [(''token'', ''t'')], rqBody = None\<rparr>"

definition joined :: hub where
  "joined = \<lparr>hubClients = [(7, 0)], hubObjects = [\<lparr>clUser = 7, clSend = [], clClosed = False\<rparr>]\<rparr>"

lemma sample_request:
  assumes "siHub st = NewHub"
  shows "serveHTTP dec16 sample_web joining st = Some (Upgraded 0, st\<lparr>siHub := joined\<rparr>)"
proof -
  have "envVerify (weEnv sample_web) ''t'' = Some 7" "weUpgrades sample_web" by (simp_all add: sample_web_def)
  moreover have "map_of (registerRoutes dec16) (rqMethod joining, rqPath joining) = Some WebSocketHandler"
    by (simp add: registerRoutes_def publicRoutes_def joining_def)
  ultimately show ?thesis
    using assms by (simp add: serveHTTP_def WebSocketHandler_def joining_def getValue_def NewClient_def NewHub_def onRegister_def
        client_def joined_def Let_def)
qed

lemma sample_boot:
  obtains st where "boot sample_numbers sample_config True (\<lambda>_. False) None NoReply sample_disk = Some st"
    and "room (Suc 0) (svEngine (siService st))" and "siHub st = NewHub"
proof -
  obtain st where b: "boot sample_numbers sample_config True (\<lambda>_. False) None NoReply sample_disk = Some st"
    using boot_ok(1) [OF sample_config_ok sample_disk_ok, of True "\<lambda>_. False" None NoReply] by auto
  obtain e where e: "started sample_clearance e"
    "LoadCachesFromDB (\<lambda>_. False) None sample_db e = (None, svEngine (siService st))"
    using boot_ok(2) [OF sample_config_ok sample_disk_ok b] by (auto simp: sample_disk_def)
  note l = loaded [OF sample_db_consistent e]
  have "room (Suc 0) (svEngine (siService st))" by (simp add: room_def l(6,7) SetNextID_def maxID_def sample_db_def)
  moreover have "siHub st = NewHub" using boot_ok(2) [OF sample_config_ok sample_disk_ok b] by (simp add: fresh_site_def)
  ultimately show thesis using b that by blast
qed

text \<open>
  A user connects, a message to the user is looked up, and the connection ends: its delivery panics, while a funding
  settlement may begin.
\<close>

theorem system_safe_witness:
  "\<exists>ru. system_reach sample_params sample_disk [(''t'', 7)] ru [(''t'', 7)] {} \<and> exchange_ok (svEngine (siService (ruSite ru))) \<and>
     ruSends ru = [(0, ''m'')] \<and> system_step sample_params (Delivered 0) ru = None \<and>
     system_step sample_params (FundingStep 5 \<lparr>fiNow = 5, fiReply = NoReply, fiDB = exact_pg\<rparr>) ru \<noteq> None"
proof -
  let ?tk = "[(''t'', 7)]" and ?reach = "system_reach sample_params sample_disk [(''t'', 7)]"
  have conf: "config_ok (paParse sample_params) (paConfig sample_params) sample_clearance" and law: "div_law (paLib sample_params)" "sort_law (paSort sample_params)"
    using sample_config_ok dec16_law insertion.law by (simp_all add: sample_params_def)
  have old: "old_tokens_ok ?tk sample_disk" by (simp add: old_tokens_ok_def sample_disk_def)
  obtain st where b: "boot (paParse sample_params) (paConfig sample_params) True (\<lambda>_. False) None NoReply sample_disk = Some st"
    and rm: "room (Suc 0) (svEngine (siService st))" and hub: "siHub st = NewHub" using sample_boot by (auto simp: sample_params_def)
  let ?ru = "\<lambda>h ms. \<lparr>ruSite = st\<lparr>siHub := h\<rparr>, ruFunding = Resting, ruHeld = None, ruSends = ms\<rparr>"
  let ?gone = "\<lparr>hubClients = [], hubObjects = [\<lparr>clUser = 7, clSend = [], clClosed = True\<rparr>]\<rparr>"
  have run: "serveHTTP (paLib sample_params) sample_web joining st = Some (Upgraded 0, st\<lparr>siHub := joined\<rparr>)"
    using sample_request [OF hub] by (simp add: sample_params_def)
  have 0: "?reach (started_system st) ?tk {}" by (rule sys_start [OF b])
  have "affords sample_params ?tk {} (Request sample_web joining) (ruSite (started_system st))"
    using sample_tokens rm by (simp add: started_system_def)
  moreover have "system_step sample_params (Request sample_web joining) (started_system st) = Some (?ru joined [])"
    using run by (simp add: onSite_def started_system_def)
  ultimately have "?reach (?ru joined []) (tokens_after sample_params (Request sample_web joining) (ruSite (started_system st)) ?tk)
      (reading_after (Request sample_web joining) (ruSite (started_system st)) (ruSite (?ru joined [])) {})"
    by (rule sys_step [OF 0])
  moreover have "opened NewHub joined = {0}" by (auto simp: opened_def NewHub_def joined_def)
  ultimately have 1: "?reach (?ru joined []) ?tk {0}"
    using run hub by (simp add: started_system_def granted_def joining_def)
  have 2: "?reach (?ru joined [(0, ''m'')]) ?tk {0}"
    using sys_step [OF 1, of "LookedUp 7 ''m''"] by (simp add: onLookup_def joined_def)
  have "onUnregister 0 joined = Some ?gone"
    by (simp add: onUnregister_def closeSend_def dropClient_def set_client_def client_def joined_def)
  then have 3: "?reach (?ru ?gone [(0, ''m'')]) ?tk {}"
    using sys_step [OF 2, of "ReadEnded 0"] by (simp add: putHub_def)
  define ru where "ru = ?ru ?gone [(0, ''m'')]"
  note safe = system_safe [OF 3 [folded ru_def] law conf sample_disk_ok old]
  have step: "affords sample_params ?tk {} ev (ruSite ru) \<Longrightarrow> system_step sample_params ev ru = None \<longleftrightarrow> late_send ev ru" for ev
    using safe by blast
  have "late_send (Delivered 0) ru" by (simp add: ru_def client_def)
  then have "system_step sample_params (Delivered 0) ru = None" using step [of "Delivered 0"] by simp
  moreover let ?fund = "FundingStep 5 \<lparr>fiNow = 5, fiReply = NoReply, fiDB = exact_pg\<rparr>"
  have "system_step sample_params ?fund ru \<noteq> None" using step [of ?fund] by simp
  moreover have "ruSends ru = [(0, ''m'')]" by (simp add: ru_def)
  moreover have "exchange_ok (svEngine (siService (ruSite ru)))" using safe by blast
  ultimately show ?thesis using 3 [folded ru_def] by blast
qed

subsection \<open>Stopping\<close>

text \<open>
  C16. A stop and the settler's worker share the waiting events: whatever the order of their steps and of further
  submissions, when \<open>Stop\<close> returns every event waiting, held or submitted has been received by exactly one of the
  two, each wrote what it received in the order of the queue, and the tables are those after all these events but the one that
  the worker may still hold; and \<open>Stop\<close> can always return. That one event is a defect: if an event waits or is held, there is a run
  in which \<open>Stop\<close> returns before the worker has written it, so that the end of the process loses it, or it is written
  after all the later ones. The other parts stay as they are, and stopping a second time panics.
\<close>

theorem stop_drains:
  assumes "StopEngines held st = Some (st', d)"
  defines "waiting \<equiv> events (esettler (svEngine (siService st)))" and "db \<equiv> svDB (siService st)"
  shows "(\<forall>as d'. stopRun P as d = Some d' \<and> StopReturns d' \<longrightarrow>
      (\<exists>wt wr ss written. waiting @ submissions as \<in> shuffles wt ss \<and> in_hand held @ wt = wr @ in_hand (drHeld d') \<and>
         written \<in> shuffles wr ss \<and> drDB d' = drain P written db \<and>
         mset (in_hand held @ waiting @ submissions as) = mset (written @ in_hand (drHeld d')))) \<and>
    (\<forall>as d'. stopRun P as d = Some d' \<longrightarrow> (\<exists>bs d''. stopRun P bs d' = Some d'' \<and> StopReturns d'')) \<and>
    (\<forall>evt q. in_hand held @ waiting = evt # q \<longrightarrow>
      (\<exists>as d'. stopRun P as d = Some d' \<and> StopReturns d' \<and> submissions as = [] \<and> drHeld d' = Some evt \<and> drDB d' = drain P q db \<and>
         stopStep P WorkerWrites d' = Some (d'\<lparr>drHeld := None, drDB := drain P (q @ [evt]) db\<rparr>))) \<and>
    siService st' = siService st \<and> siHub st' = siHub st \<and> StopEngines held' st' = None"
proof -
  have d: "d = StopSettler held (esettler (svEngine (siService st))) db" and st': "siService st' = siService st" "siHub st' = siHub st"
    "StopEngines held' st' = None"
    using assms(1) by (auto simp: StopEngines_def StopBot_def StopScheduler_def db_def split: bind_splits if_splits)
  show ?thesis
    unfolding d waiting_def db_def
  proof (intro conjI allI impI; (elim conjE)?)
    fix as d'
    assume "stopRun P as (StopSettler held (esettler (svEngine (siService st))) (svDB (siService st))) = Some d'" "StopReturns d'"
    from stop_shares [OF this] show "\<exists>wt wr ss written. events (esettler (svEngine (siService st))) @ submissions as \<in> shuffles wt ss \<and>
        in_hand held @ wt = wr @ in_hand (drHeld d') \<and> written \<in> shuffles wr ss \<and> drDB d' = drain P written (svDB (siService st)) \<and>
        mset (in_hand held @ events (esettler (svEngine (siService st))) @ submissions as) = mset (written @ in_hand (drHeld d'))"
      by metis
  next
    fix as d'
    show "\<exists>bs d''. stopRun P bs d' = Some d'' \<and> StopReturns d''" by (rule stop_can_return)
  next
    fix evt q
    assume "in_hand held @ events (esettler (svEngine (siService st))) = evt # q"
    from stop_overtakes [OF this] show "\<exists>as d'. stopRun P as (StopSettler held (esettler (svEngine (siService st))) (svDB (siService st))) = Some d' \<and>
        StopReturns d' \<and> submissions as = [] \<and> drHeld d' = Some evt \<and> drDB d' = drain P q (svDB (siService st)) \<and>
        stopStep P WorkerWrites d' = Some (d'\<lparr>drHeld := None, drDB := drain P (q @ [evt]) (svDB (siService st))\<rparr>)"
      by metis
  qed (use st' in simp_all)
qed

text \<open>
  Two payments wait. One run shares them, with a third that is submitted meanwhile; another returns with the first in the
  hands of the worker.
\<close>

definition waiting_site :: site where
  "waiting_site = onService (\<lambda>s. s\<lparr>svEngine := (svEngine s)\<lparr>esettler := \<lparr>events = [pay_event 7 10, pay_event 7 20]\<rparr>\<rparr>\<rparr>) sample_site"

theorem stop_drains_witness:
  "\<exists>st' d. StopEngines None waiting_site = Some (st', d) \<and> StopEngines None st' = None \<and>
     (\<exists>d' written. stopRun exact_pg [WorkerTakes, StopTakes, StopWrites, Submitted (pay_event 7 30), WorkerWrites, StopTakes, StopWrites] d = Some d' \<and>
        StopReturns d' \<and> drDB d' = drain exact_pg written (svDB (siService waiting_site)) \<and>
        mset written = {#pay_event 7 10, pay_event 7 20, pay_event 7 30#}) \<and>
     (\<exists>as d'. stopRun exact_pg as d = Some d' \<and> StopReturns d' \<and> drHeld d' = Some (pay_event 7 10) \<and>
        drDB d' = drain exact_pg [pay_event 7 20] (svDB (siService waiting_site)))"
proof -
  let ?as = "[WorkerTakes, StopTakes, StopWrites, Submitted (pay_event 7 30), WorkerWrites, StopTakes, StopWrites]"
  let ?db = "svDB (siService waiting_site)"
  have ev: "events (esettler (svEngine (siService waiting_site))) = [pay_event 7 10, pay_event 7 20]"
    by (simp add: waiting_site_def onService_def)
  obtain st' d where stop: "StopEngines None waiting_site = Some (st', d)" and d: "d = StopSettler None (esettler (svEngine (siService waiting_site))) ?db"
    by (simp add: StopEngines_def StopBot_def StopScheduler_def waiting_site_def onService_def sample_site_def NewBot_def DefaultConfig_def
        NewScheduler_def Let_def)
  note drains = stop_drains [OF stop, of exact_pg None, unfolded ev]
  obtain d' where run: "stopRun exact_pg ?as d = Some d'" "StopReturns d'" "drHeld d' = None"
    by (simp add: d StopSettler_def StopReturns_def ev)
  obtain written where "drDB d' = drain exact_pg written ?db" "mset written = {#pay_event 7 10, pay_event 7 20, pay_event 7 30#}"
    using conjunct1 [OF drains, rule_format, OF conjI [OF run(1,2)]] run(3) by auto
  moreover have "\<exists>as d'. stopRun exact_pg as d = Some d' \<and> StopReturns d' \<and> drHeld d' = Some (pay_event 7 10) \<and>
      drDB d' = drain exact_pg [pay_event 7 20] ?db"
    using drains by fastforce
  moreover have "StopEngines None st' = None" using drains by blast
  ultimately show ?thesis using stop run(1,2) by blast
qed

end
