(* ===== verification/Spec2Isabelle.thy ===== *)
theory Spec2Isabelle
  imports Book_Props Position_Calc Fee Insurance Exchange_Props ADL Liquidation Engine_Frame Monitor_Props
    Mark_Price Funding_Props Kline_Props Market_Maker_Props Reconcile Service Pumps Logic_Props Price_Feed
    Queries_Props Tokens Settler_Stop Funding_Rounds Boot System
begin

text \<open>
  Verification development of a simulator of perpetual-futures trading written in Go
  (\<open>src/internal\<close>).

  \<^bold>\<open>The program.\<close> Users place market and limit orders on one contract. The matching engine
  (\<open>engine/trading/engine.go\<close>) checks them, charges margins in an in-memory account cache, matches
  them in an order book (\<open>engine/orderbook\<close>), turns every trade into position updates
  of both sides (\<open>engine/trading/position_update.go\<close>, with the arithmetic of
  \<open>engine/clearing/clearance.go\<close>, \<open>engine/position\<close> and \<open>engine/fee\<close>) and submits events to a queue from which the settler
  (\<open>engine/clearing/settler.go\<close>) writes the database. A price feed drives the candlesticks
  (\<open>engine/pricefeed/kline_aggregator.go\<close>), the mark price (\<open>engine/markprice\<close>) and the risk monitor
  (\<open>engine/trading/monitor.go\<close>), which takes over positions past their liquidation price
  (\<open>liquidation_engine.go\<close>), uses the insurance fund (\<open>engine/insurance\<close>) and, when that is
  empty, auto-deleveraging (\<open>engine/adl\<close>), and fires take-profit and stop-loss. A bot quotes both
  sides of the book (\<open>engine/marketmaker\<close>) and a scheduler exchanges funding payments
  (\<open>engine/funding\<close>). The service (\<open>svc\<close>) loads the caches from the database at the start and
  connects the parts; requests arrive at the routes of \<open>cmd/server/main.go\<close>, pass the middleware and a handler
  (\<open>handler\<close>) and reach \<open>logic\<close> or a query of \<open>model\<close>; messages to users go through the WebSocket hub
  (\<open>ws\<close>), and a daily reconciliation (\<open>engine/reconcile\<close>) compares memory with the tables.

  \<^bold>\<open>Theories.\<close> Each component has a theory with its state and one definition per operation, in the
  code's order, named as in the code where Isabelle allows it; what is shown of it follows in
  the same theory or in one named after it.

  \<^item> \<open>Prelude\<close>: decimals, the decimal library's parameters and laws (locale \<open>decimal\<close>), numeric
    strings, wrapping 64-bit counters, association lists.
  \<^item> \<open>Order_Book\<close>, \<open>Book_Matching\<close>, \<open>Book_Sides\<close>, \<open>Book_Invariant\<close>, \<open>Book_Props\<close>: the order book; it
    refines price-time priority matching on two queues, and every reachable book is well formed.
  \<^item> \<open>Position_Calc\<close>, \<open>Fee\<close>, \<open>Clearance\<close>, \<open>Clearance_Props\<close>: the arithmetic, with bounds for the
    rounding of quotients and conservation of equity.
  \<^item> \<open>Account_Cache\<close> (locale \<open>margin_ledger\<close>), \<open>Position_Cache\<close>, \<open>Order_Cache\<close>, \<open>Price_Cache\<close>: the
    in-memory state (\<open>internal/cache\<close>). \<open>Insurance\<close>: the fund.
  \<^item> \<open>Database\<close>, \<open>Settler\<close>: the tables with the statements of \<open>internal/model\<close>, and the queue that writes them.
    \<open>Settler_Stop\<close>: stopping, where the worker and \<open>Stop\<close> empty the same queue.
  \<^item> \<open>Engine\<close>, then \<open>Engine_Updates\<close>, \<open>Engine_Orders\<close>, \<open>Engine_Effects\<close>, \<open>Engine_Props\<close>,
    \<open>Engine_Frame\<close>: the matching engine; what an update and the processing of trades do to positions, balances,
    equity and the queue, and that other users are not touched.
  \<^item> \<open>Exchange\<close>, \<open>Exchange_Props\<close>: the invariant \<open>exchange_ok\<close> that ties the engine, the
    book and the caches together, kept by every operation; any sequence of requests is served to the end.
  \<^item> \<open>ADL\<close> (locale \<open>slice_sorter\<close>), \<open>Liquidation\<close>, \<open>Monitor\<close>, \<open>Deleveraging\<close>, \<open>Monitor_Steps\<close>, \<open>Monitor_Tick\<close>,
    \<open>Monitor_Props\<close>: the risk engine, up to a whole price tick with its liquidations and reductions.
  \<^item> \<open>Json\<close>, \<open>Mark_Price\<close>: fetched replies and the mark price. \<open>Funding\<close>, \<open>Funding_Steps\<close>,
    \<open>Funding_Props\<close>: the funding scheduler; \<open>Funding_Rounds\<close>: a settlement cut into the steps around its locked section,
    which make up \<open>settle\<close> when nothing interrupts them. \<open>Kline\<close>, \<open>Kline_Props\<close>: the candlesticks. \<open>Market_Maker\<close>,
    \<open>Market_Maker_Props\<close>: the bot and its callback.
  \<^item> \<open>Price_Feed\<close>: a price of the stream on its way through price cache, mark price, candlesticks,
    risk monitor and broadcast; the connections and the delays between them. \<open>Hub\<close>: the connections as a state
    machine whose runs never panic, and the race of a send with a close. \<open>Pumps\<close>: reading and writing of one
    connection, which delivers in order.
  \<^item> \<open>Reconcile\<close>, \<open>Service\<close>: the reconciliation and the start from the database; a consistent
    database loads into a well-formed exchange, and what the reconciliation then reports.
  \<^item> \<open>Tutorial\<close>, \<open>Logic\<close>, \<open>Logic_Props\<close>: the requests of users; any sequence of them is answered
    without a panic, and what login, reset and exit prices leave in memory and tables.
  \<^item> \<open>Queries\<close>, \<open>Queries_Props\<close>: paged listings, the leaderboard and the stored candlesticks.
    \<open>Web\<close>, \<open>Handlers\<close>, \<open>Handlers_Props\<close>: requests and responses, every handler, the middleware and the routes,
    over the state \<open>site\<close> of the whole service; who may change what, and that no request panics. \<open>Tokens\<close>: the
    claims of a token, its life, and that the two tokens of a login are interchangeable.
  \<^item> \<open>Boot\<close>: building the service from the configuration, its start and its stop. \<open>System\<close>: all goroutines
    together as a step relation from a start; the one step that can panic is a send on a connection closed since its lookup.

  \<^bold>\<open>Correspondence.\<close> A struct is a record, an enumeration a datatype or its integer constants, a map an
  association list, a numeric string a \<open>dstring\<close>, a \<open>decimal.Decimal\<close> the rational it denotes, a counter
  an \<open>int\<close> with the wrap-around of \<open>add64\<close>. A panic is \<open>None\<close>, an error a value of a sum or
  an option. A method that holds a lock is one transformation of the state. A position pointer
  that outlives a change of the cache is the position's ID, and \<open>deref\<close> reads the object behind it, live or removed
  (\<open>posGone\<close>). Callbacks are function arguments or the list of their calls.

  \<^bold>\<open>Parameters.\<close> \<open>decimal_lib\<close> (\<open>Div\<close>, \<open>Round\<close>, \<open>Pow\<close> of the decimal package; \<open>div_law\<close> states that a
  quotient has 16 digits and an error below one unit of the last, and that dividing by zero
  panics), the sorting of \<open>sort.Slice\<close> (\<open>sort_law\<close>: it sorts and permutes), \<open>pg\<close> (the rounding of a
  numeric column and which statements fail), the parser of decimal texts, the failing queries, WeChat's replies and
  the signing of tokens (\<open>env\<close>, in \<open>Tokens\<close> a \<open>jwt_lib\<close> with \<open>jwt_law\<close>: a signed text is read back until it
  expires; a theorem about users assumes that only tokens handed out verify, \<open>unforgeable\<close>, and that WeChat names no
  system user), the order of rows with equal keys, the database's division and the clock
  (\<open>web_env\<close>). The instances \<open>dec16\<close>,
  \<open>insertion\<close>, \<open>exact_pg\<close>, \<open>open_pg\<close> are used by witnesses only.

  \<^bold>\<open>Bounds and fuel.\<close> \<open>room k\<close> says that the ID counters have room for \<open>k\<close> more operations on the present
  book; it is far from the 2^63 where the counters wrap, and only ID freshness needs
  it. No definition uses fuel. The retry loop of the funding settlement, which has no bound, is a
  \<open>partial_function\<close>, and it is proved both when it returns and when it does not.

  \<^bold>\<open>Not modelled.\<close> The goroutines' scheduling inside a request, a price, a spot price or a tick of the bot: in
  \<open>System\<close> each of these is one step. No lock of the code makes it so (the engine's mutex covers one update of a
  position, not a whole order, cancellation or closing), so the theorems about them are about operations that do not overlap.
  What is cut into steps that interleave with everything else: messages (the lookup of a connection and the send on it, with
  any content), the settler (receiving an event and writing it), a funding settlement (its
  database rows, its locked section, its pauses), the stop, and the queue at a reset.
  Sleeping, logging, time stamps nobody reads, surrogate keys, network connections with their deadlines, the signing of tokens by
  the JWT library, the reading of the configuration file, the formatting of numbers, and the texts of cards,
  mails and formulas.
\<close>

end
